(* ===== verification/Prelude.thy ===== *)
theory Prelude
  imports Main "HOL-Library.Word" "HOL-Library.List_Lexorder" "HOL-Library.Char_ord"
begin

text \<open>
  Shared vocabulary of the development: the machine integers of the Go code, the errors a
  keeper method returns, a named collection for running handlers on examples, and generic
  lemmas on words.

  A Go \<^verbatim>\<open>uint64\<close> is a 64-bit word; \<open>+\<close> and \<open>-\<close> wrap around as they do in Go, and \<open>unat\<close>
  reads the value. A Go \<^verbatim>\<open>int64\<close> is the same 64 bits read as two's complement: comparisons
  are the signed ones (\<open><s\<close>, \<open><=s\<close>), addition wraps, and the Go conversion
  \<^verbatim>\<open>int64(x)\<close> of a \<^verbatim>\<open>uint64\<close> is the identity on the bits.
\<close>

type_synonym u64 = "64 word"
type_synonym i64 = "64 word"

text \<open>Definitions of the keeper's small helpers, unfolded together when a handler is run on an example.\<close>
named_theorems helper_defs

section \<open>Errors\<close>

text \<open>
  Every way a keeper method stops early. The registered sentinels of the SDK
  (\<^verbatim>\<open>sdkerrors\<close>) carry the message of the wrap; \<open>ErrAddress\<close> is an error of the address
  codec, wrapped; \<open>ErrPlain\<close> an error made by \<^verbatim>\<open>fmt.Errorf\<close>; the \<open>Status\<close> errors are the
  gRPC codes of the queries; \<open>RuntimePanic\<close> a panic
  (a division by zero, or one that the code raises itself) and \<open>NoReturn\<close> the call that never returns.
\<close>

datatype go_error =
    ErrInvalidRequest string
  | ErrInsufficientFunds string
  | ErrUnauthorized string
  | ErrKeyNotFound string
  | ErrIO string
  | ErrInvalidSigner string
  | ErrAddress string
  | ErrPlain string
  | StatusInvalidArgument string
  | StatusNotFound string
  | StatusInternal string
  | RuntimePanic string
  | NoReturn

section \<open>Words\<close>

lemma unat_add_no_wrap:
  "unat a + unat b < 2 ^ 64 \<Longrightarrow> unat (a + b) = unat a + unat (b :: u64)"
  by (simp add: unat_word_ariths)

lemma unat_sub_no_wrap:
  "(b :: u64) \<le> a \<Longrightarrow> unat (a - b) = unat a - unat b"
  by (rule unat_sub)

lemma unat_u64_less: "unat (a :: u64) < 2 ^ 64"
  using unsigned_less [of a] by simp

lemma u64_le_iff: "(a :: u64) \<le> b \<longleftrightarrow> unat a \<le> unat b"
  by (rule word_le_nat_alt)

lemma u64_less_iff: "(a :: u64) < b \<longleftrightarrow> unat a < unat b"
  by (rule word_less_nat_alt)

lemma unat_Suc_u64:
  assumes "(n :: u64) \<noteq> - 1"
  shows "unat (n + 1) = Suc (unat n)"
proof -
  have "1 + n \<noteq> 0" using assms eq_neg_iff_add_eq_0 [of n 1] by (simp add: add.commute)
  then show ?thesis by (simp add: unatSuc add.commute)
qed

lemma u64_less_Suc: "(k :: u64) < n \<Longrightarrow> n \<noteq> - 1 \<Longrightarrow> k < n + 1"
  by (simp add: u64_less_iff unat_Suc_u64)

lemma u64_less_self_Suc: "(n :: u64) \<noteq> - 1 \<Longrightarrow> n < n + 1"
  by (simp add: u64_less_iff unat_Suc_u64)

section \<open>Signed words\<close>

lemma sint_add_no_wrap:
  fixes a b :: i64
  assumes "- (2 ^ 63) \<le> sint a + sint b" and "sint a + sint b < 2 ^ 63"
  shows "sint (a + b) = sint a + sint b"
  using assms by (simp add: sint_word_ariths signed_take_bit_int_eq_self)

lemma i64_less_iff: "(a :: i64) <s b \<longleftrightarrow> sint a < sint b"
  by (rule word_sless_alt)

lemma i64_le_iff: "(a :: i64) <=s b \<longleftrightarrow> sint a \<le> sint b"
  by (rule word_sle_eq)

lemma sint_i64_bounds: "- (2 ^ 63) \<le> sint (a :: i64)" "sint (a :: i64) < 2 ^ 63"
  using sint_ge [of a] sint_lt [of a] by simp_all

lemma sint_neg_if_big:
  assumes "2 ^ 63 \<le> unat (a :: i64)"
  shows "sint a < 0"
proof (rule ccontr)
  assume "\<not> sint a < 0"
  then have "uint a = sint a"
    using sint_i64_bounds [of a] uint_sint [of a] by (simp add: take_bit_int_eq_self)
  then have "unat a < 2 ^ 63"
    using sint_i64_bounds(2) [of a] by (simp add: unat_eq_nat_uint nat_less_iff del: nat_uint_eq)
  then show False using assms by simp
qed

end
