(* ===== verification/Collections.thy ===== *)
theory Collections
  imports Prelude
begin

text \<open>
  The key-value store under the keeper. The Go code keeps every table in a
  \<^verbatim>\<open>collections.Map[K, V]\<close> of the SDK and every counter in a \<^verbatim>\<open>collections.Sequence\<close>. What
  the keeper relies on is the interface \<open>collection\<close>: a lookup returns what was stored last
  under the key, and a walk visits the entries in ascending key order, each key once. The
  model's tables are the type \<open>kvmap\<close>, lists of pairs with strictly ascending keys, and the
  interpretation \<open>kv\<close> discharges the laws for it. The laws give the sum lemmas on which
  the supply accounting rests.
\<close>

section \<open>The interface\<close>

locale collection =
  fixes empty :: "'m"
    and get :: "'m \<Rightarrow> 'k::linorder \<Rightarrow> 'v option"
    and put :: "'m \<Rightarrow> 'k \<Rightarrow> 'v \<Rightarrow> 'm"
    and remove :: "'m \<Rightarrow> 'k \<Rightarrow> 'm"
    and entries :: "'m \<Rightarrow> ('k \<times> 'v) list"
  assumes get_empty: "get empty k = None"
    and get_put: "get (put m k v) k' = (if k' = k then Some v else get m k')"
    and get_remove: "get (remove m k) k' = (if k' = k then None else get m k')"
    and walk_ascending: "sorted_wrt (<) (map fst (entries m))"
    and walk_complete: "map_of (entries m) k = get m k"
begin

lemma distinct_keys: "distinct (map fst (entries m))"
  using walk_ascending [of m] by (simp add: strict_sorted_iff)

lemma in_entries_iff: "(k, v) \<in> set (entries m) \<longleftrightarrow> get m k = Some v"
  using walk_complete [of m k] distinct_keys [of m] by (metis map_of_eq_Some_iff)

lemma dom_get: "dom (get m) = fst ` set (entries m)"
  using walk_complete [of m] by (metis dom_map_of_conv_image_fst ext)

lemma finite_dom_get: "finite (dom (get m))"
  by (simp add: dom_get)

lemma entries_unique:
  assumes "\<And>k. get m k = get m' k"
  shows "entries m = entries m'"
proof (rule map_sorted_distinct_set_unique [of fst])
  show set_eq: "set (entries m) = set (entries m')"
    using assms by (auto simp: in_entries_iff)
  show "inj_on fst (set (entries m) \<union> set (entries m'))"
    using distinct_keys [of m] by (simp add: set_eq distinct_map)
qed (use walk_ascending distinct_keys in \<open>auto simp: strict_sorted_iff\<close>)

lemma total_dom:
  "sum_list (map (\<lambda>p. f (snd p)) (entries m)) = (\<Sum>k \<in> dom (get m). f (the (get m k)))"
  for f :: "'v \<Rightarrow> nat"
proof -
  have inj: "inj_on fst (set (entries m))"
    using distinct_keys [of m] by (simp add: distinct_map)
  have "sum_list (map (\<lambda>p. f (snd p)) (entries m)) = (\<Sum>p \<in> set (entries m). f (snd p))"
    using distinct_keys [of m] by (simp add: distinct_map sum_list_distinct_conv_sum_set)
  also have "\<dots> = (\<Sum>p \<in> set (entries m). f (the (get m (fst p))))"
    by (rule sum.cong) (auto simp: in_entries_iff)
  also have "\<dots> = (\<Sum>k \<in> fst ` set (entries m). f (the (get m k)))"
    by (simp add: sum.reindex [OF inj])
  finally show ?thesis by (simp add: dom_get)
qed

lemma total_empty: "sum_list (map (\<lambda>p. f (snd p)) (entries empty)) = (0 :: nat)"
proof -
  have "dom (get empty) = {}" by (auto simp: get_empty)
  then show ?thesis by (simp add: total_dom)
qed

lemma total_split:
  "sum_list (map (\<lambda>p. f (snd p)) (entries m))
     = (case get m k of None \<Rightarrow> 0 | Some w \<Rightarrow> f w)
       + (\<Sum>j \<in> dom (get m) - {k}. f (the (get m j)))" for f :: "'v \<Rightarrow> nat"
proof (cases "get m k")
  case None
  then have "dom (get m) - {k} = dom (get m)" by auto
  with None show ?thesis by (simp add: total_dom)
next
  case (Some w)
  then have "k \<in> dom (get m)" by auto
  with Some show ?thesis
    using sum.remove [OF finite_dom_get, of k m "\<lambda>j. f (the (get m j))"] by (simp add: total_dom)
qed

lemma total_put:
  "sum_list (map (\<lambda>p. f (snd p)) (entries (put m k v)))
     + (case get m k of None \<Rightarrow> 0 | Some w \<Rightarrow> f w)
   = sum_list (map (\<lambda>p. f (snd p)) (entries m)) + f v" for f :: "'v \<Rightarrow> nat"
proof -
  have "dom (get (put m k v)) - {k} = dom (get m) - {k}"
    by (auto simp: get_put split: if_splits)
  then have "(\<Sum>j \<in> dom (get (put m k v)) - {k}. f (the (get (put m k v) j)))
      = (\<Sum>j \<in> dom (get m) - {k}. f (the (get m j)))"
    by (auto simp: get_put intro: sum.cong)
  then show ?thesis
    using total_split [of f "put m k v" k] total_split [of f m k] by (simp add: get_put)
qed

lemma total_remove:
  "sum_list (map (\<lambda>p. f (snd p)) (entries (remove m k)))
     + (case get m k of None \<Rightarrow> 0 | Some w \<Rightarrow> f w)
   = sum_list (map (\<lambda>p. f (snd p)) (entries m))" for f :: "'v \<Rightarrow> nat"
proof -
  have "dom (get (remove m k)) - {k} = dom (get m) - {k}"
    by (auto simp: get_remove split: if_splits)
  then have "(\<Sum>j \<in> dom (get (remove m k)) - {k}. f (the (get (remove m k) j)))
      = (\<Sum>j \<in> dom (get m) - {k}. f (the (get m j)))"
    by (auto simp: get_remove intro: sum.cong)
  then show ?thesis
    using total_split [of f "remove m k" k] total_split [of f m k] by (simp add: get_remove)
qed

lemma total_ge_entry:
  "get m k = Some v \<Longrightarrow> f v \<le> sum_list (map (\<lambda>p. f (snd p)) (entries m))" for f :: "'v \<Rightarrow> nat"
proof -
  assume "get m k = Some v"
  then have "(k, v) \<in> set (entries m)" by (simp add: in_entries_iff)
  then have "f v \<in> set (map (\<lambda>p. f (snd p)) (entries m))" by force
  then show ?thesis by (simp add: member_le_sum_list)
qed

text \<open>A walk that stops at the first entry satisfying a predicate.\<close>

lemma walk_first_Some:
  "List.find P (entries m) = Some (k, v) \<Longrightarrow> get m k = Some v \<and> P (k, v)"
  by (auto simp: find_Some_iff in_entries_iff [symmetric])

lemma walk_first_None:
  "List.find P (entries m) = None \<longleftrightarrow> (\<forall>k v. get m k = Some v \<longrightarrow> \<not> P (k, v))"
  by (auto simp: find_None_iff in_entries_iff)

end

section \<open>The model's tables\<close>

typedef (overloaded) ('k::linorder, 'v) kvmap =
  "{xs :: ('k \<times> 'v) list. sorted_wrt (<) (map fst xs)}"
  morphisms kv_entries Abs_kvmap
  by (rule exI [of _ "[]"]) simp

setup_lifting type_definition_kvmap

fun kv_ins :: "'k::linorder \<Rightarrow> 'v \<Rightarrow> ('k \<times> 'v) list \<Rightarrow> ('k \<times> 'v) list" where
  "kv_ins k v [] = [(k, v)]"
| "kv_ins k v ((k', v') # xs) =
     (if k < k' then (k, v) # (k', v') # xs
      else if k = k' then (k, v) # xs
      else (k', v') # kv_ins k v xs)"

lemma fst_set_kv_ins: "fst ` set (kv_ins k v xs) = insert k (fst ` set xs)"
  by (induction k v xs rule: kv_ins.induct) auto

lemma sorted_kv_ins:
  "sorted_wrt (<) (map fst xs) \<Longrightarrow> sorted_wrt (<) (map fst (kv_ins k v xs))"
proof (induction k v xs rule: kv_ins.induct)
  case (2 k v k' v' xs)
  have "\<forall>y \<in> fst ` set (kv_ins k v xs). k' < y" if "k' < k"
    using 2 that unfolding fst_set_kv_ins by auto
  then show ?case using 2 by (auto dest: less_trans)
qed simp

lemma map_of_kv_ins: "map_of (kv_ins k v xs) k' = (if k' = k then Some v else map_of xs k')"
  by (induction k v xs rule: kv_ins.induct) auto

lift_definition kv_empty :: "('k::linorder, 'v) kvmap" is "[]" by simp

lift_definition kv_get :: "('k::linorder, 'v) kvmap \<Rightarrow> 'k \<Rightarrow> 'v option" is map_of .

lift_definition kv_set :: "('k::linorder, 'v) kvmap \<Rightarrow> 'k \<Rightarrow> 'v \<Rightarrow> ('k, 'v) kvmap"
  is "\<lambda>xs k v. kv_ins k v xs"
  by (rule sorted_kv_ins)

lift_definition kv_remove :: "('k::linorder, 'v) kvmap \<Rightarrow> 'k \<Rightarrow> ('k, 'v) kvmap"
  is "\<lambda>xs k. filter (\<lambda>p. fst p \<noteq> k) xs"
proof -
  fix xs :: "('k \<times> 'v) list" and k
  show "sorted_wrt (<) (map fst xs) \<Longrightarrow> sorted_wrt (<) (map fst (filter (\<lambda>p. fst p \<noteq> k) xs))"
    by (induction xs) auto
qed

lemma map_of_filter_key:
  "map_of (filter (\<lambda>p. fst p \<noteq> k) xs) k' = (if k' = k then None else map_of xs k')"
  by (induction xs) auto

interpretation kv: collection kv_empty kv_get kv_set kv_remove kv_entries
  by unfold_locales
    (transfer, simp add: map_of_kv_ins map_of_filter_key; fail)+

lemmas kv_laws [simp] = kv.get_empty kv.get_put kv.get_remove

text \<open>Evaluation of walks over concrete tables.\<close>
lemmas kv_walk_eval = kv_empty.rep_eq kv_set.rep_eq kv_remove.rep_eq

definition kv_values :: "('k::linorder, 'v) kvmap \<Rightarrow> 'v list" where
  "kv_values m = map snd (kv_entries m)"

definition kv_total :: "('v \<Rightarrow> nat) \<Rightarrow> ('k::linorder, 'v) kvmap \<Rightarrow> nat" where
  "kv_total f m = sum_list (map (\<lambda>p. f (snd p)) (kv_entries m))"

definition kv_find :: "('v \<Rightarrow> bool) \<Rightarrow> ('k::linorder, 'v) kvmap \<Rightarrow> ('k \<times> 'v) option" where
  "kv_find P m = List.find (\<lambda>p. P (snd p)) (kv_entries m)"

definition kv_fill :: "('v \<Rightarrow> 'k::linorder) \<Rightarrow> 'v list \<Rightarrow> ('k, 'v) kvmap \<Rightarrow> ('k, 'v) kvmap" where
  "kv_fill key vs m = fold (\<lambda>v acc. kv_set acc (key v) v) vs m"

lemma kv_eqI: "(\<And>k. kv_get m k = kv_get m' k) \<Longrightarrow> m = m'"
  by (metis kv.entries_unique kv_entries_inject)

lemma kv_remove_set: "kv_remove (kv_set m k v) k = kv_remove m k"
  by (rule kv_eqI) simp

lemma kv_remove_fresh: "kv_get m k = None \<Longrightarrow> kv_remove m k = m"
  by (rule kv_eqI) simp

lemma kv_set_set: "kv_set (kv_set m k v) k w = kv_set m k w"
  by (rule kv_eqI) simp

lemma kv_set_same: "kv_get m k = Some v \<Longrightarrow> kv_set m k v = m"
  by (rule kv_eqI) simp

lemma kv_total_empty [simp]: "kv_total f kv_empty = 0"
  by (simp add: kv_total_def kv.total_empty)

lemma kv_total_set:
  "kv_total f (kv_set m k v) + (case kv_get m k of None \<Rightarrow> 0 | Some w \<Rightarrow> f w) = kv_total f m + f v"
  unfolding kv_total_def by (rule kv.total_put)

lemma kv_total_set_new: "kv_get m k = None \<Longrightarrow> kv_total f (kv_set m k v) = kv_total f m + f v"
  using kv_total_set [of f m k v] by simp

lemma kv_total_set_old:
  "kv_get m k = Some w \<Longrightarrow> kv_total f (kv_set m k v) + f w = kv_total f m + f v"
  using kv_total_set [of f m k v] by simp

lemma kv_total_set_same:
  "kv_get m k = Some w \<Longrightarrow> f v = f w \<Longrightarrow> kv_total f (kv_set m k v) = kv_total f m"
  using kv_total_set [of f m k v] by simp

lemma kv_total_remove:
  "kv_get m k = Some w \<Longrightarrow> kv_total f (kv_remove m k) + f w = kv_total f m"
  using kv.total_remove [of f m k] by (simp add: kv_total_def)

lemma kv_total_ge: "kv_get m k = Some v \<Longrightarrow> f v \<le> kv_total f m"
  unfolding kv_total_def by (rule kv.total_ge_entry)

lemma kv_find_SomeD: "kv_find P m = Some (k, v) \<Longrightarrow> kv_get m k = Some v \<and> P v"
  unfolding kv_find_def by (drule kv.walk_first_Some) simp

lemma kv_find_None_iff: "kv_find P m = None \<longleftrightarrow> (\<forall>k v. kv_get m k = Some v \<longrightarrow> \<not> P v)"
  unfolding kv_find_def by (simp add: kv.walk_first_None)

lemma find_kv_ins:
  "sorted_wrt (<) (map fst xs) \<Longrightarrow> List.find (\<lambda>p. P (snd p)) xs = Some (k, v) \<Longrightarrow> P w \<Longrightarrow>
     List.find (\<lambda>p. P (snd p)) (kv_ins k w xs) = Some (k, w)"
proof (induction k w xs rule: kv_ins.induct)
  case (2 k w k' v' xs)
  show ?case
  proof (cases "P v'")
    case False
    then have rest: "List.find (\<lambda>p. P (snd p)) xs = Some (k, v)" using 2 by simp
    then have "(k, v) \<in> set xs" by (auto simp: find_Some_iff in_set_conv_nth)
    then have "k' < k" using 2 by auto
    then show ?thesis using 2 False rest by auto
  qed (use 2 in auto)
qed simp

text \<open>The first match of a walk stays the first one when its record is replaced by another match.\<close>

lemma kv_find_replaced:
  assumes "kv_find P m = Some (k, v)" and "P w"
  shows "kv_find P (kv_set m k w) = Some (k, w)"
  using assms find_kv_ins [of "kv_entries m" P k v w] kv_entries [of m]
  by (simp add: kv_find_def kv_set.rep_eq)

lemma in_kv_values: "v \<in> set (kv_values m) \<longleftrightarrow> (\<exists>k. kv_get m k = Some v)"
  by (auto simp: kv_values_def kv.in_entries_iff image_iff) (metis kv.in_entries_iff snd_conv)

text \<open>Filling a table from a list of records with distinct keys, as genesis import does.\<close>

lemma kv_get_fill:
  "distinct (map key vs) \<Longrightarrow>
     kv_get (kv_fill key vs m) k
       = (case List.find (\<lambda>v. key v = k) vs of None \<Rightarrow> kv_get m k | Some v \<Rightarrow> Some v)"
  unfolding kv_fill_def
proof (induction vs arbitrary: m)
  case (Cons v vs)
  then have "key v = k \<Longrightarrow> List.find (\<lambda>v. key v = k) vs = None"
    by (auto simp: find_None_iff image_iff)
  with Cons show ?case by (cases "key v = k") (auto split: option.splits)
qed simp

text \<open>A table whose records carry their own key.\<close>

definition keyed_by :: "('v \<Rightarrow> 'k::linorder) \<Rightarrow> ('k, 'v) kvmap \<Rightarrow> bool" where
  "keyed_by f m \<longleftrightarrow> (\<forall>k v. kv_get m k = Some v \<longrightarrow> f v = k)"

lemma keyed_by_put: "keyed_by f m \<Longrightarrow> f v = k \<Longrightarrow> keyed_by f (kv_set m k v)"
  by (simp add: keyed_by_def)

lemma keyed_by_get: "keyed_by f m \<Longrightarrow> kv_get m k = Some v \<Longrightarrow> f v = k"
  by (simp add: keyed_by_def)

lemma keyed_values:
  assumes "keyed_by f m"
  shows "distinct (map f (kv_values m))" and "v \<in> set (kv_values m) \<longleftrightarrow> kv_get m (f v) = Some v"
proof -
  have "map f (kv_values m) = map fst (kv_entries m)"
    unfolding kv_values_def map_map
    by (rule map_cong [OF refl]) (auto simp: kv.in_entries_iff dest: keyed_by_get [OF assms])
  then show "distinct (map f (kv_values m))" by (simp add: kv.distinct_keys)
  show "v \<in> set (kv_values m) \<longleftrightarrow> kv_get m (f v) = Some v"
    using keyed_by_get [OF assms] by (auto simp: in_kv_values)
qed

lemma kv_total_values: "sum_list (map f (kv_values m)) = kv_total f m"
  by (simp add: kv_values_def kv_total_def comp_def)

lemma kv_fill_values:
  assumes "\<And>k v. kv_get m k = Some v \<Longrightarrow> key v = k"
  shows "kv_fill key (kv_values m) kv_empty = m"
proof (rule kv_eqI)
  fix k
  have dist: "distinct (map key (kv_values m))" using assms by (intro keyed_values) (simp add: keyed_by_def)
  show "kv_get (kv_fill key (kv_values m) kv_empty) k = kv_get m k"
  proof (cases "List.find (\<lambda>v. key v = k) (kv_values m)")
    case None
    have "kv_get m k = None"
    proof (cases "kv_get m k")
      case (Some v)
      with None assms [OF Some] show ?thesis by (auto simp: find_None_iff in_kv_values)
    qed
    with None show ?thesis by (simp add: kv_get_fill [OF dist])
  next
    case (Some v)
    then have "v \<in> set (kv_values m)" and "key v = k" by (auto simp: find_Some_iff)
    then obtain k' where "kv_get m k' = Some v" and "k' = k"
      using assms by (auto simp: in_kv_values)
    then show ?thesis using Some by (simp add: kv_get_fill [OF dist])
  qed
qed

text \<open>Tables compare by their entries, and their size is the number of entries.\<close>

instantiation kvmap :: (linorder, type) equal
begin

definition equal_kvmap :: "('a, 'b) kvmap \<Rightarrow> ('a, 'b) kvmap \<Rightarrow> bool" where
  "equal_kvmap m m' \<longleftrightarrow> kv_entries m = kv_entries m'"

instance
  by standard (simp add: equal_kvmap_def kv_entries_inject)

end

instantiation kvmap :: (linorder, type) size
begin

definition size_kvmap :: "('a, 'b) kvmap \<Rightarrow> nat" where
  "size_kvmap m = length (kv_entries m)"

instance ..

end

lemma length_kv_values [simp]: "length (kv_values m) = size m"
  by (simp add: kv_values_def size_kvmap_def)

section \<open>Sequences\<close>

text \<open>\<^verbatim>\<open>Sequence.Next\<close> returns the current number and stores the next one; \<^verbatim>\<open>Peek\<close> reads it.\<close>

definition seq_next :: "u64 \<Rightarrow> u64 \<times> u64" where
  "seq_next n = (n, n + 1)"

lemma seq_next_simp [simp]: "seq_next n = (n, n + 1)"
  by (simp add: seq_next_def)

end
