(* ===== verification/GoStd.thy ===== *)
theory GoStd
  imports Prelude
begin

text \<open>
  The parts of Go's standard library the keeper calls, on byte strings (a Go \<^verbatim>\<open>string\<close> is a
  sequence of bytes, here a \<open>string\<close>): decimal formatting and parsing of integers
  (\<^verbatim>\<open>strconv\<close>), hexadecimal encoding (\<^verbatim>\<open>encoding/hex\<close>), and trimming, case-insensitive
  comparison and splitting (\<^verbatim>\<open>strings\<close>). \<^verbatim>\<open>strings.EqualFold\<close> is modelled exactly as
  long as both strings are ASCII up to the first difference; the Unicode case-folding tables
  it consults after that are the parameter \<open>uni\<close> of \<open>EqualFold\<close>.
\<close>

section \<open>strconv\<close>

definition digit_char :: "nat \<Rightarrow> char" where
  "digit_char d = char_of (48 + d)"

fun nat_digits :: "nat \<Rightarrow> string" where
  "nat_digits n =
     (if n < 10 then [digit_char n] else nat_digits (n div 10) @ [digit_char (n mod 10)])"

declare nat_digits.simps [simp del]

definition FormatUint :: "u64 \<Rightarrow> string" where
  "FormatUint w = nat_digits (unat w)"

definition FormatInt :: "i64 \<Rightarrow> string" where
  "FormatInt w =
     (if sint w < 0 then ''-'' @ nat_digits (nat (- sint w)) else nat_digits (nat (sint w)))"

definition Itoa :: "nat \<Rightarrow> string" where
  "Itoa n = nat_digits n"

definition FormatBool :: "bool \<Rightarrow> string" where
  "FormatBool b = (if b then ''true'' else ''false'')"

definition is_digit :: "char \<Rightarrow> bool" where
  "is_digit c \<longleftrightarrow> 48 \<le> (of_char c :: nat) \<and> of_char c \<le> (57 :: nat)"

definition digits_value :: "string \<Rightarrow> nat" where
  "digits_value ds = foldl (\<lambda>acc c. 10 * acc + (of_char c - 48)) 0 ds"

text \<open>\<^verbatim>\<open>strconv.ParseInt(s, 10, 64)\<close>: an optional sign, at least one digit, in range of int64.\<close>

definition ParseInt :: "string \<Rightarrow> i64 option" where
  "ParseInt s =
     (let neg = (s \<noteq> [] \<and> hd s = CHR ''-'');
          ds = (if s \<noteq> [] \<and> (hd s = CHR ''+'' \<or> hd s = CHR ''-'') then tl s else s)
      in if ds = [] \<or> \<not> list_all is_digit ds then None
         else if neg then (if digits_value ds \<le> 2 ^ 63 then Some (- word_of_nat (digits_value ds)) else None)
         else (if digits_value ds < 2 ^ 63 then Some (word_of_nat (digits_value ds)) else None))"

lemma of_char_digit_char [simp]: "d < 10 \<Longrightarrow> (of_char (digit_char d) :: nat) = 48 + d"
  by (simp add: digit_char_def)

lemma is_digit_digit_char: "d < 10 \<Longrightarrow> is_digit (digit_char d)"
  by (simp add: is_digit_def)

lemma nat_digits_nonempty [simp]: "nat_digits n \<noteq> []"
  by (subst nat_digits.simps) simp

lemma nat_digits_all_digits: "list_all is_digit (nat_digits n)"
proof (induction n rule: nat_digits.induct)
  case (1 n)
  then show ?case
    by (subst nat_digits.simps) (auto simp: is_digit_digit_char)
qed

lemma digits_value_snoc: "digits_value (ds @ [c]) = 10 * digits_value ds + (of_char c - 48)"
  by (simp add: digits_value_def)

lemma digits_value_nat_digits: "digits_value (nat_digits n) = n"
proof (induction n rule: nat_digits.induct)
  case (1 n)
  show ?case
  proof (cases "n < 10")
    case True
    then show ?thesis by (subst nat_digits.simps) (simp add: digits_value_def)
  next
    case False
    with 1 show ?thesis by (subst nat_digits.simps) (simp add: digits_value_snoc)
  qed
qed

lemma nat_digits_inject [simp]: "nat_digits m = nat_digits n \<longleftrightarrow> m = n"
  by (metis digits_value_nat_digits)

lemma FormatUint_inject [simp]: "FormatUint a = FormatUint b \<longleftrightarrow> a = b"
  by (simp add: FormatUint_def word_unat_eq_iff)

lemma hd_nat_digits_not_sign: "hd (nat_digits n) \<noteq> CHR ''-'' \<and> hd (nat_digits n) \<noteq> CHR ''+''"
proof -
  have "is_digit (hd (nat_digits n))"
    using nat_digits_all_digits [of n] by (cases "nat_digits n") auto
  then show ?thesis by (auto simp: is_digit_def)
qed

text \<open>Parsing what was formatted gives the number back, on every non-negative int64.\<close>

lemma ParseInt_FormatUint:
  assumes "unat w < 2 ^ 63"
  shows "ParseInt (FormatUint w) = Some w"
  using assms hd_nat_digits_not_sign [of "unat w"] nat_digits_all_digits [of "unat w"]
  by (simp add: ParseInt_def FormatUint_def Let_def digits_value_nat_digits)

section \<open>encoding/hex\<close>

definition hex_char :: "nat \<Rightarrow> char" where
  "hex_char d = ''0123456789abcdef'' ! d"

definition hex_EncodeToString :: "string \<Rightarrow> string" where
  "hex_EncodeToString bs =
     concat (map (\<lambda>c. [hex_char (of_char c div 16), hex_char (of_char c mod 16)]) bs)"

lemma length_hex_EncodeToString [simp]: "length (hex_EncodeToString bs) = 2 * length bs"
  by (induction bs) (auto simp: hex_EncodeToString_def)

text \<open>The three bytes of the em dash (U+2014) some messages of the Go code contain.\<close>

definition em_dash :: string where
  "em_dash = [CHR 0xE2, CHR 0x80, CHR 0x94]"

section \<open>strings\<close>

definition ascii_upper :: "char \<Rightarrow> bool" where
  "ascii_upper c \<longleftrightarrow> 65 \<le> (of_char c :: nat) \<and> of_char c \<le> (90 :: nat)"

definition non_ascii :: "char \<Rightarrow> bool" where
  "non_ascii c \<longleftrightarrow> 128 \<le> (of_char c :: nat)"

text \<open>
  \<^verbatim>\<open>strings.EqualFold\<close>: the ASCII fast path, byte by byte; from the first pair with a
  non-ASCII byte on, the rest of both strings goes to the Unicode path \<open>uni\<close>.
\<close>

fun EqualFold :: "(string \<Rightarrow> string \<Rightarrow> bool) \<Rightarrow> string \<Rightarrow> string \<Rightarrow> bool" where
  "EqualFold uni (a # s) (b # t) =
     (if non_ascii a \<or> non_ascii b then uni (a # s) (b # t)
      else if a = b then EqualFold uni s t
      else if ascii_upper a \<and> of_char b = (of_char a + 32 :: nat) then EqualFold uni s t
      else if ascii_upper b \<and> of_char a = (of_char b + 32 :: nat) then EqualFold uni s t
      else False)"
| "EqualFold uni [] [] = True"
| "EqualFold uni s t = False"

definition to_lower :: "char \<Rightarrow> char" where
  "to_lower c = (if ascii_upper c then char_of (of_char c + 32 :: nat) else c)"

lemma of_char_to_lower:
  "(of_char (to_lower c) :: nat) = (if ascii_upper c then of_char c + 32 else of_char c)"
  by (auto simp: to_lower_def ascii_upper_def)

lemma to_lower_eq_iff:
  "to_lower a = to_lower b \<longleftrightarrow>
     a = b \<or> (ascii_upper a \<and> of_char b = (of_char a + 32 :: nat))
           \<or> (ascii_upper b \<and> of_char a = (of_char b + 32 :: nat))"
proof -
  have "to_lower a = to_lower b \<longleftrightarrow> (of_char (to_lower a) :: nat) = of_char (to_lower b)"
    by (simp add: of_char_eq_iff)
  also have "\<dots> \<longleftrightarrow> a = b \<or> (ascii_upper a \<and> of_char b = (of_char a + 32 :: nat))
           \<or> (ascii_upper b \<and> of_char a = (of_char b + 32 :: nat))"
  proof -
    have "a = b \<longleftrightarrow> (of_char a :: nat) = of_char b" by (simp add: of_char_eq_iff)
    then show ?thesis by (auto simp: of_char_to_lower ascii_upper_def)
  qed
  finally show ?thesis .
qed

lemma EqualFold_ascii:
  "list_all (\<lambda>c. \<not> non_ascii c) s \<Longrightarrow> list_all (\<lambda>c. \<not> non_ascii c) t \<Longrightarrow>
     EqualFold uni s t \<longleftrightarrow> map to_lower s = map to_lower t"
  by (induction uni s t rule: EqualFold.induct) (auto simp: to_lower_eq_iff)

lemma EqualFold_refl_ascii: "list_all (\<lambda>c. \<not> non_ascii c) s \<Longrightarrow> EqualFold uni s s"
  by (simp add: EqualFold_ascii)

text \<open>
  \<^verbatim>\<open>strings.TrimSpace\<close>: the white space of \<^verbatim>\<open>unicode.IsSpace\<close>, as the UTF-8 byte sequences
  that encode it, is cut from both ends.
\<close>

definition utf8_spaces :: "string list" where
  "utf8_spaces = map (map char_of)
     ([[9], [10], [11], [12], [13], [32], [194, 133], [194, 160], [225, 154, 128],
       [226, 128, 168], [226, 128, 169], [226, 128, 175], [226, 129, 159], [227, 128, 128]]
      @ map (\<lambda>k. [226, 128, k]) [128 ..< 139] :: nat list list)"

definition strip_prefix :: "string \<Rightarrow> string \<Rightarrow> string option" where
  "strip_prefix p s = (if take (length p) s = p then Some (drop (length p) s) else None)"

definition space_prefix :: "string list \<Rightarrow> string \<Rightarrow> string option" where
  "space_prefix ps s = List.find (\<lambda>p. strip_prefix p s \<noteq> None) ps"

function trim_left :: "string list \<Rightarrow> string \<Rightarrow> string" where
  "trim_left ps s =
     (case space_prefix ps s of
        None \<Rightarrow> s
      | Some p \<Rightarrow> if p = [] \<or> s = [] then s else trim_left ps (drop (length p) s))"
  by pat_completeness auto
termination
  by (relation "measure (\<lambda>(ps, s). length s)") (auto simp: length_greater_0_conv [symmetric] simp del: length_greater_0_conv)

declare trim_left.simps [simp del]

definition TrimSpace :: "string \<Rightarrow> string" where
  "TrimSpace s = rev (trim_left (map rev utf8_spaces) (rev (trim_left utf8_spaces s)))"

text \<open>\<^verbatim>\<open>strings.FieldsFunc\<close>: the maximal runs of bytes that are not separators.\<close>

fun fields_acc :: "(char \<Rightarrow> bool) \<Rightarrow> string \<Rightarrow> string \<Rightarrow> string list" where
  "fields_acc sep cur [] = (if cur = [] then [] else [rev cur])"
| "fields_acc sep cur (c # cs) =
     (if sep c then (if cur = [] then fields_acc sep [] cs else rev cur # fields_acc sep [] cs)
      else fields_acc sep (c # cur) cs)"

definition FieldsFunc :: "(char \<Rightarrow> bool) \<Rightarrow> string \<Rightarrow> string list" where
  "FieldsFunc sep s = fields_acc sep [] s"

lemma fields_acc_spec:
  "list_all (\<lambda>c. \<not> sep c) cur \<Longrightarrow>
     \<forall>f \<in> set (fields_acc sep cur s). f \<noteq> [] \<and> list_all (\<lambda>c. \<not> sep c) f"
proof (induction s arbitrary: cur)
  case (Cons c s)
  show ?case
  proof (cases "sep c")
    case True
    with Cons.IH [of "[]"] Cons.prems show ?thesis by (simp add: list_all_rev)
  next
    case False
    with Cons.IH [of "c # cur"] Cons.prems show ?thesis by simp
  qed
qed (simp add: list_all_rev)

lemma FieldsFunc_spec: "f \<in> set (FieldsFunc sep s) \<Longrightarrow> f \<noteq> [] \<and> list_all (\<lambda>c. \<not> sep c) f"
  using fields_acc_spec [of sep "[]" s] by (auto simp: FieldsFunc_def)

lemma fields_acc_concat:
  "concat (fields_acc sep cur s) = rev cur @ filter (\<lambda>c. \<not> sep c) s"
proof (induction s arbitrary: cur)
  case (Cons c s)
  show ?case using Cons [of "[]"] Cons [of "c # cur"] by (simp del: concat_eq_Nil_conv)
qed simp

lemma FieldsFunc_concat: "concat (FieldsFunc sep s) = filter (\<lambda>c. \<not> sep c) s"
  by (simp add: FieldsFunc_def fields_acc_concat)

section \<open>Sequencing\<close>

text \<open>One step after another, and a loop over a list, that stop at the first error.\<close>

fun andThen :: "go_error + 'a \<Rightarrow> ('a \<Rightarrow> go_error + 'b) \<Rightarrow> go_error + 'b" where
  "andThen (Inl err) f = Inl err"
| "andThen (Inr x) f = f x"

fun forEach :: "('x \<Rightarrow> 's \<Rightarrow> go_error + 's) \<Rightarrow> 'x list \<Rightarrow> 's \<Rightarrow> go_error + 's" where
  "forEach f [] s = Inr s"
| "forEach f (x # xs) s = andThen (f x s) (forEach f xs)"

lemma andThen_Inr: "andThen r f = Inr y \<longleftrightarrow> (\<exists>x. r = Inr x \<and> f x = Inr y)"
  by (cases r) simp_all

text \<open>
  The same with a world that keeps what was done before an error: files, or a store that is
  written through.
\<close>

fun ioThen :: "(go_error + 'a) \<times> 'w \<Rightarrow> ('a \<Rightarrow> 'w \<Rightarrow> (go_error + 'b) \<times> 'w) \<Rightarrow> (go_error + 'b) \<times> 'w" where
  "ioThen (Inl err, w) f = (Inl err, w)"
| "ioThen (Inr x, w) f = f x w"

fun ioFor :: "('x \<Rightarrow> 's \<Rightarrow> 'w \<Rightarrow> (go_error + 's) \<times> 'w) \<Rightarrow> 'x list \<Rightarrow> 's \<Rightarrow> 'w \<Rightarrow> (go_error + 's) \<times> 'w" where
  "ioFor f [] s w = (Inr s, w)"
| "ioFor f (x # xs) s w = ioThen (f x s w) (ioFor f xs)"

lemma ioThen_Inr: "ioThen r f = (Inr y, w') \<longleftrightarrow> (\<exists>x w. r = (Inr x, w) \<and> f x w = (Inr y, w'))"
  by (cases "(r, f)" rule: ioThen.cases) simp_all

end
