(* ===== verification/Constants.thy ===== *)
theory Constants
  imports GoStd
begin

text \<open>
  The constants of \<^verbatim>\<open>chain/x/agntcoin/types/constants.go\<close>. Status fields are strings, as in the
  code; the status values are kept folded and known pairwise different.
\<close>

definition FaucetAmount :: u64 where "FaucetAmount = 10000"
definition MaxVouchWeight :: u64 where "MaxVouchWeight = 100"
definition MaxSupply :: u64 where "MaxSupply = 21000000"
definition EpochLengthSeconds :: u64 where "EpochLengthSeconds = 7 * 24 * 60 * 60"
definition EpochRewardDivisor :: u64 where "EpochRewardDivisor = 1000"
definition MinVouchStake :: u64 where "MinVouchStake = 100"
definition MinNewAccountCredit :: u64 where "MinNewAccountCredit = 100"

definition EscrowStatusLocked :: string where "EscrowStatusLocked = ''locked''"
definition EscrowStatusSubmitted :: string where "EscrowStatusSubmitted = ''submitted''"
definition EscrowStatusDisputed :: string where "EscrowStatusDisputed = ''disputed''"
definition EscrowStatusInJury :: string where "EscrowStatusInJury = ''in_jury''"
definition EscrowStatusReleased :: string where "EscrowStatusReleased = ''released''"
definition EscrowStatusRefunded :: string where "EscrowStatusRefunded = ''refunded''"
definition EscrowStatusFailAttested :: string where "EscrowStatusFailAttested = ''fail_attested''"
definition EscrowStatusChallenged :: string where "EscrowStatusChallenged = ''challenged''"

definition ChallengeWindowSeconds :: i64 where "ChallengeWindowSeconds = 72 * 3600"
definition MinDisputeBond :: u64 where "MinDisputeBond = 100"
definition MinJurorStake :: u64 where "MinJurorStake = 100"

definition BondStatusActive :: string where "BondStatusActive = ''active''"
definition BondStatusReleased :: string where "BondStatusReleased = ''released''"
definition BondStatusSlashed :: string where "BondStatusSlashed = ''slashed''"

definition DisputeStatusOpen :: string where "DisputeStatusOpen = ''open''"
definition DisputeStatusResolved :: string where "DisputeStatusResolved = ''resolved''"
definition DisputeResolutionAccept :: string where "DisputeResolutionAccept = ''accept''"
definition DisputeResolutionReject :: string where "DisputeResolutionReject = ''reject''"

definition GateCommitWindowSeconds :: i64 where "GateCommitWindowSeconds = 300"
definition GateRevealWindowSeconds :: i64 where "GateRevealWindowSeconds = 300"
definition MaxDripPerAnswer :: u64 where "MaxDripPerAnswer = 50"
definition MaxGateAnswers :: u64 where "MaxGateAnswers = 1000"
definition GateStatusOpen :: string where "GateStatusOpen = ''open''"
definition GateStatusSettled :: string where "GateStatusSettled = ''settled''"
definition MaxContributionAward :: u64 where "MaxContributionAward = 500"

lemmas escrow_status_defs =
  EscrowStatusLocked_def EscrowStatusSubmitted_def EscrowStatusDisputed_def EscrowStatusInJury_def
  EscrowStatusReleased_def EscrowStatusRefunded_def EscrowStatusFailAttested_def
  EscrowStatusChallenged_def

lemma escrow_status_distinct:
  "distinct [EscrowStatusLocked, EscrowStatusSubmitted, EscrowStatusDisputed, EscrowStatusInJury,
     EscrowStatusReleased, EscrowStatusRefunded, EscrowStatusFailAttested, EscrowStatusChallenged]"
  by (simp add: escrow_status_defs)

lemmas escrow_status_neq [simp] =
  escrow_status_distinct [simplified distinct.simps list.set insert_iff empty_iff de_Morgan_disj simp_thms]

lemma escrow_status_distinct_rev:
  "distinct [EscrowStatusChallenged, EscrowStatusFailAttested, EscrowStatusRefunded,
     EscrowStatusReleased, EscrowStatusInJury, EscrowStatusDisputed, EscrowStatusSubmitted,
     EscrowStatusLocked]"
  by (simp add: escrow_status_defs)

lemmas escrow_status_neq_rev [simp] =
  escrow_status_distinct_rev [simplified distinct.simps list.set insert_iff empty_iff de_Morgan_disj simp_thms]

lemma bond_status_neq [simp]:
  "BondStatusActive \<noteq> BondStatusReleased" "BondStatusReleased \<noteq> BondStatusActive"
  "BondStatusActive \<noteq> BondStatusSlashed" "BondStatusSlashed \<noteq> BondStatusActive"
  "BondStatusReleased \<noteq> BondStatusSlashed" "BondStatusSlashed \<noteq> BondStatusReleased"
  by (simp_all add: BondStatusActive_def BondStatusReleased_def BondStatusSlashed_def)

lemma dispute_status_neq [simp]:
  "DisputeStatusOpen \<noteq> DisputeStatusResolved" "DisputeStatusResolved \<noteq> DisputeStatusOpen"
  "DisputeResolutionAccept \<noteq> DisputeResolutionReject"
  "DisputeResolutionReject \<noteq> DisputeResolutionAccept"
  by (simp_all add: DisputeStatusOpen_def DisputeStatusResolved_def DisputeResolutionAccept_def
      DisputeResolutionReject_def)

lemma gate_status_neq [simp]:
  "GateStatusOpen \<noteq> GateStatusSettled" "GateStatusSettled \<noteq> GateStatusOpen"
  by (simp_all add: GateStatusOpen_def GateStatusSettled_def)

end
