(* ===== verification/Types.thy ===== *)
theory Types
  imports Constants
begin

text \<open>
  The stored records of the module (the structs of \<^verbatim>\<open>chain/x/agntcoin/types/*.pb.go\<close>), with the
  field names and widths of the Go code. Fields of different records share their names, so a
  selector is always written with its record: \<open>Escrow.Amount\<close>, \<open>Bond.Amount\<close>.
\<close>

section \<open>Stored records\<close>

record Account =
  Address :: string
  Balance :: u64
  Nonce :: u64
  Registered :: bool
  FaucetClaimed :: bool

record Vouch =
  Id :: u64
  FromAddr :: string
  ToAddr :: string
  Weight :: u64
  Stake :: u64

record Attestation =
  Verifier :: string
  Passed :: bool
  BondId :: u64
  DeliveryHash :: string
  KeyHash :: string
  AcceptanceHash :: string
  AttestedAt :: i64

record Escrow =
  Id :: u64
  Payer :: string
  Payee :: string
  Amount :: u64
  Ref :: string
  Status :: string
  Deadline :: i64
  NoAutoRelease :: bool
  DeliveryHash :: string
  VerifierAddrs :: "string list"
  VerifierQuorum :: u64
  AcceptanceHash :: string
  KeyHash :: string
  ChallengeDeadline :: i64
  Attestations :: "Attestation list"
  ArtifactUri :: string
  SubmittedAt :: i64
  ReleasedAt :: i64

record Vote =
  Juror :: string
  Accept :: bool
  BondId :: u64

record Dispute =
  Id :: u64
  EscrowId :: u64
  Opener :: string
  Reason :: string
  Status :: string
  Resolution :: string
  Votes :: "Vote list"
  BondId :: u64

record Bond =
  Id :: u64
  Poster :: string
  Amount :: u64
  Purpose :: string
  Slasher :: string
  Status :: string
  Ref :: string

record GateAnswer =
  Agent :: string
  Commit :: string
  Answer :: string
  Revealed :: bool
  Paid :: bool

record Gate =
  Id :: u64
  Poster :: string
  PayloadUri :: string
  PayloadHash :: string
  GoldCommit :: string
  Drip :: u64
  MaxAnswers :: u64
  CommitDeadline :: i64
  RevealDeadline :: i64
  Status :: string
  Answers :: "GateAnswer list"
  GoldAnswer :: string
  Consensus :: string

record ContributionAward =
  Id :: u64
  Anchor :: string
  Recipient :: string
  RepoUrl :: string
  PrUrl :: string
  CommitSha :: string
  ArtifactUri :: string
  ArtifactSha256 :: string
  EvidenceSha256 :: string
  Scope :: string
  RationaleHash :: string
  Amount :: u64
  Contributor :: string
  FounderAuthored :: bool
  ReviewEvidenceUri :: string

record ScopedEvidenceVouch =
  Id :: u64
  Issuer :: string
  Recipient :: string
  Scope :: string
  Weight :: u64
  ArtifactUri :: string
  ArtifactSha256 :: string
  EvidenceUri :: string
  EvidenceSha256 :: string
  RationaleHash :: string
  ExpiresAt :: i64

record EmissionState =
  MaxSupply :: u64
  EpochLengthSeconds :: u64
  EpochRewardDivisor :: u64
  GenesisTime :: i64
  CurrentEpoch :: u64
  EpochStartedAt :: i64
  EpochScheduled :: u64
  EpochMined :: u64
  TotalMined :: u64
  TotalBurnedUnclaimed :: u64

record Params =
  Anchors :: "string list"

record GenesisState =
  Params :: Params
  AccountMap :: "Account list"
  VouchList :: "Vouch list"
  VouchCount :: u64
  EscrowList :: "Escrow list"
  EscrowCount :: u64
  ContributionAwardList :: "ContributionAward list"
  ContributionAwardCount :: u64
  ScopedEvidenceVouchList :: "ScopedEvidenceVouch list"
  ScopedEvidenceVouchCount :: u64
  EmissionState :: EmissionState

end
