(* ===== verification/StoreKeys.thy ===== *)
theory StoreKeys
  imports Prelude "HOL-Library.Sublist"
begin

text \<open>
  The layout of the module's key-value store (\<^verbatim>\<open>types/keys.go\<close>, \<^verbatim>\<open>types/key_account.go\<close>): the
  prefix under which each table, sequence and singleton of the keeper lies.
\<close>

definition ModuleName :: string where "ModuleName = ''agntcoin''"
definition StoreKey :: string where "StoreKey = ModuleName"
definition GovModuleName :: string where "GovModuleName = ''gov''"

definition ParamsKey :: string where "ParamsKey = ''p_agntcoin''"
definition EmissionStateKey :: string where "EmissionStateKey = ''emission/state''"
definition AccountKey :: string where "AccountKey = ''account/value/''"
definition VouchKey :: string where "VouchKey = ''vouch/value/''"
definition VouchCountKey :: string where "VouchCountKey = ''vouch/count/''"
definition EscrowKey :: string where "EscrowKey = ''escrow/value/''"
definition EscrowCountKey :: string where "EscrowCountKey = ''escrow/count/''"
definition DisputeKey :: string where "DisputeKey = ''dispute/value/''"
definition DisputeCountKey :: string where "DisputeCountKey = ''dispute/count/''"
definition BondKey :: string where "BondKey = ''bond/value/''"
definition BondCountKey :: string where "BondCountKey = ''bond/count/''"
definition GateKey :: string where "GateKey = ''gate/value/''"
definition GateCountKey :: string where "GateCountKey = ''gate/count/''"
definition ContributionAwardKey :: string where "ContributionAwardKey = ''contribution_award/value/''"
definition ContributionAwardCountKey :: string where "ContributionAwardCountKey = ''contribution_award/count/''"
definition ScopedEvidenceVouchKey :: string where "ScopedEvidenceVouchKey = ''scoped_evidence_vouch/value/''"
definition ScopedEvidenceVouchCountKey :: string where "ScopedEvidenceVouchCountKey = ''scoped_evidence_vouch/count/''"

text \<open>The prefixes in the order in which the keeper registers them in its schema.\<close>

definition schemaPrefixes :: "string list" where
  "schemaPrefixes =
     [ParamsKey, EmissionStateKey, AccountKey, VouchKey, VouchCountKey, EscrowKey, EscrowCountKey,
      DisputeKey, DisputeCountKey, BondKey, BondCountKey, GateKey, GateCountKey,
      ContributionAwardKey, ContributionAwardCountKey, ScopedEvidenceVouchKey, ScopedEvidenceVouchCountKey]"

lemmas key_defs = ParamsKey_def EmissionStateKey_def AccountKey_def VouchKey_def VouchCountKey_def EscrowKey_def
  EscrowCountKey_def DisputeKey_def DisputeCountKey_def BondKey_def BondCountKey_def GateKey_def GateCountKey_def
  ContributionAwardKey_def ContributionAwardCountKey_def ScopedEvidenceVouchKey_def ScopedEvidenceVouchCountKey_def

text \<open>
  Keys of different tables never collide: a raw key of the store starts with the prefix of one
  table only. This is why the model may keep every table in a component of its own.
\<close>

lemma prefixes_disjoint:
  assumes "p \<in> set schemaPrefixes" and "q \<in> set schemaPrefixes" and "p @ k = q @ l"
  shows "p = q \<and> k = l"
proof -
  have "\<forall>p \<in> set schemaPrefixes. \<forall>q \<in> set schemaPrefixes. prefix p q \<longrightarrow> p = q"
    by (simp add: schemaPrefixes_def key_defs)
  moreover have "prefix p q \<or> prefix q p"
    using assms(3) by (metis prefix_same_cases prefixI)
  ultimately have "p = q" using assms(1,2) by blast
  then show ?thesis using assms(3) by simp
qed

end
