(* ===== verification/KeeperState.thy ===== *)
theory KeeperState
  imports Types Collections StoreKeys
begin

text \<open>
  The keeper: its state (\<^verbatim>\<open>keeper.go\<close>), the context a method runs in, events, the hash
  format check (\<^verbatim>\<open>hash.go\<close>), the trust roots (\<open>resolveAnchors\<close> of \<^verbatim>\<open>query_reputation.go\<close>) and
  the credit helpers (\<^verbatim>\<open>credit.go\<close>).

  A method is a function from the context, the message and the state to an error or a
  response, together with the state it leaves behind. On an error that state is the one at
  the point of return, with the writes made so far: that the SDK throws those writes away
  is said where messages are delivered, not here.
\<close>

section \<open>Context and state\<close>

text \<open>
  \<open>Env\<close> is what the code takes from outside the module: the address codec, the
  authority, whether an auth keeper is wired in, the block time, the process environment and
  file system, the SHA-256 function, the Unicode part of case folding, and the order in
  which a Go \<^verbatim>\<open>range\<close> visits the keys of a map (a permutation that may differ from run to
  run).
\<close>

record Env =
  StringToBytes :: "string \<Rightarrow> string option"
  BytesToString :: "string \<Rightarrow> string"
  Authority :: string
  HasAuthKeeper :: bool
  BlockTime :: i64
  Getenv :: "string \<Rightarrow> string"
  UserHomeDir :: "string option"
  ReadFile :: "string \<Rightarrow> string option"
  Sha256 :: "string \<Rightarrow> string"
  FoldUnicode :: "string \<Rightarrow> string \<Rightarrow> bool"
  RangeKeys :: "string list \<Rightarrow> string list"

text \<open>An event: its type and its attributes.\<close>
datatype Event = NewEvent string "(string \<times> string) list"

record Keeper =
  Params :: "Params option"
  EmissionState :: "EmissionState option"
  Account :: "(string, Account) kvmap"
  VouchSeq :: u64
  Vouch :: "(u64, Vouch) kvmap"
  EscrowSeq :: u64
  Escrow :: "(u64, Escrow) kvmap"
  DisputeSeq :: u64
  Dispute :: "(u64, Dispute) kvmap"
  BondSeq :: u64
  Bond :: "(u64, Bond) kvmap"
  GateSeq :: u64
  Gate :: "(u64, Gate) kvmap"
  ContributionAwardSeq :: u64
  ContributionAward :: "(u64, ContributionAward) kvmap"
  ScopedEvidenceVouchSeq :: u64
  ScopedEvidenceVouch :: "(u64, ScopedEvidenceVouch) kvmap"
  AuthAccounts :: "string set"
  Events :: "Event list"

type_synonym 'r result = "(go_error + 'r) \<times> Keeper"

abbreviation fail :: "go_error \<Rightarrow> Keeper \<Rightarrow> 'r result" where
  "fail e s \<equiv> (Inl e, s)"

abbreviation respond :: "'r \<Rightarrow> Keeper \<Rightarrow> 'r result" where
  "respond r s \<equiv> (Inr r, s)"

text \<open>A freshly created store: \<^verbatim>\<open>NewKeeper\<close> over an empty key-value store.\<close>

definition NewKeeper :: Keeper where
  "NewKeeper =
    \<lparr>Keeper.Params = None, Keeper.EmissionState = None, Keeper.Account = kv_empty,
     Keeper.VouchSeq = 0, Keeper.Vouch = kv_empty,
     Keeper.EscrowSeq = 0, Keeper.Escrow = kv_empty,
     Keeper.DisputeSeq = 0, Keeper.Dispute = kv_empty,
     Keeper.BondSeq = 0, Keeper.Bond = kv_empty,
     Keeper.GateSeq = 0, Keeper.Gate = kv_empty,
     Keeper.ContributionAwardSeq = 0, Keeper.ContributionAward = kv_empty,
     Keeper.ScopedEvidenceVouchSeq = 0, Keeper.ScopedEvidenceVouch = kv_empty,
     Keeper.AuthAccounts = {}, Keeper.Events = []\<rparr>"

section \<open>Store writes\<close>

definition emit :: "string \<Rightarrow> (string \<times> string) list \<Rightarrow> Keeper \<Rightarrow> Keeper" where
  "emit name attrs s = s\<lparr>Keeper.Events := Keeper.Events s @ [NewEvent name attrs]\<rparr>"

definition setAccount :: "string \<Rightarrow> Account \<Rightarrow> Keeper \<Rightarrow> Keeper" where
  "setAccount a acc s = s\<lparr>Keeper.Account := kv_set (Keeper.Account s) a acc\<rparr>"

definition setEscrow :: "u64 \<Rightarrow> Escrow \<Rightarrow> Keeper \<Rightarrow> Keeper" where
  "setEscrow i e s = s\<lparr>Keeper.Escrow := kv_set (Keeper.Escrow s) i e\<rparr>"

definition setBond :: "u64 \<Rightarrow> Bond \<Rightarrow> Keeper \<Rightarrow> Keeper" where
  "setBond i b s = s\<lparr>Keeper.Bond := kv_set (Keeper.Bond s) i b\<rparr>"

definition setDispute :: "u64 \<Rightarrow> Dispute \<Rightarrow> Keeper \<Rightarrow> Keeper" where
  "setDispute i d s = s\<lparr>Keeper.Dispute := kv_set (Keeper.Dispute s) i d\<rparr>"

definition setGate :: "u64 \<Rightarrow> Gate \<Rightarrow> Keeper \<Rightarrow> Keeper" where
  "setGate i g s = s\<lparr>Keeper.Gate := kv_set (Keeper.Gate s) i g\<rparr>"

definition setVouch :: "u64 \<Rightarrow> Vouch \<Rightarrow> Keeper \<Rightarrow> Keeper" where
  "setVouch i v s = s\<lparr>Keeper.Vouch := kv_set (Keeper.Vouch s) i v\<rparr>"

definition nextBondID :: "Keeper \<Rightarrow> u64 \<times> Keeper" where
  "nextBondID s = (case seq_next (Keeper.BondSeq s) of (i, n) \<Rightarrow> (i, s\<lparr>Keeper.BondSeq := n\<rparr>))"

definition nextEscrowID :: "Keeper \<Rightarrow> u64 \<times> Keeper" where
  "nextEscrowID s = (case seq_next (Keeper.EscrowSeq s) of (i, n) \<Rightarrow> (i, s\<lparr>Keeper.EscrowSeq := n\<rparr>))"

definition nextDisputeID :: "Keeper \<Rightarrow> u64 \<times> Keeper" where
  "nextDisputeID s = (case seq_next (Keeper.DisputeSeq s) of (i, n) \<Rightarrow> (i, s\<lparr>Keeper.DisputeSeq := n\<rparr>))"

definition nextGateID :: "Keeper \<Rightarrow> u64 \<times> Keeper" where
  "nextGateID s = (case seq_next (Keeper.GateSeq s) of (i, n) \<Rightarrow> (i, s\<lparr>Keeper.GateSeq := n\<rparr>))"

definition nextVouchID :: "Keeper \<Rightarrow> u64 \<times> Keeper" where
  "nextVouchID s = (case seq_next (Keeper.VouchSeq s) of (i, n) \<Rightarrow> (i, s\<lparr>Keeper.VouchSeq := n\<rparr>))"

text \<open>\<^verbatim>\<open>Account.Get\<close> followed by the \<^verbatim>\<open>err != nil || !acct.Registered\<close> test.\<close>

definition getRegistered :: "Keeper \<Rightarrow> string \<Rightarrow> Account option" where
  "getRegistered s a =
     (case kv_get (Keeper.Account s) a of
        None \<Rightarrow> None
      | Some acc \<Rightarrow> if Account.Registered acc then Some acc else None)"

lemma getRegistered_Some:
  "getRegistered s a = Some acc \<longleftrightarrow> kv_get (Keeper.Account s) a = Some acc \<and> Account.Registered acc"
  by (auto simp: getRegistered_def split: option.splits)

lemmas store_defs =
  emit_def setAccount_def setEscrow_def setBond_def setDispute_def setGate_def setVouch_def
  nextBondID_def nextEscrowID_def nextDisputeID_def nextGateID_def nextVouchID_def

section \<open>Hash format\<close>

definition hex_digit :: "char \<Rightarrow> bool" where
  "hex_digit c \<longleftrightarrow>
     \<not> (((of_char c :: nat) < 48 \<or> (of_char c :: nat) > 57) \<and>
        ((of_char c :: nat) < 97 \<or> (of_char c :: nat) > 102) \<and>
        ((of_char c :: nat) < 65 \<or> (of_char c :: nat) > 70))"

definition isHexSHA256 :: "string \<Rightarrow> bool" where
  "isHexSHA256 s \<longleftrightarrow> length s = 64 \<and> list_all hex_digit s"

lemma isHexSHA256_nonempty: "isHexSHA256 s \<Longrightarrow> s \<noteq> []"
  by (auto simp: isHexSHA256_def)

lemma hex_digit_ascii: "hex_digit c \<Longrightarrow> \<not> non_ascii c"
  by (auto simp: hex_digit_def non_ascii_def)

lemma isHexSHA256_ascii: "isHexSHA256 s \<Longrightarrow> list_all (\<lambda>c. \<not> non_ascii c) s"
  by (auto simp: isHexSHA256_def list_all_iff dest: hex_digit_ascii)

lemma hex_digit_hex_char: "d < 16 \<Longrightarrow> hex_digit (hex_char d)"
proof -
  have "\<forall>d \<in> set [0..<16]. hex_digit (hex_char d)" by code_simp
  then show "d < 16 \<Longrightarrow> hex_digit (hex_char d)" by simp
qed

lemma of_char_div_16: "(of_char c :: nat) div 16 < 16"
  using nat_of_char_less_256 [of c] by (simp add: less_mult_imp_div_less)

lemma isHexSHA256_hex_Encode:
  assumes "length bs = 32"
  shows "isHexSHA256 (hex_EncodeToString bs)"
proof -
  have "list_all hex_digit (hex_EncodeToString bs)"
    by (auto simp: list_all_iff hex_EncodeToString_def hex_digit_hex_char of_char_div_16)
  then show ?thesis using assms by (simp add: isHexSHA256_def)
qed

lemma EqualFold_hex_refl [simp]: "isHexSHA256 h \<Longrightarrow> EqualFold uni h h"
  by (intro EqualFold_refl_ascii isHexSHA256_ascii)

declare getRegistered_def [helper_defs]

section \<open>Trust roots\<close>

definition anchor_separator :: "char \<Rightarrow> bool" where
  "anchor_separator r \<longleftrightarrow>
     r = CHR '','' \<or> r = CHR 0x0A \<or> r = CHR 0x0D \<or> r = CHR '' '' \<or> r = CHR 0x09"

definition splitAnchors :: "string \<Rightarrow> string list" where
  "splitAnchors raw = filter (\<lambda>a. a \<noteq> []) (FieldsFunc anchor_separator raw)"

definition resolveAnchors :: "Env \<Rightarrow> string list \<Rightarrow> string list" where
  "resolveAnchors env paramAnchors =
    (if length paramAnchors > 0 then paramAnchors
     else let raw = TrimSpace (Getenv env ''AGNTCOIN_ANCHORS'')
     in if raw \<noteq> [] then splitAnchors raw
     else let path0 = TrimSpace (Getenv env ''AGNTCOIN_ANCHORS_FILE'');
              path = (if path0 = [] then
                        (case UserHomeDir env of
                           None \<Rightarrow> path0
                         | Some home \<Rightarrow> home @ ''/.agntcoin/anchors.txt'')
                      else path0)
     in if path \<noteq> [] then
          (case ReadFile env path of None \<Rightarrow> [] | Some b \<Rightarrow> splitAnchors b)
        else [])"

fun isJuror :: "string \<Rightarrow> string list \<Rightarrow> bool" where
  "isJuror addr [] = False"
| "isJuror addr (j # jurors) = (if j = addr then True else isJuror addr jurors)"

lemma isJuror_iff [simp]: "isJuror addr jurors \<longleftrightarrow> addr \<in> set jurors"
  by (induction jurors) auto

section \<open>Credits\<close>

definition newAccount :: "string \<Rightarrow> Account" where
  "newAccount addrStr =
     \<lparr>Account.Address = addrStr, Account.Balance = 0, Account.Nonce = 0,
      Account.Registered = True, Account.FaucetClaimed = False\<rparr>"

definition newCreditMessage :: string where
  "newCreditMessage =
     ''credit to new account must be at least '' @ FormatUint Constants.MinNewAccountCredit"

definition checkNewAccountCredit :: "Keeper \<Rightarrow> string \<Rightarrow> u64 \<Rightarrow> go_error option" where
  "checkNewAccountCredit s addrStr amount =
    (case kv_get (Keeper.Account s) addrStr of
       None \<Rightarrow>
         (if amount < Constants.MinNewAccountCredit
          then Some (ErrInvalidRequest newCreditMessage) else None)
     | Some _ \<Rightarrow> None)"

text \<open>The x/auth BaseAccount of a recipient, created when there is none.\<close>

definition ensureAuthAccount :: "Env \<Rightarrow> string \<Rightarrow> Keeper \<Rightarrow> Keeper" where
  "ensureAuthAccount env addrBytes s =
    (if HasAuthKeeper env \<and> addrBytes \<notin> AuthAccounts s
     then s\<lparr>AuthAccounts := insert addrBytes (AuthAccounts s)\<rparr> else s)"

definition creditAccount :: "Env \<Rightarrow> string \<Rightarrow> string \<Rightarrow> u64 \<Rightarrow> Keeper \<Rightarrow> unit result" where
  "creditAccount env addrStr addrBytes amount s =
    (let found = (case kv_get (Keeper.Account s) addrStr of
         None \<Rightarrow>
           (if amount < Constants.MinNewAccountCredit
            then Inl (ErrInvalidRequest newCreditMessage) else Inr (newAccount addrStr))
       | Some acc \<Rightarrow>
           (if \<not> Account.Registered acc then Inr (acc\<lparr>Account.Registered := True\<rparr>) else Inr acc))
     in case found of
          Inl e \<Rightarrow> fail e s
        | Inr acc \<Rightarrow>
            (let s1 = ensureAuthAccount env addrBytes s
             in respond () (setAccount addrStr
                  (acc\<lparr>Account.Balance := Account.Balance acc + amount\<rparr>) s1)))"

definition ensureRegistered :: "Env \<Rightarrow> string \<Rightarrow> string \<Rightarrow> u64 \<Rightarrow> Keeper \<Rightarrow> unit result" where
  "ensureRegistered env addrStr addrBytes guardAmount s =
    (let found = (case kv_get (Keeper.Account s) addrStr of
         None \<Rightarrow>
           (if guardAmount < Constants.MinNewAccountCredit
            then Inl (ErrInvalidRequest (''escrow to a brand-new payee must be at least ''
                        @ FormatUint Constants.MinNewAccountCredit))
            else Inr (newAccount addrStr))
       | Some acc \<Rightarrow>
           (if \<not> Account.Registered acc then Inr (acc\<lparr>Account.Registered := True\<rparr>) else Inr acc))
     in case found of
          Inl e \<Rightarrow> fail e s
        | Inr acc \<Rightarrow>
            (let s1 = ensureAuthAccount env addrBytes s
             in respond () (setAccount addrStr acc s1)))"

declare checkNewAccountCredit_def [helper_defs]

end
