(* ===== verification/Accounting.thy ===== *)
theory Accounting
  imports KeeperState
begin

text \<open>
  The ledger's accounts: what each table holds, the total supply, and how the primitive store
  writes change it. All coins of the module sit in an account balance, behind a vouch, in an
  escrow that is not settled yet, or in an active bond. Sums are natural numbers, so they do
  not wrap; the lemmas say when the 64-bit balances do not either.

  \<open>core_inv\<close> is the structural invariant of the store: every account record is registered,
  every record is stored under its own id, and every id in use is below its sequence.
\<close>

section \<open>Frame rules of the primitive writes\<close>

lemma emit_frame [simp]:
  "Keeper.Params (emit n ats s) = Keeper.Params s"
  "Keeper.EmissionState (emit n ats s) = Keeper.EmissionState s"
  "Keeper.Account (emit n ats s) = Keeper.Account s"
  "Keeper.VouchSeq (emit n ats s) = Keeper.VouchSeq s"
  "Keeper.Vouch (emit n ats s) = Keeper.Vouch s"
  "Keeper.EscrowSeq (emit n ats s) = Keeper.EscrowSeq s"
  "Keeper.Escrow (emit n ats s) = Keeper.Escrow s"
  "Keeper.DisputeSeq (emit n ats s) = Keeper.DisputeSeq s"
  "Keeper.Dispute (emit n ats s) = Keeper.Dispute s"
  "Keeper.BondSeq (emit n ats s) = Keeper.BondSeq s" "Keeper.Bond (emit n ats s) = Keeper.Bond s"
  "Keeper.GateSeq (emit n ats s) = Keeper.GateSeq s" "Keeper.Gate (emit n ats s) = Keeper.Gate s"
  "Keeper.ContributionAwardSeq (emit n ats s) = Keeper.ContributionAwardSeq s"
  "Keeper.ContributionAward (emit n ats s) = Keeper.ContributionAward s"
  "Keeper.ScopedEvidenceVouchSeq (emit n ats s) = Keeper.ScopedEvidenceVouchSeq s"
  "Keeper.ScopedEvidenceVouch (emit n ats s) = Keeper.ScopedEvidenceVouch s"
  "Keeper.AuthAccounts (emit n ats s) = Keeper.AuthAccounts s"
  by (simp_all add: emit_def)

lemma setAccount_frame [simp]:
  "Keeper.Params (setAccount a acc s) = Keeper.Params s"
  "Keeper.EmissionState (setAccount a acc s) = Keeper.EmissionState s"
  "Keeper.VouchSeq (setAccount a acc s) = Keeper.VouchSeq s"
  "Keeper.Vouch (setAccount a acc s) = Keeper.Vouch s"
  "Keeper.EscrowSeq (setAccount a acc s) = Keeper.EscrowSeq s"
  "Keeper.Escrow (setAccount a acc s) = Keeper.Escrow s"
  "Keeper.DisputeSeq (setAccount a acc s) = Keeper.DisputeSeq s"
  "Keeper.Dispute (setAccount a acc s) = Keeper.Dispute s"
  "Keeper.BondSeq (setAccount a acc s) = Keeper.BondSeq s"
  "Keeper.Bond (setAccount a acc s) = Keeper.Bond s"
  "Keeper.GateSeq (setAccount a acc s) = Keeper.GateSeq s"
  "Keeper.Gate (setAccount a acc s) = Keeper.Gate s"
  "Keeper.ContributionAwardSeq (setAccount a acc s) = Keeper.ContributionAwardSeq s"
  "Keeper.ContributionAward (setAccount a acc s) = Keeper.ContributionAward s"
  "Keeper.ScopedEvidenceVouchSeq (setAccount a acc s) = Keeper.ScopedEvidenceVouchSeq s"
  "Keeper.ScopedEvidenceVouch (setAccount a acc s) = Keeper.ScopedEvidenceVouch s"
  "Keeper.AuthAccounts (setAccount a acc s) = Keeper.AuthAccounts s"
  "Keeper.Events (setAccount a acc s) = Keeper.Events s"
  "Keeper.Account (setAccount a acc s) = kv_set (Keeper.Account s) a acc"
  by (simp_all add: setAccount_def)

lemma setEscrow_frame [simp]:
  "Keeper.Params (setEscrow i e s) = Keeper.Params s"
  "Keeper.EmissionState (setEscrow i e s) = Keeper.EmissionState s"
  "Keeper.Account (setEscrow i e s) = Keeper.Account s"
  "Keeper.VouchSeq (setEscrow i e s) = Keeper.VouchSeq s"
  "Keeper.Vouch (setEscrow i e s) = Keeper.Vouch s"
  "Keeper.EscrowSeq (setEscrow i e s) = Keeper.EscrowSeq s"
  "Keeper.DisputeSeq (setEscrow i e s) = Keeper.DisputeSeq s"
  "Keeper.Dispute (setEscrow i e s) = Keeper.Dispute s"
  "Keeper.BondSeq (setEscrow i e s) = Keeper.BondSeq s"
  "Keeper.Bond (setEscrow i e s) = Keeper.Bond s"
  "Keeper.GateSeq (setEscrow i e s) = Keeper.GateSeq s"
  "Keeper.Gate (setEscrow i e s) = Keeper.Gate s"
  "Keeper.ContributionAwardSeq (setEscrow i e s) = Keeper.ContributionAwardSeq s"
  "Keeper.ContributionAward (setEscrow i e s) = Keeper.ContributionAward s"
  "Keeper.ScopedEvidenceVouchSeq (setEscrow i e s) = Keeper.ScopedEvidenceVouchSeq s"
  "Keeper.ScopedEvidenceVouch (setEscrow i e s) = Keeper.ScopedEvidenceVouch s"
  "Keeper.AuthAccounts (setEscrow i e s) = Keeper.AuthAccounts s"
  "Keeper.Events (setEscrow i e s) = Keeper.Events s"
  "Keeper.Escrow (setEscrow i e s) = kv_set (Keeper.Escrow s) i e"
  by (simp_all add: setEscrow_def)

lemma setBond_frame [simp]:
  "Keeper.Params (setBond i b s) = Keeper.Params s"
  "Keeper.EmissionState (setBond i b s) = Keeper.EmissionState s"
  "Keeper.Account (setBond i b s) = Keeper.Account s"
  "Keeper.VouchSeq (setBond i b s) = Keeper.VouchSeq s"
  "Keeper.Vouch (setBond i b s) = Keeper.Vouch s"
  "Keeper.EscrowSeq (setBond i b s) = Keeper.EscrowSeq s"
  "Keeper.Escrow (setBond i b s) = Keeper.Escrow s"
  "Keeper.DisputeSeq (setBond i b s) = Keeper.DisputeSeq s"
  "Keeper.Dispute (setBond i b s) = Keeper.Dispute s"
  "Keeper.BondSeq (setBond i b s) = Keeper.BondSeq s"
  "Keeper.GateSeq (setBond i b s) = Keeper.GateSeq s"
  "Keeper.Gate (setBond i b s) = Keeper.Gate s"
  "Keeper.ContributionAwardSeq (setBond i b s) = Keeper.ContributionAwardSeq s"
  "Keeper.ContributionAward (setBond i b s) = Keeper.ContributionAward s"
  "Keeper.ScopedEvidenceVouchSeq (setBond i b s) = Keeper.ScopedEvidenceVouchSeq s"
  "Keeper.ScopedEvidenceVouch (setBond i b s) = Keeper.ScopedEvidenceVouch s"
  "Keeper.AuthAccounts (setBond i b s) = Keeper.AuthAccounts s"
  "Keeper.Events (setBond i b s) = Keeper.Events s"
  "Keeper.Bond (setBond i b s) = kv_set (Keeper.Bond s) i b"
  by (simp_all add: setBond_def)

lemma setDispute_frame [simp]:
  "Keeper.Params (setDispute i d s) = Keeper.Params s"
  "Keeper.EmissionState (setDispute i d s) = Keeper.EmissionState s"
  "Keeper.Account (setDispute i d s) = Keeper.Account s"
  "Keeper.VouchSeq (setDispute i d s) = Keeper.VouchSeq s"
  "Keeper.Vouch (setDispute i d s) = Keeper.Vouch s"
  "Keeper.EscrowSeq (setDispute i d s) = Keeper.EscrowSeq s"
  "Keeper.Escrow (setDispute i d s) = Keeper.Escrow s"
  "Keeper.DisputeSeq (setDispute i d s) = Keeper.DisputeSeq s"
  "Keeper.BondSeq (setDispute i d s) = Keeper.BondSeq s"
  "Keeper.Bond (setDispute i d s) = Keeper.Bond s"
  "Keeper.GateSeq (setDispute i d s) = Keeper.GateSeq s"
  "Keeper.Gate (setDispute i d s) = Keeper.Gate s"
  "Keeper.ContributionAwardSeq (setDispute i d s) = Keeper.ContributionAwardSeq s"
  "Keeper.ContributionAward (setDispute i d s) = Keeper.ContributionAward s"
  "Keeper.ScopedEvidenceVouchSeq (setDispute i d s) = Keeper.ScopedEvidenceVouchSeq s"
  "Keeper.ScopedEvidenceVouch (setDispute i d s) = Keeper.ScopedEvidenceVouch s"
  "Keeper.AuthAccounts (setDispute i d s) = Keeper.AuthAccounts s"
  "Keeper.Events (setDispute i d s) = Keeper.Events s"
  "Keeper.Dispute (setDispute i d s) = kv_set (Keeper.Dispute s) i d"
  by (simp_all add: setDispute_def)

lemma setGate_frame [simp]:
  "Keeper.Params (setGate i g s) = Keeper.Params s"
  "Keeper.EmissionState (setGate i g s) = Keeper.EmissionState s"
  "Keeper.Account (setGate i g s) = Keeper.Account s"
  "Keeper.VouchSeq (setGate i g s) = Keeper.VouchSeq s"
  "Keeper.Vouch (setGate i g s) = Keeper.Vouch s"
  "Keeper.EscrowSeq (setGate i g s) = Keeper.EscrowSeq s"
  "Keeper.Escrow (setGate i g s) = Keeper.Escrow s"
  "Keeper.DisputeSeq (setGate i g s) = Keeper.DisputeSeq s"
  "Keeper.Dispute (setGate i g s) = Keeper.Dispute s"
  "Keeper.BondSeq (setGate i g s) = Keeper.BondSeq s"
  "Keeper.Bond (setGate i g s) = Keeper.Bond s"
  "Keeper.GateSeq (setGate i g s) = Keeper.GateSeq s"
  "Keeper.ContributionAwardSeq (setGate i g s) = Keeper.ContributionAwardSeq s"
  "Keeper.ContributionAward (setGate i g s) = Keeper.ContributionAward s"
  "Keeper.ScopedEvidenceVouchSeq (setGate i g s) = Keeper.ScopedEvidenceVouchSeq s"
  "Keeper.ScopedEvidenceVouch (setGate i g s) = Keeper.ScopedEvidenceVouch s"
  "Keeper.AuthAccounts (setGate i g s) = Keeper.AuthAccounts s"
  "Keeper.Events (setGate i g s) = Keeper.Events s"
  "Keeper.Gate (setGate i g s) = kv_set (Keeper.Gate s) i g"
  by (simp_all add: setGate_def)

lemma setVouch_frame [simp]:
  "Keeper.Params (setVouch i v s) = Keeper.Params s"
  "Keeper.EmissionState (setVouch i v s) = Keeper.EmissionState s"
  "Keeper.Account (setVouch i v s) = Keeper.Account s"
  "Keeper.VouchSeq (setVouch i v s) = Keeper.VouchSeq s"
  "Keeper.EscrowSeq (setVouch i v s) = Keeper.EscrowSeq s"
  "Keeper.Escrow (setVouch i v s) = Keeper.Escrow s"
  "Keeper.DisputeSeq (setVouch i v s) = Keeper.DisputeSeq s"
  "Keeper.Dispute (setVouch i v s) = Keeper.Dispute s"
  "Keeper.BondSeq (setVouch i v s) = Keeper.BondSeq s"
  "Keeper.Bond (setVouch i v s) = Keeper.Bond s"
  "Keeper.GateSeq (setVouch i v s) = Keeper.GateSeq s"
  "Keeper.Gate (setVouch i v s) = Keeper.Gate s"
  "Keeper.ContributionAwardSeq (setVouch i v s) = Keeper.ContributionAwardSeq s"
  "Keeper.ContributionAward (setVouch i v s) = Keeper.ContributionAward s"
  "Keeper.ScopedEvidenceVouchSeq (setVouch i v s) = Keeper.ScopedEvidenceVouchSeq s"
  "Keeper.ScopedEvidenceVouch (setVouch i v s) = Keeper.ScopedEvidenceVouch s"
  "Keeper.AuthAccounts (setVouch i v s) = Keeper.AuthAccounts s"
  "Keeper.Events (setVouch i v s) = Keeper.Events s"
  "Keeper.Vouch (setVouch i v s) = kv_set (Keeper.Vouch s) i v"
  by (simp_all add: setVouch_def)

lemma ensureAuthAccount_frame [simp]:
  "Keeper.Params (ensureAuthAccount env ab s) = Keeper.Params s"
  "Keeper.EmissionState (ensureAuthAccount env ab s) = Keeper.EmissionState s"
  "Keeper.Account (ensureAuthAccount env ab s) = Keeper.Account s"
  "Keeper.VouchSeq (ensureAuthAccount env ab s) = Keeper.VouchSeq s"
  "Keeper.Vouch (ensureAuthAccount env ab s) = Keeper.Vouch s"
  "Keeper.EscrowSeq (ensureAuthAccount env ab s) = Keeper.EscrowSeq s"
  "Keeper.Escrow (ensureAuthAccount env ab s) = Keeper.Escrow s"
  "Keeper.DisputeSeq (ensureAuthAccount env ab s) = Keeper.DisputeSeq s"
  "Keeper.Dispute (ensureAuthAccount env ab s) = Keeper.Dispute s"
  "Keeper.BondSeq (ensureAuthAccount env ab s) = Keeper.BondSeq s"
  "Keeper.Bond (ensureAuthAccount env ab s) = Keeper.Bond s"
  "Keeper.GateSeq (ensureAuthAccount env ab s) = Keeper.GateSeq s"
  "Keeper.Gate (ensureAuthAccount env ab s) = Keeper.Gate s"
  "Keeper.ContributionAwardSeq (ensureAuthAccount env ab s) = Keeper.ContributionAwardSeq s"
  "Keeper.ContributionAward (ensureAuthAccount env ab s) = Keeper.ContributionAward s"
  "Keeper.ScopedEvidenceVouchSeq (ensureAuthAccount env ab s) = Keeper.ScopedEvidenceVouchSeq s"
  "Keeper.ScopedEvidenceVouch (ensureAuthAccount env ab s) = Keeper.ScopedEvidenceVouch s"
  "Keeper.Events (ensureAuthAccount env ab s) = Keeper.Events s"
  by (simp_all add: ensureAuthAccount_def)

lemma nextID_simps [simp]:
  "nextBondID s = (Keeper.BondSeq s, s\<lparr>Keeper.BondSeq := Keeper.BondSeq s + 1\<rparr>)"
  "nextEscrowID s = (Keeper.EscrowSeq s, s\<lparr>Keeper.EscrowSeq := Keeper.EscrowSeq s + 1\<rparr>)"
  "nextDisputeID s = (Keeper.DisputeSeq s, s\<lparr>Keeper.DisputeSeq := Keeper.DisputeSeq s + 1\<rparr>)"
  "nextGateID s = (Keeper.GateSeq s, s\<lparr>Keeper.GateSeq := Keeper.GateSeq s + 1\<rparr>)"
  "nextVouchID s = (Keeper.VouchSeq s, s\<lparr>Keeper.VouchSeq := Keeper.VouchSeq s + 1\<rparr>)"
  by (simp_all add: nextBondID_def nextEscrowID_def nextDisputeID_def nextGateID_def nextVouchID_def)

section \<open>The supply\<close>

definition balanceOf :: "Account \<Rightarrow> nat" where
  "balanceOf acc = unat (Account.Balance acc)"

definition stakeOf :: "Vouch \<Rightarrow> nat" where
  "stakeOf v = unat (Vouch.Stake v)"

definition unsettled :: "Escrow \<Rightarrow> bool" where
  "unsettled e \<longleftrightarrow>
     Escrow.Status e \<in> {EscrowStatusLocked, EscrowStatusSubmitted, EscrowStatusDisputed,
                        EscrowStatusInJury, EscrowStatusFailAttested}"

definition heldEscrow :: "Escrow \<Rightarrow> nat" where
  "heldEscrow e = (if unsettled e then unat (Escrow.Amount e) else 0)"

definition heldBond :: "Bond \<Rightarrow> nat" where
  "heldBond b = (if Bond.Status b = BondStatusActive then unat (Bond.Amount b) else 0)"

definition total_supply :: "Keeper \<Rightarrow> nat" where
  "total_supply s = kv_total balanceOf (Keeper.Account s) + kv_total stakeOf (Keeper.Vouch s)
     + kv_total heldEscrow (Keeper.Escrow s) + kv_total heldBond (Keeper.Bond s)"

lemma supply_unchanged [simp]:
  "total_supply (emit n ats s) = total_supply s"
  "total_supply (setDispute i d s) = total_supply s"
  "total_supply (setGate i g s) = total_supply s"
  "total_supply (ensureAuthAccount env ab s) = total_supply s"
  "total_supply (s\<lparr>Keeper.BondSeq := n1\<rparr>) = total_supply s"
  "total_supply (s\<lparr>Keeper.EscrowSeq := n1\<rparr>) = total_supply s"
  "total_supply (s\<lparr>Keeper.DisputeSeq := n1\<rparr>) = total_supply s"
  "total_supply (s\<lparr>Keeper.GateSeq := n1\<rparr>) = total_supply s"
  "total_supply (s\<lparr>Keeper.VouchSeq := n1\<rparr>) = total_supply s"
  "total_supply (s\<lparr>Keeper.ContributionAwardSeq := n1\<rparr>) = total_supply s"
  "total_supply (s\<lparr>Keeper.ScopedEvidenceVouchSeq := n1\<rparr>) = total_supply s"
  "total_supply (s\<lparr>Keeper.ContributionAward := ca\<rparr>) = total_supply s"
  "total_supply (s\<lparr>Keeper.ScopedEvidenceVouch := sv\<rparr>) = total_supply s"
  "total_supply (s\<lparr>Keeper.EmissionState := em\<rparr>) = total_supply s"
  "total_supply (s\<lparr>Keeper.Params := ps\<rparr>) = total_supply s"
  by (simp_all add: total_supply_def)

lemma balance_le_supply: "kv_get (Keeper.Account s) a = Some acc \<Longrightarrow> unat (Account.Balance acc) \<le> total_supply s"
  using kv_total_ge [of "Keeper.Account s" a acc balanceOf] by (simp add: total_supply_def balanceOf_def)

text \<open>The balance of an address; an address without a record has none.\<close>

definition balance :: "Keeper \<Rightarrow> string \<Rightarrow> nat" where
  "balance s a = (case kv_get (Keeper.Account s) a of None \<Rightarrow> 0 | Some acc \<Rightarrow> unat (Account.Balance acc))"

lemma balance_cong: "Keeper.Account s' = Keeper.Account s \<Longrightarrow> balance s' a = balance s a"
  by (simp add: balance_def)

lemma balance_setAccount [simp]:
  "balance (setAccount a acc s) b = (if b = a then unat (Account.Balance acc) else balance s b)"
  by (simp add: balance_def)

lemma balance_unchanged [simp]:
  "balance (emit n ats s) a = balance s a" "balance (setEscrow i e s) a = balance s a"
  "balance (setBond i b s) a = balance s a" "balance (setDispute i d s) a = balance s a"
  "balance (setGate i g s) a = balance s a" "balance (setVouch i v s) a = balance s a"
  "balance (ensureAuthAccount env ab s) a = balance s a"
  "balance (s\<lparr>Keeper.BondSeq := n1\<rparr>) a = balance s a"
  "balance (s\<lparr>Keeper.EscrowSeq := n1\<rparr>) a = balance s a"
  "balance (s\<lparr>Keeper.DisputeSeq := n1\<rparr>) a = balance s a"
  "balance (s\<lparr>Keeper.VouchSeq := n1\<rparr>) a = balance s a"
  "balance (s\<lparr>Keeper.Vouch := vs\<rparr>) a = balance s a"
  "balance (s\<lparr>Keeper.EmissionState := em\<rparr>) a = balance s a"
  by (simp_all add: balance_def)

lemma balance_registered:
  "getRegistered s a = Some acc \<Longrightarrow> balance s a = unat (Account.Balance acc)"
  by (simp add: getRegistered_Some balance_def)

lemma balance_le_balances: "balance s a \<le> kv_total balanceOf (Keeper.Account s)"
  using kv_total_ge [of "Keeper.Account s" a _ balanceOf]
  by (cases "kv_get (Keeper.Account s) a") (auto simp: balance_def balanceOf_def)

lemma balance_le_total: "balance s a \<le> total_supply s"
  using balance_le_balances [of s a] by (simp add: total_supply_def)

lemma supply_setAccount_new:
  "kv_get (Keeper.Account s) a = None \<Longrightarrow>
     total_supply (setAccount a acc s) = total_supply s + unat (Account.Balance acc)"
  by (simp add: total_supply_def kv_total_set_new balanceOf_def)

lemma supply_setAccount_old:
  "kv_get (Keeper.Account s) a = Some old \<Longrightarrow>
     total_supply (setAccount a acc s) + unat (Account.Balance old) = total_supply s + unat (Account.Balance acc)"
  using kv_total_set_old [of "Keeper.Account s" a old balanceOf acc]
  by (simp add: total_supply_def balanceOf_def)

lemma supply_debit:
  assumes "kv_get (Keeper.Account s) a = Some acc" and "amt \<le> Account.Balance acc"
  shows "total_supply (setAccount a (acc\<lparr>Account.Balance := Account.Balance acc - amt\<rparr>) s) + unat amt = total_supply s"
proof -
  have "unat amt \<le> unat (Account.Balance acc)" using assms(2) by (simp add: u64_le_iff)
  then show ?thesis
    using supply_setAccount_old [OF assms(1), of "acc\<lparr>Account.Balance := Account.Balance acc - amt\<rparr>"] assms(2)
    by (simp add: unat_sub_no_wrap)
qed

lemma supply_setEscrow_new:
  "kv_get (Keeper.Escrow s) i = None \<Longrightarrow> total_supply (setEscrow i e s) = total_supply s + heldEscrow e"
  by (simp add: total_supply_def kv_total_set_new)

lemma held_escrow_le: "kv_get (Keeper.Escrow s) i = Some e \<Longrightarrow> balance s a + heldEscrow e \<le> total_supply s"
  using kv_total_ge [of "Keeper.Escrow s" i e heldEscrow] balance_le_balances [of s a]
  by (simp add: total_supply_def)

lemma held_bond_le: "kv_get (Keeper.Bond s) i = Some b \<Longrightarrow> balance s a + heldBond b \<le> total_supply s"
  using kv_total_ge [of "Keeper.Bond s" i b heldBond] balance_le_balances [of s a]
  by (simp add: total_supply_def)

lemma held_stake_le: "kv_get (Keeper.Vouch s) i = Some v \<Longrightarrow> balance s a + unat (Vouch.Stake v) \<le> total_supply s"
  using kv_total_ge [of "Keeper.Vouch s" i v stakeOf] balance_le_balances [of s a]
  by (simp add: total_supply_def stakeOf_def)

lemma supply_setEscrow_old:
  "kv_get (Keeper.Escrow s) i = Some old \<Longrightarrow>
     total_supply (setEscrow i e s) + heldEscrow old = total_supply s + heldEscrow e"
  using kv_total_set_old [of "Keeper.Escrow s" i old heldEscrow e] by (simp add: total_supply_def)

lemma supply_setBond_new:
  "kv_get (Keeper.Bond s) i = None \<Longrightarrow> total_supply (setBond i b s) = total_supply s + heldBond b"
  by (simp add: total_supply_def kv_total_set_new)

lemma supply_setBond_old:
  "kv_get (Keeper.Bond s) i = Some old \<Longrightarrow>
     total_supply (setBond i b s) + heldBond old = total_supply s + heldBond b"
  using kv_total_set_old [of "Keeper.Bond s" i old heldBond b] by (simp add: total_supply_def)

lemma supply_setVouch_new:
  "kv_get (Keeper.Vouch s) i = None \<Longrightarrow> total_supply (setVouch i v s) = total_supply s + unat (Vouch.Stake v)"
  by (simp add: total_supply_def kv_total_set_new stakeOf_def)

lemma supply_setVouch_old:
  "kv_get (Keeper.Vouch s) i = Some old \<Longrightarrow>
     total_supply (setVouch i v s) + unat (Vouch.Stake old) = total_supply s + unat (Vouch.Stake v)"
  using kv_total_set_old [of "Keeper.Vouch s" i old stakeOf v] by (simp add: total_supply_def stakeOf_def)

lemma supply_removeVouch:
  "kv_get (Keeper.Vouch s) i = Some old \<Longrightarrow>
     total_supply (s\<lparr>Keeper.Vouch := kv_remove (Keeper.Vouch s) i\<rparr>) + unat (Vouch.Stake old) = total_supply s"
  using kv_total_remove [of "Keeper.Vouch s" i old stakeOf] by (simp add: total_supply_def stakeOf_def)

section \<open>The structural invariant\<close>

definition accounts_registered :: "Keeper \<Rightarrow> bool" where
  "accounts_registered s \<longleftrightarrow>
     (\<forall>a acc. kv_get (Keeper.Account s) a = Some acc \<longrightarrow> Account.Registered acc)"

definition ids_in_order :: "('v \<Rightarrow> u64) \<Rightarrow> (u64, 'v) kvmap \<Rightarrow> u64 \<Rightarrow> bool" where
  "ids_in_order ident m n \<longleftrightarrow> (\<forall>k v. kv_get m k = Some v \<longrightarrow> ident v = k \<and> k < n)"

definition core_inv :: "Keeper \<Rightarrow> bool" where
  "core_inv s \<longleftrightarrow> accounts_registered s
     \<and> ids_in_order Vouch.Id (Keeper.Vouch s) (Keeper.VouchSeq s)
     \<and> ids_in_order Escrow.Id (Keeper.Escrow s) (Keeper.EscrowSeq s)
     \<and> ids_in_order Dispute.Id (Keeper.Dispute s) (Keeper.DisputeSeq s)
     \<and> ids_in_order Bond.Id (Keeper.Bond s) (Keeper.BondSeq s)
     \<and> ids_in_order Gate.Id (Keeper.Gate s) (Keeper.GateSeq s)"

lemma ids_in_order_empty [simp]: "ids_in_order f kv_empty n"
  by (simp add: ids_in_order_def)

lemma ids_in_order_get: "ids_in_order f m n \<Longrightarrow> kv_get m k = Some v \<Longrightarrow> f v = k \<and> k < n"
  by (simp add: ids_in_order_def)

lemma ids_in_order_put: "ids_in_order f m n \<Longrightarrow> f v = k \<Longrightarrow> k < n \<Longrightarrow> ids_in_order f (kv_set m k v) n"
  by (auto simp: ids_in_order_def)

lemma ids_in_order_remove: "ids_in_order f m n \<Longrightarrow> ids_in_order f (kv_remove m k) n"
  by (auto simp: ids_in_order_def split: if_splits)

lemma ids_in_order_Suc: "ids_in_order f m n \<Longrightarrow> n \<noteq> - 1 \<Longrightarrow> ids_in_order f m (n + 1)"
  by (auto simp: ids_in_order_def intro: u64_less_Suc)

lemma ids_in_order_fresh: "ids_in_order f m n \<Longrightarrow> kv_get m n = None"
  by (cases "kv_get m n") (auto simp: ids_in_order_def)

lemma core_inv_unchanged [simp]:
  "core_inv (emit n ats s) = core_inv s"
  "core_inv (ensureAuthAccount env ab s) = core_inv s"
  "core_inv (s\<lparr>Keeper.ContributionAwardSeq := n1\<rparr>) = core_inv s"
  "core_inv (s\<lparr>Keeper.ScopedEvidenceVouchSeq := n1\<rparr>) = core_inv s"
  "core_inv (s\<lparr>Keeper.ContributionAward := ca\<rparr>) = core_inv s"
  "core_inv (s\<lparr>Keeper.ScopedEvidenceVouch := sv\<rparr>) = core_inv s"
  "core_inv (s\<lparr>Keeper.EmissionState := em\<rparr>) = core_inv s"
  "core_inv (s\<lparr>Keeper.Params := ps\<rparr>) = core_inv s"
  by (simp_all add: core_inv_def accounts_registered_def)

lemma core_inv_setAccount [intro]:
  "core_inv s \<Longrightarrow> Account.Registered acc \<Longrightarrow> core_inv (setAccount a acc s)"
  by (auto simp: core_inv_def accounts_registered_def)

lemma core_inv_setEscrow [intro]:
  "core_inv s \<Longrightarrow> Escrow.Id e = i \<Longrightarrow> i < Keeper.EscrowSeq s \<Longrightarrow> core_inv (setEscrow i e s)"
  by (auto simp: core_inv_def accounts_registered_def intro: ids_in_order_put)

lemma core_inv_setBond [intro]:
  "core_inv s \<Longrightarrow> Bond.Id b = i \<Longrightarrow> i < Keeper.BondSeq s \<Longrightarrow> core_inv (setBond i b s)"
  by (auto simp: core_inv_def accounts_registered_def intro: ids_in_order_put)

lemma core_inv_setDispute [intro]:
  "core_inv s \<Longrightarrow> Dispute.Id d = i \<Longrightarrow> i < Keeper.DisputeSeq s \<Longrightarrow> core_inv (setDispute i d s)"
  by (auto simp: core_inv_def accounts_registered_def intro: ids_in_order_put)

lemma core_inv_setGate [intro]:
  "core_inv s \<Longrightarrow> Gate.Id g = i \<Longrightarrow> i < Keeper.GateSeq s \<Longrightarrow> core_inv (setGate i g s)"
  by (auto simp: core_inv_def accounts_registered_def intro: ids_in_order_put)

lemma core_inv_setVouch [intro]:
  "core_inv s \<Longrightarrow> Vouch.Id v = i \<Longrightarrow> i < Keeper.VouchSeq s \<Longrightarrow> core_inv (setVouch i v s)"
  by (auto simp: core_inv_def accounts_registered_def intro: ids_in_order_put)

lemma core_inv_removeVouch [intro]:
  "core_inv s \<Longrightarrow> core_inv (s\<lparr>Keeper.Vouch := kv_remove (Keeper.Vouch s) i\<rparr>)"
  by (auto simp: core_inv_def accounts_registered_def intro: ids_in_order_remove)

lemma core_inv_seq [intro]:
  "core_inv s \<Longrightarrow> Keeper.BondSeq s \<noteq> - 1 \<Longrightarrow> core_inv (s\<lparr>Keeper.BondSeq := Keeper.BondSeq s + 1\<rparr>)"
  "core_inv s \<Longrightarrow> Keeper.EscrowSeq s \<noteq> - 1 \<Longrightarrow> core_inv (s\<lparr>Keeper.EscrowSeq := Keeper.EscrowSeq s + 1\<rparr>)"
  "core_inv s \<Longrightarrow> Keeper.DisputeSeq s \<noteq> - 1 \<Longrightarrow> core_inv (s\<lparr>Keeper.DisputeSeq := Keeper.DisputeSeq s + 1\<rparr>)"
  "core_inv s \<Longrightarrow> Keeper.GateSeq s \<noteq> - 1 \<Longrightarrow> core_inv (s\<lparr>Keeper.GateSeq := Keeper.GateSeq s + 1\<rparr>)"
  "core_inv s \<Longrightarrow> Keeper.VouchSeq s \<noteq> - 1 \<Longrightarrow> core_inv (s\<lparr>Keeper.VouchSeq := Keeper.VouchSeq s + 1\<rparr>)"
  by (auto simp: core_inv_def accounts_registered_def intro: ids_in_order_Suc)

lemma core_inv_escrow:
  "core_inv s \<Longrightarrow> kv_get (Keeper.Escrow s) i = Some e \<Longrightarrow> Escrow.Id e = i \<and> i < Keeper.EscrowSeq s"
  by (auto simp: core_inv_def dest: ids_in_order_get)

lemma core_inv_bond:
  "core_inv s \<Longrightarrow> kv_get (Keeper.Bond s) i = Some b \<Longrightarrow> Bond.Id b = i \<and> i < Keeper.BondSeq s"
  by (auto simp: core_inv_def dest: ids_in_order_get)

lemma core_inv_dispute:
  "core_inv s \<Longrightarrow> kv_get (Keeper.Dispute s) i = Some d \<Longrightarrow> Dispute.Id d = i \<and> i < Keeper.DisputeSeq s"
  by (auto simp: core_inv_def dest: ids_in_order_get)

lemma core_inv_gate:
  "core_inv s \<Longrightarrow> kv_get (Keeper.Gate s) i = Some g \<Longrightarrow> Gate.Id g = i \<and> i < Keeper.GateSeq s"
  by (auto simp: core_inv_def dest: ids_in_order_get)

lemma core_inv_vouch:
  "core_inv s \<Longrightarrow> kv_get (Keeper.Vouch s) i = Some v \<Longrightarrow> Vouch.Id v = i \<and> i < Keeper.VouchSeq s"
  by (auto simp: core_inv_def dest: ids_in_order_get)

lemma core_inv_fresh:
  "core_inv s \<Longrightarrow> kv_get (Keeper.Bond s) (Keeper.BondSeq s) = None"
  "core_inv s \<Longrightarrow> kv_get (Keeper.Escrow s) (Keeper.EscrowSeq s) = None"
  "core_inv s \<Longrightarrow> kv_get (Keeper.Dispute s) (Keeper.DisputeSeq s) = None"
  "core_inv s \<Longrightarrow> kv_get (Keeper.Gate s) (Keeper.GateSeq s) = None"
  "core_inv s \<Longrightarrow> kv_get (Keeper.Vouch s) (Keeper.VouchSeq s) = None"
  by (auto simp: core_inv_def dest: ids_in_order_fresh)

lemma core_inv_registered:
  "core_inv s \<Longrightarrow> kv_get (Keeper.Account s) a = Some acc \<Longrightarrow> Account.Registered acc"
  by (auto simp: core_inv_def accounts_registered_def)

text \<open>The pattern most handlers share: debit one account, then move the coins elsewhere.\<close>

lemma debit_ok:
  assumes "getRegistered s a = Some acc" and "amt \<le> Account.Balance acc" and "core_inv s"
  shows "core_inv (setAccount a (acc\<lparr>Account.Balance := Account.Balance acc - amt\<rparr>) s)"
    "total_supply (setAccount a (acc\<lparr>Account.Balance := Account.Balance acc - amt\<rparr>) s) + unat amt = total_supply s"
  using assms supply_debit [of s a acc amt] by (auto simp: getRegistered_Some)

section \<open>Credits\<close>

lemma registered_update [simp]:
  "Account.Registered acc \<Longrightarrow> acc\<lparr>Account.Registered := True\<rparr> = acc"
  "Account.Registered acc \<Longrightarrow> acc\<lparr>Account.Registered := True, Account.Balance := b\<rparr> = acc\<lparr>Account.Balance := b\<rparr>"
  by (cases acc; simp)+

text \<open>The two outcomes of a credit.\<close>

lemma creditAccount_cases:
  "creditAccount env a ab amt s =
     (case checkNewAccountCredit s a amt of
        Some e \<Rightarrow> fail e s
      | None \<Rightarrow>
          respond () (setAccount a
            (case kv_get (Keeper.Account s) a of
               None \<Rightarrow> (newAccount a)\<lparr>Account.Balance := amt\<rparr>
             | Some acc \<Rightarrow> acc\<lparr>Account.Registered := True, Account.Balance := Account.Balance acc + amt\<rparr>)
            (ensureAuthAccount env ab s)))"
  by (auto simp: creditAccount_def checkNewAccountCredit_def newAccount_def Let_def split: option.splits)

text \<open>
  A credit that does not overflow the account adds the amount to the account and to the
  supply. The side condition speaks of the credited account only, so that it also holds when
  the coins are still counted in an escrow or a bond.
\<close>

lemma creditAccount_ok:
  assumes "creditAccount env a ab amt s = (Inr r, s')" and "core_inv s" and "balance s a + unat amt < 2 ^ 64"
  shows "core_inv s'" "total_supply s' = total_supply s + unat amt"
    "balance s' b = (if b = a then balance s a + unat amt else balance s b)"
proof -
  have "core_inv s' \<and> total_supply s' = total_supply s + unat amt
    \<and> balance s' b = (if b = a then balance s a + unat amt else balance s b)"
  proof (cases "kv_get (Keeper.Account s) a")
    case None
    then have "balance s a = 0" by (simp add: balance_def)
    then show ?thesis
      using assms None by (auto simp: creditAccount_cases supply_setAccount_new newAccount_def split: option.splits)
  next
    case (Some acc)
    let ?s = "ensureAuthAccount env ab s"
    have reg: "Account.Registered acc" using core_inv_registered [OF assms(2) Some] .
    have s': "s' = setAccount a (acc\<lparr>Account.Balance := Account.Balance acc + amt\<rparr>) ?s"
      using assms(1) Some reg by (simp add: creditAccount_cases checkNewAccountCredit_def)
    have bal: "balance s a = unat (Account.Balance acc)" using Some by (simp add: balance_def)
    then have add: "unat (Account.Balance acc + amt) = unat (Account.Balance acc) + unat amt"
      using assms(3) by (intro unat_add_no_wrap) simp
    have "core_inv s'" unfolding s' using reg assms(2) by auto
    moreover have "total_supply s' = total_supply s + unat amt"
      using supply_setAccount_old [of ?s a acc "acc\<lparr>Account.Balance := Account.Balance acc + amt\<rparr>"] Some add
      by (simp add: s')
    ultimately show ?thesis using add bal by (simp add: s')
  qed
  then show "core_inv s'" "total_supply s' = total_supply s + unat amt"
    "balance s' b = (if b = a then balance s a + unat amt else balance s b)" by simp_all
qed

lemma creditAccount_other:
  "creditAccount env a ab amt s = (r, s') \<Longrightarrow> a' \<noteq> a \<Longrightarrow>
     kv_get (Keeper.Account s') a' = kv_get (Keeper.Account s) a'"
  by (auto simp: creditAccount_cases split: option.splits)

lemma creditAccount_frame:
  assumes "creditAccount env a ab amt s = (r, s')"
  shows "Keeper.Params s' = Keeper.Params s" "Keeper.EmissionState s' = Keeper.EmissionState s"
    "Keeper.VouchSeq s' = Keeper.VouchSeq s" "Keeper.Vouch s' = Keeper.Vouch s"
    "Keeper.EscrowSeq s' = Keeper.EscrowSeq s" "Keeper.Escrow s' = Keeper.Escrow s"
    "Keeper.DisputeSeq s' = Keeper.DisputeSeq s" "Keeper.Dispute s' = Keeper.Dispute s"
    "Keeper.BondSeq s' = Keeper.BondSeq s" "Keeper.Bond s' = Keeper.Bond s"
    "Keeper.GateSeq s' = Keeper.GateSeq s" "Keeper.Gate s' = Keeper.Gate s"
    "Keeper.ContributionAwardSeq s' = Keeper.ContributionAwardSeq s"
    "Keeper.ContributionAward s' = Keeper.ContributionAward s"
    "Keeper.ScopedEvidenceVouchSeq s' = Keeper.ScopedEvidenceVouchSeq s"
    "Keeper.ScopedEvidenceVouch s' = Keeper.ScopedEvidenceVouch s"
    "Keeper.Events s' = Keeper.Events s"
  using assms by (auto simp: creditAccount_cases split: option.splits)

lemma ensureRegistered_ok:
  assumes "ensureRegistered env a ab amt s = (Inr r, s')" and "core_inv s"
  shows "core_inv s' \<and> total_supply s' = total_supply s"
proof (cases "kv_get (Keeper.Account s) a")
  case None
  then show ?thesis
    using assms
    by (auto simp: ensureRegistered_def Let_def supply_setAccount_new newAccount_def split: if_splits)
next
  case (Some acc)
  then show ?thesis
    using assms core_inv_registered [OF assms(2) Some]
      supply_setAccount_old [of "ensureAuthAccount env ab s" a acc acc]
    by (auto simp: ensureRegistered_def Let_def)
qed

lemma ensureRegistered_other:
  "ensureRegistered env a ab amt s = (r, s') \<Longrightarrow> a' \<noteq> a \<Longrightarrow>
     kv_get (Keeper.Account s') a' = kv_get (Keeper.Account s) a'"
  by (auto simp: ensureRegistered_def Let_def split: option.splits if_splits)

lemma ensureRegistered_frame:
  assumes "ensureRegistered env a ab amt s = (r, s')"
  shows "Keeper.Params s' = Keeper.Params s" "Keeper.EmissionState s' = Keeper.EmissionState s"
    "Keeper.VouchSeq s' = Keeper.VouchSeq s" "Keeper.Vouch s' = Keeper.Vouch s"
    "Keeper.EscrowSeq s' = Keeper.EscrowSeq s" "Keeper.Escrow s' = Keeper.Escrow s"
    "Keeper.DisputeSeq s' = Keeper.DisputeSeq s" "Keeper.Dispute s' = Keeper.Dispute s"
    "Keeper.BondSeq s' = Keeper.BondSeq s" "Keeper.Bond s' = Keeper.Bond s"
    "Keeper.GateSeq s' = Keeper.GateSeq s" "Keeper.Gate s' = Keeper.Gate s"
    "Keeper.ContributionAwardSeq s' = Keeper.ContributionAwardSeq s"
    "Keeper.ContributionAward s' = Keeper.ContributionAward s"
    "Keeper.ScopedEvidenceVouchSeq s' = Keeper.ScopedEvidenceVouchSeq s"
    "Keeper.ScopedEvidenceVouch s' = Keeper.ScopedEvidenceVouch s"
  using assms by (auto simp: ensureRegistered_def Let_def split: option.splits if_splits)

end
