(* ===== verification/Emission.thy ===== *)
theory Emission
  imports Accounting
begin

text \<open>
  Monetary policy (\<^verbatim>\<open>keeper/emission.go\<close> and the emission part of \<^verbatim>\<open>types/genesis.go\<close>): the
  hard cap, the fixed epochs, the roll-over that burns what an epoch did not mint, and the
  one helper through which every protocol mint goes.

  The roll-over loop of \<open>syncEmissionState\<close> compares signed block times with wrapping
  addition and may in principle run for ever, so it is a partial function; that it returns,
  and in which epoch, is proved below for clocks away from the end of the int64 range.
\<close>

section \<open>The state of the schedule\<close>

definition DefaultEmissionState :: "i64 \<Rightarrow> EmissionState" where
  "DefaultEmissionState startedAt =
    \<lparr>EmissionState.MaxSupply = Constants.MaxSupply,
     EmissionState.EpochLengthSeconds = Constants.EpochLengthSeconds,
     EmissionState.EpochRewardDivisor = Constants.EpochRewardDivisor,
     EmissionState.GenesisTime = startedAt,
     EmissionState.CurrentEpoch = 1,
     EmissionState.EpochStartedAt = startedAt,
     EmissionState.EpochScheduled = Constants.MaxSupply div Constants.EpochRewardDivisor,
     EmissionState.EpochMined = 0,
     EmissionState.TotalMined = 0,
     EmissionState.TotalBurnedUnclaimed = 0\<rparr>"

definition RemainingScheduled :: "EmissionState \<Rightarrow> u64" where
  "RemainingScheduled e =
    (if EmissionState.TotalMined e \<ge> EmissionState.MaxSupply e then 0
     else let remainingAfterMined = EmissionState.MaxSupply e - EmissionState.TotalMined e
     in if EmissionState.TotalBurnedUnclaimed e \<ge> remainingAfterMined then 0
     else remainingAfterMined - EmissionState.TotalBurnedUnclaimed e)"

definition RemainingEpoch :: "EmissionState \<Rightarrow> u64" where
  "RemainingEpoch e =
    (if EmissionState.EpochMined e \<ge> EmissionState.EpochScheduled e then 0
     else EmissionState.EpochScheduled e - EmissionState.EpochMined e)"

text \<open>An integer division by zero panics in Go.\<close>

definition nextEpochScheduled :: "EmissionState \<Rightarrow> go_error + u64" where
  "nextEpochScheduled e =
    (let remaining = RemainingScheduled e
     in if remaining = 0 then Inr 0
     else if EmissionState.EpochRewardDivisor e = 0
       then Inl (RuntimePanic ''integer divide by zero'')
     else let scheduled = remaining div EmissionState.EpochRewardDivisor e
     in if scheduled = 0 then Inr remaining else Inr scheduled)"

definition getEmissionState :: "Env \<Rightarrow> Keeper \<Rightarrow> EmissionState \<times> Keeper" where
  "getEmissionState env s =
    (let (e, s1) = (case Keeper.EmissionState s of
          None \<Rightarrow> (let d = DefaultEmissionState (BlockTime env)
                   in (d, s\<lparr>Keeper.EmissionState := Some d\<rparr>))
        | Some e \<Rightarrow> (e, s))
     in if EmissionState.MaxSupply e = 0
        then (let d = DefaultEmissionState (BlockTime env)
              in (d, s1\<lparr>Keeper.EmissionState := Some d\<rparr>))
        else (e, s1))"

definition peekEmissionState :: "Env \<Rightarrow> Keeper \<Rightarrow> EmissionState" where
  "peekEmissionState env s =
    (case Keeper.EmissionState s of
       None \<Rightarrow> DefaultEmissionState (BlockTime env)
     | Some e \<Rightarrow>
         (if EmissionState.MaxSupply e = 0 then DefaultEmissionState (BlockTime env) else e))"

section \<open>The epoch roll-over\<close>

text \<open>One turn of the loop.\<close>

definition rollEpoch :: "i64 \<Rightarrow> EmissionState \<Rightarrow> go_error + EmissionState" where
  "rollEpoch epochLen e =
    (let burned = RemainingEpoch e;
         e1 = e\<lparr>EmissionState.TotalBurnedUnclaimed := EmissionState.TotalBurnedUnclaimed e + burned,
                EmissionState.CurrentEpoch := EmissionState.CurrentEpoch e + 1,
                EmissionState.EpochStartedAt := EmissionState.EpochStartedAt e + epochLen,
                EmissionState.EpochMined := 0\<rparr>
     in case nextEpochScheduled e1 of
          Inl err \<Rightarrow> Inl err
        | Inr scheduled \<Rightarrow> Inr (e1\<lparr>EmissionState.EpochScheduled := scheduled\<rparr>))"

partial_function (option) epochLoop ::
  "i64 \<Rightarrow> i64 \<Rightarrow> EmissionState \<Rightarrow> (go_error + EmissionState) option" where
  "epochLoop now epochLen e =
    (if 0 <s epochLen \<and> EmissionState.EpochStartedAt e + epochLen <=s now then
       (case rollEpoch epochLen e of
          Inl err \<Rightarrow> Some (Inl err)
        | Inr e1 \<Rightarrow> epochLoop now epochLen e1)
     else Some (Inr e))"

text \<open>The defaults \<open>syncEmissionState\<close> fills in before the loop.\<close>

definition fillEmissionDefaults :: "i64 \<Rightarrow> EmissionState \<Rightarrow> go_error + EmissionState" where
  "fillEmissionDefaults now e0 =
    (let e1 = (if EmissionState.GenesisTime e0 = 0 then e0\<lparr>EmissionState.GenesisTime := now\<rparr> else e0);
         e2 = (if EmissionState.EpochStartedAt e1 = 0 then e1\<lparr>EmissionState.EpochStartedAt := now\<rparr> else e1);
         e3 = (if EmissionState.CurrentEpoch e2 = 0 then e2\<lparr>EmissionState.CurrentEpoch := 1\<rparr> else e2);
         e4 = (if EmissionState.EpochLengthSeconds e3 = 0
               then e3\<lparr>EmissionState.EpochLengthSeconds := Constants.EpochLengthSeconds\<rparr> else e3);
         e5 = (if EmissionState.EpochRewardDivisor e4 = 0
               then e4\<lparr>EmissionState.EpochRewardDivisor := Constants.EpochRewardDivisor\<rparr> else e4)
     in if EmissionState.EpochScheduled e5 = 0 \<and> RemainingScheduled e5 > 0
        then (case nextEpochScheduled e5 of
                Inl err \<Rightarrow> Inl err
              | Inr scheduled \<Rightarrow> Inr (e5\<lparr>EmissionState.EpochScheduled := scheduled\<rparr>))
        else Inr e5)"

definition syncEmissionState :: "Env \<Rightarrow> Keeper \<Rightarrow> EmissionState result" where
  "syncEmissionState env s =
    (let (e0, s1) = getEmissionState env s;
         now = BlockTime env
     in case fillEmissionDefaults now e0 of
          Inl err \<Rightarrow> fail err s1
        | Inr e1 \<Rightarrow>
            (let epochLen = EmissionState.EpochLengthSeconds e1
             in case epochLoop now epochLen e1 of
                  None \<Rightarrow> fail NoReturn s1
                | Some (Inl err) \<Rightarrow> fail err s1
                | Some (Inr e) \<Rightarrow> respond e (s1\<lparr>Keeper.EmissionState := Some e\<rparr>)))"

section \<open>The mint rail\<close>

definition mintProtocolReward ::
  "Env \<Rightarrow> string \<Rightarrow> string \<Rightarrow> u64 \<Rightarrow> string \<Rightarrow> Keeper \<Rightarrow> unit result" where
  "mintProtocolReward env recipient recipientBytes amount rail s =
    (if amount = 0 then fail (ErrInvalidRequest ''mint amount must be positive'') s
     else case checkNewAccountCredit s recipient amount of
       Some err \<Rightarrow> fail err s
     | None \<Rightarrow>
    (case syncEmissionState env s of
       (Inl err, s1) \<Rightarrow> fail err s1
     | (Inr e, s1) \<Rightarrow>
    (if amount > RemainingScheduled e then
       fail (ErrInvalidRequest (''mint exceeds remaining max supply (''
               @ FormatUint (RemainingScheduled e) @ '')'')) s1
     else if amount > RemainingEpoch e then
       fail (ErrInvalidRequest (''mint exceeds remaining epoch reward (''
               @ FormatUint (RemainingEpoch e) @ '')'')) s1
     else
       (let e1 = e\<lparr>EmissionState.TotalMined := EmissionState.TotalMined e + amount,
                   EmissionState.EpochMined := EmissionState.EpochMined e + amount\<rparr>;
            s2 = s1\<lparr>Keeper.EmissionState := Some e1\<rparr>
        in case creditAccount env recipient recipientBytes amount s2 of
             (Inl err, s3) \<Rightarrow> fail err s3
           | (Inr _, s3) \<Rightarrow>
               respond () (emit ''agntcoin_protocol_mint''
                 [(''recipient'', recipient),
                  (''amount'', FormatUint amount),
                  (''rail'', rail),
                  (''epoch'', FormatUint (EmissionState.CurrentEpoch e1)),
                  (''epoch_mined'', FormatUint (EmissionState.EpochMined e1)),
                  (''epoch_scheduled'', FormatUint (EmissionState.EpochScheduled e1)),
                  (''total_mined'', FormatUint (EmissionState.TotalMined e1)),
                  (''total_burned_unclaimed'', FormatUint (EmissionState.TotalBurnedUnclaimed e1))] s3)))))"

section \<open>Arithmetic of the schedule\<close>

lemma unat_RemainingScheduled:
  "unat (RemainingScheduled e) =
     unat (EmissionState.MaxSupply e) - unat (EmissionState.TotalMined e)
       - unat (EmissionState.TotalBurnedUnclaimed e)"
  by (auto simp: RemainingScheduled_def Let_def u64_le_iff unat_sub_no_wrap not_le)

lemma unat_RemainingEpoch:
  "unat (RemainingEpoch e) = unat (EmissionState.EpochScheduled e) - unat (EmissionState.EpochMined e)"
  by (auto simp: RemainingEpoch_def u64_le_iff unat_sub_no_wrap not_le)

definition emission_ok :: "EmissionState \<Rightarrow> bool" where
  "emission_ok e \<longleftrightarrow>
     unat (EmissionState.TotalMined e) + unat (EmissionState.TotalBurnedUnclaimed e)
       \<le> unat (EmissionState.MaxSupply e)
   \<and> unat (EmissionState.EpochMined e) \<le> unat (EmissionState.EpochScheduled e)
   \<and> unat (RemainingEpoch e) \<le> unat (RemainingScheduled e)"

lemma emission_ok_default: "emission_ok (DefaultEmissionState t)"
  by (simp add: emission_ok_def DefaultEmissionState_def unat_RemainingScheduled unat_RemainingEpoch
      Constants.MaxSupply_def Constants.EpochRewardDivisor_def)

lemma nextEpochScheduled_le:
  assumes "nextEpochScheduled e = Inr n"
  shows "unat n \<le> unat (RemainingScheduled e)"
  using assms
  by (auto simp: nextEpochScheduled_def Let_def unat_div_distrib split: if_splits)

lemma nextEpochScheduled_returns:
  "EmissionState.EpochRewardDivisor e \<noteq> 0 \<Longrightarrow> \<exists>n. nextEpochScheduled e = Inr n"
  by (auto simp: nextEpochScheduled_def Let_def)

lemma rollEpoch_frame:
  assumes "rollEpoch len e = Inr e'"
  shows "EmissionState.MaxSupply e' = EmissionState.MaxSupply e"
    "EmissionState.TotalMined e' = EmissionState.TotalMined e"
    "EmissionState.EpochLengthSeconds e' = EmissionState.EpochLengthSeconds e"
    "EmissionState.EpochRewardDivisor e' = EmissionState.EpochRewardDivisor e"
    "EmissionState.EpochStartedAt e' = EmissionState.EpochStartedAt e + len"
    "EmissionState.CurrentEpoch e' = EmissionState.CurrentEpoch e + 1"
    "EmissionState.EpochMined e' = 0"
    "EmissionState.TotalBurnedUnclaimed e' = EmissionState.TotalBurnedUnclaimed e + RemainingEpoch e"
    "EmissionState.GenesisTime e' = EmissionState.GenesisTime e"
  using assms by (auto simp: rollEpoch_def Let_def split: sum.splits)

lemma rollEpoch_returns:
  "EmissionState.EpochRewardDivisor e \<noteq> 0 \<Longrightarrow> \<exists>e'. rollEpoch len e = Inr e'"
  unfolding rollEpoch_def Let_def
  using nextEpochScheduled_returns
    [of "e\<lparr>EmissionState.TotalBurnedUnclaimed := EmissionState.TotalBurnedUnclaimed e + RemainingEpoch e,
       EmissionState.CurrentEpoch := EmissionState.CurrentEpoch e + 1,
       EmissionState.EpochStartedAt := EmissionState.EpochStartedAt e + len, EmissionState.EpochMined := 0\<rparr>"]
  by (auto split: sum.splits)

lemma burn_no_wrap:
  assumes "emission_ok e"
  shows "unat (EmissionState.TotalBurnedUnclaimed e + RemainingEpoch e)
       = unat (EmissionState.TotalBurnedUnclaimed e) + unat (RemainingEpoch e)"
proof (rule unat_add_no_wrap)
  have "unat (EmissionState.TotalBurnedUnclaimed e) + unat (RemainingEpoch e) \<le> unat (EmissionState.MaxSupply e)"
    using assms unfolding emission_ok_def unat_RemainingScheduled by linarith
  then show "unat (EmissionState.TotalBurnedUnclaimed e) + unat (RemainingEpoch e) < 2 ^ 64"
    using unat_u64_less [of "EmissionState.MaxSupply e"] by linarith
qed

lemma rollEpoch_ok:
  assumes "rollEpoch len e = Inr e'" and "emission_ok e"
  shows "emission_ok e' \<and>
    unat (EmissionState.TotalBurnedUnclaimed e') =
      unat (EmissionState.TotalBurnedUnclaimed e) + unat (RemainingEpoch e)"
proof -
  let ?e1 = "e\<lparr>EmissionState.TotalBurnedUnclaimed := EmissionState.TotalBurnedUnclaimed e + RemainingEpoch e,
       EmissionState.CurrentEpoch := EmissionState.CurrentEpoch e + 1,
       EmissionState.EpochStartedAt := EmissionState.EpochStartedAt e + len, EmissionState.EpochMined := 0\<rparr>"
  from assms(1) obtain n where n: "nextEpochScheduled ?e1 = Inr n"
    and e': "e' = ?e1\<lparr>EmissionState.EpochScheduled := n\<rparr>"
    by (auto simp: rollEpoch_def Let_def split: sum.splits)
  have "unat n \<le> unat (RemainingScheduled ?e1)"
    using n by (rule nextEpochScheduled_le)
  then show ?thesis
    using assms(2) burn_no_wrap [OF assms(2)]
    by (auto simp: e' emission_ok_def unat_RemainingScheduled unat_RemainingEpoch)
qed

section \<open>The loop\<close>

text \<open>What the loop keeps, whenever it returns.\<close>

definition schedule_kept :: "EmissionState \<Rightarrow> EmissionState \<Rightarrow> bool" where
  "schedule_kept e e' \<longleftrightarrow> emission_ok e'
     \<and> EmissionState.TotalMined e' = EmissionState.TotalMined e
     \<and> EmissionState.MaxSupply e' = EmissionState.MaxSupply e
     \<and> EmissionState.EpochLengthSeconds e' = EmissionState.EpochLengthSeconds e
     \<and> EmissionState.EpochRewardDivisor e' = EmissionState.EpochRewardDivisor e
     \<and> unat (EmissionState.TotalBurnedUnclaimed e) \<le> unat (EmissionState.TotalBurnedUnclaimed e')"

lemma schedule_kept_refl: "emission_ok e \<Longrightarrow> schedule_kept e e"
  by (simp add: schedule_kept_def)

lemma schedule_kept_trans: "schedule_kept e e1 \<Longrightarrow> schedule_kept e1 e2 \<Longrightarrow> schedule_kept e e2"
  by (simp add: schedule_kept_def)

lemma rollEpoch_kept: "rollEpoch len e = Inr e' \<Longrightarrow> emission_ok e \<Longrightarrow> schedule_kept e e'"
  using rollEpoch_frame [of len e e'] rollEpoch_ok [of len e e'] by (simp add: schedule_kept_def)

text \<open>What every turn keeps, the loop keeps.\<close>

lemma epochLoop_keeps:
  assumes turn: "\<And>e e'. rollEpoch len e = Inr e' \<Longrightarrow> P e \<Longrightarrow> P e'"
    and loop: "epochLoop now len e = Some (Inr e')" and "P e"
  shows "P e'"
proof -
  have "len1 = len \<longrightarrow> P e1 \<longrightarrow> (\<forall>e'. r = Inr e' \<longrightarrow> P e')" if "epochLoop now1 len1 e1 = Some r" for now1 len1 e1 r
  proof (rule epochLoop.raw_induct [where P = "\<lambda>now1 len1 e1 r. len1 = len \<longrightarrow> P e1 \<longrightarrow> (\<forall>e'. r = Inr e' \<longrightarrow> P e')", OF _ that])
    fix f now1 len1 e1 r
    assume IH: "\<And>now1 len1 e1 r. f now1 len1 e1 = Some r \<Longrightarrow> len1 = len \<longrightarrow> P e1 \<longrightarrow> (\<forall>e'. r = Inr e' \<longrightarrow> P e')"
      and eq: "(if 0 <s len1 \<and> EmissionState.EpochStartedAt e1 + len1 <=s now1 then
         (case rollEpoch len1 e1 of Inl err \<Rightarrow> Some (Inl err) | Inr e2 \<Rightarrow> f now1 len1 e2)
       else Some (Inr e1)) = Some r"
    show "len1 = len \<longrightarrow> P e1 \<longrightarrow> (\<forall>e'. r = Inr e' \<longrightarrow> P e')"
      using eq turn [of e1] IH [of now1 len1 _ r] by (cases "rollEpoch len1 e1") (auto split: if_splits)
  qed
  then show ?thesis using loop assms(3) by blast
qed

lemma epochLoop_kept:
  "epochLoop now len e = Some (Inr e') \<Longrightarrow> emission_ok e \<Longrightarrow> schedule_kept e e'"
  by (rule epochLoop_keeps [where P = "schedule_kept e" and e = e])
    (auto intro: schedule_kept_refl schedule_kept_trans dest: rollEpoch_kept simp: schedule_kept_def)

text \<open>
  The loop returns: with a divisor to divide by and the clock at least one epoch away from
  the end of the int64 range, it takes exactly \<open>n\<close> turns for the \<open>n\<close> whole epochs that
  have passed, and stops in the epoch that contains \<open>now\<close>.
\<close>

lemma epochLoop_returns:
  assumes "EmissionState.EpochRewardDivisor e \<noteq> 0" and "0 < sint len"
    and "sint now + sint len < 2 ^ 63" and "sint (EmissionState.EpochStartedAt e) + sint len < 2 ^ 63"
  shows "\<exists>e'. epochLoop now len e = Some (Inr e')
     \<and> sint (EmissionState.EpochStartedAt e') = sint (EmissionState.EpochStartedAt e)
         + sint len * max 0 ((sint now - sint (EmissionState.EpochStartedAt e)) div sint len)
     \<and> EmissionState.CurrentEpoch e' = EmissionState.CurrentEpoch e
         + of_int (max 0 ((sint now - sint (EmissionState.EpochStartedAt e)) div sint len))"
  using assms
proof (induction "nat (sint now - sint (EmissionState.EpochStartedAt e))" arbitrary: e rule: less_induct)
  case less
  let ?st = "sint (EmissionState.EpochStartedAt e)"
  have sum: "sint (EmissionState.EpochStartedAt e + len) = ?st + sint len"
    using less.prems sint_i64_bounds [of "EmissionState.EpochStartedAt e"] by (intro sint_add_no_wrap) auto
  show ?case
  proof (cases "?st + sint len \<le> sint now")
    case True
    obtain e1 where e1: "rollEpoch len e = Inr e1" using rollEpoch_returns less.prems(1) by blast
    note fr = rollEpoch_frame [OF e1]
    have "\<exists>e'. epochLoop now len e1 = Some (Inr e')
     \<and> sint (EmissionState.EpochStartedAt e') = sint (EmissionState.EpochStartedAt e1)
         + sint len * max 0 ((sint now - sint (EmissionState.EpochStartedAt e1)) div sint len)
     \<and> EmissionState.CurrentEpoch e' = EmissionState.CurrentEpoch e1
         + of_int (max 0 ((sint now - sint (EmissionState.EpochStartedAt e1)) div sint len))"
      using less.prems True by (intro less.hyps) (auto simp: fr sum)
    then obtain e' where e': "epochLoop now len e1 = Some (Inr e')"
      and st': "sint (EmissionState.EpochStartedAt e') = sint (EmissionState.EpochStartedAt e1)
         + sint len * max 0 ((sint now - sint (EmissionState.EpochStartedAt e1)) div sint len)"
      and ep': "EmissionState.CurrentEpoch e' = EmissionState.CurrentEpoch e1
         + of_int (max 0 ((sint now - sint (EmissionState.EpochStartedAt e1)) div sint len))"
      by blast
    define q where "q = (sint now - ?st) div sint len"
    have step: "(sint now - (?st + sint len)) div sint len = q - 1"
      using less.prems(2) div_add_self2 [of "sint len" "sint now - (?st + sint len)"]
      by (simp add: q_def algebra_simps)
    have q: "1 \<le> q"
      using True less.prems(2) by (simp add: q_def pos_imp_zdiv_pos_iff int_one_le_iff_zero_less)
    have "epochLoop now len e = Some (Inr e')"
      using True less.prems(2) e' e1 by (subst epochLoop.simps) (simp add: i64_less_iff i64_le_iff sum)
    moreover have "max 0 (q - 1) = q - 1" and "max 0 q = q" using q by auto
    ultimately show ?thesis
      using st' ep' unfolding fr sum step q_def [symmetric]
      by (simp add: algebra_simps)
  next
    case False
    have "epochLoop now len e = Some (Inr e)"
      using False by (subst epochLoop.simps) (simp add: i64_le_iff sum)
    moreover have "(sint now - ?st) div sint len \<le> 0"
      using False less.prems(2) by (cases "sint now - ?st < 0") (auto simp: div_neg_pos_less0 order_less_imp_le div_pos_pos_trivial)
    ultimately show ?thesis by (simp add: max_def)
  qed
qed

section \<open>Synchronisation and minting keep the schedule\<close>

text \<open>The defaults without the schedule of the epoch; only \<open>EpochScheduled\<close> is set after them.\<close>

definition filledDefaults :: "i64 \<Rightarrow> EmissionState \<Rightarrow> EmissionState" where
  "filledDefaults now e =
     e\<lparr>EmissionState.GenesisTime := (if EmissionState.GenesisTime e = 0 then now else EmissionState.GenesisTime e),
       EmissionState.EpochStartedAt :=
         (if EmissionState.EpochStartedAt e = 0 then now else EmissionState.EpochStartedAt e),
       EmissionState.CurrentEpoch := (if EmissionState.CurrentEpoch e = 0 then 1 else EmissionState.CurrentEpoch e),
       EmissionState.EpochLengthSeconds := (if EmissionState.EpochLengthSeconds e = 0
          then Constants.EpochLengthSeconds else EmissionState.EpochLengthSeconds e),
       EmissionState.EpochRewardDivisor := (if EmissionState.EpochRewardDivisor e = 0
          then Constants.EpochRewardDivisor else EmissionState.EpochRewardDivisor e)\<rparr>"

lemma fillEmissionDefaults_eq:
  "fillEmissionDefaults now e =
     (let e5 = filledDefaults now e
      in if EmissionState.EpochScheduled e5 = 0 \<and> RemainingScheduled e5 > 0
         then (case nextEpochScheduled e5 of
                 Inl err \<Rightarrow> Inl err
               | Inr scheduled \<Rightarrow> Inr (e5\<lparr>EmissionState.EpochScheduled := scheduled\<rparr>))
         else Inr e5)"
proof -
  have "(let e1 = (if EmissionState.GenesisTime e = 0 then e\<lparr>EmissionState.GenesisTime := now\<rparr> else e);
         e2 = (if EmissionState.EpochStartedAt e1 = 0 then e1\<lparr>EmissionState.EpochStartedAt := now\<rparr> else e1);
         e3 = (if EmissionState.CurrentEpoch e2 = 0 then e2\<lparr>EmissionState.CurrentEpoch := 1\<rparr> else e2);
         e4 = (if EmissionState.EpochLengthSeconds e3 = 0
               then e3\<lparr>EmissionState.EpochLengthSeconds := Constants.EpochLengthSeconds\<rparr> else e3)
       in if EmissionState.EpochRewardDivisor e4 = 0
          then e4\<lparr>EmissionState.EpochRewardDivisor := Constants.EpochRewardDivisor\<rparr> else e4)
     = filledDefaults now e"
    unfolding filledDefaults_def Let_def by (cases e) simp
  then show ?thesis
    unfolding fillEmissionDefaults_def Let_def by (simp only:)
qed

lemma filledDefaults_simps [simp]:
  "EmissionState.MaxSupply (filledDefaults now e) = EmissionState.MaxSupply e"
  "EmissionState.EpochScheduled (filledDefaults now e) = EmissionState.EpochScheduled e"
  "EmissionState.EpochMined (filledDefaults now e) = EmissionState.EpochMined e"
  "EmissionState.TotalMined (filledDefaults now e) = EmissionState.TotalMined e"
  "EmissionState.TotalBurnedUnclaimed (filledDefaults now e) = EmissionState.TotalBurnedUnclaimed e"
  "EmissionState.EpochRewardDivisor (filledDefaults now e) \<noteq> 0"
  "EmissionState.EpochLengthSeconds (filledDefaults now e) \<noteq> 0"
  by (simp_all add: filledDefaults_def Constants.EpochRewardDivisor_def Constants.EpochLengthSeconds_def)

lemma fillEmissionDefaults_returns: "\<exists>e1. fillEmissionDefaults now e0 = Inr e1"
proof -
  obtain n where "nextEpochScheduled (filledDefaults now e0) = Inr n"
    using nextEpochScheduled_returns [of "filledDefaults now e0"] by auto
  then show ?thesis by (simp add: fillEmissionDefaults_eq Let_def)
qed

lemma fillEmissionDefaults_ok:
  assumes "fillEmissionDefaults now e0 = Inr e1" and "emission_ok e0"
  shows "emission_ok e1 \<and> EmissionState.TotalMined e1 = EmissionState.TotalMined e0
    \<and> EmissionState.MaxSupply e1 = EmissionState.MaxSupply e0
    \<and> EmissionState.TotalBurnedUnclaimed e1 = EmissionState.TotalBurnedUnclaimed e0
    \<and> EmissionState.EpochRewardDivisor e1 \<noteq> 0 \<and> EmissionState.EpochLengthSeconds e1 \<noteq> 0"
proof -
  let ?e = "filledDefaults now e0"
  have ok: "emission_ok ?e"
    using assms(2) by (simp add: emission_ok_def unat_RemainingEpoch unat_RemainingScheduled)
  show ?thesis
  proof (cases "e1 = ?e")
    case True
    then show ?thesis using ok by simp
  next
    case False
    then obtain n where n: "nextEpochScheduled ?e = Inr n" and e1: "e1 = ?e\<lparr>EmissionState.EpochScheduled := n\<rparr>"
      and z: "EmissionState.EpochScheduled ?e = 0"
      using assms(1) by (auto simp: fillEmissionDefaults_eq Let_def split: if_splits sum.splits)
    have "unat n \<le> unat (RemainingScheduled ?e)" using n by (rule nextEpochScheduled_le)
    moreover have "EmissionState.EpochMined ?e = 0"
      using ok z by (simp add: emission_ok_def unat_eq_0)
    ultimately show ?thesis
      using ok z by (simp add: e1 emission_ok_def unat_RemainingEpoch unat_RemainingScheduled)
  qed
qed

definition emission_inv :: "Keeper \<Rightarrow> bool" where
  "emission_inv s \<longleftrightarrow>
     (case Keeper.EmissionState s of
        None \<Rightarrow> True
      | Some e \<Rightarrow> EmissionState.MaxSupply e \<noteq> 0 \<and> emission_ok e)"

text \<open>What was minted so far, and what may still be minted.\<close>

definition minedTotal :: "Keeper \<Rightarrow> nat" where
  "minedTotal s =
     (case Keeper.EmissionState s of None \<Rightarrow> 0 | Some e \<Rightarrow> unat (EmissionState.TotalMined e))"

definition mintable :: "Keeper \<Rightarrow> nat" where
  "mintable s =
     (case Keeper.EmissionState s of
        None \<Rightarrow> unat Constants.MaxSupply
      | Some e \<Rightarrow> unat (RemainingScheduled e))"

lemma emission_unchanged:
  assumes "Keeper.EmissionState s' = Keeper.EmissionState s"
  shows "emission_inv s' = emission_inv s" "minedTotal s' = minedTotal s" "mintable s' = mintable s"
  using assms by (simp_all add: emission_inv_def minedTotal_def mintable_def)

lemma getEmissionState_ok:
  assumes "getEmissionState env s = (e, s1)" and "emission_inv s"
  shows "s1 = s\<lparr>Keeper.EmissionState := Some e\<rparr>" "EmissionState.MaxSupply e \<noteq> 0" "emission_ok e"
    "unat (EmissionState.TotalMined e) = minedTotal s" "unat (RemainingScheduled e) = mintable s"
proof -
  have max: "EmissionState.MaxSupply (DefaultEmissionState t) \<noteq> 0" for t
    by (simp add: DefaultEmissionState_def Constants.MaxSupply_def)
  have rem: "unat (RemainingScheduled (DefaultEmissionState t)) = unat Constants.MaxSupply" for t
    by (simp add: unat_RemainingScheduled DefaultEmissionState_def)
  have mined: "EmissionState.TotalMined (DefaultEmissionState t) = 0" for t
    by (simp add: DefaultEmissionState_def)
  show "s1 = s\<lparr>Keeper.EmissionState := Some e\<rparr>" "EmissionState.MaxSupply e \<noteq> 0" "emission_ok e"
    "unat (EmissionState.TotalMined e) = minedTotal s" "unat (RemainingScheduled e) = mintable s"
    using assms max [of "BlockTime env"] rem [of "BlockTime env"] mined [of "BlockTime env"]
      emission_ok_default [of "BlockTime env"]
    by (auto simp: getEmissionState_def emission_inv_def minedTotal_def mintable_def Let_def
        split: option.splits if_splits)
qed

lemma schedule_kept_remaining:
  "schedule_kept e e' \<Longrightarrow> unat (RemainingScheduled e') \<le> unat (RemainingScheduled e)"
  by (simp add: schedule_kept_def unat_RemainingScheduled diff_le_mono2)

lemma syncEmissionState_ok:
  assumes "syncEmissionState env s = (r, s')" and "emission_inv s"
  shows "\<exists>e. s' = s\<lparr>Keeper.EmissionState := Some e\<rparr> \<and> EmissionState.MaxSupply e \<noteq> 0 \<and> emission_ok e
     \<and> unat (EmissionState.TotalMined e) = minedTotal s \<and> unat (RemainingScheduled e) \<le> mintable s
     \<and> (\<forall>e'. r = Inr e' \<longrightarrow> e' = e)"
proof -
  obtain e0 s1 where g: "getEmissionState env s = (e0, s1)" by (cases "getEmissionState env s")
  note g_ok = getEmissionState_ok [OF g assms(2)]
  obtain e1 where f: "fillEmissionDefaults (BlockTime env) e0 = Inr e1"
    using fillEmissionDefaults_returns by blast
  note f_ok = fillEmissionDefaults_ok [OF f g_ok(3)]
  let ?l = "epochLoop (BlockTime env) (EmissionState.EpochLengthSeconds e1) e1"
  show ?thesis
  proof (cases "\<exists>e. ?l = Some (Inr e)")
    case True
    then obtain e where e: "?l = Some (Inr e)" by blast
    have kept: "schedule_kept e1 e" using epochLoop_kept [OF e] f_ok by simp
    have "r = Inr e" and "s' = s\<lparr>Keeper.EmissionState := Some e\<rparr>"
      using assms(1) g f e g_ok(1) by (simp_all add: syncEmissionState_def Let_def)
    moreover have "unat (RemainingScheduled e) \<le> mintable s"
      using schedule_kept_remaining [OF kept] f_ok g_ok(5) by (simp add: unat_RemainingScheduled)
    ultimately show ?thesis
      using kept f_ok g_ok by (simp add: schedule_kept_def)
  next
    case False
    then have "\<exists>err. r = Inl err \<and> s' = s1"
      using assms(1) g f by (auto simp: syncEmissionState_def Let_def split: option.splits sum.splits)
    then show ?thesis using g_ok by auto
  qed
qed

lemma mintProtocolReward_ok:
  assumes "mintProtocolReward env a ab amt rail s = (Inr r, s')"
    and "core_inv s" and "emission_inv s" and "total_supply s + mintable s < 2 ^ 64"
  shows "core_inv s'" "emission_inv s'" "total_supply s' = total_supply s + unat amt"
    "minedTotal s' = minedTotal s + unat amt" "unat amt + mintable s' \<le> mintable s"
    "balance s' c = (if c = a then balance s a + unat amt else balance s c)"
proof -
  obtain e s1 where sync: "syncEmissionState env s = (Inr e, s1)"
    using assms(1) by (auto simp: mintProtocolReward_def split: if_splits option.splits sum.splits prod.splits)
  from syncEmissionState_ok [OF sync assms(3)]
  have s1: "s1 = s\<lparr>Keeper.EmissionState := Some e\<rparr>" and e: "EmissionState.MaxSupply e \<noteq> 0" "emission_ok e"
    "unat (EmissionState.TotalMined e) = minedTotal s" "unat (RemainingScheduled e) \<le> mintable s"
    by auto
  let ?e1 = "e\<lparr>EmissionState.TotalMined := EmissionState.TotalMined e + amt,
               EmissionState.EpochMined := EmissionState.EpochMined e + amt\<rparr>"
  have le: "unat amt \<le> unat (RemainingScheduled e)" "unat amt \<le> unat (RemainingEpoch e)"
    and cr: "\<exists>s3. creditAccount env a ab amt (s1\<lparr>Keeper.EmissionState := Some ?e1\<rparr>) = (Inr (), s3) \<and>
        (\<exists>n ats. s' = emit n ats s3)"
    using assms(1) sync
    by (auto simp: mintProtocolReward_def Let_def not_less u64_le_iff [symmetric]
        split: if_splits option.splits sum.splits prod.splits)
  then obtain s3 n ats where s3: "creditAccount env a ab amt (s\<lparr>Keeper.EmissionState := Some ?e1\<rparr>) = (Inr (), s3)"
    and s': "s' = emit n ats s3" unfolding s1 by auto
  have bounds: "unat (EmissionState.TotalMined e) + unat (EmissionState.TotalBurnedUnclaimed e)
      \<le> unat (EmissionState.MaxSupply e)" "unat (EmissionState.EpochMined e) \<le> unat (EmissionState.EpochScheduled e)"
    using e(2) by (simp_all add: emission_ok_def)
  have mined: "unat (EmissionState.TotalMined e + amt) = unat (EmissionState.TotalMined e) + unat amt"
    using le(1) unat_u64_less [of "EmissionState.MaxSupply e"] bounds
    by (intro unat_add_no_wrap) (simp add: unat_RemainingScheduled)
  have epoch: "unat (EmissionState.EpochMined e + amt) = unat (EmissionState.EpochMined e) + unat amt"
    using le(2) unat_u64_less [of "EmissionState.EpochScheduled e"] bounds
    by (intro unat_add_no_wrap) (simp add: unat_RemainingEpoch)
  have ok: "emission_ok ?e1"
    using bounds le e(2) unfolding emission_ok_def unat_RemainingScheduled unat_RemainingEpoch
    by (simp add: mined epoch) linarith
  have em: "Keeper.EmissionState s' = Some ?e1"
    using creditAccount_frame [OF s3] by (simp add: s')
  have "balance s a + unat amt < 2 ^ 64"
    using balance_le_total [of s a] le(1) e(4) assms(4) by linarith
  then have "core_inv s3 \<and> total_supply s3 = total_supply s + unat amt
      \<and> balance s3 c = (if c = a then balance s a + unat amt else balance s c)"
    using creditAccount_ok(1,2) [OF s3] creditAccount_ok(3) [OF s3, of c] assms(2) by simp
  then show "core_inv s'" "total_supply s' = total_supply s + unat amt"
    "balance s' c = (if c = a then balance s a + unat amt else balance s c)" by (simp_all add: s')
  show "emission_inv s'" "minedTotal s' = minedTotal s + unat amt"
    using ok e by (simp_all add: emission_inv_def minedTotal_def em mined)
  show "unat amt + mintable s' \<le> mintable s"
    using le(1) e(4) by (simp add: mintable_def em unat_RemainingScheduled mined)
qed

text \<open>Whatever the outcome, the other tables stay as they are.\<close>

definition same_tables :: "Keeper \<Rightarrow> Keeper \<Rightarrow> bool" where
  "same_tables s s' \<longleftrightarrow> Keeper.Params s' = Keeper.Params s
    \<and> Keeper.VouchSeq s' = Keeper.VouchSeq s \<and> Keeper.Vouch s' = Keeper.Vouch s
    \<and> Keeper.EscrowSeq s' = Keeper.EscrowSeq s \<and> Keeper.Escrow s' = Keeper.Escrow s
    \<and> Keeper.DisputeSeq s' = Keeper.DisputeSeq s \<and> Keeper.Dispute s' = Keeper.Dispute s
    \<and> Keeper.BondSeq s' = Keeper.BondSeq s \<and> Keeper.Bond s' = Keeper.Bond s
    \<and> Keeper.GateSeq s' = Keeper.GateSeq s \<and> Keeper.Gate s' = Keeper.Gate s
    \<and> Keeper.ContributionAwardSeq s' = Keeper.ContributionAwardSeq s
    \<and> Keeper.ContributionAward s' = Keeper.ContributionAward s
    \<and> Keeper.ScopedEvidenceVouchSeq s' = Keeper.ScopedEvidenceVouchSeq s
    \<and> Keeper.ScopedEvidenceVouch s' = Keeper.ScopedEvidenceVouch s"

lemma same_tables_refl [simp]: "same_tables s s"
  by (simp add: same_tables_def)

lemma same_tables_trans: "same_tables s s1 \<Longrightarrow> same_tables s1 s2 \<Longrightarrow> same_tables s s2"
  by (simp add: same_tables_def)

lemma same_tables_emission: "same_tables s (s\<lparr>Keeper.EmissionState := em\<rparr>)"
  and same_tables_emit: "same_tables s (emit n ats s)"
  by (simp_all add: same_tables_def)

lemma same_tables_credit: "creditAccount env a ab amt s = (r, s') \<Longrightarrow> same_tables s s'"
  by (simp add: same_tables_def creditAccount_frame)

lemma sync_writes:
  assumes "syncEmissionState env s = (r, s')"
  shows "\<exists>em. s' = s\<lparr>Keeper.EmissionState := em\<rparr>"
proof -
  obtain e0 s1 where g: "getEmissionState env s = (e0, s1)" by (cases "getEmissionState env s")
  have "s1 = s \<or> (\<exists>em. s1 = s\<lparr>Keeper.EmissionState := em\<rparr>)"
    using g by (auto simp: getEmissionState_def Let_def split: option.splits if_splits)
  then obtain em where "s1 = s\<lparr>Keeper.EmissionState := em\<rparr>"
    using that [of "Keeper.EmissionState s"] by auto
  moreover have "s' = s1 \<or> (\<exists>e. s' = s1\<lparr>Keeper.EmissionState := Some e\<rparr>)"
    using assms g by (auto simp: syncEmissionState_def Let_def split: option.splits sum.splits)
  ultimately show ?thesis by auto
qed

text \<open>The steps of a mint that succeeds.\<close>

lemma mint_steps:
  assumes "mintProtocolReward env a ab amt rail s = (Inr u, s')"
  obtains e s1 s3 n ats where "syncEmissionState env s = (Inr e, s1)"
    and "creditAccount env a ab amt (s1\<lparr>Keeper.EmissionState :=
           Some (e\<lparr>EmissionState.TotalMined := EmissionState.TotalMined e + amt,
                   EmissionState.EpochMined := EmissionState.EpochMined e + amt\<rparr>)\<rparr>) = (Inr (), s3)"
    and "s' = emit n ats s3"
  using assms that
  by (auto simp: mintProtocolReward_def Let_def split: if_splits option.splits prod.splits sum.splits)

lemma mintProtocolReward_frame:
  assumes "mintProtocolReward env a ab amt rail s = (Inr u, s')"
  shows "same_tables s s'"
  using assms
proof (rule mint_steps)
  fix e :: EmissionState and s1 s3 n ats
  let ?e1 = "e\<lparr>EmissionState.TotalMined := EmissionState.TotalMined e + amt,
               EmissionState.EpochMined := EmissionState.EpochMined e + amt\<rparr>"
  assume "syncEmissionState env s = (Inr e, s1)"
    and cr: "creditAccount env a ab amt (s1\<lparr>Keeper.EmissionState := Some ?e1\<rparr>) = (Inr (), s3)"
    and s': "s' = emit n ats s3"
  then have "same_tables s (s1\<lparr>Keeper.EmissionState := Some ?e1\<rparr>)"
    using sync_writes by (fastforce simp: same_tables_def)
  then show "same_tables s s'"
    using same_tables_credit [OF cr] same_tables_emit s' by (blast intro: same_tables_trans)
qed

end
