(* ===== verification/Contract.thy ===== *)
theory Contract
  imports Emission "HOL-Library.Sublist"
begin

text \<open>
  The contract every message handler meets, as locales. A handler that succeeds keeps the
  structural invariant and the monetary policy, accounts for every coin (what the supply
  gains was minted by the policy), takes at most one number from each sequence, and moves
  the stored records only along their life cycles: an escrow along \<open>escrow_move\<close>, a bond
  from active to released or slashed, a dispute from open to resolved, a gate from open to
  settled, with the terms of each record fixed. \<open>moving_handler\<close> is the contract of a handler
  that mints and burns nothing; \<open>conserving_handler\<close> of one that burns nothing. The
  theories of the handlers interpret them, and the theory \<open>Chain\<close> uses the
  interpretations for the whole message server.
\<close>

section \<open>Life cycles\<close>

text \<open>The status changes of an escrow, with the messages that make them.\<close>

inductive escrow_move :: "string \<Rightarrow> string \<Rightarrow> bool" where
  submit: "escrow_move EscrowStatusLocked EscrowStatusSubmitted"
| release_locked: "escrow_move EscrowStatusLocked EscrowStatusReleased"
| refund_locked: "escrow_move EscrowStatusLocked EscrowStatusRefunded"
| release_submitted: "escrow_move EscrowStatusSubmitted EscrowStatusReleased"
| dispute: "escrow_move EscrowStatusSubmitted EscrowStatusDisputed"
| attest_fail: "escrow_move EscrowStatusSubmitted EscrowStatusFailAttested"
| open_submitted: "escrow_move EscrowStatusSubmitted EscrowStatusInJury"
| release_disputed: "escrow_move EscrowStatusDisputed EscrowStatusReleased"
| open_disputed: "escrow_move EscrowStatusDisputed EscrowStatusInJury"
| release_failed: "escrow_move EscrowStatusFailAttested EscrowStatusReleased"
| refund_failed: "escrow_move EscrowStatusFailAttested EscrowStatusRefunded"
| contest: "escrow_move EscrowStatusFailAttested EscrowStatusInJury"
| accept: "escrow_move EscrowStatusInJury EscrowStatusReleased"
| reject: "escrow_move EscrowStatusInJury EscrowStatusRefunded"
| challenge: "escrow_move EscrowStatusReleased EscrowStatusChallenged"
| restore: "escrow_move EscrowStatusChallenged EscrowStatusReleased"

lemmas escrow_moves [simp] = escrow_move.intros

inductive_simps from_refunded [simp]: "escrow_move EscrowStatusRefunded st"
inductive_simps from_released [simp]: "escrow_move EscrowStatusReleased st"
inductive_simps from_challenged [simp]: "escrow_move EscrowStatusChallenged st"
inductive_simps to_locked [simp]: "escrow_move st EscrowStatusLocked"
inductive_simps to_refunded: "escrow_move st EscrowStatusRefunded"

definition same_terms :: "Escrow \<Rightarrow> Escrow \<Rightarrow> bool" where
  "same_terms e e' \<longleftrightarrow> Escrow.Id e' = Escrow.Id e \<and> Escrow.Payer e' = Escrow.Payer e
     \<and> Escrow.Payee e' = Escrow.Payee e \<and> Escrow.Amount e' = Escrow.Amount e
     \<and> Escrow.Ref e' = Escrow.Ref e \<and> Escrow.Deadline e' = Escrow.Deadline e
     \<and> Escrow.NoAutoRelease e' = Escrow.NoAutoRelease e
     \<and> Escrow.VerifierAddrs e' = Escrow.VerifierAddrs e
     \<and> Escrow.VerifierQuorum e' = Escrow.VerifierQuorum e
     \<and> Escrow.AcceptanceHash e' = Escrow.AcceptanceHash e"

definition same_delivery :: "Escrow \<Rightarrow> Escrow \<Rightarrow> bool" where
  "same_delivery e e' \<longleftrightarrow> Escrow.DeliveryHash e' = Escrow.DeliveryHash e
     \<and> Escrow.KeyHash e' = Escrow.KeyHash e \<and> Escrow.ArtifactUri e' = Escrow.ArtifactUri e
     \<and> Escrow.SubmittedAt e' = Escrow.SubmittedAt e"

definition escrow_step :: "Escrow \<Rightarrow> Escrow \<Rightarrow> bool" where
  "escrow_step e e' \<longleftrightarrow> same_terms e e'
     \<and> (Escrow.Status e' = Escrow.Status e \<or> escrow_move (Escrow.Status e) (Escrow.Status e'))
     \<and> (Escrow.Status e \<noteq> EscrowStatusLocked \<longrightarrow> same_delivery e e')
     \<and> (Escrow.Attestations e' = Escrow.Attestations e \<or>
          (\<exists>a. Escrow.Attestations e' = Escrow.Attestations e @ [a] \<and> Escrow.Status e = EscrowStatusSubmitted
             \<and> Attestation.Verifier a \<in> set (Escrow.VerifierAddrs e)
             \<and> Attestation.Verifier a \<notin> Attestation.Verifier ` set (Escrow.Attestations e)
             \<and> Attestation.DeliveryHash a = Escrow.DeliveryHash e \<and> Attestation.KeyHash a = Escrow.KeyHash e
             \<and> Attestation.AcceptanceHash a = Escrow.AcceptanceHash e))"

definition bond_step :: "Bond \<Rightarrow> Bond \<Rightarrow> bool" where
  "bond_step b b' \<longleftrightarrow> b' = b \<or>
     (Bond.Status b = BondStatusActive \<and>
       (b' = b\<lparr>Bond.Status := BondStatusReleased\<rparr> \<or> b' = b\<lparr>Bond.Status := BondStatusSlashed\<rparr>))"

definition dispute_step :: "Dispute \<Rightarrow> Dispute \<Rightarrow> bool" where
  "dispute_step d d' \<longleftrightarrow> d' = d \<or>
     (Dispute.Status d = DisputeStatusOpen \<and>
       ((\<exists>v. d' = d\<lparr>Dispute.Votes := Dispute.Votes d @ [v]\<rparr> \<and> Vote.Juror v \<notin> Vote.Juror ` set (Dispute.Votes d)) \<or>
        (\<exists>res. res \<in> {DisputeResolutionAccept, DisputeResolutionReject} \<and>
           d' = d\<lparr>Dispute.Status := DisputeStatusResolved, Dispute.Resolution := res\<rparr>)))"

definition same_gate_terms :: "Gate \<Rightarrow> Gate \<Rightarrow> bool" where
  "same_gate_terms g g' \<longleftrightarrow> Gate.Id g' = Gate.Id g \<and> Gate.Poster g' = Gate.Poster g
     \<and> Gate.PayloadUri g' = Gate.PayloadUri g \<and> Gate.PayloadHash g' = Gate.PayloadHash g
     \<and> Gate.GoldCommit g' = Gate.GoldCommit g \<and> Gate.Drip g' = Gate.Drip g
     \<and> Gate.MaxAnswers g' = Gate.MaxAnswers g \<and> Gate.CommitDeadline g' = Gate.CommitDeadline g
     \<and> Gate.RevealDeadline g' = Gate.RevealDeadline g"

definition answer_keys :: "Gate \<Rightarrow> (string \<times> string) list" where
  "answer_keys g = map (\<lambda>a. (GateAnswer.Agent a, GateAnswer.Commit a)) (Gate.Answers g)"

definition gate_step :: "Gate \<Rightarrow> Gate \<Rightarrow> bool" where
  "gate_step g g' \<longleftrightarrow> g' = g \<or>
     (Gate.Status g = GateStatusOpen \<and> same_gate_terms g g'
       \<and> prefix (answer_keys g) (answer_keys g')
       \<and> (Gate.Status g' = GateStatusOpen \<or> Gate.Status g' = GateStatusSettled))"

text \<open>How a record is born.\<close>

definition born_escrow :: "Escrow \<Rightarrow> bool" where
  "born_escrow e \<longleftrightarrow> Escrow.Status e = EscrowStatusLocked \<and> Escrow.Attestations e = []"

definition born_bond :: "Bond \<Rightarrow> bool" where
  "born_bond b \<longleftrightarrow> Bond.Status b = BondStatusActive"

definition born_dispute :: "Dispute \<Rightarrow> bool" where
  "born_dispute d \<longleftrightarrow> Dispute.Status d = DisputeStatusOpen \<and> Dispute.Votes d = []"

definition born_gate :: "Gate \<Rightarrow> bool" where
  "born_gate g \<longleftrightarrow> Gate.Status g = GateStatusOpen \<and> Gate.Answers g = []"

lemma escrow_step_refl [simp]: "escrow_step e e"
  by (simp add: escrow_step_def same_terms_def same_delivery_def)

lemma bond_step_refl [simp]: "bond_step b b"
  by (simp add: bond_step_def)

lemma bond_step_trans: "bond_step b b1 \<Longrightarrow> bond_step b1 b2 \<Longrightarrow> bond_step b b2"
  by (auto simp: bond_step_def)

lemma dispute_step_refl [simp]: "dispute_step d d"
  by (simp add: dispute_step_def)

lemma gate_step_refl [simp]: "gate_step g g"
  by (simp add: gate_step_def)

section \<open>Tables that move forward\<close>

definition table_step ::
  "('v \<Rightarrow> 'v \<Rightarrow> bool) \<Rightarrow> ('v \<Rightarrow> bool) \<Rightarrow> ('k::linorder, 'v) kvmap \<Rightarrow> ('k, 'v) kvmap \<Rightarrow> bool" where
  "table_step R N m m' \<longleftrightarrow>
     (\<forall>k v. kv_get m k = Some v \<longrightarrow> (\<exists>v'. kv_get m' k = Some v' \<and> R v v'))
   \<and> (\<forall>k v'. kv_get m k = None \<longrightarrow> kv_get m' k = Some v' \<longrightarrow> N v')"

lemma table_step_refl: "(\<And>v. R v v) \<Longrightarrow> table_step R N m m"
  by (simp add: table_step_def)

lemma table_step_old:
  "(\<And>v. R v v) \<Longrightarrow> kv_get m k = Some w \<Longrightarrow> R w v \<Longrightarrow> table_step R N m (kv_set m k v)"
  by (auto simp: table_step_def)

lemma table_step_new:
  "(\<And>v. R v v) \<Longrightarrow> kv_get m k = None \<Longrightarrow> N v \<Longrightarrow> table_step R N m (kv_set m k v)"
  by (auto simp: table_step_def)

lemma table_step_weaken: "table_step R (\<lambda>_. False) m m' \<Longrightarrow> table_step R N m m'"
  by (simp add: table_step_def)

lemma table_step_trans:
  assumes "\<And>a b c. R a b \<Longrightarrow> R b c \<Longrightarrow> R a c"
    and "table_step R (\<lambda>_. False) m m1" and "table_step R (\<lambda>_. False) m1 m2"
  shows "table_step R (\<lambda>_. False) m m2"
  using assms unfolding table_step_def by (metis option.exhaust)

lemma table_step_Some:
  "table_step R N m m' \<Longrightarrow> kv_get m k = Some v \<Longrightarrow> \<exists>v'. kv_get m' k = Some v' \<and> R v v'"
  by (simp add: table_step_def)

lemma table_step_cases:
  "table_step R N m m' \<Longrightarrow> kv_get m' k = Some v' \<Longrightarrow>
     (kv_get m k = None \<and> N v') \<or> (\<exists>v. kv_get m k = Some v \<and> R v v')"
  unfolding table_step_def by (metis option.exhaust option.inject)

section \<open>Backing\<close>

text \<open>
  A claim on collateral: the bond exists, was posted by the right party for the right
  purpose, belongs to the protocol and is large enough. Every verdict, vote and dispute must
  be backed when it is recorded.
\<close>

definition attestationPurpose :: "u64 \<Rightarrow> string" where
  "attestationPurpose escrowId = ''attestation:'' @ FormatUint escrowId"

definition disputePurpose :: "u64 \<Rightarrow> string" where
  "disputePurpose disputeId = ''dispute:'' @ FormatUint disputeId"

definition jurorPurpose :: "u64 \<Rightarrow> string" where
  "jurorPurpose disputeId = ''jurorstake:'' @ FormatUint disputeId"

definition backed :: "Keeper \<Rightarrow> u64 \<Rightarrow> string \<Rightarrow> string \<Rightarrow> u64 \<Rightarrow> bool" where
  "backed s i poster purpose amount \<longleftrightarrow>
     (\<exists>b. kv_get (Keeper.Bond s) i = Some b \<and> Bond.Poster b = poster \<and> Bond.Purpose b = purpose
        \<and> Bond.Slasher b = [] \<and> amount \<le> Bond.Amount b)"

definition attestations_backed :: "Keeper \<Rightarrow> Keeper \<Rightarrow> bool" where
  "attestations_backed s s' \<longleftrightarrow>
     (\<forall>i e' a. kv_get (Keeper.Escrow s') i = Some e' \<longrightarrow> a \<in> set (Escrow.Attestations e') \<longrightarrow>
        (\<exists>e. kv_get (Keeper.Escrow s) i = Some e \<and> a \<in> set (Escrow.Attestations e))
        \<or> backed s' (Attestation.BondId a) (Attestation.Verifier a) (attestationPurpose i) (Escrow.Amount e'))"

definition disputes_backed :: "Keeper \<Rightarrow> Keeper \<Rightarrow> bool" where
  "disputes_backed s s' \<longleftrightarrow>
     (\<forall>i d'. kv_get (Keeper.Dispute s') i = Some d' \<longrightarrow>
        ((\<exists>d. kv_get (Keeper.Dispute s) i = Some d)
         \<or> backed s' (Dispute.BondId d') (Dispute.Opener d') (disputePurpose i) MinDisputeBond)
      \<and> (\<forall>v \<in> set (Dispute.Votes d').
           (\<exists>d. kv_get (Keeper.Dispute s) i = Some d \<and> v \<in> set (Dispute.Votes d))
           \<or> backed s' (Vote.BondId v) (Vote.Juror v) (jurorPurpose i) MinJurorStake))"

lemma attestations_backed_same [simp]: "Keeper.Escrow s' = Keeper.Escrow s \<Longrightarrow> attestations_backed s s'"
  by (auto simp: attestations_backed_def)

lemma disputes_backed_same [simp]: "Keeper.Dispute s' = Keeper.Dispute s \<Longrightarrow> disputes_backed s s'"
  by (auto simp: disputes_backed_def)

lemma attestations_backed_new:
  "Keeper.Escrow s' = kv_set (Keeper.Escrow s) i e' \<Longrightarrow> Escrow.Attestations e' = [] \<Longrightarrow> attestations_backed s s'"
  by (auto simp: attestations_backed_def split: if_splits)

lemma attestations_backed_old:
  "Keeper.Escrow s' = kv_set (Keeper.Escrow s) i e' \<Longrightarrow> kv_get (Keeper.Escrow s) i = Some e \<Longrightarrow>
     Escrow.Attestations e' = Escrow.Attestations e \<Longrightarrow> attestations_backed s s'"
  by (auto simp: attestations_backed_def split: if_splits)

definition lifecycle :: "Keeper \<Rightarrow> Keeper \<Rightarrow> bool" where
  "lifecycle s s' \<longleftrightarrow>
     table_step escrow_step born_escrow (Keeper.Escrow s) (Keeper.Escrow s')
   \<and> table_step bond_step born_bond (Keeper.Bond s) (Keeper.Bond s')
   \<and> table_step dispute_step born_dispute (Keeper.Dispute s) (Keeper.Dispute s')
   \<and> table_step gate_step born_gate (Keeper.Gate s) (Keeper.Gate s')
   \<and> attestations_backed s s' \<and> disputes_backed s s'"

lemma lifecycle_same:
  assumes "Keeper.Escrow s' = Keeper.Escrow s" "Keeper.Bond s' = Keeper.Bond s"
    "Keeper.Dispute s' = Keeper.Dispute s" "Keeper.Gate s' = Keeper.Gate s"
  shows "lifecycle s s'"
  using assms by (simp add: lifecycle_def table_step_refl)

lemma lifecycle_emit [simp]: "lifecycle s (emit n ats s') = lifecycle s s'"
  by (simp add: lifecycle_def attestations_backed_def disputes_backed_def backed_def)

section \<open>The contract\<close>

definition ledger_inv :: "Keeper \<Rightarrow> bool" where
  "ledger_inv s \<longleftrightarrow> core_inv s \<and> emission_inv s \<and> total_supply s + mintable s < 2 ^ 64"

text \<open>No sequence has handed out the last 64-bit number.\<close>

definition ids_free :: "Keeper \<Rightarrow> bool" where
  "ids_free s \<longleftrightarrow> Keeper.VouchSeq s \<noteq> - 1 \<and> Keeper.EscrowSeq s \<noteq> - 1 \<and> Keeper.DisputeSeq s \<noteq> - 1
     \<and> Keeper.BondSeq s \<noteq> - 1 \<and> Keeper.GateSeq s \<noteq> - 1"

definition seq_step :: "u64 \<Rightarrow> u64 \<Rightarrow> bool" where
  "seq_step n n' \<longleftrightarrow> n' = n \<or> n' = n + 1"

lemma seq_step_refl [simp]: "seq_step n n" and seq_step_Suc [simp]: "seq_step n (n + 1)"
  by (simp_all add: seq_step_def)

definition seqs_step :: "Keeper \<Rightarrow> Keeper \<Rightarrow> bool" where
  "seqs_step s s' \<longleftrightarrow> seq_step (Keeper.VouchSeq s) (Keeper.VouchSeq s')
     \<and> seq_step (Keeper.EscrowSeq s) (Keeper.EscrowSeq s')
     \<and> seq_step (Keeper.DisputeSeq s) (Keeper.DisputeSeq s')
     \<and> seq_step (Keeper.BondSeq s) (Keeper.BondSeq s')
     \<and> seq_step (Keeper.GateSeq s) (Keeper.GateSeq s')"

definition ids_within :: "nat \<Rightarrow> Keeper \<Rightarrow> bool" where
  "ids_within n s \<longleftrightarrow> unat (Keeper.VouchSeq s) \<le> n \<and> unat (Keeper.EscrowSeq s) \<le> n
     \<and> unat (Keeper.DisputeSeq s) \<le> n \<and> unat (Keeper.BondSeq s) \<le> n \<and> unat (Keeper.GateSeq s) \<le> n"

lemma unat_not_max: "unat (n :: u64) < 2 ^ 64 - 1 \<Longrightarrow> n \<noteq> - 1"
  by (auto simp: unsigned_minus_1_eq_mask mask_eq_exp_minus_1)

lemma ids_within_free: "ids_within n s \<Longrightarrow> n < 2 ^ 64 - 1 \<Longrightarrow> ids_free s"
  unfolding ids_within_def ids_free_def by (intro conjI unat_not_max; linarith)

lemma seq_step_within:
  assumes "seq_step a b" and "unat a \<le> n" and "n < 2 ^ 64 - 1"
  shows "unat b \<le> Suc n"
proof -
  have "a \<noteq> - 1" using assms by (intro unat_not_max) linarith
  then show ?thesis using assms by (auto simp: seq_step_def unat_Suc_u64)
qed

lemma ids_within_step:
  "ids_within n s \<Longrightarrow> seqs_step s s' \<Longrightarrow> n < 2 ^ 64 - 1 \<Longrightarrow> ids_within (Suc n) s'"
  unfolding ids_within_def seqs_step_def by (blast intro: seq_step_within)

locale handler =
  fixes run :: "Env \<Rightarrow> 'm \<Rightarrow> Keeper \<Rightarrow> 'r result"
  assumes keeps_core: "run env m s = (Inr r, s') \<Longrightarrow> ledger_inv s \<Longrightarrow> ids_free s \<Longrightarrow> core_inv s'"
    and keeps_emission: "run env m s = (Inr r, s') \<Longrightarrow> ledger_inv s \<Longrightarrow> ids_free s \<Longrightarrow> emission_inv s'"
    and no_gain: "run env m s = (Inr r, s') \<Longrightarrow> ledger_inv s \<Longrightarrow> ids_free s \<Longrightarrow>
          total_supply s' + minedTotal s \<le> total_supply s + minedTotal s'"
    and within_policy: "run env m s = (Inr r, s') \<Longrightarrow> ledger_inv s \<Longrightarrow> ids_free s \<Longrightarrow>
          minedTotal s \<le> minedTotal s' \<and> minedTotal s' + mintable s' \<le> minedTotal s + mintable s"
    and moves_forward: "run env m s = (Inr r, s') \<Longrightarrow> ledger_inv s \<Longrightarrow> ids_free s \<Longrightarrow> lifecycle s s'"
    and counts_ids: "run env m s = (Inr r, s') \<Longrightarrow> ledger_inv s \<Longrightarrow> ids_free s \<Longrightarrow> seqs_step s s'"
begin

lemma keeps_ledger:
  assumes "run env m s = (Inr r, s')" and "ledger_inv s" and "ids_free s"
  shows "ledger_inv s'" and "total_supply s' + mintable s' \<le> total_supply s + mintable s"
proof -
  show "total_supply s' + mintable s' \<le> total_supply s + mintable s"
    using no_gain [OF assms] within_policy [OF assms] by linarith
  then show "ledger_inv s'"
    using keeps_core [OF assms] keeps_emission [OF assms] assms(2) by (simp add: ledger_inv_def)
qed

end

locale conserving_handler = handler +
  assumes no_loss: "run env m s = (Inr r, s') \<Longrightarrow> ledger_inv s \<Longrightarrow> ids_free s \<Longrightarrow>
    total_supply s + minedTotal s' \<le> total_supply s' + minedTotal s"
begin

lemma conserves:
  assumes "run env m s = (Inr r, s')" and "ledger_inv s" and "ids_free s"
  shows "total_supply s' + minedTotal s = total_supply s + minedTotal s'"
  using no_loss [OF assms] no_gain [OF assms] by linarith

end

text \<open>The handlers that only move coins: the emission state stays as it is.\<close>

locale moving_handler =
  fixes run :: "Env \<Rightarrow> 'm \<Rightarrow> Keeper \<Rightarrow> 'r result"
  assumes effect: "run env m s = (Inr r, s') \<Longrightarrow> core_inv s \<Longrightarrow> total_supply s < 2 ^ 64 \<Longrightarrow> ids_free s \<Longrightarrow>
      core_inv s' \<and> total_supply s' = total_supply s \<and> Keeper.EmissionState s' = Keeper.EmissionState s"
    and forward: "run env m s = (Inr r, s') \<Longrightarrow> core_inv s \<Longrightarrow> total_supply s < 2 ^ 64 \<Longrightarrow> ids_free s \<Longrightarrow>
      lifecycle s s' \<and> seqs_step s s'"

sublocale moving_handler \<subseteq> conserving_handler run
proof unfold_locales
  fix env m s r s'
  assume run: "run env m s = (Inr r, s')" and inv: "ledger_inv s" and free: "ids_free s"
  then have eff: "core_inv s' \<and> total_supply s' = total_supply s \<and> Keeper.EmissionState s' = Keeper.EmissionState s"
    by (intro effect) (auto simp: ledger_inv_def)
  then show "core_inv s'" by simp
  from eff have em: "Keeper.EmissionState s' = Keeper.EmissionState s" by simp
  show "emission_inv s'" "total_supply s' + minedTotal s \<le> total_supply s + minedTotal s'"
    "minedTotal s \<le> minedTotal s' \<and> minedTotal s' + mintable s' \<le> minedTotal s + mintable s"
    "total_supply s + minedTotal s' \<le> total_supply s' + minedTotal s"
    using emission_unchanged [OF em] eff inv by (simp_all add: ledger_inv_def)
  show "lifecycle s s'" "seqs_step s s'" using forward [OF run _ _ free] inv by (simp_all add: ledger_inv_def)
qed

end
