(* ===== verification/Sample.thy ===== *)
theory Sample
  imports Contract
begin

text \<open>
  A concrete chain on which the properties are exercised: an environment with a codec that
  accepts every non-empty address, no process environment, and a padding function in the
  place of SHA-256, and a store with six funded accounts of which three are anchors.
\<close>

definition sampleEnv :: "i64 \<Rightarrow> Env" where
  "sampleEnv now =
    \<lparr>StringToBytes = (\<lambda>a. if a = [] then None else Some a),
     BytesToString = (\<lambda>b. b),
     Authority = ''gov'',
     HasAuthKeeper = True,
     BlockTime = now,
     Getenv = (\<lambda>_. []),
     UserHomeDir = None,
     ReadFile = (\<lambda>_. None),
     Sha256 = (\<lambda>x. take 32 (x @ replicate 32 (CHR 0x00))),
     FoldUnicode = (\<lambda>_ _. False),
     RangeKeys = (\<lambda>ks. ks)\<rparr>"

lemma sampleEnv_simps [simp]:
  "StringToBytes (sampleEnv now) a = (if a = [] then None else Some a)"
  "BytesToString (sampleEnv now) b = b"
  "Authority (sampleEnv now) = ''gov''"
  "HasAuthKeeper (sampleEnv now)"
  "BlockTime (sampleEnv now) = now"
  "Getenv (sampleEnv now) e = []"
  "UserHomeDir (sampleEnv now) = None"
  "ReadFile (sampleEnv now) p = None"
  "Sha256 (sampleEnv now) x = take 32 (x @ replicate 32 (CHR 0x00))"
  "FoldUnicode (sampleEnv now) = (\<lambda>_ _. False)"
  "RangeKeys (sampleEnv now) ks = ks"
  by (simp_all add: sampleEnv_def)

definition funded :: "string \<Rightarrow> u64 \<Rightarrow> Account" where
  "funded a n = (newAccount a)\<lparr>Account.Balance := n\<rparr>"

lemma funded_simps [simp]:
  "Account.Balance (funded a n) = n" "Account.Registered (funded a n)"
  "Account.Address (funded a n) = a"
  "(funded a n)\<lparr>Account.Balance := k\<rparr> = funded a k"
  by (simp_all add: funded_def newAccount_def)

definition sampleState :: Keeper where
  "sampleState =
     setAccount ''alice'' (funded ''alice'' 1000)
       (setAccount ''bob'' (funded ''bob'' 1000)
         (setAccount ''carol'' (funded ''carol'' 1000)
           (setAccount ''dave'' (funded ''dave'' 1000)
             (setAccount ''erin'' (funded ''erin'' 1000)
               (setAccount ''frank'' (funded ''frank'' 1000)
                 (NewKeeper\<lparr>Keeper.Params := Some \<lparr>Params.Anchors = [''dave'', ''erin'', ''frank'']\<rparr>\<rparr>))))))"

lemma sampleState_fields [simp]:
  "Keeper.Params sampleState = Some \<lparr>Params.Anchors = [''dave'', ''erin'', ''frank'']\<rparr>"
  "Keeper.EmissionState sampleState = None"
  "Keeper.VouchSeq sampleState = 0" "Keeper.Vouch sampleState = kv_empty"
  "Keeper.EscrowSeq sampleState = 0" "Keeper.Escrow sampleState = kv_empty"
  "Keeper.DisputeSeq sampleState = 0" "Keeper.Dispute sampleState = kv_empty"
  "Keeper.BondSeq sampleState = 0" "Keeper.Bond sampleState = kv_empty"
  "Keeper.GateSeq sampleState = 0" "Keeper.Gate sampleState = kv_empty"
  "Keeper.ContributionAwardSeq sampleState = 0" "Keeper.ContributionAward sampleState = kv_empty"
  "Keeper.ScopedEvidenceVouchSeq sampleState = 0" "Keeper.ScopedEvidenceVouch sampleState = kv_empty"
  by (simp_all add: sampleState_def NewKeeper_def)

lemma sampleState_account [simp]:
  "kv_get (Keeper.Account sampleState) a =
     (if a \<in> {''alice'', ''bob'', ''carol'', ''dave'', ''erin'', ''frank''} then Some (funded a 1000) else None)"
  by (simp add: sampleState_def NewKeeper_def)

lemma sampleState_core [simp]: "core_inv sampleState"
  by (auto simp: core_inv_def accounts_registered_def split: if_splits)

lemma sampleState_supply [simp]: "total_supply sampleState = 6000"
proof -
  have "kv_get (Keeper.Account NewKeeper) a = None" for a by (simp add: NewKeeper_def)
  moreover have "total_supply NewKeeper = 0" by (simp add: total_supply_def NewKeeper_def)
  ultimately show ?thesis by (simp add: sampleState_def supply_setAccount_new)
qed

lemma sampleState_free [simp]: "ids_free sampleState"
  by (simp add: ids_free_def)

lemma sampleState_ledger [simp]: "ledger_inv sampleState"
  by (simp add: ledger_inv_def emission_inv_def mintable_def Constants.MaxSupply_def)

end
