(* ===== verification/Schedule.thy ===== *)
theory Schedule
  imports Sample
begin

text \<open>
  What can be minted within one block. The mint rail synchronises the schedule before every
  mint; a second synchronisation in the same block changes no budget, so the mints of a block
  share the remaining reward of the epoch that contains the block, which under the
  constants of the chain is never more than 21000.
\<close>

section \<open>A synchronised schedule stays synchronised\<close>

definition epochLen :: "Keeper \<Rightarrow> u64" where
  "epochLen s =
     (case Keeper.EmissionState s of
        None \<Rightarrow> Constants.EpochLengthSeconds
      | Some e \<Rightarrow> if EmissionState.EpochLengthSeconds e = 0 then Constants.EpochLengthSeconds
                  else EmissionState.EpochLengthSeconds e)"

text \<open>The block time is at least one epoch away from the end of the int64 range.\<close>

definition clock_ok :: "Env \<Rightarrow> Keeper \<Rightarrow> bool" where
  "clock_ok env s \<longleftrightarrow> sint (BlockTime env) + sint (epochLen s) < 2 ^ 63"

definition epochOver :: "i64 \<Rightarrow> EmissionState \<Rightarrow> bool" where
  "epochOver now e \<longleftrightarrow> 0 <s EmissionState.EpochLengthSeconds e
     \<and> EmissionState.EpochStartedAt e + EmissionState.EpochLengthSeconds e <=s now"

lemma epochLoop_stops:
  assumes "epochLoop now len e = Some r"
  shows "\<forall>e'. r = Inr e' \<longrightarrow> \<not> (0 <s len \<and> EmissionState.EpochStartedAt e' + len <=s now)"
proof (rule epochLoop.raw_induct
    [where P = "\<lambda>now len e r. \<forall>e'. r = Inr e' \<longrightarrow> \<not> (0 <s len \<and> EmissionState.EpochStartedAt e' + len <=s now)", OF _ assms])
  fix f now len e r
  assume IH: "\<And>now len e r. f now len e = Some r \<Longrightarrow>
      \<forall>e'. r = Inr e' \<longrightarrow> \<not> (0 <s len \<and> EmissionState.EpochStartedAt e' + len <=s now)"
    and eq: "(if 0 <s len \<and> EmissionState.EpochStartedAt e + len <=s now then
       (case rollEpoch len e of Inl err \<Rightarrow> Some (Inl err) | Inr e1 \<Rightarrow> f now len e1)
     else Some (Inr e)) = Some r"
  show "\<forall>e'. r = Inr e' \<longrightarrow> \<not> (0 <s len \<and> EmissionState.EpochStartedAt e' + len <=s now)"
  proof (cases "0 <s len \<and> EmissionState.EpochStartedAt e + len <=s now")
    case True
    then show ?thesis
      using eq IH by (cases "rollEpoch len e") auto
  next
    case False
    then show ?thesis using eq by auto
  qed
qed

lemma epochLoop_idle:
  "\<not> epochOver now e \<Longrightarrow> epochLoop now (EmissionState.EpochLengthSeconds e) e = Some (Inr e)"
  by (subst epochLoop.simps) (auto simp: epochOver_def)

text \<open>What holds of the schedule once it is synchronised with the clock.\<close>

definition synced :: "i64 \<Rightarrow> EmissionState \<Rightarrow> bool" where
  "synced now e \<longleftrightarrow> emission_ok e \<and> EmissionState.MaxSupply e \<noteq> 0 \<and> EmissionState.EpochRewardDivisor e \<noteq> 0
     \<and> EmissionState.EpochLengthSeconds e \<noteq> 0 \<and> \<not> epochOver now e"

lemma sync_synced:
  assumes "syncEmissionState env s = (Inr e, s1)" and "emission_inv s"
  shows "synced (BlockTime env) e" and "s1 = s\<lparr>Keeper.EmissionState := Some e\<rparr>"
    and "EmissionState.EpochLengthSeconds e = epochLen s"
proof -
  obtain e0 s0 where g: "getEmissionState env s = (e0, s0)" by (cases "getEmissionState env s")
  note g_ok = getEmissionState_ok [OF g assms(2)]
  obtain e1 where f: "fillEmissionDefaults (BlockTime env) e0 = Inr e1"
    using fillEmissionDefaults_returns by blast
  note f_ok = fillEmissionDefaults_ok [OF f g_ok(3)]
  have loop: "epochLoop (BlockTime env) (EmissionState.EpochLengthSeconds e1) e1 = Some (Inr e)"
    and s1: "s1 = s0\<lparr>Keeper.EmissionState := Some e\<rparr>"
    using assms(1) g f by (auto simp: syncEmissionState_def Let_def split: option.splits sum.splits)
  have kept: "schedule_kept e1 e" using epochLoop_kept [OF loop] f_ok by simp
  then have fields: "emission_ok e" "EmissionState.MaxSupply e \<noteq> 0" "EmissionState.EpochRewardDivisor e \<noteq> 0"
      "EmissionState.EpochLengthSeconds e = EmissionState.EpochLengthSeconds e1" "EmissionState.EpochLengthSeconds e1 \<noteq> 0"
    using f_ok g_ok by (simp_all add: schedule_kept_def)
  show "synced (BlockTime env) e"
    using epochLoop_stops [OF loop] fields by (simp add: synced_def epochOver_def)
  show "s1 = s\<lparr>Keeper.EmissionState := Some e\<rparr>" using s1 g_ok(1) by simp
  have "EmissionState.EpochLengthSeconds e1 = EmissionState.EpochLengthSeconds (filledDefaults (BlockTime env) e0)"
    using f by (auto simp: fillEmissionDefaults_eq Let_def split: if_splits sum.splits)
  moreover have "EmissionState.EpochLengthSeconds (filledDefaults (BlockTime env) e0) = epochLen s"
    using g assms(2)
    by (auto simp: filledDefaults_def epochLen_def getEmissionState_def DefaultEmissionState_def emission_inv_def
        Constants.EpochLengthSeconds_def Let_def split: option.splits if_splits)
  ultimately show "EmissionState.EpochLengthSeconds e = epochLen s" using fields by simp
qed

text \<open>The fields on which a budget depends.\<close>

definition same_budget :: "EmissionState \<Rightarrow> EmissionState \<Rightarrow> bool" where
  "same_budget e e' \<longleftrightarrow> EmissionState.EpochScheduled e' = EmissionState.EpochScheduled e
     \<and> EmissionState.EpochMined e' = EmissionState.EpochMined e
     \<and> EmissionState.TotalMined e' = EmissionState.TotalMined e
     \<and> EmissionState.TotalBurnedUnclaimed e' = EmissionState.TotalBurnedUnclaimed e
     \<and> EmissionState.MaxSupply e' = EmissionState.MaxSupply e"

lemma same_budget_remaining:
  "same_budget e e' \<Longrightarrow> RemainingEpoch e' = RemainingEpoch e \<and> RemainingScheduled e' = RemainingScheduled e"
  by (simp add: same_budget_def RemainingEpoch_def RemainingScheduled_def Let_def)

lemma sync_again:
  assumes e: "Keeper.EmissionState s = Some e" "synced (BlockTime env) e" "EmissionState.EpochScheduled e \<noteq> 0"
    and clock: "sint (BlockTime env) + sint (EmissionState.EpochLengthSeconds e) < 2 ^ 63"
  shows "\<exists>e'. syncEmissionState env s = (Inr e', s\<lparr>Keeper.EmissionState := Some e'\<rparr>) \<and> same_budget e e'
     \<and> synced (BlockTime env) e'"
proof -
  let ?now = "BlockTime env" and ?e' = "filledDefaults (BlockTime env) e"
  have g: "getEmissionState env s = (e, s)"
    using e by (simp add: getEmissionState_def synced_def)
  have f: "fillEmissionDefaults ?now e = Inr ?e'"
    using e by (simp add: fillEmissionDefaults_eq)
  have len: "EmissionState.EpochLengthSeconds ?e' = EmissionState.EpochLengthSeconds e"
    using e(2) by (simp add: filledDefaults_def synced_def)
  have "\<not> (0 <s EmissionState.EpochLengthSeconds e \<and> ?now + EmissionState.EpochLengthSeconds e <=s ?now)"
  proof
    assume a: "0 <s EmissionState.EpochLengthSeconds e \<and> ?now + EmissionState.EpochLengthSeconds e <=s ?now"
    then have "sint (?now + EmissionState.EpochLengthSeconds e) = sint ?now + sint (EmissionState.EpochLengthSeconds e)"
      using clock sint_i64_bounds [of ?now] by (intro sint_add_no_wrap) (auto simp: i64_less_iff)
    then show False using a unfolding i64_less_iff i64_le_iff by auto
  qed
  then have over: "\<not> epochOver ?now ?e'"
    using e(2) len unfolding epochOver_def synced_def by (auto simp: filledDefaults_def)
  have "syncEmissionState env s = (Inr ?e', s\<lparr>Keeper.EmissionState := Some ?e'\<rparr>)"
    using g f epochLoop_idle [OF over] by (simp add: syncEmissionState_def Let_def)
  moreover have "same_budget e ?e'" by (simp add: same_budget_def)
  moreover have "synced ?now ?e'"
    using e(2) over by (simp add: synced_def emission_ok_def unat_RemainingEpoch unat_RemainingScheduled)
  ultimately show ?thesis by blast
qed

section \<open>The budget of a block\<close>

definition epochBudget :: "Env \<Rightarrow> Keeper \<Rightarrow> nat" where
  "epochBudget env s =
     (case fst (syncEmissionState env s) of
        Inl err \<Rightarrow> 0
      | Inr e \<Rightarrow> unat (RemainingEpoch e))"

lemma epochBudget_emit [simp]: "epochBudget env (emit n ats s) = epochBudget env s"
  by (simp add: epochBudget_def syncEmissionState_def getEmissionState_def emit_def Let_def split: option.splits sum.splits)

lemma epochBudget_cong: "Keeper.EmissionState s' = Keeper.EmissionState s \<Longrightarrow> epochBudget env s' = epochBudget env s"
  by (simp add: epochBudget_def syncEmissionState_def getEmissionState_def Let_def split: option.splits sum.splits)

lemma synced_spend:
  assumes sync: "synced now e" and fits: "unat amt \<le> unat (RemainingEpoch e)" and amt: "amt \<noteq> 0"
  defines "e1 \<equiv> e\<lparr>EmissionState.TotalMined := EmissionState.TotalMined e + amt,
               EmissionState.EpochMined := EmissionState.EpochMined e + amt\<rparr>"
  shows "synced now e1" and "EmissionState.EpochScheduled e1 \<noteq> 0"
    and "unat (RemainingEpoch e1) + unat amt = unat (RemainingEpoch e)"
proof -
  have le: "unat (RemainingEpoch e) \<le> unat (RemainingScheduled e)"
    and bounds: "unat (EmissionState.TotalMined e) + unat (EmissionState.TotalBurnedUnclaimed e)
          \<le> unat (EmissionState.MaxSupply e)" "unat (EmissionState.EpochMined e) \<le> unat (EmissionState.EpochScheduled e)"
    using sync by (simp_all add: synced_def emission_ok_def)
  have mined: "unat (EmissionState.TotalMined e + amt) = unat (EmissionState.TotalMined e) + unat amt"
    using fits le unat_u64_less [of "EmissionState.MaxSupply e"] bounds
    by (intro unat_add_no_wrap) (simp add: unat_RemainingScheduled)
  have epoch: "unat (EmissionState.EpochMined e + amt) = unat (EmissionState.EpochMined e) + unat amt"
    using fits unat_u64_less [of "EmissionState.EpochScheduled e"] bounds
    by (intro unat_add_no_wrap) (simp add: unat_RemainingEpoch)
  show "unat (RemainingEpoch e1) + unat amt = unat (RemainingEpoch e)"
    using fits by (simp add: e1_def unat_RemainingEpoch epoch)
  have "emission_ok e1"
    using bounds fits le unfolding e1_def emission_ok_def unat_RemainingScheduled unat_RemainingEpoch
    by (simp add: mined epoch) linarith
  then show "synced now e1" using sync by (simp add: e1_def synced_def epochOver_def)
  show "EmissionState.EpochScheduled e1 \<noteq> 0"
    using fits amt by (auto simp: e1_def unat_RemainingEpoch unat_eq_0)
qed

text \<open>A mint to an existing account goes through exactly when it fits the budget, and uses it up.\<close>

lemma mint_exactly:
  assumes acc: "kv_get (Keeper.Account s) a \<noteq> None" and amt: "amt \<noteq> 0" and inv: "emission_inv s"
    and clock: "clock_ok env s"
  shows "(\<exists>s'. mintProtocolReward env a ab amt rail s = (Inr (), s')) \<longleftrightarrow> unat amt \<le> epochBudget env s"
    and "mintProtocolReward env a ab amt rail s = (Inr (), s') \<Longrightarrow>
      epochBudget env s' + unat amt = epochBudget env s \<and> clock_ok env s'
      \<and> (\<forall>c. kv_get (Keeper.Account s') c = None \<longleftrightarrow> kv_get (Keeper.Account s) c = None)"
proof -
  obtain acct where acct: "kv_get (Keeper.Account s) a = Some acct" using acc by blast
  have chk: "checkNewAccountCredit s a amt = None" using acct by (simp add: checkNewAccountCredit_def)
  obtain r1 s1 where sync: "syncEmissionState env s = (r1, s1)" by (cases "syncEmissionState env s")
  have "((\<exists>s'. mintProtocolReward env a ab amt rail s = (Inr (), s')) \<longleftrightarrow> unat amt \<le> epochBudget env s)
    \<and> (\<forall>s'. mintProtocolReward env a ab amt rail s = (Inr (), s') \<longrightarrow>
      epochBudget env s' + unat amt = epochBudget env s \<and> clock_ok env s'
      \<and> (\<forall>c. kv_get (Keeper.Account s') c = None \<longleftrightarrow> kv_get (Keeper.Account s) c = None))"
  proof (cases r1)
    case (Inl err)
    then show ?thesis using sync amt chk
      by (auto simp: mintProtocolReward_def epochBudget_def unat_eq_0)
  next
    case (Inr e)
    note s = sync_synced [OF sync [unfolded Inr] inv]
    have budget: "epochBudget env s = unat (RemainingEpoch e)" using sync Inr by (simp add: epochBudget_def)
    have le: "unat (RemainingEpoch e) \<le> unat (RemainingScheduled e)" using s(1) by (simp add: synced_def emission_ok_def)
    let ?e1 = "e\<lparr>EmissionState.TotalMined := EmissionState.TotalMined e + amt,
               EmissionState.EpochMined := EmissionState.EpochMined e + amt\<rparr>"
    have cr: "\<exists>s3. creditAccount env a ab amt (s1\<lparr>Keeper.EmissionState := Some ?e1\<rparr>) = (Inr (), s3)
        \<and> (\<forall>c. kv_get (Keeper.Account s3) c = None \<longleftrightarrow> kv_get (Keeper.Account s) c = None)"
      using acct by (auto simp: creditAccount_cases checkNewAccountCredit_def s(2))
    have iff: "(\<exists>s'. mintProtocolReward env a ab amt rail s = (Inr (), s')) \<longleftrightarrow> unat amt \<le> epochBudget env s"
      using cr le amt by (auto simp: mintProtocolReward_def chk sync Inr Let_def budget u64_less_iff not_less)
    have "epochBudget env s' + unat amt = epochBudget env s \<and> clock_ok env s'
      \<and> (\<forall>c. kv_get (Keeper.Account s') c = None \<longleftrightarrow> kv_get (Keeper.Account s) c = None)"
      if run: "mintProtocolReward env a ab amt rail s = (Inr (), s')" for s'
    proof -
      have fits: "unat amt \<le> unat (RemainingEpoch e)" using iff run budget by auto
      obtain s3 n ats where s3: "creditAccount env a ab amt (s1\<lparr>Keeper.EmissionState := Some ?e1\<rparr>) = (Inr (), s3)"
        and s': "s' = emit n ats s3"
        using run cr fits le amt by (auto simp: mintProtocolReward_def chk sync Inr Let_def u64_less_iff split: if_splits)
      have em: "Keeper.EmissionState s' = Some ?e1" using creditAccount_frame [OF s3] by (simp add: s')
      note spend = synced_spend [OF s(1) fits amt]
      have len: "EmissionState.EpochLengthSeconds ?e1 = epochLen s" using s(3) by simp
      then have clock1: "sint (BlockTime env) + sint (EmissionState.EpochLengthSeconds ?e1) < 2 ^ 63"
        using clock by (simp add: clock_ok_def)
      obtain e2 where "syncEmissionState env s' = (Inr e2, s'\<lparr>Keeper.EmissionState := Some e2\<rparr>)" "same_budget ?e1 e2"
        using sync_again [OF em spend(1,2) clock1] by blast
      then have "epochBudget env s' = unat (RemainingEpoch ?e1)"
        by (simp add: epochBudget_def same_budget_remaining)
      moreover have "epochLen s' = epochLen s"
        using len em s(1) by (simp add: epochLen_def synced_def)
      ultimately show ?thesis using spend(3) budget clock cr s3 by (simp add: clock_ok_def s')
    qed
    then show ?thesis using iff by blast
  qed
  then show "(\<exists>s'. mintProtocolReward env a ab amt rail s = (Inr (), s')) \<longleftrightarrow> unat amt \<le> epochBudget env s"
    and "mintProtocolReward env a ab amt rail s = (Inr (), s') \<Longrightarrow>
      epochBudget env s' + unat amt = epochBudget env s \<and> clock_ok env s'
      \<and> (\<forall>c. kv_get (Keeper.Account s') c = None \<longleftrightarrow> kv_get (Keeper.Account s) c = None)" by blast+
qed

section \<open>The weekly cap\<close>

definition weekly :: "EmissionState \<Rightarrow> bool" where
  "weekly e \<longleftrightarrow> EmissionState.MaxSupply e = Constants.MaxSupply
     \<and> EmissionState.EpochRewardDivisor e = Constants.EpochRewardDivisor
     \<and> unat (EmissionState.EpochScheduled e) \<le> 21000"

definition standard_schedule :: "Keeper \<Rightarrow> bool" where
  "standard_schedule s \<longleftrightarrow> (\<forall>e. Keeper.EmissionState s = Some e \<longrightarrow> weekly e)"

lemma weekly_default: "weekly (DefaultEmissionState t)"
  by (simp add: weekly_def DefaultEmissionState_def Constants.MaxSupply_def Constants.EpochRewardDivisor_def)

lemma nextEpochScheduled_weekly:
  assumes "nextEpochScheduled e = Inr n" and "EmissionState.MaxSupply e = Constants.MaxSupply"
    and "EmissionState.EpochRewardDivisor e = Constants.EpochRewardDivisor"
  shows "unat n \<le> 21000"
proof -
  have rem: "unat (RemainingScheduled e) \<le> 21000000"
    using assms(2) by (simp add: unat_RemainingScheduled Constants.MaxSupply_def)
  have div: "unat (RemainingScheduled e div EmissionState.EpochRewardDivisor e) = unat (RemainingScheduled e) div 1000"
    using assms(3) by (simp add: unat_div_distrib Constants.EpochRewardDivisor_def)
  show ?thesis
  proof (cases "RemainingScheduled e div EmissionState.EpochRewardDivisor e = 0")
    case True
    then have "unat (RemainingScheduled e) div 1000 = 0" using div by simp
    then have "unat (RemainingScheduled e) < 1000" by simp
    then show ?thesis
      using nextEpochScheduled_le [OF assms(1)] by simp
  next
    case False
    then have "n = RemainingScheduled e div EmissionState.EpochRewardDivisor e \<or> n = 0"
      using assms(1) by (auto simp: nextEpochScheduled_def Let_def split: if_splits)
    then show ?thesis using div rem by auto
  qed
qed

lemma rollEpoch_weekly:
  assumes "rollEpoch len e = Inr e'" and "weekly e"
  shows "weekly e'"
proof -
  let ?e1 = "e\<lparr>EmissionState.TotalBurnedUnclaimed := EmissionState.TotalBurnedUnclaimed e + RemainingEpoch e,
       EmissionState.CurrentEpoch := EmissionState.CurrentEpoch e + 1,
       EmissionState.EpochStartedAt := EmissionState.EpochStartedAt e + len, EmissionState.EpochMined := 0\<rparr>"
  obtain n where "nextEpochScheduled ?e1 = Inr n" "e' = ?e1\<lparr>EmissionState.EpochScheduled := n\<rparr>"
    using assms(1) by (auto simp: rollEpoch_def Let_def split: sum.splits)
  then show ?thesis using nextEpochScheduled_weekly [of ?e1 n] assms(2) by (simp add: weekly_def)
qed

lemma epochLoop_weekly: "epochLoop now len e = Some (Inr e') \<Longrightarrow> weekly e \<Longrightarrow> weekly e'"
  by (rule epochLoop_keeps [where P = weekly]) (auto intro: rollEpoch_weekly)

lemma fillEmissionDefaults_weekly:
  assumes "fillEmissionDefaults now e = Inr e1" and "weekly e"
  shows "weekly e1"
proof -
  have "weekly (filledDefaults now e)"
    using assms(2) by (simp add: weekly_def filledDefaults_def Constants.EpochRewardDivisor_def)
  then show ?thesis
    using assms(1) nextEpochScheduled_weekly [of "filledDefaults now e"]
    by (auto simp: fillEmissionDefaults_eq Let_def weekly_def split: if_splits sum.splits)
qed

lemma sync_weekly:
  assumes "syncEmissionState env s = (r, s')" and "standard_schedule s"
  shows "standard_schedule s'" and "r = Inr e \<Longrightarrow> weekly e"
proof -
  obtain e0 s0 where g: "getEmissionState env s = (e0, s0)" by (cases "getEmissionState env s")
  have w0: "weekly e0" "standard_schedule s0"
    using g assms(2) weekly_default
    by (auto simp: getEmissionState_def standard_schedule_def Let_def split: option.splits if_splits)
  obtain e1 where f: "fillEmissionDefaults (BlockTime env) e0 = Inr e1"
    using fillEmissionDefaults_returns by blast
  have w1: "weekly e1" using fillEmissionDefaults_weekly [OF f w0(1)] .
  have "standard_schedule s' \<and> (r = Inr e \<longrightarrow> weekly e)"
    using assms(1) g f w0 w1 epochLoop_weekly
    by (auto simp: syncEmissionState_def Let_def standard_schedule_def split: option.splits sum.splits)
  then show "standard_schedule s'" and "r = Inr e \<Longrightarrow> weekly e" by simp_all
qed

lemma weekly_budget: "standard_schedule s \<Longrightarrow> epochBudget env s \<le> 21000"
  using sync_weekly [of env s]
  by (cases "syncEmissionState env s") (fastforce simp: epochBudget_def weekly_def unat_RemainingEpoch split: sum.splits)

section \<open>What a mint leaves of the policy\<close>

definition started :: "Keeper \<Rightarrow> bool" where
  "started s \<longleftrightarrow> (\<exists>e. Keeper.EmissionState s = Some e \<and> EmissionState.GenesisTime e \<noteq> 0)"

text \<open>The epochs of the stored schedule have a length and the rewards a divisor.\<close>

definition paced :: "Keeper \<Rightarrow> bool" where
  "paced s \<longleftrightarrow> (\<forall>e. Keeper.EmissionState s = Some e \<longrightarrow>
     EmissionState.EpochLengthSeconds e \<noteq> 0 \<and> EmissionState.EpochRewardDivisor e \<noteq> 0)"

definition policy_step :: "Keeper \<Rightarrow> Keeper \<Rightarrow> bool" where
  "policy_step s s' \<longleftrightarrow> (standard_schedule s \<longrightarrow> standard_schedule s') \<and> (started s \<longrightarrow> started s')
     \<and> (paced s \<longrightarrow> paced s') \<and> epochLen s' = epochLen s"

lemma policy_step_same: "Keeper.EmissionState s' = Keeper.EmissionState s \<Longrightarrow> policy_step s s'"
  by (simp add: policy_step_def standard_schedule_def started_def paced_def epochLen_def)

lemma policy_step_trans: "policy_step s s1 \<Longrightarrow> policy_step s1 s2 \<Longrightarrow> policy_step s s2"
  by (simp add: policy_step_def)

lemma rollEpoch_genesis: "rollEpoch len e = Inr e' \<Longrightarrow> EmissionState.GenesisTime e' = EmissionState.GenesisTime e"
  by (auto simp: rollEpoch_def Let_def split: sum.splits)

lemma sync_started:
  assumes "syncEmissionState env s = (Inr e, s1)" and "emission_inv s" and "started s"
  shows "EmissionState.GenesisTime e \<noteq> 0"
proof -
  obtain e0 where e0: "Keeper.EmissionState s = Some e0" "EmissionState.GenesisTime e0 \<noteq> 0" "EmissionState.MaxSupply e0 \<noteq> 0"
    using assms(2,3) by (auto simp: started_def emission_inv_def)
  obtain e1 where f: "fillEmissionDefaults (BlockTime env) e0 = Inr e1"
    using fillEmissionDefaults_returns by blast
  have "EmissionState.GenesisTime e1 \<noteq> 0"
    using f e0(2) by (auto simp: fillEmissionDefaults_eq filledDefaults_def Let_def split: if_splits sum.splits)
  moreover have "epochLoop (BlockTime env) (EmissionState.EpochLengthSeconds e1) e1 = Some (Inr e)"
    using assms(1) e0 f by (auto simp: syncEmissionState_def getEmissionState_def Let_def split: option.splits sum.splits)
  ultimately show ?thesis
    by (rule_tac epochLoop_keeps [where P = "\<lambda>e. EmissionState.GenesisTime e \<noteq> 0"]) (simp_all add: rollEpoch_genesis)
qed

lemma policy_step_mint:
  assumes "mintProtocolReward env a ab amt rail s = (Inr u, s')" and inv: "emission_inv s"
  shows "policy_step s s'"
  using assms(1)
proof (rule mint_steps)
  fix e :: EmissionState and s1 s3 n ats
  let ?e1 = "e\<lparr>EmissionState.TotalMined := EmissionState.TotalMined e + amt,
               EmissionState.EpochMined := EmissionState.EpochMined e + amt\<rparr>"
  assume sync: "syncEmissionState env s = (Inr e, s1)"
    and cr: "creditAccount env a ab amt (s1\<lparr>Keeper.EmissionState := Some ?e1\<rparr>) = (Inr (), s3)"
    and s': "s' = emit n ats s3"
  have em: "Keeper.EmissionState s' = Some ?e1" using creditAccount_frame [OF cr] s' by simp
  have "EmissionState.EpochLengthSeconds e \<noteq> 0" "EmissionState.EpochLengthSeconds e = epochLen s"
    "EmissionState.EpochRewardDivisor e \<noteq> 0"
    using sync_synced [OF sync inv] by (simp_all add: synced_def)
  moreover have "standard_schedule s \<Longrightarrow> weekly e" using sync_weekly(2) [OF sync] by simp
  ultimately show "policy_step s s'"
    using sync_started [OF sync inv] em
    by (auto simp: policy_step_def standard_schedule_def weekly_def started_def paced_def epochLen_def)
qed

section \<open>Properties\<close>

text \<open>
  C24: The epoch roll-over ends, in the right epoch. For every stored schedule that has started,
  with a positive epoch length and clocks at least one epoch away from the end of the int64 range,
  \<open>syncEmissionState\<close> returns after exactly as many turns as whole epochs have passed, and the
  epoch it ends in contains the block time; nothing is minted, and what is mined and what is burned stay, together,
  within the maximal supply.
\<close>

theorem sync_reaches_current_epoch:
  assumes "Keeper.EmissionState s = Some e" and "emission_inv s"
    and "EmissionState.EpochStartedAt e \<noteq> 0" and "EmissionState.CurrentEpoch e \<noteq> 0"
    and "len = sint (EmissionState.EpochLengthSeconds e)" and "0 < len"
    and "sint (EmissionState.EpochStartedAt e) \<le> sint (BlockTime env)" and "sint (BlockTime env) + len < 2 ^ 63"
  shows "\<exists>e'. syncEmissionState env s = (Inr e', s\<lparr>Keeper.EmissionState := Some e'\<rparr>)
     \<and> EmissionState.CurrentEpoch e' = EmissionState.CurrentEpoch e
          + of_int ((sint (BlockTime env) - sint (EmissionState.EpochStartedAt e)) div len)
     \<and> sint (EmissionState.EpochStartedAt e') \<le> sint (BlockTime env)
     \<and> sint (BlockTime env) < sint (EmissionState.EpochStartedAt e') + len
     \<and> EmissionState.TotalMined e' = EmissionState.TotalMined e
     \<and> unat (EmissionState.TotalMined e') + unat (EmissionState.TotalBurnedUnclaimed e') \<le> unat (EmissionState.MaxSupply e)"
proof -
  let ?now = "BlockTime env" and ?st = "sint (EmissionState.EpochStartedAt e)"
  have e: "EmissionState.MaxSupply e \<noteq> 0" "emission_ok e" using assms(1,2) by (simp_all add: emission_inv_def)
  have g: "getEmissionState env s = (e, s)" using assms(1) e by (simp add: getEmissionState_def)
  obtain e1 where f: "fillEmissionDefaults ?now e = Inr e1" using fillEmissionDefaults_returns by blast
  note f_ok = fillEmissionDefaults_ok [OF f e(2)]
  have "EmissionState.EpochLengthSeconds e \<noteq> 0" using assms(5,6) by auto
  then have same: "EmissionState.EpochStartedAt e1 = EmissionState.EpochStartedAt e"
      "EmissionState.CurrentEpoch e1 = EmissionState.CurrentEpoch e"
      "EmissionState.EpochLengthSeconds e1 = EmissionState.EpochLengthSeconds e"
    using f assms(3,4) by (auto simp: fillEmissionDefaults_eq filledDefaults_def Let_def split: if_splits sum.splits)
  define q m where "q = (sint ?now - ?st) div len" and "m = (sint ?now - ?st) mod len"
  have q: "0 \<le> q" using assms(6,7) by (simp add: q_def pos_imp_zdiv_nonneg_iff)
  have m: "0 \<le> m" "m < len" "sint ?now = ?st + len * q + m"
    using assms(6) mult_div_mod_eq [of len "sint ?now - ?st"] by (simp_all add: q_def m_def)
  obtain e' where loop: "epochLoop ?now (EmissionState.EpochLengthSeconds e1) e1 = Some (Inr e')"
    and st': "sint (EmissionState.EpochStartedAt e') = ?st + len * max 0 q"
    and ep': "EmissionState.CurrentEpoch e' = EmissionState.CurrentEpoch e + of_int (max 0 q)"
    using epochLoop_returns [of e1 "EmissionState.EpochLengthSeconds e1" ?now] f_ok same assms(5-8) by (auto simp: q_def)
  have kept: "schedule_kept e1 e'" using epochLoop_kept [OF loop] f_ok by simp
  have "syncEmissionState env s = (Inr e', s\<lparr>Keeper.EmissionState := Some e'\<rparr>)"
    using g f loop by (simp add: syncEmissionState_def Let_def)
  moreover have "sint (EmissionState.EpochStartedAt e') = ?st + len * q" using st' q by (simp add: max_def)
  moreover have "EmissionState.CurrentEpoch e' = EmissionState.CurrentEpoch e + of_int q" using ep' q by (simp add: max_def)
  moreover have "EmissionState.TotalMined e' = EmissionState.TotalMined e"
      "unat (EmissionState.TotalMined e') + unat (EmissionState.TotalBurnedUnclaimed e') \<le> unat (EmissionState.MaxSupply e)"
    using kept f_ok by (auto simp: schedule_kept_def emission_ok_def)
  ultimately show ?thesis using m unfolding q_def [symmetric] by (intro exI [of _ e']) linarith
qed

definition sampleSchedule :: Keeper where
  "sampleSchedule = sampleState\<lparr>Keeper.EmissionState := Some (DefaultEmissionState 1000)\<rparr>"

lemma sampleSchedule_simps [simp]:
  "Keeper.EmissionState sampleSchedule = Some (DefaultEmissionState 1000)" "emission_inv sampleSchedule"
  "Keeper.Account sampleSchedule = Keeper.Account sampleState"
  by (simp_all add: sampleSchedule_def emission_inv_def emission_ok_default)
    (simp add: DefaultEmissionState_def Constants.MaxSupply_def)

lemma sync_reaches_current_epoch_witness:
  "\<exists>e'. syncEmissionState (sampleEnv 2000000) sampleSchedule = (Inr e', sampleSchedule\<lparr>Keeper.EmissionState := Some e'\<rparr>)
     \<and> EmissionState.CurrentEpoch e' = 4"
  using sync_reaches_current_epoch [of sampleSchedule "DefaultEmissionState 1000" 604800 "sampleEnv 2000000"]
  by (auto simp: DefaultEmissionState_def Constants.EpochLengthSeconds_def)

text \<open>
  C25: Within a block the mint rail pays exactly out of the budget of the current epoch. A mint
  of a positive amount to an account that exists succeeds if and only if the amount is at most
  the reward that the synchronised schedule has left for the epoch; and a mint that succeeds
  leaves the next mint of the same block precisely that much less.
\<close>

theorem mint_spends_epoch_budget:
  assumes "kv_get (Keeper.Account s) a \<noteq> None" and "amt \<noteq> 0" and "emission_inv s" and "clock_ok env s"
  shows "((\<exists>s'. mintProtocolReward env a ab amt rail s = (Inr (), s')) \<longleftrightarrow> unat amt \<le> epochBudget env s)
     \<and> (\<forall>s'. mintProtocolReward env a ab amt rail s = (Inr (), s') \<longrightarrow>
          epochBudget env s' = epochBudget env s - unat amt)"
  using mint_exactly [OF assms, of ab rail] by (metis add_diff_cancel_right')

lemma sampleSchedule_budget [simp]: "epochBudget (sampleEnv 2000) sampleSchedule = 21000"
proof -
  let ?e = "DefaultEmissionState 1000"
  have "EmissionState.EpochScheduled ?e \<noteq> 0" "EmissionState.MaxSupply ?e \<noteq> 0" "\<not> epochOver 2000 ?e"
    by (simp_all add: DefaultEmissionState_def Constants.MaxSupply_def Constants.EpochRewardDivisor_def
        Constants.EpochLengthSeconds_def epochOver_def i64_less_iff i64_le_iff)
  moreover have "filledDefaults 2000 ?e = ?e"
    by (simp add: filledDefaults_def DefaultEmissionState_def Constants.EpochRewardDivisor_def
        Constants.EpochLengthSeconds_def)
  ultimately have "syncEmissionState (sampleEnv 2000) sampleSchedule = (Inr ?e, sampleSchedule)"
    using epochLoop_idle [of 2000 ?e]
    by (simp add: syncEmissionState_def getEmissionState_def fillEmissionDefaults_eq Let_def sampleSchedule_def)
  then show ?thesis
    by (simp add: epochBudget_def unat_RemainingEpoch)
      (simp add: DefaultEmissionState_def Constants.MaxSupply_def Constants.EpochRewardDivisor_def)
qed

lemma sampleSchedule_clock [simp]: "clock_ok (sampleEnv 2000) sampleSchedule"
  by (simp add: clock_ok_def epochLen_def) (simp add: DefaultEmissionState_def Constants.EpochLengthSeconds_def)

lemma mint_spends_epoch_budget_witness:
  "(\<exists>s'. mintProtocolReward (sampleEnv 2000) ''alice'' ''alice'' 21000 ''gate'' sampleSchedule = (Inr (), s'))
     \<and> \<not> (\<exists>s'. mintProtocolReward (sampleEnv 2000) ''alice'' ''alice'' 21001 ''gate'' sampleSchedule = (Inr (), s'))"
  using mint_spends_epoch_budget [of sampleSchedule "''alice''" 21000 "sampleEnv 2000" "''alice''" "''gate''"]
    mint_spends_epoch_budget [of sampleSchedule "''alice''" 21001 "sampleEnv 2000" "''alice''" "''gate''"]
  by simp

end
