(* ===== verification/Ledger.thy ===== *)
theory Ledger
  imports Sample
begin

text \<open>
  Registration, transfers, the disabled faucet and staked vouches
  (\<^verbatim>\<open>msg_server_register.go\<close>, \<^verbatim>\<open>msg_server_faucet.go\<close>, \<^verbatim>\<open>msg_server_transfer.go\<close>,
  \<^verbatim>\<open>msg_server_castvouch.go\<close>, \<^verbatim>\<open>msg_server_unvouch.go\<close>).
\<close>

section \<open>Registration and faucet\<close>

record MsgRegister =
  Creator :: string

definition Register :: "Env \<Rightarrow> MsgRegister \<Rightarrow> Keeper \<Rightarrow> unit result" where
  "Register env msg s =
    (case StringToBytes env (MsgRegister.Creator msg) of
       None \<Rightarrow> fail (ErrAddress ''invalid creator address'') s
     | Some _ \<Rightarrow>
    (case getRegistered s (MsgRegister.Creator msg) of
       Some _ \<Rightarrow> fail (ErrInvalidRequest ''already registered'') s
     | None \<Rightarrow>
       respond () (setAccount (MsgRegister.Creator msg)
         \<lparr>Account.Address = MsgRegister.Creator msg, Account.Balance = 0, Account.Nonce = 0,
          Account.Registered = True, Account.FaucetClaimed = False\<rparr> s)))"

record MsgFaucet =
  Creator :: string

definition Faucet :: "Env \<Rightarrow> MsgFaucet \<Rightarrow> Keeper \<Rightarrow> unit result" where
  "Faucet env msg s =
     fail (ErrInvalidRequest
       ''module faucet disabled: use register, then earn AGNT through gates or accepted contribution awards'') s"

section \<open>Transfer\<close>

record MsgTransfer =
  Creator :: string
  ToAddr :: string
  Amount :: u64
  Memo :: string

definition Transfer :: "Env \<Rightarrow> MsgTransfer \<Rightarrow> Keeper \<Rightarrow> unit result" where
  "Transfer env msg s =
    (case StringToBytes env (MsgTransfer.Creator msg) of
       None \<Rightarrow> fail (ErrAddress ''invalid creator address'') s
     | Some _ \<Rightarrow>
    (case StringToBytes env (MsgTransfer.ToAddr msg) of
       None \<Rightarrow> fail (ErrAddress ''invalid recipient address'') s
     | Some toBytes \<Rightarrow>
    (if MsgTransfer.Amount msg = 0 then
       fail (ErrInvalidRequest ''amount must be positive'') s
     else if MsgTransfer.Creator msg = MsgTransfer.ToAddr msg then
       fail (ErrInvalidRequest ''cannot transfer to self'') s
     else
    (case getRegistered s (MsgTransfer.Creator msg) of
       None \<Rightarrow> fail (ErrInvalidRequest ''sender not registered'') s
     | Some from_acc \<Rightarrow>
    (if Account.Balance from_acc < MsgTransfer.Amount msg then
       fail (ErrInsufficientFunds ''insufficient balance'') s
     else
    (case checkNewAccountCredit s (MsgTransfer.ToAddr msg) (MsgTransfer.Amount msg) of
       Some err \<Rightarrow> fail err s
     | None \<Rightarrow>
    (let s1 = setAccount (MsgTransfer.Creator msg)
                (from_acc\<lparr>Account.Balance := Account.Balance from_acc - MsgTransfer.Amount msg\<rparr>) s
     in case creditAccount env (MsgTransfer.ToAddr msg) toBytes (MsgTransfer.Amount msg) s1 of
          (Inl err, s2) \<Rightarrow> fail err s2
        | (Inr _, s2) \<Rightarrow>
            respond () (emit ''agntcoin_transfer''
              [(''from'', MsgTransfer.Creator msg),
               (''to'', MsgTransfer.ToAddr msg),
               (''amount'', FormatUint (MsgTransfer.Amount msg)),
               (''memo'', MsgTransfer.Memo msg)] s2))))))))"

section \<open>Vouches\<close>

record MsgCastvouch =
  Creator :: string
  ToAddr :: string
  Weight :: u64
  Stake :: u64

text \<open>The walk of both handlers: the first vouch from the caller for the address.\<close>

definition findVouch :: "Keeper \<Rightarrow> string \<Rightarrow> string \<Rightarrow> (u64 \<times> Vouch) option" where
  "findVouch s creator toAddr =
     kv_find (\<lambda>v. Vouch.FromAddr v = creator \<and> Vouch.ToAddr v = toAddr) (Keeper.Vouch s)"

definition Castvouch :: "Env \<Rightarrow> MsgCastvouch \<Rightarrow> Keeper \<Rightarrow> unit result" where
  "Castvouch env msg s =
    (case StringToBytes env (MsgCastvouch.Creator msg) of
       None \<Rightarrow> fail (ErrAddress ''invalid creator address'') s
     | Some _ \<Rightarrow>
    (case StringToBytes env (MsgCastvouch.ToAddr msg) of
       None \<Rightarrow> fail (ErrAddress ''invalid vouchee address'') s
     | Some _ \<Rightarrow>
    (if MsgCastvouch.Creator msg = MsgCastvouch.ToAddr msg then
       fail (ErrInvalidRequest ''cannot vouch for self'') s
     else if MsgCastvouch.Weight msg < 1 \<or> MsgCastvouch.Weight msg > MaxVouchWeight then
       fail (ErrInvalidRequest (''weight must be 1..'' @ FormatUint MaxVouchWeight)) s
     else if MsgCastvouch.Stake msg < MinVouchStake then
       fail (ErrInvalidRequest (''stake must be at least '' @ FormatUint MinVouchStake)) s
     else
    (case getRegistered s (MsgCastvouch.Creator msg) of
       None \<Rightarrow> fail (ErrInvalidRequest ''voucher not registered'') s
     | Some from0 \<Rightarrow>
    (case getRegistered s (MsgCastvouch.ToAddr msg) of
       None \<Rightarrow> fail (ErrInvalidRequest ''vouchee not registered'') s
     | Some _ \<Rightarrow>
    (let found = findVouch s (MsgCastvouch.Creator msg) (MsgCastvouch.ToAddr msg);
         from1 = (case found of
                    None \<Rightarrow> from0
                  | Some (_, v) \<Rightarrow>
                      from0\<lparr>Account.Balance := Account.Balance from0 + Vouch.Stake v\<rparr>)
     in if Account.Balance from1 < MsgCastvouch.Stake msg then
          fail (ErrInsufficientFunds ''insufficient balance to lock vouch stake'') s
        else
       (let s1 = setAccount (MsgCastvouch.Creator msg)
                   (from1\<lparr>Account.Balance := Account.Balance from1 - MsgCastvouch.Stake msg\<rparr>) s;
            (entryID, s2) = (case found of
                               Some (existingID, _) \<Rightarrow> (existingID, s1)
                             | None \<Rightarrow> nextVouchID s1);
            entry = \<lparr>Vouch.Id = entryID, Vouch.FromAddr = MsgCastvouch.Creator msg,
                     Vouch.ToAddr = MsgCastvouch.ToAddr msg, Vouch.Weight = MsgCastvouch.Weight msg,
                     Vouch.Stake = MsgCastvouch.Stake msg\<rparr>;
            s3 = setVouch entryID entry s2
        in respond () (emit ''agntcoin_vouch_cast''
             [(''id'', FormatUint (Vouch.Id entry)),
              (''from'', MsgCastvouch.Creator msg),
              (''to'', MsgCastvouch.ToAddr msg),
              (''weight'', FormatUint (MsgCastvouch.Weight msg)),
              (''stake'', FormatUint (MsgCastvouch.Stake msg))] s3))))))))"

record MsgUnvouch =
  Creator :: string
  ToAddr :: string

definition Unvouch :: "Env \<Rightarrow> MsgUnvouch \<Rightarrow> Keeper \<Rightarrow> unit result" where
  "Unvouch env msg s =
    (case StringToBytes env (MsgUnvouch.Creator msg) of
       None \<Rightarrow> fail (ErrAddress ''invalid creator address'') s
     | Some _ \<Rightarrow>
    (case StringToBytes env (MsgUnvouch.ToAddr msg) of
       None \<Rightarrow> fail (ErrAddress ''invalid vouchee address'') s
     | Some _ \<Rightarrow>
    (case findVouch s (MsgUnvouch.Creator msg) (MsgUnvouch.ToAddr msg) of
       None \<Rightarrow> fail (ErrKeyNotFound ''no vouch from caller for that address'') s
     | Some (existingID, v) \<Rightarrow>
    (case kv_get (Keeper.Account s) (MsgUnvouch.Creator msg) of
       None \<Rightarrow> fail (ErrIO ''collections: not found'') s
     | Some from_acc \<Rightarrow>
    (let s1 = setAccount (MsgUnvouch.Creator msg)
                (from_acc\<lparr>Account.Balance := Account.Balance from_acc + Vouch.Stake v\<rparr>) s;
         s2 = s1\<lparr>Keeper.Vouch := kv_remove (Keeper.Vouch s1) existingID\<rparr>
     in respond () (emit ''agntcoin_vouch_removed''
          [(''id'', FormatUint existingID),
           (''from'', MsgUnvouch.Creator msg),
           (''to'', MsgUnvouch.ToAddr msg),
           (''stake'', FormatUint (Vouch.Stake v))] s2))))))"

section \<open>The handlers meet the contract\<close>

lemma Register_success:
  assumes "Register env msg s = (Inr r, s')"
  shows "getRegistered s (MsgRegister.Creator msg) = None
     \<and> s' = setAccount (MsgRegister.Creator msg) (newAccount (MsgRegister.Creator msg)) s"
  using assms by (simp add: Register_def newAccount_def split: option.splits)

interpretation register: moving_handler Register
proof unfold_locales
  fix env m s r s'
  assume run: "Register env m s = (Inr r, s')" and inv: "core_inv s"
  have fresh: "kv_get (Keeper.Account s) (MsgRegister.Creator m) = None"
    using Register_success [OF run] core_inv_registered [OF inv]
    by (auto simp: getRegistered_def split: option.splits if_splits)
  show "core_inv s' \<and> total_supply s' = total_supply s \<and> Keeper.EmissionState s' = Keeper.EmissionState s"
    using Register_success [OF run] inv fresh by (auto simp: supply_setAccount_new newAccount_def)
  show "lifecycle s s' \<and> seqs_step s s'"
    using Register_success [OF run] by (simp add: lifecycle_same seqs_step_def)
qed

interpretation faucet: moving_handler Faucet
  by unfold_locales (simp_all add: Faucet_def)

lemma Transfer_success:
  assumes "Transfer env msg s = (Inr r, s')"
  shows "\<exists>toBytes acc s2. getRegistered s (MsgTransfer.Creator msg) = Some acc
     \<and> MsgTransfer.Amount msg \<noteq> 0 \<and> MsgTransfer.Amount msg \<le> Account.Balance acc
     \<and> MsgTransfer.Creator msg \<noteq> MsgTransfer.ToAddr msg
     \<and> StringToBytes env (MsgTransfer.ToAddr msg) = Some toBytes
     \<and> creditAccount env (MsgTransfer.ToAddr msg) toBytes (MsgTransfer.Amount msg)
          (setAccount (MsgTransfer.Creator msg)
             (acc\<lparr>Account.Balance := Account.Balance acc - MsgTransfer.Amount msg\<rparr>) s) = (Inr (), s2)
     \<and> s' = emit ''agntcoin_transfer''
              [(''from'', MsgTransfer.Creator msg), (''to'', MsgTransfer.ToAddr msg),
               (''amount'', FormatUint (MsgTransfer.Amount msg)), (''memo'', MsgTransfer.Memo msg)] s2"
  using assms
  by (simp add: Transfer_def Let_def not_less split: option.splits if_splits sum.splits prod.splits)

interpretation transfer: moving_handler Transfer
proof unfold_locales
  fix env m s r s'
  assume run: "Transfer env m s = (Inr r, s')" and inv: "core_inv s"
  obtain tb acc s2 ats where acc: "getRegistered s (MsgTransfer.Creator m) = Some acc"
      "MsgTransfer.Amount m \<le> Account.Balance acc"
    and cr: "creditAccount env (MsgTransfer.ToAddr m) tb (MsgTransfer.Amount m)
          (setAccount (MsgTransfer.Creator m)
             (acc\<lparr>Account.Balance := Account.Balance acc - MsgTransfer.Amount m\<rparr>) s) = (Inr (), s2)"
    and s': "s' = emit ''agntcoin_transfer'' ats s2"
    using Transfer_success [OF run] by blast
  note debit = debit_ok [OF acc inv]
  show "core_inv s' \<and> total_supply s' = total_supply s \<and> Keeper.EmissionState s' = Keeper.EmissionState s"
    if "total_supply s < 2 ^ 64"
    using creditAccount_ok [OF cr debit(1)] debit(2) that creditAccount_frame [OF cr]
      balance_le_total [of "setAccount (MsgTransfer.Creator m)
        (acc\<lparr>Account.Balance := Account.Balance acc - MsgTransfer.Amount m\<rparr>) s" "MsgTransfer.ToAddr m"]
    by (simp add: s')
  show "lifecycle s s' \<and> seqs_step s s'"
    using creditAccount_frame [OF cr] by (simp add: s' lifecycle_same seqs_step_def)
qed

lemma findVouch_Some:
  "findVouch s a b = Some (i, v) \<Longrightarrow>
     kv_get (Keeper.Vouch s) i = Some v \<and> Vouch.FromAddr v = a \<and> Vouch.ToAddr v = b"
  unfolding findVouch_def by (drule kv_find_SomeD) auto

lemma findVouch_None:
  "findVouch s a b = None \<longleftrightarrow>
     (\<forall>i v. kv_get (Keeper.Vouch s) i = Some v \<longrightarrow> \<not> (Vouch.FromAddr v = a \<and> Vouch.ToAddr v = b))"
  unfolding findVouch_def by (simp add: kv_find_None_iff)

text \<open>The stake already locked by an earlier vouch of the pair, and the id the new one gets.\<close>

definition oldStake :: "(u64 \<times> Vouch) option \<Rightarrow> u64" where
  "oldStake found = (case found of None \<Rightarrow> 0 | Some (_, v) \<Rightarrow> Vouch.Stake v)"

definition vouchEntry :: "u64 \<Rightarrow> MsgCastvouch \<Rightarrow> Vouch" where
  "vouchEntry i msg =
     \<lparr>Vouch.Id = i, Vouch.FromAddr = MsgCastvouch.Creator msg, Vouch.ToAddr = MsgCastvouch.ToAddr msg,
      Vouch.Weight = MsgCastvouch.Weight msg, Vouch.Stake = MsgCastvouch.Stake msg\<rparr>"

lemma vouchEntry_simps [simp]:
  "Vouch.Id (vouchEntry i msg) = i" "Vouch.FromAddr (vouchEntry i msg) = MsgCastvouch.Creator msg"
  "Vouch.ToAddr (vouchEntry i msg) = MsgCastvouch.ToAddr msg"
  "Vouch.Weight (vouchEntry i msg) = MsgCastvouch.Weight msg"
  "Vouch.Stake (vouchEntry i msg) = MsgCastvouch.Stake msg"
  by (simp_all add: vouchEntry_def)

lemma Castvouch_success:
  assumes "Castvouch env msg s = (Inr r, s')"
  shows "\<exists>acc n ats. getRegistered s (MsgCastvouch.Creator msg) = Some acc
     \<and> getRegistered s (MsgCastvouch.ToAddr msg) \<noteq> None
     \<and> MsgCastvouch.Creator msg \<noteq> MsgCastvouch.ToAddr msg
     \<and> MsgCastvouch.Weight msg \<noteq> 0 \<and> MsgCastvouch.Weight msg \<le> MaxVouchWeight
     \<and> MinVouchStake \<le> MsgCastvouch.Stake msg
     \<and> MsgCastvouch.Stake msg
          \<le> Account.Balance acc + oldStake (findVouch s (MsgCastvouch.Creator msg) (MsgCastvouch.ToAddr msg))
     \<and> s' = emit n ats
          (let s1 = setAccount (MsgCastvouch.Creator msg)
                 (acc\<lparr>Account.Balance := Account.Balance acc
                    + oldStake (findVouch s (MsgCastvouch.Creator msg) (MsgCastvouch.ToAddr msg))
                    - MsgCastvouch.Stake msg\<rparr>) s
           in case findVouch s (MsgCastvouch.Creator msg) (MsgCastvouch.ToAddr msg) of
                Some (i, _) \<Rightarrow> setVouch i (vouchEntry i msg) s1
              | None \<Rightarrow> setVouch (Keeper.VouchSeq s) (vouchEntry (Keeper.VouchSeq s) msg)
                          (s1\<lparr>Keeper.VouchSeq := Keeper.VouchSeq s + 1\<rparr>))"
  using assms
  by (simp add: Castvouch_def Let_def not_less oldStake_def vouchEntry_def
      split: option.splits if_splits prod.splits) blast+

interpretation castvouch: moving_handler Castvouch
proof unfold_locales
  fix env m s r s'
  assume run: "Castvouch env m s = (Inr r, s')" and inv: "core_inv s"
  let ?c = "MsgCastvouch.Creator m" and ?f = "findVouch s (MsgCastvouch.Creator m) (MsgCastvouch.ToAddr m)"
  obtain acc n ats where acc: "getRegistered s ?c = Some acc"
    and le: "MsgCastvouch.Stake m \<le> Account.Balance acc + oldStake ?f"
    and s': "s' = emit n ats
          (let s1 = setAccount ?c
                 (acc\<lparr>Account.Balance := Account.Balance acc + oldStake ?f - MsgCastvouch.Stake m\<rparr>) s
           in case ?f of Some (i, _) \<Rightarrow> setVouch i (vouchEntry i m) s1
              | None \<Rightarrow> setVouch (Keeper.VouchSeq s) (vouchEntry (Keeper.VouchSeq s) m)
                          (s1\<lparr>Keeper.VouchSeq := Keeper.VouchSeq s + 1\<rparr>))"
    using Castvouch_success [OF run] by blast
  let ?s1 = "setAccount ?c
      (acc\<lparr>Account.Balance := Account.Balance acc + oldStake ?f - MsgCastvouch.Stake m\<rparr>) s"
  have core1: "core_inv ?s1" using acc inv by (auto simp: getRegistered_Some)
  have get: "kv_get (Keeper.Account s) ?c = Some acc" using acc by (simp add: getRegistered_Some)
  show "lifecycle s s' \<and> seqs_step s s'"
    by (auto simp: s' Let_def lifecycle_same seqs_step_def split: option.splits prod.splits)
  show "core_inv s' \<and> total_supply s' = total_supply s \<and> Keeper.EmissionState s' = Keeper.EmissionState s"
    if room: "total_supply s < 2 ^ 64" and free: "ids_free s"
  proof (cases ?f)
    case None
    have "total_supply ?s1 + unat (MsgCastvouch.Stake m) = total_supply s"
      using debit_ok(2) [OF acc _ inv] le None by (simp add: oldStake_def)
    moreover have "core_inv (?s1\<lparr>Keeper.VouchSeq := Keeper.VouchSeq s + 1\<rparr>)"
      using core_inv_seq(5) [OF core1] free by (simp add: ids_free_def)
    moreover have "Keeper.VouchSeq s < Keeper.VouchSeq s + 1"
      using free by (intro u64_less_self_Suc) (simp add: ids_free_def)
    moreover have "kv_get (Keeper.Vouch s) (Keeper.VouchSeq s) = None"
      using inv by (rule core_inv_fresh)
    ultimately show ?thesis
      by (auto simp: s' None Let_def supply_setVouch_new)
  next
    case (Some p)
    then obtain i v where f: "?f = Some (i, v)" by (cases p) auto
    then have v: "kv_get (Keeper.Vouch s) i = Some v" using findVouch_Some by blast
    have sum: "unat (Account.Balance acc) + unat (Vouch.Stake v) \<le> total_supply s"
      using held_stake_le [OF v, of ?c] get by (simp add: balance_def)
    then have add: "unat (Account.Balance acc + Vouch.Stake v) = unat (Account.Balance acc) + unat (Vouch.Stake v)"
      using room by (intro unat_add_no_wrap) linarith
    have le': "unat (MsgCastvouch.Stake m) \<le> unat (Account.Balance acc) + unat (Vouch.Stake v)"
      using le f add by (simp add: oldStake_def u64_le_iff)
    have "total_supply ?s1 + unat (MsgCastvouch.Stake m) = total_supply s + unat (Vouch.Stake v)"
      using supply_setAccount_old [OF get, of "acc\<lparr>Account.Balance := Account.Balance acc + oldStake ?f - MsgCastvouch.Stake m\<rparr>"]
        le le' f add by (simp add: oldStake_def unat_sub_no_wrap)
    moreover have "total_supply (setVouch i (vouchEntry i m) ?s1) + unat (Vouch.Stake v)
        = total_supply ?s1 + unat (MsgCastvouch.Stake m)"
      using supply_setVouch_old [of ?s1 i v "vouchEntry i m"] v by simp
    moreover have "core_inv (setVouch i (vouchEntry i m) ?s1)"
      using core1 core_inv_vouch [OF inv v] by auto
    ultimately show ?thesis by (simp add: s' f Let_def)
  qed
qed

lemma Unvouch_success:
  assumes "Unvouch env msg s = (Inr r, s')"
  shows "\<exists>i v acc n ats. findVouch s (MsgUnvouch.Creator msg) (MsgUnvouch.ToAddr msg) = Some (i, v)
     \<and> kv_get (Keeper.Account s) (MsgUnvouch.Creator msg) = Some acc
     \<and> s' = emit n ats ((setAccount (MsgUnvouch.Creator msg)
                (acc\<lparr>Account.Balance := Account.Balance acc + Vouch.Stake v\<rparr>) s)
                \<lparr>Keeper.Vouch := kv_remove (Keeper.Vouch s) i\<rparr>)"
  using assms
  by (simp add: Unvouch_def Let_def split: option.splits prod.splits) blast

interpretation unvouch: moving_handler Unvouch
proof unfold_locales
  fix env m s r s'
  assume run: "Unvouch env m s = (Inr r, s')" and inv: "core_inv s"
  let ?c = "MsgUnvouch.Creator m"
  obtain i v acc n ats where f: "findVouch s ?c (MsgUnvouch.ToAddr m) = Some (i, v)"
    and acc: "kv_get (Keeper.Account s) ?c = Some acc"
    and s': "s' = emit n ats ((setAccount ?c
                (acc\<lparr>Account.Balance := Account.Balance acc + Vouch.Stake v\<rparr>) s)
                \<lparr>Keeper.Vouch := kv_remove (Keeper.Vouch s) i\<rparr>)"
    using Unvouch_success [OF run] by blast
  let ?s1 = "setAccount ?c (acc\<lparr>Account.Balance := Account.Balance acc + Vouch.Stake v\<rparr>) s"
  have v: "kv_get (Keeper.Vouch s) i = Some v" using findVouch_Some [OF f] by blast
  show "lifecycle s s' \<and> seqs_step s s'"
    by (simp add: s' lifecycle_same seqs_step_def)
  have "core_inv ?s1" using inv core_inv_registered [OF inv acc] by auto
  then have core: "core_inv (?s1\<lparr>Keeper.Vouch := kv_remove (Keeper.Vouch ?s1) i\<rparr>)" by blast
  show "core_inv s' \<and> total_supply s' = total_supply s \<and> Keeper.EmissionState s' = Keeper.EmissionState s"
    if room: "total_supply s < 2 ^ 64"
  proof -
    have "unat (Account.Balance acc) + unat (Vouch.Stake v) \<le> total_supply s"
      using held_stake_le [OF v, of ?c] acc by (simp add: balance_def)
    then have "unat (Account.Balance acc + Vouch.Stake v) = unat (Account.Balance acc) + unat (Vouch.Stake v)"
      using room by (intro unat_add_no_wrap) linarith
    then have "total_supply ?s1 = total_supply s + unat (Vouch.Stake v)"
      using supply_setAccount_old [OF acc, of "acc\<lparr>Account.Balance := Account.Balance acc + Vouch.Stake v\<rparr>"]
      by simp
    then show ?thesis
      using supply_removeVouch [of ?s1 i v] v core by (simp add: s')
  qed
qed

section \<open>Properties\<close>

lemma checkNewAccountCredit_credit:
  "checkNewAccountCredit s a amt = None \<Longrightarrow> kv_get (Keeper.Account s1) a = kv_get (Keeper.Account s) a \<Longrightarrow>
     \<exists>s2. creditAccount env a ab amt s1 = (Inr (), s2)"
  by (auto simp: creditAccount_cases checkNewAccountCredit_def split: option.splits if_splits)

lemma Transfer_error_no_write:
  assumes "Transfer env msg s = (Inl err, s')"
  shows "s' = s"
proof (rule ccontr)
  assume "s' \<noteq> s"
  let ?to = "MsgTransfer.ToAddr msg" and ?amt = "MsgTransfer.Amount msg"
  obtain toBytes acc where
      none: "checkNewAccountCredit s ?to ?amt = None" and neq: "MsgTransfer.Creator msg \<noteq> ?to"
    and cr: "creditAccount env ?to toBytes ?amt
      (setAccount (MsgTransfer.Creator msg) (acc\<lparr>Account.Balance := Account.Balance acc - ?amt\<rparr>) s) = (Inl err, s')"
    using assms \<open>s' \<noteq> s\<close>
    by (simp add: Transfer_def Let_def split: option.splits if_splits sum.splits prod.splits)
  show False
    using checkNewAccountCredit_credit [OF none, of "setAccount (MsgTransfer.Creator msg)
        (acc\<lparr>Account.Balance := Account.Balance acc - ?amt\<rparr>) s" env toBytes] cr neq
    by auto
qed

text \<open>
  C5: A transfer is all or nothing. If it fails, no write at all has happened; if it
  succeeds, the sender was registered and had the coins, the sender's balance is smaller by
  exactly the amount, the recipient's larger by exactly the amount, and every other balance
  is the same. No 64-bit balance wraps.
\<close>

theorem transfer_all_or_nothing:
  assumes "core_inv s" and "total_supply s < 2 ^ 64"
  shows "case Transfer env msg s of
      (Inl err, s') \<Rightarrow> s' = s
    | (Inr _, s') \<Rightarrow>
        getRegistered s (MsgTransfer.Creator msg) \<noteq> None
      \<and> unat (MsgTransfer.Amount msg) \<le> balance s (MsgTransfer.Creator msg)
      \<and> balance s' (MsgTransfer.Creator msg)
          = balance s (MsgTransfer.Creator msg) - unat (MsgTransfer.Amount msg)
      \<and> balance s' (MsgTransfer.ToAddr msg)
          = balance s (MsgTransfer.ToAddr msg) + unat (MsgTransfer.Amount msg)
      \<and> (\<forall>a. a \<notin> {MsgTransfer.Creator msg, MsgTransfer.ToAddr msg} \<longrightarrow> balance s' a = balance s a)"
proof (cases "Transfer env msg s")
  case (Pair r s')
  show ?thesis
  proof (cases r)
    case (Inl err)
    then show ?thesis using Pair Transfer_error_no_write by simp
  next
    case (Inr u)
    let ?c = "MsgTransfer.Creator msg" and ?to = "MsgTransfer.ToAddr msg" and ?amt = "MsgTransfer.Amount msg"
    obtain tb acc s2 ats where acc: "getRegistered s ?c = Some acc" "?amt \<le> Account.Balance acc"
      and neq: "?c \<noteq> ?to"
      and cr: "creditAccount env ?to tb ?amt
          (setAccount ?c (acc\<lparr>Account.Balance := Account.Balance acc - ?amt\<rparr>) s) = (Inr (), s2)"
      and s': "s' = emit ''agntcoin_transfer'' ats s2"
      using Transfer_success [of env msg s u s'] Pair Inr by blast
    note debit = debit_ok [OF acc assms(1)]
    have "unat (Account.Balance acc - ?amt) = balance s ?c - unat ?amt"
      using acc by (simp add: balance_registered unat_sub_no_wrap)
    then show ?thesis
      using creditAccount_ok(3) [OF cr debit(1)] debit(2) assms(2) acc neq balance_le_total
        [of "setAccount ?c (acc\<lparr>Account.Balance := Account.Balance acc - ?amt\<rparr>) s" ?to]
      by (simp add: Pair Inr s' u64_le_iff balance_registered)
  qed
qed

lemma transfer_all_or_nothing_witness:
  "balance (snd (Transfer (sampleEnv 100)
     \<lparr>MsgTransfer.Creator = ''alice'', MsgTransfer.ToAddr = ''zoe'', MsgTransfer.Amount = 250,
      MsgTransfer.Memo = ''hi''\<rparr> sampleState)) ''zoe'' = 250"
  using transfer_all_or_nothing [where s = sampleState and env = "sampleEnv 100" and msg =
      "\<lparr>MsgTransfer.Creator = ''alice'', MsgTransfer.ToAddr = ''zoe'', MsgTransfer.Amount = 250,
       MsgTransfer.Memo = ''hi''\<rparr>"]
  by (simp add: Transfer_def helper_defs creditAccount_cases
      Constants.MinNewAccountCredit_def balance_def split: prod.splits sum.splits)

definition vouches_unique :: "Keeper \<Rightarrow> bool" where
  "vouches_unique s \<longleftrightarrow>
     (\<forall>i j v w. kv_get (Keeper.Vouch s) i = Some v \<longrightarrow> kv_get (Keeper.Vouch s) j = Some w \<longrightarrow>
        Vouch.FromAddr v = Vouch.FromAddr w \<longrightarrow> Vouch.ToAddr v = Vouch.ToAddr w \<longrightarrow> i = j)"

lemma vouches_unique_put:
  assumes "vouches_unique s"
    and "\<And>j w. kv_get (Keeper.Vouch s) j = Some w \<Longrightarrow> Vouch.FromAddr w = Vouch.FromAddr v \<Longrightarrow>
           Vouch.ToAddr w = Vouch.ToAddr v \<Longrightarrow> j = i"
    and "Keeper.Vouch s' = kv_set (Keeper.Vouch s) i v"
  shows "vouches_unique s'"
  using assms(1,2) by (auto simp: vouches_unique_def assms(3) split: if_splits)

text \<open>The balances before and after a vouch, in natural numbers.\<close>

lemma castvouch_balance:
  assumes "getRegistered s a = Some acc" and "core_inv s" and "total_supply s < 2 ^ 64"
    and "stake \<le> Account.Balance acc + oldStake found"
    and "\<And>i v. found = Some (i, v) \<Longrightarrow> kv_get (Keeper.Vouch s) i = Some v"
  shows "unat (Account.Balance acc + oldStake found - stake) + unat stake
       = balance s a + unat (oldStake found)"
proof -
  have acc: "kv_get (Keeper.Account s) a = Some acc" using assms(1) by (simp add: getRegistered_Some)
  have "unat (Account.Balance acc) + unat (oldStake found) \<le> total_supply s"
  proof (cases found)
    case None
    then show ?thesis using balance_le_supply [OF acc] by (simp add: oldStake_def)
  next
    case (Some p)
    then obtain i v where "found = Some (i, v)" by (cases p) auto
    then show ?thesis
      using held_stake_le [OF assms(5), of i v a] acc by (simp add: oldStake_def balance_def)
  qed
  then have "unat (Account.Balance acc + oldStake found) = unat (Account.Balance acc) + unat (oldStake found)"
    using assms(3) by (intro unat_add_no_wrap) linarith
  then show ?thesis
    using assms(4) by (simp add: unat_sub_no_wrap u64_le_iff balance_registered [OF assms(1)])
qed

lemma Castvouch_facts:
  assumes "Castvouch env msg s = (Inr r, s')"
    and "core_inv s" and "ids_free s" and "total_supply s < 2 ^ 64" and "vouches_unique s"
  shows "vouches_unique s'"
    and "\<exists>i. kv_get (Keeper.Vouch s') i = Some (vouchEntry i msg)
           \<and> (\<forall>j. j \<noteq> i \<longrightarrow> kv_get (Keeper.Vouch s') j = kv_get (Keeper.Vouch s) j)"
    and "balance s' (MsgCastvouch.Creator msg) + unat (MsgCastvouch.Stake msg)
           = balance s (MsgCastvouch.Creator msg)
             + unat (oldStake (findVouch s (MsgCastvouch.Creator msg) (MsgCastvouch.ToAddr msg)))"
proof -
  let ?c = "MsgCastvouch.Creator msg" and ?f = "findVouch s (MsgCastvouch.Creator msg) (MsgCastvouch.ToAddr msg)"
  obtain acc n ats where acc: "getRegistered s ?c = Some acc"
    and le: "MsgCastvouch.Stake msg \<le> Account.Balance acc + oldStake ?f"
    and s': "s' = emit n ats
          (let s1 = setAccount ?c
                 (acc\<lparr>Account.Balance := Account.Balance acc + oldStake ?f - MsgCastvouch.Stake msg\<rparr>) s
           in case ?f of Some (i, _) \<Rightarrow> setVouch i (vouchEntry i msg) s1
              | None \<Rightarrow> setVouch (Keeper.VouchSeq s) (vouchEntry (Keeper.VouchSeq s) msg)
                          (s1\<lparr>Keeper.VouchSeq := Keeper.VouchSeq s + 1\<rparr>))"
    using Castvouch_success [OF assms(1)] by blast
  define i where "i = (case ?f of Some (i, _) \<Rightarrow> i | None \<Rightarrow> Keeper.VouchSeq s)"
  have tab: "Keeper.Vouch s' = kv_set (Keeper.Vouch s) i (vouchEntry i msg)"
    by (auto simp: s' Let_def i_def split: option.splits)
  have acct: "balance s' ?c = unat (Account.Balance acc + oldStake ?f - MsgCastvouch.Stake msg)"
    by (auto simp: s' Let_def split: option.splits)
  show "\<exists>i. kv_get (Keeper.Vouch s') i = Some (vouchEntry i msg)
           \<and> (\<forall>j. j \<noteq> i \<longrightarrow> kv_get (Keeper.Vouch s') j = kv_get (Keeper.Vouch s) j)"
    by (intro exI [of _ i]) (simp add: tab)
  have same: "j = i" if "kv_get (Keeper.Vouch s) j = Some w" "Vouch.FromAddr w = ?c"
      "Vouch.ToAddr w = MsgCastvouch.ToAddr msg" for j w
  proof (cases ?f)
    case None
    then show ?thesis using that findVouch_None [of s ?c "MsgCastvouch.ToAddr msg"] by blast
  next
    case (Some p)
    then obtain k v where f: "?f = Some (k, v)" by (cases p) auto
    have "kv_get (Keeper.Vouch s) k = Some v" "Vouch.FromAddr v = ?c" "Vouch.ToAddr v = MsgCastvouch.ToAddr msg"
      using findVouch_Some [OF f] by auto
    then have "j = k" using assms(5) that unfolding vouches_unique_def by metis
    then show ?thesis by (simp add: i_def f)
  qed
  show "vouches_unique s'"
    using assms(5) _ tab
  proof (rule vouches_unique_put)
    fix j w
    assume "kv_get (Keeper.Vouch s) j = Some w" "Vouch.FromAddr w = Vouch.FromAddr (vouchEntry i msg)"
      "Vouch.ToAddr w = Vouch.ToAddr (vouchEntry i msg)"
    then show "j = i" by (intro same) simp_all
  qed
  show "balance s' ?c + unat (MsgCastvouch.Stake msg) = balance s ?c + unat (oldStake ?f)"
    unfolding acct using acc assms le by (intro castvouch_balance) (auto dest: findVouch_Some)
qed

text \<open>
  C6: Vouching again replaces the vouch instead of adding one. After a successful
  \<open>Castvouch\<close> there is exactly one vouch of the caller for the address, with the weight and
  stake of the message; every other vouch is as before; and the caller pays only the
  difference between the new stake and the stake that was locked before.
\<close>

theorem castvouch_upserts:
  assumes "Castvouch env msg s = (Inr r, s')"
    and "core_inv s" and "ids_free s" and "total_supply s < 2 ^ 64" and "vouches_unique s"
  shows "vouches_unique s'
     \<and> (\<exists>i. kv_get (Keeper.Vouch s') i = Some (vouchEntry i msg)
           \<and> (\<forall>j. j \<noteq> i \<longrightarrow> kv_get (Keeper.Vouch s') j = kv_get (Keeper.Vouch s) j))
     \<and> balance s' (MsgCastvouch.Creator msg) + unat (MsgCastvouch.Stake msg)
           = balance s (MsgCastvouch.Creator msg)
             + unat (oldStake (findVouch s (MsgCastvouch.Creator msg) (MsgCastvouch.ToAddr msg)))"
  using Castvouch_facts [OF assms] by blast

definition sampleVouch :: "u64 \<Rightarrow> MsgCastvouch" where
  "sampleVouch stake =
     \<lparr>MsgCastvouch.Creator = ''alice'', MsgCastvouch.ToAddr = ''bob'', MsgCastvouch.Weight = 5,
      MsgCastvouch.Stake = stake\<rparr>"

lemma sampleVouch_runs:
  "Castvouch (sampleEnv 100) (sampleVouch 300) sampleState
     = (Inr (), snd (Castvouch (sampleEnv 100) (sampleVouch 300) sampleState))"
  by (simp add: Castvouch_def sampleVouch_def getRegistered_def findVouch_def kv_find_def
      kv_walk_eval Constants.MaxVouchWeight_def Constants.MinVouchStake_def Let_def)

lemma findVouch_empty [simp]: "Keeper.Vouch s = kv_empty \<Longrightarrow> findVouch s a b = None"
  by (simp add: findVouch_None)

lemma castvouch_upserts_witness:
  "balance (snd (Castvouch (sampleEnv 100) (sampleVouch 300) sampleState)) ''alice'' = 700"
  using castvouch_upserts [OF sampleVouch_runs]
  by (simp add: vouches_unique_def balance_def sampleVouch_def oldStake_def)

text \<open>What \<open>Unvouch\<close> does with the vouch it finds.\<close>

lemma Unvouch_found:
  assumes "findVouch s a b = Some (k, v)" and "kv_get (Keeper.Account s) a = Some acc"
    and "StringToBytes env a \<noteq> None" and "StringToBytes env b \<noteq> None"
  shows "\<exists>n ats. Unvouch env \<lparr>MsgUnvouch.Creator = a, MsgUnvouch.ToAddr = b\<rparr> s
    = (Inr (), emit n ats ((setAccount a (acc\<lparr>Account.Balance := Account.Balance acc + Vouch.Stake v\<rparr>) s)
                             \<lparr>Keeper.Vouch := kv_remove (Keeper.Vouch s) k\<rparr>))"
  using assms by (auto simp: Unvouch_def Let_def) blast

lemma Castvouch_codec:
  "Castvouch env msg s = (Inr r, s') \<Longrightarrow>
     StringToBytes env (MsgCastvouch.Creator msg) \<noteq> None \<and> StringToBytes env (MsgCastvouch.ToAddr msg) \<noteq> None"
  by (auto simp: Castvouch_def split: option.splits)

lemma unvouch_first:
  assumes run: "Castvouch env msg s = (Inr r, s1)" and inv: "core_inv s"
    and env': "StringToBytes env' = StringToBytes env"
    and m: "m = \<lparr>MsgUnvouch.Creator = MsgCastvouch.Creator msg, MsgUnvouch.ToAddr = MsgCastvouch.ToAddr msg\<rparr>"
    and none: "findVouch s (MsgCastvouch.Creator msg) (MsgCastvouch.ToAddr msg) = None"
  shows "\<exists>s2. Unvouch env' m s1 = (Inr (), s2)
     \<and> s2 = s\<lparr>Keeper.VouchSeq := Keeper.VouchSeq s + 1, Keeper.Events := Keeper.Events s2\<rparr>"
proof -
  let ?c = "MsgCastvouch.Creator msg" and ?to = "MsgCastvouch.ToAddr msg" and ?i = "Keeper.VouchSeq s"
  obtain acc n ats where acc: "getRegistered s ?c = Some acc"
    and s1: "s1 = emit n ats (setVouch ?i (vouchEntry ?i msg)
       ((setAccount ?c (acc\<lparr>Account.Balance := Account.Balance acc - MsgCastvouch.Stake msg\<rparr>) s)
          \<lparr>Keeper.VouchSeq := ?i + 1\<rparr>))"
    using Castvouch_success [OF run] none by (auto simp: oldStake_def Let_def)
  have fresh: "kv_get (Keeper.Vouch s) ?i = None" using inv by (rule core_inv_fresh)
  have "kv_get (Keeper.Vouch s1) ?i = Some (vouchEntry ?i msg)" by (simp add: s1)
  then obtain k v where f: "findVouch s1 ?c ?to = Some (k, v)"
    using findVouch_None [of s1 ?c ?to] by (cases "findVouch s1 ?c ?to") force+
  have "k = ?i"
    using findVouch_Some [OF f] none by (auto simp: s1 findVouch_None split: if_splits)
  moreover from this have "v = vouchEntry ?i msg" using findVouch_Some [OF f] by (simp add: s1)
  moreover obtain n2 ats2 where un: "Unvouch env' m s1 = (Inr (), emit n2 ats2 ((setAccount ?c
      (acc\<lparr>Account.Balance := Account.Balance acc - MsgCastvouch.Stake msg + Vouch.Stake v\<rparr>) s1)
         \<lparr>Keeper.Vouch := kv_remove (Keeper.Vouch s1) k\<rparr>))"
    using Unvouch_found [OF f, where env = env' and acc = "acc\<lparr>Account.Balance := Account.Balance acc - MsgCastvouch.Stake msg\<rparr>"]
      Castvouch_codec [OF run] by (auto simp: env' m s1)
  moreover have "kv_get (Keeper.Account s) ?c = Some acc" using acc by (simp add: getRegistered_Some)
  ultimately show ?thesis
    unfolding un by (simp add: s1 kv_remove_set kv_set_set kv_remove_fresh [OF fresh] kv_set_same emit_def setAccount_def setVouch_def)
qed

lemma unvouch_replaced:
  assumes run: "Castvouch env msg s = (Inr r, s1)" and "core_inv s"
    and env': "StringToBytes env' = StringToBytes env"
    and m: "m = \<lparr>MsgUnvouch.Creator = MsgCastvouch.Creator msg, MsgUnvouch.ToAddr = MsgCastvouch.ToAddr msg\<rparr>"
    and some: "findVouch s (MsgCastvouch.Creator msg) (MsgCastvouch.ToAddr msg) = Some (k, v)"
  shows "\<exists>s2. Unvouch env' m s1 = (Inr (), s2)
     \<and> (\<exists>s0. Unvouch env' m s = (Inr (), s0) \<and> s2 = s0\<lparr>Keeper.Events := Keeper.Events s2\<rparr>)"
proof -
  let ?c = "MsgCastvouch.Creator msg" and ?to = "MsgCastvouch.ToAddr msg"
  obtain acc n ats where acc: "getRegistered s ?c = Some acc"
    and s1: "s1 = emit n ats (setVouch k (vouchEntry k msg) (setAccount ?c
       (acc\<lparr>Account.Balance := Account.Balance acc + Vouch.Stake v - MsgCastvouch.Stake msg\<rparr>) s))"
    using Castvouch_success [OF run] some by (auto simp: oldStake_def Let_def)
  have get: "kv_get (Keeper.Account s) ?c = Some acc" using acc by (simp add: getRegistered_Some)
  have "findVouch s1 ?c ?to = Some (k, vouchEntry k msg)"
    using some unfolding findVouch_def by (simp add: s1) (rule kv_find_replaced, simp_all)
  from Unvouch_found [OF this, where env = env'
      and acc = "acc\<lparr>Account.Balance := Account.Balance acc + Vouch.Stake v - MsgCastvouch.Stake msg\<rparr>"]
  obtain n1 ats1 where un1: "Unvouch env' m s1 = (Inr (), emit n1 ats1 ((setAccount ?c
      (acc\<lparr>Account.Balance := Account.Balance acc + Vouch.Stake v\<rparr>) s1)\<lparr>Keeper.Vouch := kv_remove (Keeper.Vouch s1) k\<rparr>))"
    using Castvouch_codec [OF run] by (auto simp: env' m s1)
  from Unvouch_found [OF some get, where env = env']
  obtain n0 ats0 where un0: "Unvouch env' m s = (Inr (), emit n0 ats0 ((setAccount ?c
      (acc\<lparr>Account.Balance := Account.Balance acc + Vouch.Stake v\<rparr>) s)\<lparr>Keeper.Vouch := kv_remove (Keeper.Vouch s) k\<rparr>))"
    using Castvouch_codec [OF run] by (auto simp: env' m)
  show ?thesis
    unfolding un1 un0 by (simp add: s1 kv_remove_set kv_set_set emit_def setAccount_def setVouch_def)
qed

text \<open>
  C7: Removing a vouch undoes making it. Right after a \<open>Castvouch\<close>, \<open>Unvouch\<close> of the same pair
  succeeds (at any time, with the same codec). After a first vouch of the pair it leaves the state of
  before the vouch, but for the events and for the id the vouch has used up. When the vouch
  replaced an earlier one, it does not bring that one back: it leaves the state that \<open>Unvouch\<close>
  alone would have made of the state of before, again but for the events; so the stakes of both
  vouches are back with the caller.
\<close>

theorem unvouch_undoes_castvouch:
  assumes "Castvouch env msg s = (Inr r, s1)" and "core_inv s"
    and "StringToBytes env' = StringToBytes env"
    and "m = \<lparr>MsgUnvouch.Creator = MsgCastvouch.Creator msg, MsgUnvouch.ToAddr = MsgCastvouch.ToAddr msg\<rparr>"
  shows "\<exists>s2. Unvouch env' m s1 = (Inr (), s2)
     \<and> (case findVouch s (MsgCastvouch.Creator msg) (MsgCastvouch.ToAddr msg) of
          None \<Rightarrow> s2 = s\<lparr>Keeper.VouchSeq := Keeper.VouchSeq s + 1, Keeper.Events := Keeper.Events s2\<rparr>
        | Some _ \<Rightarrow> \<exists>s0. Unvouch env' m s = (Inr (), s0) \<and> s2 = s0\<lparr>Keeper.Events := Keeper.Events s2\<rparr>)"
  using unvouch_first [OF assms] unvouch_replaced [OF assms]
  by (cases "findVouch s (MsgCastvouch.Creator msg) (MsgCastvouch.ToAddr msg)") auto

lemma unvouch_undoes_castvouch_witness:
  "\<exists>s2. Unvouch (sampleEnv 500) \<lparr>MsgUnvouch.Creator = ''alice'', MsgUnvouch.ToAddr = ''bob''\<rparr>
      (snd (Castvouch (sampleEnv 100) (sampleVouch 300) sampleState)) = (Inr (), s2)
     \<and> balance s2 ''alice'' = 1000"
proof -
  let ?s1 = "snd (Castvouch (sampleEnv 100) (sampleVouch 300) sampleState)"
  have codec: "StringToBytes (sampleEnv 500) = StringToBytes (sampleEnv 100)" by (simp add: sampleEnv_def)
  obtain s2 where run: "Unvouch (sampleEnv 500) \<lparr>MsgUnvouch.Creator = ''alice'', MsgUnvouch.ToAddr = ''bob''\<rparr> ?s1 = (Inr (), s2)"
    and s2: "s2 = sampleState\<lparr>Keeper.VouchSeq := Keeper.VouchSeq sampleState + 1, Keeper.Events := Keeper.Events s2\<rparr>"
    using unvouch_undoes_castvouch [OF sampleVouch_runs _ codec refl] by (auto simp: sampleVouch_def)
  have "Keeper.Account s2 = Keeper.Account sampleState" by (subst s2) simp
  then have "balance s2 ''alice'' = 1000" by (simp add: balance_def)
  with run show ?thesis by blast
qed

end
