(* ===== verification/Bonds.thy ===== *)
theory Bonds
  imports Sample
begin

text \<open>
  Slashable bonds (\<^verbatim>\<open>msg_server_post_bond.go\<close>, \<^verbatim>\<open>msg_server_release_bond.go\<close>,
  \<^verbatim>\<open>msg_server_slash_bond.go\<close>): collateral that only the bond's slasher can resolve, once.
  The bonds the protocol itself holds (dispute bonds, juror and attestation stakes) have the
  empty slasher.
\<close>

section \<open>Posting\<close>

record MsgPostBond =
  Creator :: string
  Amount :: u64
  Purpose :: string
  Slasher :: string
  Ref :: string

definition PostBond :: "Env \<Rightarrow> MsgPostBond \<Rightarrow> Keeper \<Rightarrow> u64 result" where
  "PostBond env msg s =
    (case StringToBytes env (MsgPostBond.Creator msg) of
       None \<Rightarrow> fail (ErrAddress ''invalid creator address'') s
     | Some _ \<Rightarrow>
    (case StringToBytes env (MsgPostBond.Slasher msg) of
       None \<Rightarrow> fail (ErrAddress ''invalid slasher address'') s
     | Some _ \<Rightarrow>
    (if MsgPostBond.Amount msg = 0 then
       fail (ErrInvalidRequest ''amount must be positive'') s
     else if MsgPostBond.Creator msg = MsgPostBond.Slasher msg then
       fail (ErrInvalidRequest ''slasher cannot be the poster'') s
     else
    (case getRegistered s (MsgPostBond.Creator msg) of
       None \<Rightarrow> fail (ErrInvalidRequest ''poster not registered'') s
     | Some poster \<Rightarrow>
    (if Account.Balance poster < MsgPostBond.Amount msg then
       fail (ErrInsufficientFunds ''insufficient balance'') s
     else
    (let s1 = setAccount (MsgPostBond.Creator msg)
                (poster\<lparr>Account.Balance := Account.Balance poster - MsgPostBond.Amount msg\<rparr>) s;
         (i, s2) = nextBondID s1;
         bond = \<lparr>Bond.Id = i, Bond.Poster = MsgPostBond.Creator msg, Bond.Amount = MsgPostBond.Amount msg,
                 Bond.Purpose = MsgPostBond.Purpose msg, Bond.Slasher = MsgPostBond.Slasher msg,
                 Bond.Status = BondStatusActive, Bond.Ref = MsgPostBond.Ref msg\<rparr>;
         s3 = setBond i bond s2
     in respond i (emit ''agntcoin_bond_posted''
          [(''id'', FormatUint i),
           (''poster'', MsgPostBond.Creator msg),
           (''amount'', FormatUint (MsgPostBond.Amount msg)),
           (''purpose'', MsgPostBond.Purpose msg),
           (''slasher'', MsgPostBond.Slasher msg),
           (''ref'', MsgPostBond.Ref msg)] s3)))))))"

section \<open>Resolving\<close>

record MsgReleaseBond =
  Creator :: string
  Id :: u64

definition ReleaseBond :: "Env \<Rightarrow> MsgReleaseBond \<Rightarrow> Keeper \<Rightarrow> unit result" where
  "ReleaseBond env msg s =
    (case StringToBytes env (MsgReleaseBond.Creator msg) of
       None \<Rightarrow> fail (ErrAddress ''invalid creator address'') s
     | Some _ \<Rightarrow>
    (case kv_get (Keeper.Bond s) (MsgReleaseBond.Id msg) of
       None \<Rightarrow> fail (ErrKeyNotFound ''bond not found'') s
     | Some bond \<Rightarrow>
    (if Bond.Status bond \<noteq> BondStatusActive then
       fail (ErrInvalidRequest (''bond is not active (status='' @ Bond.Status bond @ '')'')) s
     else if MsgReleaseBond.Creator msg \<noteq> Bond.Slasher bond then
       fail (ErrUnauthorized ''only the bond's slasher may release (the poster cannot self-withdraw)'') s
     else
    (case kv_get (Keeper.Account s) (Bond.Poster bond) of
       None \<Rightarrow> fail (ErrIO ''collections: not found'') s
     | Some poster \<Rightarrow>
    (let s1 = setAccount (Bond.Poster bond)
                (poster\<lparr>Account.Balance := Account.Balance poster + Bond.Amount bond\<rparr>) s;
         bond1 = bond\<lparr>Bond.Status := BondStatusReleased\<rparr>;
         s2 = setBond (Bond.Id bond1) bond1 s1
     in respond () (emit ''agntcoin_bond_released''
          [(''id'', FormatUint (Bond.Id bond1)),
           (''poster'', Bond.Poster bond1),
           (''amount'', FormatUint (Bond.Amount bond1)),
           (''slasher'', Bond.Slasher bond1),
           (''ref'', Bond.Ref bond1)] s2))))))"

record MsgSlashBond =
  Creator :: string
  Id :: u64
  Beneficiary :: string

text \<open>The payout of a slashed bond: to the beneficiary, or to nobody when there is none.\<close>

definition paySlashed :: "Env \<Rightarrow> string \<Rightarrow> u64 \<Rightarrow> Keeper \<Rightarrow> unit result" where
  "paySlashed env beneficiary amount s =
    (if beneficiary \<noteq> [] then
      (case StringToBytes env beneficiary of
         None \<Rightarrow> fail (ErrAddress ''invalid beneficiary address'') s
       | Some beneficiaryBytes \<Rightarrow>
      (case checkNewAccountCredit s beneficiary amount of
         Some err \<Rightarrow> fail err s
       | None \<Rightarrow> creditAccount env beneficiary beneficiaryBytes amount s))
     else respond () s)"

definition SlashBond :: "Env \<Rightarrow> MsgSlashBond \<Rightarrow> Keeper \<Rightarrow> unit result" where
  "SlashBond env msg s =
    (case StringToBytes env (MsgSlashBond.Creator msg) of
       None \<Rightarrow> fail (ErrAddress ''invalid creator address'') s
     | Some _ \<Rightarrow>
    (case kv_get (Keeper.Bond s) (MsgSlashBond.Id msg) of
       None \<Rightarrow> fail (ErrKeyNotFound ''bond not found'') s
     | Some bond \<Rightarrow>
    (if Bond.Status bond \<noteq> BondStatusActive then
       fail (ErrInvalidRequest (''bond is not active (status='' @ Bond.Status bond @ '')'')) s
     else if MsgSlashBond.Creator msg \<noteq> Bond.Slasher bond then
       fail (ErrUnauthorized ''only the bond's slasher may slash'') s
     else
    (case paySlashed env (MsgSlashBond.Beneficiary msg) (Bond.Amount bond) s of
       (Inl err, s1) \<Rightarrow> fail err s1
     | (Inr _, s1) \<Rightarrow>
    (let bond1 = bond\<lparr>Bond.Status := BondStatusSlashed\<rparr>;
         s2 = setBond (Bond.Id bond1) bond1 s1
     in respond () (emit ''agntcoin_bond_slashed''
          [(''id'', FormatUint (Bond.Id bond1)),
           (''poster'', Bond.Poster bond1),
           (''amount'', FormatUint (Bond.Amount bond1)),
           (''slasher'', Bond.Slasher bond1),
           (''beneficiary'', MsgSlashBond.Beneficiary msg),
           (''ref'', Bond.Ref bond1)] s2))))))"

section \<open>Coins in and out of bonds\<close>

text \<open>
  The two facts every handler that locks or frees collateral rests on: debiting an account
  into a fresh bond keeps the supply, and so does closing an active bond in favour of an
  account.
\<close>

definition activeBond :: "u64 \<Rightarrow> string \<Rightarrow> u64 \<Rightarrow> string \<Rightarrow> string \<Rightarrow> string \<Rightarrow> Bond" where
  "activeBond i poster amount purpose slasher reference =
     \<lparr>Bond.Id = i, Bond.Poster = poster, Bond.Amount = amount, Bond.Purpose = purpose,
      Bond.Slasher = slasher, Bond.Status = BondStatusActive, Bond.Ref = reference\<rparr>"

lemma activeBond_simps [simp]:
  "Bond.Id (activeBond i p a pu sl rf) = i" "Bond.Poster (activeBond i p a pu sl rf) = p"
  "Bond.Amount (activeBond i p a pu sl rf) = a" "Bond.Purpose (activeBond i p a pu sl rf) = pu"
  "Bond.Slasher (activeBond i p a pu sl rf) = sl" "Bond.Status (activeBond i p a pu sl rf) = BondStatusActive"
  "Bond.Ref (activeBond i p a pu sl rf) = rf"
  by (simp_all add: activeBond_def)

definition lockBond :: "string \<Rightarrow> Account \<Rightarrow> u64 \<Rightarrow> string \<Rightarrow> string \<Rightarrow> string \<Rightarrow> Keeper \<Rightarrow> Keeper" where
  "lockBond a acc amt purpose slasher reference s =
     setBond (Keeper.BondSeq s) (activeBond (Keeper.BondSeq s) a amt purpose slasher reference)
       ((setAccount a (acc\<lparr>Account.Balance := Account.Balance acc - amt\<rparr>) s)
          \<lparr>Keeper.BondSeq := Keeper.BondSeq s + 1\<rparr>)"

lemma lockBond_frame [simp]:
  "Keeper.Params (lockBond a acc amt pu sl rf s) = Keeper.Params s"
  "Keeper.EmissionState (lockBond a acc amt pu sl rf s) = Keeper.EmissionState s"
  "Keeper.VouchSeq (lockBond a acc amt pu sl rf s) = Keeper.VouchSeq s"
  "Keeper.Vouch (lockBond a acc amt pu sl rf s) = Keeper.Vouch s"
  "Keeper.EscrowSeq (lockBond a acc amt pu sl rf s) = Keeper.EscrowSeq s"
  "Keeper.Escrow (lockBond a acc amt pu sl rf s) = Keeper.Escrow s"
  "Keeper.DisputeSeq (lockBond a acc amt pu sl rf s) = Keeper.DisputeSeq s"
  "Keeper.Dispute (lockBond a acc amt pu sl rf s) = Keeper.Dispute s"
  "Keeper.GateSeq (lockBond a acc amt pu sl rf s) = Keeper.GateSeq s"
  "Keeper.Gate (lockBond a acc amt pu sl rf s) = Keeper.Gate s"
  "Keeper.BondSeq (lockBond a acc amt pu sl rf s) = Keeper.BondSeq s + 1"
  "Keeper.Bond (lockBond a acc amt pu sl rf s) =
     kv_set (Keeper.Bond s) (Keeper.BondSeq s) (activeBond (Keeper.BondSeq s) a amt pu sl rf)"
  "Keeper.Account (lockBond a acc amt pu sl rf s) =
     kv_set (Keeper.Account s) a (acc\<lparr>Account.Balance := Account.Balance acc - amt\<rparr>)"
  by (simp_all add: lockBond_def)

lemma lockBond_ok:
  assumes "getRegistered s a = Some acc" and "amt \<le> Account.Balance acc" and "core_inv s"
    and "Keeper.BondSeq s \<noteq> - 1"
  shows "core_inv (lockBond a acc amt pu sl rf s)"
    and "total_supply (lockBond a acc amt pu sl rf s) = total_supply s"
proof -
  let ?s1 = "setAccount a (acc\<lparr>Account.Balance := Account.Balance acc - amt\<rparr>) s"
  note debit = debit_ok [OF assms(1-3)]
  have core1: "core_inv (?s1\<lparr>Keeper.BondSeq := Keeper.BondSeq s + 1\<rparr>)"
    using core_inv_seq(1) [OF debit(1)] assms(4) by simp
  have "Keeper.BondSeq s < Keeper.BondSeq s + 1" using assms(4) by (rule u64_less_self_Suc)
  then show "core_inv (lockBond a acc amt pu sl rf s)"
    unfolding lockBond_def using core1 by (intro core_inv_setBond) simp_all
  have "kv_get (Keeper.Bond s) (Keeper.BondSeq s) = None" using assms(3) by (rule core_inv_fresh)
  then show "total_supply (lockBond a acc amt pu sl rf s) = total_supply s"
    unfolding lockBond_def using debit(2) by (simp add: supply_setBond_new heldBond_def)
qed

lemma table_step_fresh_bond:
  "core_inv s \<Longrightarrow> Bond.Status b = BondStatusActive \<Longrightarrow>
     table_step bond_step born_bond (Keeper.Bond s) (kv_set (Keeper.Bond s) (Keeper.BondSeq s) b)"
  by (intro table_step_new) (simp_all add: born_bond_def core_inv_fresh)

lemma backed_lockBond [simp]:
  "backed (lockBond a acc amt pu [] rf s) (Keeper.BondSeq s) a pu amt' \<longleftrightarrow> amt' \<le> amt"
  by (simp add: backed_def)

text \<open>Closing an active bond in favour of an account that has a record.\<close>

lemma closeBond_ok:
  assumes b: "kv_get (Keeper.Bond s) i = Some b" and "Bond.Status b = BondStatusActive"
    and acc: "kv_get (Keeper.Account s) a = Some acc"
    and st: "st = BondStatusReleased \<or> st = BondStatusSlashed"
    and inv: "core_inv s" and room: "total_supply s < 2 ^ 64"
  defines "s' \<equiv> setBond i (b\<lparr>Bond.Status := st\<rparr>)
      (setAccount a (acc\<lparr>Account.Balance := Account.Balance acc + Bond.Amount b\<rparr>) s)"
  shows "core_inv s'" "total_supply s' = total_supply s"
    "balance s' c = (if c = a then balance s a + unat (Bond.Amount b) else balance s c)"
proof -
  let ?s1 = "setAccount a (acc\<lparr>Account.Balance := Account.Balance acc + Bond.Amount b\<rparr>) s"
  have held: "heldBond b = unat (Bond.Amount b)" "heldBond (b\<lparr>Bond.Status := st\<rparr>) = 0"
    using assms(2) st by (auto simp: heldBond_def)
  have "unat (Account.Balance acc) + unat (Bond.Amount b) \<le> total_supply s"
    using held_bond_le [OF b, of a] acc held by (simp add: balance_def)
  then have add: "unat (Account.Balance acc + Bond.Amount b) = unat (Account.Balance acc) + unat (Bond.Amount b)"
    using room by (intro unat_add_no_wrap) linarith
  have "total_supply ?s1 = total_supply s + unat (Bond.Amount b)"
    using supply_setAccount_old [OF acc, of "acc\<lparr>Account.Balance := Account.Balance acc + Bond.Amount b\<rparr>"] add
    by simp
  then show "total_supply s' = total_supply s"
    using supply_setBond_old [of ?s1 i b "b\<lparr>Bond.Status := st\<rparr>"] b held by (simp add: s'_def)
  have "core_inv ?s1" using inv core_inv_registered [OF inv acc] by auto
  then show "core_inv s'" unfolding s'_def using core_inv_bond [OF inv b] by (intro core_inv_setBond) auto
  show "balance s' c = (if c = a then balance s a + unat (Bond.Amount b) else balance s c)"
    using acc add by (simp add: s'_def balance_def)
qed

text \<open>
  The block with which \<open>ResolveDispute\<close> and \<open>ReclaimAttestationBonds\<close> close a bond: credit
  the recipient, who must have a record, and store the bond with its new status.
\<close>

definition settleBond :: "string \<Rightarrow> Bond \<Rightarrow> Keeper \<Rightarrow> unit result" where
  "settleBond recipient bond s =
    (case kv_get (Keeper.Account s) recipient of
       None \<Rightarrow> fail (ErrIO ''collections: not found'') s
     | Some acct \<Rightarrow>
         respond () (setBond (Bond.Id bond) bond
           (setAccount recipient (acct\<lparr>Account.Balance := Account.Balance acct + Bond.Amount bond\<rparr>) s)))"

text \<open>What a sequence of such settlements does and leaves alone.\<close>

definition only_bonds :: "Keeper \<Rightarrow> Keeper \<Rightarrow> bool" where
  "only_bonds s s' \<longleftrightarrow> Keeper.Params s' = Keeper.Params s
    \<and> Keeper.EmissionState s' = Keeper.EmissionState s
    \<and> Keeper.VouchSeq s' = Keeper.VouchSeq s \<and> Keeper.Vouch s' = Keeper.Vouch s
    \<and> Keeper.EscrowSeq s' = Keeper.EscrowSeq s \<and> Keeper.Escrow s' = Keeper.Escrow s
    \<and> Keeper.DisputeSeq s' = Keeper.DisputeSeq s \<and> Keeper.Dispute s' = Keeper.Dispute s
    \<and> Keeper.BondSeq s' = Keeper.BondSeq s \<and> table_step bond_step (\<lambda>_. False) (Keeper.Bond s) (Keeper.Bond s')
    \<and> Keeper.GateSeq s' = Keeper.GateSeq s \<and> Keeper.Gate s' = Keeper.Gate s
    \<and> Keeper.ContributionAwardSeq s' = Keeper.ContributionAwardSeq s
    \<and> Keeper.ContributionAward s' = Keeper.ContributionAward s
    \<and> Keeper.ScopedEvidenceVouchSeq s' = Keeper.ScopedEvidenceVouchSeq s
    \<and> Keeper.ScopedEvidenceVouch s' = Keeper.ScopedEvidenceVouch s
    \<and> (core_inv s \<longrightarrow> total_supply s < 2 ^ 64 \<longrightarrow> core_inv s' \<and> total_supply s' = total_supply s)"

lemma only_bonds_refl [simp]: "only_bonds s s"
  by (simp add: only_bonds_def table_step_refl)

lemma only_bonds_trans:
  assumes "only_bonds s s1" and "only_bonds s1 s2"
  shows "only_bonds s s2"
proof -
  have "table_step bond_step (\<lambda>_. False) (Keeper.Bond s) (Keeper.Bond s1)"
    "table_step bond_step (\<lambda>_. False) (Keeper.Bond s1) (Keeper.Bond s2)"
    using assms by (simp_all add: only_bonds_def)
  then have "table_step bond_step (\<lambda>_. False) (Keeper.Bond s) (Keeper.Bond s2)"
    using table_step_trans [of bond_step] bond_step_trans by blast
  then show ?thesis using assms unfolding only_bonds_def by simp
qed

lemma only_bonds_emit [simp]: "only_bonds s (emit n ats s') = only_bonds s s'"
  by (simp add: only_bonds_def)

lemma bond_step_fields:
  "bond_step b b' \<Longrightarrow> Bond.Id b' = Bond.Id b \<and> Bond.Poster b' = Bond.Poster b \<and> Bond.Amount b' = Bond.Amount b
     \<and> Bond.Purpose b' = Bond.Purpose b \<and> Bond.Slasher b' = Bond.Slasher b \<and> Bond.Ref b' = Bond.Ref b
     \<and> (Bond.Status b \<noteq> BondStatusActive \<longrightarrow> b' = b)"
  by (auto simp: bond_step_def)

lemma only_bonds_old:
  "only_bonds s s' \<Longrightarrow> kv_get (Keeper.Bond s) k = Some b \<Longrightarrow> \<exists>b'. kv_get (Keeper.Bond s') k = Some b' \<and> bond_step b b'"
  unfolding only_bonds_def by (blast dest: table_step_Some)

lemma only_bonds_none:
  "only_bonds s s' \<Longrightarrow> kv_get (Keeper.Bond s) k = None \<Longrightarrow> kv_get (Keeper.Bond s') k = None"
  unfolding only_bonds_def by (cases "kv_get (Keeper.Bond s') k") (auto dest: table_step_cases)

lemma only_bonds_lifecycle: "only_bonds s s' \<Longrightarrow> lifecycle s s' \<and> seqs_step s s'"
  by (simp add: only_bonds_def lifecycle_def seqs_step_def table_step_refl table_step_weaken)

lemma settleBond_ok:
  assumes b: "kv_get (Keeper.Bond s) i = Some b" "Bond.Status b = BondStatusActive" and inv: "core_inv s"
    and st: "st = BondStatusReleased \<or> st = BondStatusSlashed"
    and run: "settleBond a (b\<lparr>Bond.Status := st\<rparr>) s = (Inr u, s')"
  shows "only_bonds s s'"
    "kv_get (Keeper.Bond s') j = (if j = i then Some (b\<lparr>Bond.Status := st\<rparr>) else kv_get (Keeper.Bond s) j)"
    "total_supply s < 2 ^ 64 \<Longrightarrow>
       balance s' c = (if c = a then balance s a + unat (Bond.Amount b) else balance s c)"
    "kv_get (Keeper.Account s') c = None \<longleftrightarrow> kv_get (Keeper.Account s) c = None"
proof -
  obtain acc where acc: "kv_get (Keeper.Account s) a = Some acc"
    and s': "s' = setBond i (b\<lparr>Bond.Status := st\<rparr>)
      (setAccount a (acc\<lparr>Account.Balance := Account.Balance acc + Bond.Amount b\<rparr>) s)"
    using run core_inv_bond [OF inv b(1)] by (auto simp: settleBond_def split: option.splits)
  note close = closeBond_ok [OF b acc st]
  have "bond_step b (b\<lparr>Bond.Status := st\<rparr>)" using b st by (auto simp: bond_step_def)
  then have "table_step bond_step (\<lambda>_. False) (Keeper.Bond s) (Keeper.Bond s')"
    using b by (auto simp: s' intro!: table_step_old)
  then show "only_bonds s s'"
    using close(1,2) by (simp add: only_bonds_def s')
  show "kv_get (Keeper.Bond s') j = (if j = i then Some (b\<lparr>Bond.Status := st\<rparr>) else kv_get (Keeper.Bond s) j)"
    by (simp add: s')
  show "balance s' c = (if c = a then balance s a + unat (Bond.Amount b) else balance s c)"
    if "total_supply s < 2 ^ 64"
    using close(3) [OF inv that] by (simp add: s')
  show "kv_get (Keeper.Account s') c = None \<longleftrightarrow> kv_get (Keeper.Account s) c = None"
    using acc by (simp add: s')
qed

section \<open>Settlement loops\<close>

text \<open>
  Three loops of the code settle a list of stakes: the reclaim of verifier stakes, and the
  settlements of juror stakes and of verifier stakes by a verdict. Each skips the entries
  whose bond is gone, resolved or not of its purpose, and settles the others. The locale
  states that shape, and its lemmas are used for all three.
\<close>

definition live :: "Keeper \<Rightarrow> u64 \<Rightarrow> string \<Rightarrow> Bond option" where
  "live s i purpose =
     (case kv_get (Keeper.Bond s) i of
        None \<Rightarrow> None
      | Some b \<Rightarrow> if Bond.Status b = BondStatusActive \<and> Bond.Purpose b = purpose then Some b else None)"

lemma live_Some:
  "live s i purpose = Some b \<longleftrightarrow> kv_get (Keeper.Bond s) i = Some b \<and> Bond.Status b = BondStatusActive
     \<and> Bond.Purpose b = purpose"
  by (auto simp: live_def split: option.splits)

lemma live_emit [simp]: "live (emit n ats s) i purpose = live s i purpose"
  by (simp add: live_def)

lemma live_settled:
  assumes "only_bonds s s'" and "live s i purpose = None"
  shows "live s' i purpose = None"
proof (cases "kv_get (Keeper.Bond s) i")
  case None
  then show ?thesis using only_bonds_none [OF assms(1)] by (simp add: live_def)
next
  case (Some b)
  then obtain b' where "kv_get (Keeper.Bond s') i = Some b'" "bond_step b b'"
    using only_bonds_old [OF assms(1)] by blast
  then show ?thesis using assms(2) Some bond_step_fields [of b b'] by (auto simp: live_def split: if_splits)
qed

locale stake_loop =
  fixes loop :: "'a list \<Rightarrow> Keeper \<Rightarrow> unit result"
    and bondId :: "'a \<Rightarrow> u64" and purpose :: string
    and recipient :: "'a \<Rightarrow> Bond \<Rightarrow> string" and status :: "'a \<Rightarrow> string"
  assumes loop_nil: "loop [] s = (Inr (), s)"
    and resolved: "status x = BondStatusReleased \<or> status x = BondStatusSlashed"
    and recipient_stable: "recipient x (b\<lparr>Bond.Status := st\<rparr>) = recipient x b"
    and loop_skip: "live s (bondId x) purpose = None \<Longrightarrow> loop (x # xs) s = loop xs s"
    and loop_stop: "live s (bondId x) purpose = Some b \<Longrightarrow>
          settleBond (recipient x b) (b\<lparr>Bond.Status := status x\<rparr>) s = (Inl err, s1) \<Longrightarrow>
          loop (x # xs) s = (Inl err, s1)"
    and loop_settle: "live s (bondId x) purpose = Some b \<Longrightarrow>
          settleBond (recipient x b) (b\<lparr>Bond.Status := status x\<rparr>) s = (Inr u, s1) \<Longrightarrow>
          \<exists>n ats. loop (x # xs) s = loop xs (emit n ats s1)"
begin

text \<open>One turn that succeeds, and the rest.\<close>

lemma turn:
  assumes "loop (x # xs) s = (Inr r, s')" and "live s (bondId x) purpose = Some b"
  obtains n ats s1 where "settleBond (recipient x b) (b\<lparr>Bond.Status := status x\<rparr>) s = (Inr (), s1)"
    and "loop xs (emit n ats s1) = (Inr r, s')"
proof (cases "settleBond (recipient x b) (b\<lparr>Bond.Status := status x\<rparr>) s")
  case (Pair r1 s1)
  then show thesis
  proof (cases r1)
    case (Inl err)
    then show ?thesis using loop_stop [OF assms(2), of err s1 xs] Pair assms(1) by simp
  next
    case (Inr u)
    then show ?thesis using loop_settle [OF assms(2), of u s1 xs] Pair assms(1) that by auto
  qed
qed

lemma turn_ok:
  assumes "settleBond (recipient x b) (b\<lparr>Bond.Status := status x\<rparr>) s = (Inr (), s1)"
    and "live s (bondId x) purpose = Some b" and "core_inv s" and "total_supply s < 2 ^ 64"
  shows "only_bonds s (emit n ats s1)" "core_inv (emit n ats s1)" "total_supply (emit n ats s1) < 2 ^ 64"
    "kv_get (Keeper.Bond (emit n ats s1)) (bondId x) = Some (b\<lparr>Bond.Status := status x\<rparr>)"
    "i \<noteq> bondId x \<Longrightarrow> live (emit n ats s1) i purpose = live s i purpose"
    "balance (emit n ats s1) a = balance s a + (if a = recipient x b then unat (Bond.Amount b) else 0)"
    "kv_get (Keeper.Account (emit n ats s1)) a = None \<longleftrightarrow> kv_get (Keeper.Account s) a = None"
proof -
  have b: "kv_get (Keeper.Bond s) (bondId x) = Some b" "Bond.Status b = BondStatusActive"
    using assms(2) by (simp_all add: live_Some)
  note ok = settleBond_ok [OF b assms(3) resolved assms(1)]
  show only: "only_bonds s (emit n ats s1)" using ok(1) by simp
  show "core_inv (emit n ats s1)" "total_supply (emit n ats s1) < 2 ^ 64"
    using only assms(3,4) by (simp_all add: only_bonds_def)
  show "kv_get (Keeper.Bond (emit n ats s1)) (bondId x) = Some (b\<lparr>Bond.Status := status x\<rparr>)"
    using ok(2) by simp
  show "i \<noteq> bondId x \<Longrightarrow> live (emit n ats s1) i purpose = live s i purpose"
    using ok(2) by (simp add: live_def)
  show "balance (emit n ats s1) a = balance s a + (if a = recipient x b then unat (Bond.Amount b) else 0)"
    using ok(3) [OF assms(4)] by simp
  show "kv_get (Keeper.Account (emit n ats s1)) a = None \<longleftrightarrow> kv_get (Keeper.Account s) a = None"
    using ok(4) by simp
qed

lemma only:
  "loop xs s = (Inr r, s') \<Longrightarrow> core_inv s \<Longrightarrow> total_supply s < 2 ^ 64 \<Longrightarrow> only_bonds s s'"
proof (induction xs arbitrary: s)
  case (Cons x xs)
  show ?case
  proof (cases "live s (bondId x) purpose")
    case (Some b)
    then obtain n ats s1 where
      set: "settleBond (recipient x b) (b\<lparr>Bond.Status := status x\<rparr>) s = (Inr (), s1)"
      and rest: "loop xs (emit n ats s1) = (Inr r, s')" using turn [OF Cons.prems(1)] by blast
    note ok = turn_ok [OF set Some Cons.prems(2,3)]
    show ?thesis using ok(1) Cons.IH [OF rest ok(2,3)] by (rule only_bonds_trans)
  qed (use Cons loop_skip in auto)
qed (simp add: loop_nil)

text \<open>Afterwards no stake in the list is live.\<close>

lemma settled:
  "loop xs s = (Inr r, s') \<Longrightarrow> core_inv s \<Longrightarrow> total_supply s < 2 ^ 64 \<Longrightarrow>
     x \<in> set xs \<Longrightarrow> live s' (bondId x) purpose = None"
proof (induction xs arbitrary: s)
  case (Cons y xs)
  show ?case
  proof (cases "live s (bondId y) purpose")
    case None
    then have rest: "loop xs s = (Inr r, s')" using loop_skip Cons.prems(1) by simp
    show ?thesis
      using Cons.IH [OF rest] live_settled [OF only [OF rest] None] Cons.prems by auto
  next
    case (Some b)
    then obtain n ats s1 where
      set: "settleBond (recipient y b) (b\<lparr>Bond.Status := status y\<rparr>) s = (Inr (), s1)"
      and rest: "loop xs (emit n ats s1) = (Inr r, s')" using turn [OF Cons.prems(1)] by blast
    note ok = turn_ok [OF set Some Cons.prems(2,3)]
    have "live (emit n ats s1) (bondId y) purpose = None"
      using ok(4) resolved [of y] by (auto simp: live_def)
    then show ?thesis
      using Cons.IH [OF rest ok(2,3)] live_settled [OF only [OF rest ok(2,3)]] Cons.prems(4) by auto
  qed
qed simp

lemma noop: "\<forall>x \<in> set xs. live s (bondId x) purpose = None \<Longrightarrow> loop xs s = (Inr (), s)"
  by (induction xs) (auto simp: loop_nil loop_skip)

text \<open>Who gets what: every live stake is paid once, to its recipient.\<close>

definition dues :: "Keeper \<Rightarrow> string \<Rightarrow> 'a \<Rightarrow> nat" where
  "dues s a x = (case live s (bondId x) purpose of
     None \<Rightarrow> 0 | Some b \<Rightarrow> if a = recipient x b then unat (Bond.Amount b) else 0)"

lemma paid:
  "loop xs s = (Inr r, s') \<Longrightarrow> core_inv s \<Longrightarrow> total_supply s < 2 ^ 64 \<Longrightarrow> distinct (map bondId xs) \<Longrightarrow>
     balance s' a = balance s a + sum_list (map (dues s a) xs)"
proof (induction xs arbitrary: s)
  case (Cons x xs)
  show ?case
  proof (cases "live s (bondId x) purpose")
    case None
    then show ?thesis using Cons loop_skip [OF None] by (simp add: dues_def)
  next
    case (Some b)
    then obtain n ats s1 where
      set: "settleBond (recipient x b) (b\<lparr>Bond.Status := status x\<rparr>) s = (Inr (), s1)"
      and rest: "loop xs (emit n ats s1) = (Inr r, s')" using turn [OF Cons.prems(1)] by blast
    note ok = turn_ok [OF set Some Cons.prems(2,3)]
    have "dues (emit n ats s1) a y = dues s a y" if "y \<in> set xs" for y
    proof -
      have "bondId y \<noteq> bondId x" using Cons.prems(4) that by (metis distinct.simps(2) image_eqI list.set_map list.simps(9))
      then show ?thesis using ok(5) by (simp add: dues_def)
    qed
    then have "sum_list (map (dues (emit n ats s1) a) xs) = sum_list (map (dues s a) xs)"
      by (intro arg_cong [where f = sum_list] map_cong) auto
    moreover have "dues s a x = (if a = recipient x b then unat (Bond.Amount b) else 0)"
      by (simp add: dues_def Some)
    ultimately show ?thesis
      using Cons.IH [OF rest ok(2,3)] ok(6) [of n ats a] Cons.prems(4) by simp
  qed
qed (simp add: loop_nil)

lemma status_after:
  "loop xs s = (Inr r, s') \<Longrightarrow> core_inv s \<Longrightarrow> total_supply s < 2 ^ 64 \<Longrightarrow> distinct (map bondId xs) \<Longrightarrow>
     x \<in> set xs \<Longrightarrow> live s (bondId x) purpose = Some b \<Longrightarrow>
     kv_get (Keeper.Bond s') (bondId x) = Some (b\<lparr>Bond.Status := status x\<rparr>)"
proof (induction xs arbitrary: s)
  case (Cons y xs)
  show ?case
  proof (cases "live s (bondId y) purpose")
    case None
    then show ?thesis using Cons loop_skip [OF None] by auto
  next
    case (Some b1)
    then obtain n ats s1 where
      set: "settleBond (recipient y b1) (b1\<lparr>Bond.Status := status y\<rparr>) s = (Inr (), s1)"
      and rest: "loop xs (emit n ats s1) = (Inr r, s')" using turn [OF Cons.prems(1)] by blast
    note ok = turn_ok [OF set Some Cons.prems(2,3)]
    show ?thesis
    proof (cases "x = y")
      case True
      obtain b' where b': "kv_get (Keeper.Bond s') (bondId y) = Some b'"
          "bond_step (b1\<lparr>Bond.Status := status y\<rparr>) b'"
        using only_bonds_old [OF only [OF rest ok(2,3)] ok(4)] by blast
      then have "b' = b1\<lparr>Bond.Status := status y\<rparr>"
        using resolved [of y] bond_step_fields [OF b'(2)] by auto
      then show ?thesis using b' True Some Cons.prems(6) by simp
    next
      case False
      then have x: "x \<in> set xs" using Cons.prems(5) by simp
      then have "bondId x \<noteq> bondId y"
        using Cons.prems(4) by (metis distinct.simps(2) image_eqI list.set_map list.simps(9))
      then show ?thesis
        using Cons.IH [OF rest ok(2,3)] ok(5) Cons.prems(4,6) x by simp
    qed
  qed
qed simp

text \<open>The loop only fails for want of an account.\<close>

lemma total:
  "core_inv s \<Longrightarrow> total_supply s < 2 ^ 64 \<Longrightarrow>
     \<forall>x \<in> set xs. \<forall>b. Bond.Purpose b = purpose \<longrightarrow> kv_get (Keeper.Bond s) (bondId x) = Some b \<longrightarrow>
        kv_get (Keeper.Account s) (recipient x b) \<noteq> None \<Longrightarrow>
     \<exists>s'. loop xs s = (Inr (), s')"
proof (induction xs arbitrary: s)
  case (Cons x xs)
  show ?case
  proof (cases "live s (bondId x) purpose")
    case None
    then show ?thesis using Cons loop_skip [OF None] by simp
  next
    case (Some b)
    then have "kv_get (Keeper.Account s) (recipient x b) \<noteq> None" using Cons.prems(3) by (simp add: live_Some)
    then obtain s1 where set: "settleBond (recipient x b) (b\<lparr>Bond.Status := status x\<rparr>) s = (Inr (), s1)"
      by (auto simp: settleBond_def)
    then obtain n ats where eq: "loop (x # xs) s = loop xs (emit n ats s1)"
      using loop_settle [OF Some set] by blast
    note ok = turn_ok [OF set Some Cons.prems(1,2)]
    have "\<forall>y \<in> set xs. \<forall>b'. Bond.Purpose b' = purpose \<longrightarrow>
        kv_get (Keeper.Bond (emit n ats s1)) (bondId y) = Some b' \<longrightarrow>
        kv_get (Keeper.Account (emit n ats s1)) (recipient y b') \<noteq> None"
    proof (intro ballI allI impI)
      fix y b'
      assume y: "y \<in> set xs" and p: "Bond.Purpose b' = purpose"
        and b': "kv_get (Keeper.Bond (emit n ats s1)) (bondId y) = Some b'"
      show "kv_get (Keeper.Account (emit n ats s1)) (recipient y b') \<noteq> None"
      proof (cases "bondId y = bondId x")
        case True
        then have "b' = b\<lparr>Bond.Status := status x\<rparr>" using ok(4) [of n ats] b' by simp
        moreover have "kv_get (Keeper.Account s) (recipient y b) \<noteq> None"
          using Cons.prems(3) y Some True by (simp add: live_Some)
        ultimately show ?thesis using ok(7) by (simp add: recipient_stable)
      next
        case False
        have "kv_get (Keeper.Bond s) (bondId y) = Some b'"
          using b' False settleBond_ok(2) [of s "bondId x" b "status x" "recipient x b" "()" s1 "bondId y"]
            Some Cons.prems(1) resolved [of x] set by (simp add: live_Some)
        then show ?thesis using Cons.prems(3) y p ok(7) by simp
      qed
    qed
    then show ?thesis using Cons.IH [OF ok(2,3)] eq by simp
  qed
qed (simp add: loop_nil)

end

section \<open>The handlers meet the contract\<close>

lemma PostBond_success:
  assumes "PostBond env msg s = (Inr r, s')"
  shows "\<exists>acc n ats. getRegistered s (MsgPostBond.Creator msg) = Some acc
     \<and> MsgPostBond.Amount msg \<noteq> 0 \<and> MsgPostBond.Amount msg \<le> Account.Balance acc
     \<and> MsgPostBond.Creator msg \<noteq> MsgPostBond.Slasher msg
     \<and> (\<exists>b. StringToBytes env (MsgPostBond.Slasher msg) = Some b)
     \<and> r = Keeper.BondSeq s
     \<and> s' = emit n ats (lockBond (MsgPostBond.Creator msg) acc (MsgPostBond.Amount msg)
              (MsgPostBond.Purpose msg) (MsgPostBond.Slasher msg) (MsgPostBond.Ref msg) s)"
  using assms
  by (simp add: PostBond_def Let_def not_less lockBond_def activeBond_def
      split: option.splits if_splits prod.splits) blast

interpretation post_bond: moving_handler PostBond
proof unfold_locales
  fix env m s r s'
  assume run: "PostBond env m s = (Inr r, s')" and inv: "core_inv s"
  obtain acc n ats where acc: "getRegistered s (MsgPostBond.Creator m) = Some acc"
      "MsgPostBond.Amount m \<le> Account.Balance acc"
    and s': "s' = emit n ats (lockBond (MsgPostBond.Creator m) acc (MsgPostBond.Amount m)
              (MsgPostBond.Purpose m) (MsgPostBond.Slasher m) (MsgPostBond.Ref m) s)"
    using PostBond_success [OF run] by blast
  show "core_inv s' \<and> total_supply s' = total_supply s \<and> Keeper.EmissionState s' = Keeper.EmissionState s"
    if "ids_free s"
    using lockBond_ok [OF acc inv] that by (simp add: s' ids_free_def)
  show "lifecycle s s' \<and> seqs_step s s'"
    using inv by (simp add: s' lifecycle_def seqs_step_def table_step_refl table_step_fresh_bond)
qed

lemma ReleaseBond_success:
  assumes "ReleaseBond env msg s = (Inr r, s')" and "core_inv s"
  shows "\<exists>b acc n ats. kv_get (Keeper.Bond s) (MsgReleaseBond.Id msg) = Some b
     \<and> Bond.Status b = BondStatusActive \<and> MsgReleaseBond.Creator msg = Bond.Slasher b
     \<and> kv_get (Keeper.Account s) (Bond.Poster b) = Some acc
     \<and> s' = emit n ats (setBond (MsgReleaseBond.Id msg) (b\<lparr>Bond.Status := BondStatusReleased\<rparr>)
          (setAccount (Bond.Poster b) (acc\<lparr>Account.Balance := Account.Balance acc + Bond.Amount b\<rparr>) s))"
proof -
  have id: "Bond.Id b = i" if "kv_get (Keeper.Bond s) i = Some b" for i b
    using core_inv_bond [OF assms(2) that] by simp
  show ?thesis
    using assms(1)
    by (simp add: ReleaseBond_def Let_def id split: option.splits if_splits) blast
qed

lemma bond_step_close [simp]:
  "Bond.Status b = BondStatusActive \<Longrightarrow> bond_step b (b\<lparr>Bond.Status := BondStatusReleased\<rparr>)"
  "Bond.Status b = BondStatusActive \<Longrightarrow> bond_step b (b\<lparr>Bond.Status := BondStatusSlashed\<rparr>)"
  by (simp_all add: bond_step_def)

lemma table_step_close:
  "kv_get m i = Some b \<Longrightarrow> bond_step b b' \<Longrightarrow> table_step bond_step N m (kv_set m i b')"
  by (rule table_step_old) simp_all

interpretation release_bond: moving_handler ReleaseBond
proof unfold_locales
  fix env m s r s'
  assume run: "ReleaseBond env m s = (Inr r, s')" and inv: "core_inv s"
  obtain b acc n ats where b: "kv_get (Keeper.Bond s) (MsgReleaseBond.Id m) = Some b"
      "Bond.Status b = BondStatusActive" and acc: "kv_get (Keeper.Account s) (Bond.Poster b) = Some acc"
    and s': "s' = emit n ats (setBond (MsgReleaseBond.Id m) (b\<lparr>Bond.Status := BondStatusReleased\<rparr>)
          (setAccount (Bond.Poster b) (acc\<lparr>Account.Balance := Account.Balance acc + Bond.Amount b\<rparr>) s))"
    using ReleaseBond_success [OF run inv] by blast
  show "core_inv s' \<and> total_supply s' = total_supply s \<and> Keeper.EmissionState s' = Keeper.EmissionState s"
    if "total_supply s < 2 ^ 64"
    using closeBond_ok [OF b acc _ inv that, of BondStatusReleased] by (simp add: s')
  show "lifecycle s s' \<and> seqs_step s s'"
    using b by (simp add: s' lifecycle_def seqs_step_def table_step_refl table_step_close)
qed

lemma SlashBond_success:
  assumes "SlashBond env msg s = (Inr r, s')" and "core_inv s"
  shows "\<exists>b s1 n ats. kv_get (Keeper.Bond s) (MsgSlashBond.Id msg) = Some b
     \<and> Bond.Status b = BondStatusActive \<and> MsgSlashBond.Creator msg = Bond.Slasher b
     \<and> paySlashed env (MsgSlashBond.Beneficiary msg) (Bond.Amount b) s = (Inr (), s1)
     \<and> s' = emit n ats (setBond (MsgSlashBond.Id msg) (b\<lparr>Bond.Status := BondStatusSlashed\<rparr>) s1)"
proof -
  have id: "Bond.Id b = i" if "kv_get (Keeper.Bond s) i = Some b" for i b
    using core_inv_bond [OF assms(2) that] by simp
  show ?thesis
    using assms(1)
    by (simp add: SlashBond_def Let_def id split: option.splits if_splits sum.splits prod.splits) blast
qed

text \<open>What a slash does to the ledger: the collateral goes to the beneficiary or is burned.\<close>

lemma SlashBond_ledger:
  assumes run: "SlashBond env msg s = (Inr r, s')" and inv: "core_inv s" and room: "total_supply s < 2 ^ 64"
  shows "core_inv s' \<and> Keeper.EmissionState s' = Keeper.EmissionState s \<and> lifecycle s s' \<and> seqs_step s s'
     \<and> (\<exists>b. kv_get (Keeper.Bond s) (MsgSlashBond.Id msg) = Some b
          \<and> total_supply s' + (if MsgSlashBond.Beneficiary msg = [] then unat (Bond.Amount b) else 0) = total_supply s
          \<and> (\<forall>a. balance s' a = balance s a +
               (if a = MsgSlashBond.Beneficiary msg \<and> a \<noteq> [] then unat (Bond.Amount b) else 0)))"
proof -
  let ?ben = "MsgSlashBond.Beneficiary msg" and ?i = "MsgSlashBond.Id msg"
  obtain b s1 n ats where b: "kv_get (Keeper.Bond s) ?i = Some b" and act: "Bond.Status b = BondStatusActive"
    and pay: "paySlashed env ?ben (Bond.Amount b) s = (Inr (), s1)"
    and s': "s' = emit n ats (setBond ?i (b\<lparr>Bond.Status := BondStatusSlashed\<rparr>) s1)"
    using SlashBond_success [OF run inv] by blast
  have held: "heldBond b = unat (Bond.Amount b)" using act by (simp add: heldBond_def)
  have id: "Bond.Id b = ?i" "?i < Keeper.BondSeq s" using core_inv_bond [OF inv b] by simp_all
  define s2 where "s2 = setBond ?i (b\<lparr>Bond.Status := BondStatusSlashed\<rparr>) s1"
  have slashed: "heldBond (b\<lparr>Bond.Status := BondStatusSlashed\<rparr>) = 0" by (simp add: heldBond_def)
  have "core_inv s2 \<and> Keeper.EmissionState s2 = Keeper.EmissionState s \<and> lifecycle s s2 \<and> seqs_step s s2
    \<and> total_supply s2 + (if ?ben = [] then unat (Bond.Amount b) else 0) = total_supply s
    \<and> (\<forall>a. balance s2 a = balance s a + (if a = ?ben \<and> a \<noteq> [] then unat (Bond.Amount b) else 0))"
  proof (cases "?ben = []")
    case True
    then have s1: "s1 = s" using pay by (simp add: paySlashed_def)
    have "core_inv s2" unfolding s2_def s1 using inv id by (intro core_inv_setBond) simp_all
    moreover have "lifecycle s s2 \<and> seqs_step s s2"
      using b act by (simp add: s2_def s1 lifecycle_def seqs_step_def table_step_refl table_step_close)
    ultimately show ?thesis
      using supply_setBond_old [OF b, of "b\<lparr>Bond.Status := BondStatusSlashed\<rparr>"] held slashed True
      by (simp add: s2_def s1)
  next
    case False
    then obtain bb where cr: "creditAccount env ?ben bb (Bond.Amount b) s = (Inr (), s1)"
      using pay by (auto simp: paySlashed_def split: option.splits)
    note frame = creditAccount_frame [OF cr]
    have fit: "balance s ?ben + unat (Bond.Amount b) < 2 ^ 64"
      using held_bond_le [OF b, of ?ben] held room by simp
    note cred = creditAccount_ok [OF cr inv fit]
    have "core_inv s2" unfolding s2_def using cred(1) id frame by (intro core_inv_setBond) simp_all
    moreover have "lifecycle s s2 \<and> seqs_step s s2"
      using b act by (simp add: s2_def frame lifecycle_def seqs_step_def table_step_refl table_step_close)
    moreover have "total_supply s2 = total_supply s"
      using supply_setBond_old [of s1 ?i b "b\<lparr>Bond.Status := BondStatusSlashed\<rparr>"] b frame cred(2) held slashed
      by (simp add: s2_def)
    ultimately show ?thesis using False cred(3) frame by (auto simp: s2_def)
  qed
  then show ?thesis
    using b by (auto simp: s' s2_def [symmetric] seqs_step_def)
qed

interpretation slash_bond: handler SlashBond
proof unfold_locales
  fix env m s r s'
  assume run: "SlashBond env m s = (Inr r, s')" and inv: "ledger_inv s" and free: "ids_free s"
  have "core_inv s" "total_supply s < 2 ^ 64" using inv by (simp_all add: ledger_inv_def)
  note eff = SlashBond_ledger [OF run this]
  have em: "Keeper.EmissionState s' = Keeper.EmissionState s" using eff by simp
  show "core_inv s'" "lifecycle s s'" "seqs_step s s'" using eff by simp_all
  show "emission_inv s'" "total_supply s' + minedTotal s \<le> total_supply s + minedTotal s'"
    "minedTotal s \<le> minedTotal s' \<and> minedTotal s' + mintable s' \<le> minedTotal s + mintable s"
    using emission_unchanged [OF em] eff inv by (auto simp: ledger_inv_def)
qed

section \<open>Properties\<close>

text \<open>
  C8: Only the slasher resolves a bond, and only once. Whenever \<open>ReleaseBond\<close> or
  \<open>SlashBond\<close> succeeds on a bond, the bond was active and the sender was its slasher; the
  bond is resolved afterwards, and every further release or slash of it fails, whoever sends
  it and whenever.
\<close>

theorem bond_resolves_once:
  assumes "core_inv s"
    and "(\<exists>r. ReleaseBond env \<lparr>MsgReleaseBond.Creator = c, MsgReleaseBond.Id = i\<rparr> s = (Inr r, s'))
       \<or> (\<exists>r. SlashBond env \<lparr>MsgSlashBond.Creator = c, MsgSlashBond.Id = i, MsgSlashBond.Beneficiary = ben\<rparr> s = (Inr r, s'))"
  shows "(\<exists>b. kv_get (Keeper.Bond s) i = Some b \<and> Bond.Status b = BondStatusActive \<and> c = Bond.Slasher b)
     \<and> (\<forall>env' c' r s2. ReleaseBond env' \<lparr>MsgReleaseBond.Creator = c', MsgReleaseBond.Id = i\<rparr> s' \<noteq> (Inr r, s2))
     \<and> (\<forall>env' c' ben' r s2.
          SlashBond env' \<lparr>MsgSlashBond.Creator = c', MsgSlashBond.Id = i, MsgSlashBond.Beneficiary = ben'\<rparr> s'
            \<noteq> (Inr r, s2))"
proof -
  have resolved: "\<exists>b. kv_get (Keeper.Bond s) i = Some b \<and> Bond.Status b = BondStatusActive \<and> c = Bond.Slasher b
      \<and> (\<exists>st. st \<noteq> BondStatusActive \<and> kv_get (Keeper.Bond s') i = Some (b\<lparr>Bond.Status := st\<rparr>))"
    using assms(2)
  proof (elim disjE exE)
    fix r
    assume "ReleaseBond env \<lparr>MsgReleaseBond.Creator = c, MsgReleaseBond.Id = i\<rparr> s = (Inr r, s')"
    from ReleaseBond_success [OF this assms(1)] show ?thesis
      by (clarsimp) (use bond_status_neq in blast)
  next
    fix r
    assume "SlashBond env \<lparr>MsgSlashBond.Creator = c, MsgSlashBond.Id = i, MsgSlashBond.Beneficiary = ben\<rparr> s = (Inr r, s')"
    from SlashBond_success [OF this assms(1)] show ?thesis
      by (clarsimp) (use bond_status_neq in blast)
  qed
  then obtain b' where b': "kv_get (Keeper.Bond s') i = Some b'" "Bond.Status b' \<noteq> BondStatusActive"
    by fastforce
  have "ReleaseBond env' \<lparr>MsgReleaseBond.Creator = c', MsgReleaseBond.Id = i\<rparr> s' \<noteq> (Inr r, s2)" for env' c' r s2
    using b' by (simp add: ReleaseBond_def split: option.splits)
  moreover have "SlashBond env' \<lparr>MsgSlashBond.Creator = c', MsgSlashBond.Id = i, MsgSlashBond.Beneficiary = ben'\<rparr> s'
      \<noteq> (Inr r, s2)" for env' c' ben' r s2
    using b' by (simp add: SlashBond_def split: option.splits)
  ultimately show ?thesis using resolved by blast
qed

definition sampleBonded :: Keeper where
  "sampleBonded = snd (PostBond (sampleEnv 100)
     \<lparr>MsgPostBond.Creator = ''alice'', MsgPostBond.Amount = 400, MsgPostBond.Purpose = ''job'',
      MsgPostBond.Slasher = ''carol'', MsgPostBond.Ref = ''r1''\<rparr> sampleState)"

lemma sampleBonded_run:
  "PostBond (sampleEnv 100)
     \<lparr>MsgPostBond.Creator = ''alice'', MsgPostBond.Amount = 400, MsgPostBond.Purpose = ''job'',
      MsgPostBond.Slasher = ''carol'', MsgPostBond.Ref = ''r1''\<rparr> sampleState = (Inr 0, sampleBonded)"
  by (simp add: sampleBonded_def PostBond_def getRegistered_def Let_def)

lemma sampleBonded_inv [simp]: "core_inv sampleBonded"
  using post_bond.keeps_core [OF sampleBonded_run] by simp

lemma sampleBonded_supply [simp]: "total_supply sampleBonded = 6000"
  using post_bond.effect [OF sampleBonded_run] by simp

lemma sampleBonded_bond [simp]:
  "kv_get (Keeper.Bond sampleBonded) 0 = Some (activeBond 0 ''alice'' 400 ''job'' ''carol'' ''r1'')"
  by (simp add: sampleBonded_def PostBond_def getRegistered_def Let_def activeBond_def)

lemma sampleBonded_account [simp]:
  "kv_get (Keeper.Account sampleBonded) a =
     (if a = ''alice'' then Some (funded ''alice'' 600) else kv_get (Keeper.Account sampleState) a)"
  by (simp add: sampleBonded_def PostBond_def getRegistered_def Let_def)

lemma bond_resolves_once_witness:
  "\<exists>s'. ReleaseBond (sampleEnv 200) \<lparr>MsgReleaseBond.Creator = ''carol'', MsgReleaseBond.Id = 0\<rparr> sampleBonded = (Inr (), s')
     \<and> (\<forall>env' c' r s2. ReleaseBond env' \<lparr>MsgReleaseBond.Creator = c', MsgReleaseBond.Id = 0\<rparr> s' \<noteq> (Inr r, s2))"
proof -
  obtain s' where run: "ReleaseBond (sampleEnv 200) \<lparr>MsgReleaseBond.Creator = ''carol'', MsgReleaseBond.Id = 0\<rparr> sampleBonded
      = (Inr (), s')"
    by (simp add: ReleaseBond_def Let_def)
  show ?thesis
    using bond_resolves_once [where s = sampleBonded and s' = s' and env = "sampleEnv 200" and c = "''carol''"
        and i = 0 and ben = "[]"] run by auto
qed

text \<open>
  C9: Slashing pays the whole collateral to the beneficiary and to nobody else, or, with no
  beneficiary, takes exactly the collateral out of the supply.
\<close>

theorem slash_pays_beneficiary_or_burns:
  assumes "SlashBond env msg s = (Inr r, s')" and "core_inv s" and "total_supply s < 2 ^ 64"
  shows "\<exists>b. kv_get (Keeper.Bond s) (MsgSlashBond.Id msg) = Some b
     \<and> total_supply s' + (if MsgSlashBond.Beneficiary msg = [] then unat (Bond.Amount b) else 0) = total_supply s
     \<and> (\<forall>a. balance s' a = balance s a +
          (if a = MsgSlashBond.Beneficiary msg \<and> a \<noteq> [] then unat (Bond.Amount b) else 0))"
  using SlashBond_ledger [OF assms] by blast

lemma slash_pays_beneficiary_or_burns_witness:
  "total_supply (snd (SlashBond (sampleEnv 200)
     \<lparr>MsgSlashBond.Creator = ''carol'', MsgSlashBond.Id = 0, MsgSlashBond.Beneficiary = []\<rparr> sampleBonded)) = 5600"
proof -
  let ?m = "\<lparr>MsgSlashBond.Creator = ''carol'', MsgSlashBond.Id = 0, MsgSlashBond.Beneficiary = []\<rparr>"
  obtain s' where run: "SlashBond (sampleEnv 200) ?m sampleBonded = (Inr (), s')"
    by (simp add: SlashBond_def Let_def paySlashed_def)
  show ?thesis using slash_pays_beneficiary_or_burns [OF run] by (simp add: run)
qed

text \<open>
  The bonds the protocol holds itself (with the empty slasher) are out of everybody's
  reach: as long as the address codec rejects the empty address, no \<open>ReleaseBond\<close> and no
  \<open>SlashBond\<close> message of any sender succeeds on such a bond.
\<close>

lemma protocol_bonds_untouchable:
  assumes "StringToBytes env [] = None"
    and "kv_get (Keeper.Bond s) i = Some b" and "Bond.Slasher b = []"
  shows "(\<exists>err. ReleaseBond env \<lparr>MsgReleaseBond.Creator = c, MsgReleaseBond.Id = i\<rparr> s = (Inl err, s))
     \<and> (\<exists>err. SlashBond env \<lparr>MsgSlashBond.Creator = c, MsgSlashBond.Id = i, MsgSlashBond.Beneficiary = ben\<rparr> s
           = (Inl err, s))"
  using assms by (cases "c = []") (auto simp: ReleaseBond_def SlashBond_def Let_def split: option.splits)

lemma protocol_bonds_untouchable_witness:
  "let s = setBond 7 (activeBond 7 ''bob'' 100 ''dispute:0'' [] ''0'') sampleState
   in \<exists>err. ReleaseBond (sampleEnv 5) \<lparr>MsgReleaseBond.Creator = ''bob'', MsgReleaseBond.Id = 7\<rparr> s = (Inl err, s)"
  using protocol_bonds_untouchable
    [of "sampleEnv 5" "setBond 7 (activeBond 7 ''bob'' 100 ''dispute:0'' [] ''0'') sampleState" 7
        "activeBond 7 ''bob'' 100 ''dispute:0'' [] ''0''" "''bob''" "''bob''"]
  by (simp add: Let_def)

text \<open>
  C10: The rule that a poster cannot be its own slasher compares the spelling of the two
  addresses, not the addresses. With a codec that reads two spellings as the same account
  (as bech32 does for lower and upper case), one and the same key posts a bond and takes it
  back: the post succeeds with the other spelling as the slasher, and the release by that
  spelling, sent by the same account bytes, returns the collateral.
\<close>

theorem self_withdraw_by_respelling:
  assumes "a \<noteq> a'" and "StringToBytes env a = Some key" and "StringToBytes env a' = Some key"
    and "getRegistered s a = Some acc" and "amt \<noteq> 0" and "amt \<le> Account.Balance acc"
    and "core_inv s" and "ids_free s"
  shows "\<exists>i s1 s2. PostBond env \<lparr>MsgPostBond.Creator = a, MsgPostBond.Amount = amt, MsgPostBond.Purpose = p,
              MsgPostBond.Slasher = a', MsgPostBond.Ref = rf\<rparr> s = (Inr i, s1)
           \<and> ReleaseBond env \<lparr>MsgReleaseBond.Creator = a', MsgReleaseBond.Id = i\<rparr> s1 = (Inr (), s2)
           \<and> Keeper.Account s2 = Keeper.Account s"
proof -
  let ?p = "\<lparr>MsgPostBond.Creator = a, MsgPostBond.Amount = amt, MsgPostBond.Purpose = p,
              MsgPostBond.Slasher = a', MsgPostBond.Ref = rf\<rparr>"
  have "\<exists>s1. PostBond env ?p s = (Inr (Keeper.BondSeq s), s1)"
    using assms by (simp add: PostBond_def Let_def not_less)
  then obtain s1 where post: "PostBond env ?p s = (Inr (Keeper.BondSeq s), s1)" by blast
  then obtain n ats acc1 where "getRegistered s a = Some acc1"
    and s1: "s1 = emit n ats (lockBond a acc1 amt p a' rf s)"
    using PostBond_success [OF post] by auto
  then have s1: "s1 = emit n ats (lockBond a acc amt p a' rf s)" using assms(4) by simp
  let ?s2 = "emit ''agntcoin_bond_released''
      [(''id'', FormatUint (Keeper.BondSeq s)), (''poster'', a), (''amount'', FormatUint amt),
       (''slasher'', a'), (''ref'', rf)]
      (setBond (Keeper.BondSeq s) ((activeBond (Keeper.BondSeq s) a amt p a' rf)\<lparr>Bond.Status := BondStatusReleased\<rparr>)
        (setAccount a (acc\<lparr>Account.Balance := Account.Balance acc\<rparr>) s1))"
  have rel: "ReleaseBond env \<lparr>MsgReleaseBond.Creator = a', MsgReleaseBond.Id = Keeper.BondSeq s\<rparr> s1 = (Inr (), ?s2)"
    using assms(3) by (simp add: ReleaseBond_def Let_def s1)
  have "kv_set (kv_set (Keeper.Account s) a (acc\<lparr>Account.Balance := Account.Balance acc - amt\<rparr>)) a acc = Keeper.Account s"
    using assms(4) by (intro kv_eqI) (simp add: getRegistered_Some)
  then have "Keeper.Account ?s2 = Keeper.Account s" by (simp add: s1)
  then show ?thesis using post rel by blast
qed

definition respellingEnv :: Env where
  "respellingEnv = (sampleEnv 100)\<lparr>StringToBytes := (\<lambda>a. if a = [] then None
      else if a = ''ALICE'' then Some ''alice'' else Some a)\<rparr>"

lemma self_withdraw_by_respelling_witness:
  "\<exists>i s1 s2. PostBond respellingEnv \<lparr>MsgPostBond.Creator = ''alice'', MsgPostBond.Amount = 400, MsgPostBond.Purpose = [],
              MsgPostBond.Slasher = ''ALICE'', MsgPostBond.Ref = []\<rparr> sampleState = (Inr i, s1)
           \<and> ReleaseBond respellingEnv \<lparr>MsgReleaseBond.Creator = ''ALICE'', MsgReleaseBond.Id = i\<rparr> s1 = (Inr (), s2)
           \<and> Keeper.Account s2 = Keeper.Account sampleState"
  by (rule self_withdraw_by_respelling [where key = "''alice''" and acc = "funded ''alice'' 1000"])
    (simp_all add: respellingEnv_def getRegistered_def)

end
