(* ===== verification/EscrowFlow.thy ===== *)
theory EscrowFlow
  imports Bonds
begin

text \<open>
  The escrow messages of payer and payee: \<^verbatim>\<open>msg_server_lock_escrow.go\<close>,
  \<^verbatim>\<open>msg_server_submit_escrow.go\<close>, \<^verbatim>\<open>msg_server_release_escrow.go\<close>,
  \<^verbatim>\<open>msg_server_refund_escrow.go\<close> and \<^verbatim>\<open>msg_server_dispute_escrow.go\<close>.
\<close>

section \<open>Locking\<close>

record MsgLockEscrow =
  Creator :: string
  Payee :: string
  Amount :: u64
  Ref :: string
  DisputeSeconds :: u64
  NoAutoRelease :: bool
  VerifierAddrs :: "string list"
  VerifierQuorum :: u64
  AcceptanceHash :: string

text \<open>The loop over the verifiers, with the addresses seen so far.\<close>

fun checkVerifiers :: "Env \<Rightarrow> string \<Rightarrow> string \<Rightarrow> string list \<Rightarrow> string list \<Rightarrow> go_error option" where
  "checkVerifiers env creator payee seen [] = None"
| "checkVerifiers env creator payee seen (v # vs) =
    (case StringToBytes env v of
       None \<Rightarrow> Some (ErrAddress (''invalid verifier address '' @ v))
     | Some _ \<Rightarrow>
    (if v = creator \<or> v = payee then
       Some (ErrInvalidRequest ''a verifier cannot be the payer or the payee'')
     else if v \<in> set seen then
       Some (ErrInvalidRequest ''duplicate verifier address'')
     else checkVerifiers env creator payee (v # seen) vs))"

text \<open>The verifier part of the message: an error, or whether the escrow may release by the clock.\<close>

definition checkVerifierTerms :: "Env \<Rightarrow> MsgLockEscrow \<Rightarrow> go_error + bool" where
  "checkVerifierTerms env msg =
    (if length (MsgLockEscrow.VerifierAddrs msg) > 0 then
      (if MsgLockEscrow.VerifierQuorum msg = 0
          \<or> MsgLockEscrow.VerifierQuorum msg > word_of_nat (length (MsgLockEscrow.VerifierAddrs msg)) then
         Inl (ErrInvalidRequest (''verifier_quorum must be 1..''
                @ Itoa (length (MsgLockEscrow.VerifierAddrs msg))))
       else
      (case checkVerifiers env (MsgLockEscrow.Creator msg) (MsgLockEscrow.Payee msg) []
              (MsgLockEscrow.VerifierAddrs msg) of
         Some err \<Rightarrow> Inl err
       | None \<Rightarrow>
      (if \<not> isHexSHA256 (MsgLockEscrow.AcceptanceHash msg) then
         Inl (ErrInvalidRequest ''verifier-bound escrow requires acceptance_hash (hex sha256 of the precommitted acceptance procedure)'')
       else Inr True)))
     else if MsgLockEscrow.VerifierQuorum msg > 0 then
       Inl (ErrInvalidRequest ''verifier_quorum requires verifier_addrs'')
     else if MsgLockEscrow.AcceptanceHash msg \<noteq> [] \<and> \<not> isHexSHA256 (MsgLockEscrow.AcceptanceHash msg) then
       Inl (ErrInvalidRequest ''acceptance_hash must be a hex sha256'')
     else Inr (MsgLockEscrow.NoAutoRelease msg))"

definition LockEscrow :: "Env \<Rightarrow> MsgLockEscrow \<Rightarrow> Keeper \<Rightarrow> u64 result" where
  "LockEscrow env msg s =
    (case StringToBytes env (MsgLockEscrow.Creator msg) of
       None \<Rightarrow> fail (ErrAddress ''invalid creator address'') s
     | Some _ \<Rightarrow>
    (case StringToBytes env (MsgLockEscrow.Payee msg) of
       None \<Rightarrow> fail (ErrAddress ''invalid payee address'') s
     | Some payeeBytes \<Rightarrow>
    (if MsgLockEscrow.Amount msg = 0 then
       fail (ErrInvalidRequest ''amount must be positive'') s
     else if MsgLockEscrow.Creator msg = MsgLockEscrow.Payee msg then
       fail (ErrInvalidRequest ''payee cannot be the payer'') s
     else
    (case checkVerifierTerms env msg of
       Inl err \<Rightarrow> fail err s
     | Inr noAutoRelease \<Rightarrow>
    (case getRegistered s (MsgLockEscrow.Creator msg) of
       None \<Rightarrow> fail (ErrInvalidRequest ''payer not registered'') s
     | Some payer \<Rightarrow>
    (if Account.Balance payer < MsgLockEscrow.Amount msg then
       fail (ErrInsufficientFunds ''insufficient balance'') s
     else
    (case ensureRegistered env (MsgLockEscrow.Payee msg) payeeBytes (MsgLockEscrow.Amount msg) s of
       (Inl err, s1) \<Rightarrow> fail err s1
     | (Inr _, s1) \<Rightarrow>
    (let s2 = setAccount (MsgLockEscrow.Creator msg)
                (payer\<lparr>Account.Balance := Account.Balance payer - MsgLockEscrow.Amount msg\<rparr>) s1;
         deadline = BlockTime env + MsgLockEscrow.DisputeSeconds msg;
         (i, s3) = nextEscrowID s2;
         escrow = \<lparr>Escrow.Id = i, Escrow.Payer = MsgLockEscrow.Creator msg,
                   Escrow.Payee = MsgLockEscrow.Payee msg, Escrow.Amount = MsgLockEscrow.Amount msg,
                   Escrow.Ref = MsgLockEscrow.Ref msg, Escrow.Status = EscrowStatusLocked,
                   Escrow.Deadline = deadline, Escrow.NoAutoRelease = noAutoRelease,
                   Escrow.DeliveryHash = [],
                   Escrow.VerifierAddrs = MsgLockEscrow.VerifierAddrs msg,
                   Escrow.VerifierQuorum = MsgLockEscrow.VerifierQuorum msg,
                   Escrow.AcceptanceHash = MsgLockEscrow.AcceptanceHash msg,
                   Escrow.KeyHash = [], Escrow.ChallengeDeadline = 0, Escrow.Attestations = [],
                   Escrow.ArtifactUri = [], Escrow.SubmittedAt = 0, Escrow.ReleasedAt = 0\<rparr>;
         s4 = setEscrow i escrow s3
     in respond i (emit ''agntcoin_escrow_locked''
          [(''id'', FormatUint i),
           (''payer'', MsgLockEscrow.Creator msg),
           (''payee'', MsgLockEscrow.Payee msg),
           (''amount'', FormatUint (MsgLockEscrow.Amount msg)),
           (''ref'', MsgLockEscrow.Ref msg),
           (''deadline'', FormatInt deadline)] s4)))))))))"

section \<open>Submitting\<close>

record MsgSubmitEscrow =
  Creator :: string
  Id :: u64
  DeliveryHash :: string
  KeyHash :: string
  ArtifactUri :: string

definition SubmitEscrow :: "Env \<Rightarrow> MsgSubmitEscrow \<Rightarrow> Keeper \<Rightarrow> unit result" where
  "SubmitEscrow env msg s =
    (case StringToBytes env (MsgSubmitEscrow.Creator msg) of
       None \<Rightarrow> fail (ErrAddress ''invalid creator address'') s
     | Some _ \<Rightarrow>
    (case kv_get (Keeper.Escrow s) (MsgSubmitEscrow.Id msg) of
       None \<Rightarrow> fail (ErrKeyNotFound ''escrow not found'') s
     | Some escrow \<Rightarrow>
    (if Escrow.Status escrow \<noteq> EscrowStatusLocked then
       fail (ErrInvalidRequest (''escrow is not locked (status='' @ Escrow.Status escrow @ '')'')) s
     else if MsgSubmitEscrow.Creator msg \<noteq> Escrow.Payee escrow then
       fail (ErrUnauthorized ''only the payee may submit'') s
     else
    (let verifierBound = length (Escrow.VerifierAddrs escrow) > 0
     in if verifierBound \<and> (\<not> isHexSHA256 (MsgSubmitEscrow.DeliveryHash msg)
                            \<or> \<not> isHexSHA256 (MsgSubmitEscrow.KeyHash msg)) then
          fail (ErrInvalidRequest ''verifier-bound submit requires delivery_hash and key_hash (hex sha256)'') s
        else if MsgSubmitEscrow.DeliveryHash msg \<noteq> [] \<and> \<not> isHexSHA256 (MsgSubmitEscrow.DeliveryHash msg) then
          fail (ErrInvalidRequest ''delivery_hash must be a hex sha256'') s
        else if MsgSubmitEscrow.KeyHash msg \<noteq> [] \<and> \<not> isHexSHA256 (MsgSubmitEscrow.KeyHash msg) then
          fail (ErrInvalidRequest ''key_hash must be a hex sha256'') s
        else
       (let escrow1 = escrow\<lparr>Escrow.Status := EscrowStatusSubmitted,
                      Escrow.DeliveryHash := MsgSubmitEscrow.DeliveryHash msg,
                      Escrow.KeyHash := MsgSubmitEscrow.KeyHash msg,
                      Escrow.ArtifactUri := MsgSubmitEscrow.ArtifactUri msg,
                      Escrow.SubmittedAt := BlockTime env\<rparr>;
            s1 = setEscrow (Escrow.Id escrow1) escrow1 s
        in respond () (emit ''agntcoin_escrow_submitted''
             [(''id'', FormatUint (Escrow.Id escrow1)),
              (''payer'', Escrow.Payer escrow1),
              (''payee'', Escrow.Payee escrow1),
              (''amount'', FormatUint (Escrow.Amount escrow1)),
              (''ref'', Escrow.Ref escrow1),
              (''delivery_hash'', Escrow.DeliveryHash escrow1)] s1))))))"

section \<open>Releasing\<close>

record MsgReleaseEscrow =
  Creator :: string
  Id :: u64

text \<open>Who may release, by status and clock.\<close>

definition releaseDenied :: "Env \<Rightarrow> string \<Rightarrow> Escrow \<Rightarrow> go_error option" where
  "releaseDenied env creator escrow =
    (let now = BlockTime env
     in if Escrow.Status escrow = EscrowStatusDisputed then
          (if creator \<noteq> Escrow.Payer escrow then
             Some (ErrUnauthorized ''disputed escrow can only be released by the payer (pending resolution)'')
           else None)
        else if creator \<noteq> Escrow.Payer escrow then
          (if Escrow.NoAutoRelease escrow then
             Some (ErrUnauthorized (''jury-bound escrow: the payee cannot self-release '' @ em_dash
               @ '' settle via the jury (open a dispute; the juror rules on the merits)''))
           else if now <s Escrow.Deadline escrow then
             Some (ErrUnauthorized ''only the payer may release before the deadline'')
           else None)
        else None)"

definition ReleaseEscrow :: "Env \<Rightarrow> MsgReleaseEscrow \<Rightarrow> Keeper \<Rightarrow> unit result" where
  "ReleaseEscrow env msg s =
    (case StringToBytes env (MsgReleaseEscrow.Creator msg) of
       None \<Rightarrow> fail (ErrAddress ''invalid creator address'') s
     | Some _ \<Rightarrow>
    (case kv_get (Keeper.Escrow s) (MsgReleaseEscrow.Id msg) of
       None \<Rightarrow> fail (ErrKeyNotFound ''escrow not found'') s
     | Some escrow \<Rightarrow>
    (if Escrow.Status escrow \<noteq> EscrowStatusLocked \<and> Escrow.Status escrow \<noteq> EscrowStatusSubmitted \<and>
        Escrow.Status escrow \<noteq> EscrowStatusDisputed \<and> Escrow.Status escrow \<noteq> EscrowStatusFailAttested then
       fail (ErrInvalidRequest (''escrow is not releasable (status='' @ Escrow.Status escrow @ '')'')) s
     else
    (case releaseDenied env (MsgReleaseEscrow.Creator msg) escrow of
       Some err \<Rightarrow> fail err s
     | None \<Rightarrow>
    (case StringToBytes env (Escrow.Payee escrow) of
       None \<Rightarrow> fail (ErrAddress ''invalid payee address'') s
     | Some payeeBytes \<Rightarrow>
    (case checkNewAccountCredit s (Escrow.Payee escrow) (Escrow.Amount escrow) of
       Some err \<Rightarrow> fail err s
     | None \<Rightarrow>
    (case creditAccount env (Escrow.Payee escrow) payeeBytes (Escrow.Amount escrow) s of
       (Inl err, s1) \<Rightarrow> fail err s1
     | (Inr _, s1) \<Rightarrow>
    (let escrow1 = escrow\<lparr>Escrow.Status := EscrowStatusReleased, Escrow.ReleasedAt := BlockTime env\<rparr>;
         s2 = setEscrow (Escrow.Id escrow1) escrow1 s1
     in respond () (emit ''agntcoin_escrow_released''
          [(''id'', FormatUint (Escrow.Id escrow1)),
           (''payer'', Escrow.Payer escrow1),
           (''payee'', Escrow.Payee escrow1),
           (''amount'', FormatUint (Escrow.Amount escrow1)),
           (''ref'', Escrow.Ref escrow1)] s2)))))))))"

section \<open>Refunding\<close>

record MsgRefundEscrow =
  Creator :: string
  Id :: u64

definition refundDenied :: "Env \<Rightarrow> Escrow \<Rightarrow> go_error option" where
  "refundDenied env escrow =
    (let now = BlockTime env
     in if Escrow.Status escrow = EscrowStatusFailAttested then
          (if now <s Escrow.ChallengeDeadline escrow then
             Some (ErrUnauthorized ''fail-attested escrow: the payee's contest window is still open'')
           else None)
        else if Escrow.Deadline escrow <=s now then
          Some (ErrUnauthorized ''refund window has closed'')
        else None)"

definition RefundEscrow :: "Env \<Rightarrow> MsgRefundEscrow \<Rightarrow> Keeper \<Rightarrow> unit result" where
  "RefundEscrow env msg s =
    (case StringToBytes env (MsgRefundEscrow.Creator msg) of
       None \<Rightarrow> fail (ErrAddress ''invalid creator address'') s
     | Some _ \<Rightarrow>
    (case kv_get (Keeper.Escrow s) (MsgRefundEscrow.Id msg) of
       None \<Rightarrow> fail (ErrKeyNotFound ''escrow not found'') s
     | Some escrow \<Rightarrow>
    (if Escrow.Status escrow \<noteq> EscrowStatusLocked \<and> Escrow.Status escrow \<noteq> EscrowStatusFailAttested then
       fail (ErrInvalidRequest (''escrow is not refundable (status='' @ Escrow.Status escrow @ '')'')) s
     else if MsgRefundEscrow.Creator msg \<noteq> Escrow.Payer escrow then
       fail (ErrUnauthorized ''only the payer may refund'') s
     else
    (case refundDenied env escrow of
       Some err \<Rightarrow> fail err s
     | None \<Rightarrow>
    (case StringToBytes env (Escrow.Payer escrow) of
       None \<Rightarrow> fail (ErrAddress ''invalid payer address'') s
     | Some payerBytes \<Rightarrow>
    (case creditAccount env (Escrow.Payer escrow) payerBytes (Escrow.Amount escrow) s of
       (Inl err, s1) \<Rightarrow> fail err s1
     | (Inr _, s1) \<Rightarrow>
    (let escrow1 = escrow\<lparr>Escrow.Status := EscrowStatusRefunded\<rparr>;
         s2 = setEscrow (Escrow.Id escrow1) escrow1 s1
     in respond () (emit ''agntcoin_escrow_refunded''
          [(''id'', FormatUint (Escrow.Id escrow1)),
           (''payer'', Escrow.Payer escrow1),
           (''payee'', Escrow.Payee escrow1),
           (''amount'', FormatUint (Escrow.Amount escrow1)),
           (''ref'', Escrow.Ref escrow1)] s2))))))))"

section \<open>Disputing\<close>

record MsgDisputeEscrow =
  Creator :: string
  Id :: u64

definition DisputeEscrow :: "Env \<Rightarrow> MsgDisputeEscrow \<Rightarrow> Keeper \<Rightarrow> unit result" where
  "DisputeEscrow env msg s =
    (case StringToBytes env (MsgDisputeEscrow.Creator msg) of
       None \<Rightarrow> fail (ErrAddress ''invalid creator address'') s
     | Some _ \<Rightarrow>
    (case kv_get (Keeper.Escrow s) (MsgDisputeEscrow.Id msg) of
       None \<Rightarrow> fail (ErrKeyNotFound ''escrow not found'') s
     | Some escrow \<Rightarrow>
    (if Escrow.Status escrow \<noteq> EscrowStatusSubmitted then
       fail (ErrInvalidRequest (''only submitted escrows can be disputed (status='' @ Escrow.Status escrow @ '')'')) s
     else if MsgDisputeEscrow.Creator msg \<noteq> Escrow.Payer escrow then
       fail (ErrUnauthorized ''only the payer may dispute'') s
     else if length (Escrow.VerifierAddrs escrow) > 0 then
       fail (ErrInvalidRequest (''verifier-bound escrow: use OpenDispute (bonded) '' @ em_dash
         @ '' the free freeze would stall verified release'')) s
     else
    (let escrow1 = escrow\<lparr>Escrow.Status := EscrowStatusDisputed\<rparr>;
         s1 = setEscrow (Escrow.Id escrow1) escrow1 s
     in respond () (emit ''agntcoin_escrow_disputed''
          [(''id'', FormatUint (Escrow.Id escrow1)),
           (''payer'', Escrow.Payer escrow1),
           (''payee'', Escrow.Payee escrow1),
           (''amount'', FormatUint (Escrow.Amount escrow1)),
           (''ref'', Escrow.Ref escrow1)] s1)))))"

section \<open>The verifier set\<close>

lemma checkVerifiers_None:
  "checkVerifiers env c p seen vs = None \<longleftrightarrow>
     (\<forall>v \<in> set vs. StringToBytes env v \<noteq> None \<and> v \<noteq> c \<and> v \<noteq> p \<and> v \<notin> set seen) \<and> distinct vs"
  by (induction vs arbitrary: seen) (auto split: option.splits)

lemma checkVerifierTerms_bound:
  assumes "checkVerifierTerms env msg = Inr auto" and "MsgLockEscrow.VerifierAddrs msg \<noteq> []"
  shows "auto \<and> isHexSHA256 (MsgLockEscrow.AcceptanceHash msg) \<and> distinct (MsgLockEscrow.VerifierAddrs msg)
     \<and> MsgLockEscrow.Creator msg \<notin> set (MsgLockEscrow.VerifierAddrs msg)
     \<and> MsgLockEscrow.Payee msg \<notin> set (MsgLockEscrow.VerifierAddrs msg)
     \<and> 0 < MsgLockEscrow.VerifierQuorum msg
     \<and> MsgLockEscrow.VerifierQuorum msg \<le> word_of_nat (length (MsgLockEscrow.VerifierAddrs msg))"
  using assms
  by (auto simp: checkVerifierTerms_def checkVerifiers_None word_neq_0_conv not_less
      split: if_splits option.splits)

section \<open>The handlers meet the contract\<close>

definition lockedEscrow :: "Env \<Rightarrow> MsgLockEscrow \<Rightarrow> u64 \<Rightarrow> bool \<Rightarrow> Escrow" where
  "lockedEscrow env msg i noAutoRelease =
     \<lparr>Escrow.Id = i, Escrow.Payer = MsgLockEscrow.Creator msg,
      Escrow.Payee = MsgLockEscrow.Payee msg, Escrow.Amount = MsgLockEscrow.Amount msg,
      Escrow.Ref = MsgLockEscrow.Ref msg, Escrow.Status = EscrowStatusLocked,
      Escrow.Deadline = BlockTime env + MsgLockEscrow.DisputeSeconds msg,
      Escrow.NoAutoRelease = noAutoRelease, Escrow.DeliveryHash = [],
      Escrow.VerifierAddrs = MsgLockEscrow.VerifierAddrs msg,
      Escrow.VerifierQuorum = MsgLockEscrow.VerifierQuorum msg,
      Escrow.AcceptanceHash = MsgLockEscrow.AcceptanceHash msg,
      Escrow.KeyHash = [], Escrow.ChallengeDeadline = 0, Escrow.Attestations = [],
      Escrow.ArtifactUri = [], Escrow.SubmittedAt = 0, Escrow.ReleasedAt = 0\<rparr>"

lemma lockedEscrow_simps [simp]:
  "Escrow.Id (lockedEscrow env msg i b) = i"
  "Escrow.Payer (lockedEscrow env msg i b) = MsgLockEscrow.Creator msg"
  "Escrow.Payee (lockedEscrow env msg i b) = MsgLockEscrow.Payee msg"
  "Escrow.Amount (lockedEscrow env msg i b) = MsgLockEscrow.Amount msg"
  "Escrow.Status (lockedEscrow env msg i b) = EscrowStatusLocked"
  "Escrow.Deadline (lockedEscrow env msg i b) = BlockTime env + MsgLockEscrow.DisputeSeconds msg"
  "Escrow.NoAutoRelease (lockedEscrow env msg i b) = b"
  "Escrow.VerifierAddrs (lockedEscrow env msg i b) = MsgLockEscrow.VerifierAddrs msg"
  "Escrow.VerifierQuorum (lockedEscrow env msg i b) = MsgLockEscrow.VerifierQuorum msg"
  "Escrow.AcceptanceHash (lockedEscrow env msg i b) = MsgLockEscrow.AcceptanceHash msg"
  "Escrow.Attestations (lockedEscrow env msg i b) = []"
  "Escrow.ChallengeDeadline (lockedEscrow env msg i b) = 0"
  by (simp_all add: lockedEscrow_def)

lemma LockEscrow_success:
  assumes "LockEscrow env msg s = (Inr r, s')"
  shows "\<exists>pb na acc s1 n ats. getRegistered s (MsgLockEscrow.Creator msg) = Some acc
     \<and> MsgLockEscrow.Amount msg \<noteq> 0 \<and> MsgLockEscrow.Amount msg \<le> Account.Balance acc
     \<and> MsgLockEscrow.Creator msg \<noteq> MsgLockEscrow.Payee msg
     \<and> checkVerifierTerms env msg = Inr na
     \<and> StringToBytes env (MsgLockEscrow.Payee msg) = Some pb
     \<and> ensureRegistered env (MsgLockEscrow.Payee msg) pb (MsgLockEscrow.Amount msg) s = (Inr (), s1)
     \<and> r = Keeper.EscrowSeq s1
     \<and> s' = emit n ats (setEscrow (Keeper.EscrowSeq s1) (lockedEscrow env msg (Keeper.EscrowSeq s1) na)
          ((setAccount (MsgLockEscrow.Creator msg)
              (acc\<lparr>Account.Balance := Account.Balance acc - MsgLockEscrow.Amount msg\<rparr>) s1)
            \<lparr>Keeper.EscrowSeq := Keeper.EscrowSeq s1 + 1\<rparr>))"
  using assms
  by (simp add: LockEscrow_def Let_def not_less lockedEscrow_def
      split: option.splits if_splits sum.splits prod.splits) blast

lemma unsettled_simps [simp]:
  "Escrow.Status e = EscrowStatusLocked \<Longrightarrow> unsettled e"
  "Escrow.Status e = EscrowStatusSubmitted \<Longrightarrow> unsettled e"
  "Escrow.Status e = EscrowStatusDisputed \<Longrightarrow> unsettled e"
  "Escrow.Status e = EscrowStatusInJury \<Longrightarrow> unsettled e"
  "Escrow.Status e = EscrowStatusFailAttested \<Longrightarrow> unsettled e"
  "Escrow.Status e = EscrowStatusReleased \<Longrightarrow> \<not> unsettled e"
  "Escrow.Status e = EscrowStatusRefunded \<Longrightarrow> \<not> unsettled e"
  "Escrow.Status e = EscrowStatusChallenged \<Longrightarrow> \<not> unsettled e"
  by (simp_all add: unsettled_def)

interpretation lock_escrow: moving_handler LockEscrow
proof unfold_locales
  fix env m s r s'
  assume run: "LockEscrow env m s = (Inr r, s')" and inv: "core_inv s"
  let ?c = "MsgLockEscrow.Creator m" and ?p = "MsgLockEscrow.Payee m" and ?amt = "MsgLockEscrow.Amount m"
  obtain pb na acc s1 n ats where acc: "getRegistered s ?c = Some acc" "?amt \<le> Account.Balance acc" "?c \<noteq> ?p"
    and er: "ensureRegistered env ?p pb ?amt s = (Inr (), s1)"
    and s': "s' = emit n ats (setEscrow (Keeper.EscrowSeq s1) (lockedEscrow env m (Keeper.EscrowSeq s1) na)
          ((setAccount ?c (acc\<lparr>Account.Balance := Account.Balance acc - ?amt\<rparr>) s1)
            \<lparr>Keeper.EscrowSeq := Keeper.EscrowSeq s1 + 1\<rparr>))"
    using LockEscrow_success [OF run] by blast
  note fr = ensureRegistered_frame [OF er]
  have inv1: "core_inv s1" "total_supply s1 = total_supply s"
    using ensureRegistered_ok [OF er inv] by simp_all
  have acc1: "getRegistered s1 ?c = Some acc"
    using acc ensureRegistered_other [OF er, of ?c] by (simp add: getRegistered_def)
  note debit = debit_ok [OF acc1 acc(2) inv1(1)]
  have fresh: "kv_get (Keeper.Escrow s1) (Keeper.EscrowSeq s1) = None" using inv1(1) by (rule core_inv_fresh)
  show "core_inv s' \<and> total_supply s' = total_supply s \<and> Keeper.EmissionState s' = Keeper.EmissionState s"
    if "ids_free s"
  proof -
    have seq: "Keeper.EscrowSeq s1 \<noteq> - 1" using that fr by (simp add: ids_free_def)
    let ?s2 = "(setAccount ?c (acc\<lparr>Account.Balance := Account.Balance acc - ?amt\<rparr>) s1)
            \<lparr>Keeper.EscrowSeq := Keeper.EscrowSeq s1 + 1\<rparr>"
    have "core_inv ?s2" using core_inv_seq(2) [OF debit(1)] seq by simp
    then have "core_inv s'"
      using u64_less_self_Suc [OF seq] by (simp add: s' core_inv_setEscrow)
    moreover have "total_supply s' = total_supply s"
      using debit(2) inv1(2) fresh by (simp add: s' supply_setEscrow_new heldEscrow_def)
    ultimately show ?thesis using fr by (simp add: s')
  qed
  show "lifecycle s s' \<and> seqs_step s s'"
    using fr fresh attestations_backed_new [of s' s "Keeper.EscrowSeq s1" "lockedEscrow env m (Keeper.EscrowSeq s1) na"]
    by (simp add: s' lifecycle_def seqs_step_def table_step_refl table_step_new born_escrow_def)
qed

text \<open>
  The other messages rewrite one stored escrow. \<open>settleEscrow_ok\<close> is the accounting of the
  two that also pay it out.
\<close>

lemma table_step_escrow:
  "kv_get m i = Some e \<Longrightarrow> escrow_step e e' \<Longrightarrow> table_step escrow_step N m (kv_set m i e')"
  by (rule table_step_old) simp_all

lemma lifecycle_setEscrow:
  assumes "kv_get (Keeper.Escrow s) i = Some e" and "escrow_step e e'"
    and "Escrow.Attestations e' = Escrow.Attestations e"
    and "Keeper.Escrow s' = kv_set (Keeper.Escrow s) i e'"
    and "Keeper.Bond s' = Keeper.Bond s" "Keeper.Dispute s' = Keeper.Dispute s" "Keeper.Gate s' = Keeper.Gate s"
  shows "lifecycle s s'"
  using assms attestations_backed_old [OF assms(4,1,3)]
  by (simp add: lifecycle_def table_step_refl table_step_escrow)

lemma rewriteEscrow_ok:
  assumes e: "kv_get (Keeper.Escrow s) i = Some e" and inv: "core_inv s"
    and "escrow_step e e'" and "heldEscrow e' = heldEscrow e"
  shows "core_inv (setEscrow i e' s)" "total_supply (setEscrow i e' s) = total_supply s"
    "Escrow.Attestations e' = Escrow.Attestations e \<Longrightarrow> lifecycle s (setEscrow i e' s)"
proof -
  have id: "Escrow.Id e' = i" "i < Keeper.EscrowSeq s"
    using assms(3) core_inv_escrow [OF inv e] by (simp_all add: escrow_step_def same_terms_def)
  show "core_inv (setEscrow i e' s)" using inv id by blast
  show "total_supply (setEscrow i e' s) = total_supply s"
    using supply_setEscrow_old [OF e, of e'] assms(4) by simp
  show "lifecycle s (setEscrow i e' s)" if "Escrow.Attestations e' = Escrow.Attestations e"
    using e assms(3) that by (intro lifecycle_setEscrow) simp_all
qed

lemma settleEscrow_ok:
  assumes e: "kv_get (Keeper.Escrow s) i = Some e" and inv: "core_inv s" and room: "total_supply s < 2 ^ 64"
    and cr: "creditAccount env a ab (Escrow.Amount e) s = (Inr u, s1)"
    and st: "escrow_step e e'" "Escrow.Attestations e' = Escrow.Attestations e"
    and held: "unsettled e" and settled: "\<not> unsettled e'"
  shows "core_inv (setEscrow i e' s1)" "total_supply (setEscrow i e' s1) = total_supply s"
    "lifecycle s (setEscrow i e' s1)"
    "balance (setEscrow i e' s1) b = (if b = a then balance s a + unat (Escrow.Amount e) else balance s b)"
proof -
  note fr = creditAccount_frame [OF cr]
  have fit: "balance s a + unat (Escrow.Amount e) < 2 ^ 64"
    using held_escrow_le [OF e, of a] held room by (simp add: heldEscrow_def)
  note cred = creditAccount_ok [OF cr inv fit]
  have id: "Escrow.Id e' = i" "i < Keeper.EscrowSeq s"
    using st(1) core_inv_escrow [OF inv e] by (simp_all add: escrow_step_def same_terms_def)
  show "core_inv (setEscrow i e' s1)" using cred(1) id fr by (intro core_inv_setEscrow) simp_all
  show "total_supply (setEscrow i e' s1) = total_supply s"
    using supply_setEscrow_old [of s1 i e e'] e fr cred(2) held settled by (simp add: heldEscrow_def)
  show "lifecycle s (setEscrow i e' s1)"
    using e st fr by (intro lifecycle_setEscrow) simp_all
  show "balance (setEscrow i e' s1) b = (if b = a then balance s a + unat (Escrow.Amount e) else balance s b)"
    using cred(3) by simp
qed

lemma SubmitEscrow_success:
  assumes "SubmitEscrow env msg s = (Inr r, s')" and "core_inv s"
  shows "\<exists>e n ats. kv_get (Keeper.Escrow s) (MsgSubmitEscrow.Id msg) = Some e
     \<and> Escrow.Status e = EscrowStatusLocked \<and> MsgSubmitEscrow.Creator msg = Escrow.Payee e
     \<and> (Escrow.VerifierAddrs e \<noteq> [] \<longrightarrow>
          isHexSHA256 (MsgSubmitEscrow.DeliveryHash msg) \<and> isHexSHA256 (MsgSubmitEscrow.KeyHash msg))
     \<and> (MsgSubmitEscrow.DeliveryHash msg \<noteq> [] \<longrightarrow> isHexSHA256 (MsgSubmitEscrow.DeliveryHash msg))
     \<and> (MsgSubmitEscrow.KeyHash msg \<noteq> [] \<longrightarrow> isHexSHA256 (MsgSubmitEscrow.KeyHash msg))
     \<and> s' = emit n ats (setEscrow (MsgSubmitEscrow.Id msg)
          (e\<lparr>Escrow.Status := EscrowStatusSubmitted,
             Escrow.DeliveryHash := MsgSubmitEscrow.DeliveryHash msg,
             Escrow.KeyHash := MsgSubmitEscrow.KeyHash msg,
             Escrow.ArtifactUri := MsgSubmitEscrow.ArtifactUri msg,
             Escrow.SubmittedAt := BlockTime env\<rparr>) s)"
proof -
  have id: "Escrow.Id e = i" if "kv_get (Keeper.Escrow s) i = Some e" for i e
    using core_inv_escrow [OF assms(2) that] by simp
  show ?thesis
    using assms(1)
    by (simp add: SubmitEscrow_def Let_def id split: option.splits if_splits) blast+
qed

interpretation submit_escrow: moving_handler SubmitEscrow
proof unfold_locales
  fix env m s r s'
  assume run: "SubmitEscrow env m s = (Inr r, s')" and inv: "core_inv s"
  let ?upd = "\<lambda>e. e\<lparr>Escrow.Status := EscrowStatusSubmitted,
             Escrow.DeliveryHash := MsgSubmitEscrow.DeliveryHash m,
             Escrow.KeyHash := MsgSubmitEscrow.KeyHash m,
             Escrow.ArtifactUri := MsgSubmitEscrow.ArtifactUri m,
             Escrow.SubmittedAt := BlockTime env\<rparr>"
  obtain e n ats where e: "kv_get (Keeper.Escrow s) (MsgSubmitEscrow.Id m) = Some e"
      "Escrow.Status e = EscrowStatusLocked"
    and s': "s' = emit n ats (setEscrow (MsgSubmitEscrow.Id m) (?upd e) s)"
    using SubmitEscrow_success [OF run inv] by blast
  have "escrow_step e (?upd e)" "heldEscrow (?upd e) = heldEscrow e"
    using e by (simp_all add: escrow_step_def same_terms_def heldEscrow_def unsettled_def)
  note rw = rewriteEscrow_ok [OF e(1) inv this]
  show "core_inv s' \<and> total_supply s' = total_supply s \<and> Keeper.EmissionState s' = Keeper.EmissionState s"
    using rw by (simp add: s')
  show "lifecycle s s' \<and> seqs_step s s'"
    using rw(3) by (simp add: s' seqs_step_def)
qed

lemma ReleaseEscrow_success:
  assumes "ReleaseEscrow env msg s = (Inr r, s')" and "core_inv s"
  shows "\<exists>e pb s1 n ats. kv_get (Keeper.Escrow s) (MsgReleaseEscrow.Id msg) = Some e
     \<and> Escrow.Status e \<in> {EscrowStatusLocked, EscrowStatusSubmitted, EscrowStatusDisputed, EscrowStatusFailAttested}
     \<and> releaseDenied env (MsgReleaseEscrow.Creator msg) e = None
     \<and> creditAccount env (Escrow.Payee e) pb (Escrow.Amount e) s = (Inr (), s1)
     \<and> s' = emit n ats (setEscrow (MsgReleaseEscrow.Id msg)
          (e\<lparr>Escrow.Status := EscrowStatusReleased, Escrow.ReleasedAt := BlockTime env\<rparr>) s1)"
proof -
  have id: "Escrow.Id e = i" if "kv_get (Keeper.Escrow s) i = Some e" for i e
    using core_inv_escrow [OF assms(2) that] by simp
  show ?thesis
    using assms(1)
    by (simp add: ReleaseEscrow_def Let_def id split: option.splits if_splits sum.splits prod.splits) blast+
qed

interpretation release_escrow: moving_handler ReleaseEscrow
proof unfold_locales
  fix env m s r s'
  assume run: "ReleaseEscrow env m s = (Inr r, s')" and inv: "core_inv s"
  let ?upd = "\<lambda>e. e\<lparr>Escrow.Status := EscrowStatusReleased, Escrow.ReleasedAt := BlockTime env\<rparr>"
  obtain e pb s1 n ats where e: "kv_get (Keeper.Escrow s) (MsgReleaseEscrow.Id m) = Some e"
      "Escrow.Status e \<in> {EscrowStatusLocked, EscrowStatusSubmitted, EscrowStatusDisputed, EscrowStatusFailAttested}"
    and cr: "creditAccount env (Escrow.Payee e) pb (Escrow.Amount e) s = (Inr (), s1)"
    and s': "s' = emit n ats (setEscrow (MsgReleaseEscrow.Id m) (?upd e) s1)"
    using ReleaseEscrow_success [OF run inv] by blast
  have st: "escrow_step e (?upd e)" "Escrow.Attestations (?upd e) = Escrow.Attestations e"
    and un: "unsettled e" "\<not> unsettled (?upd e)"
    using e by (auto simp: escrow_step_def same_terms_def same_delivery_def)
  show "core_inv s' \<and> total_supply s' = total_supply s \<and> Keeper.EmissionState s' = Keeper.EmissionState s"
    if "total_supply s < 2 ^ 64"
    using settleEscrow_ok [OF e(1) inv that cr st un] creditAccount_frame [OF cr] by (simp add: s')
  show "lifecycle s s' \<and> seqs_step s s'"
    using creditAccount_frame [OF cr] lifecycle_setEscrow [OF e(1) st, of s'] by (simp add: s' seqs_step_def)
qed

lemma RefundEscrow_success:
  assumes "RefundEscrow env msg s = (Inr r, s')" and "core_inv s"
  shows "\<exists>e pb s1 n ats. kv_get (Keeper.Escrow s) (MsgRefundEscrow.Id msg) = Some e
     \<and> Escrow.Status e \<in> {EscrowStatusLocked, EscrowStatusFailAttested}
     \<and> MsgRefundEscrow.Creator msg = Escrow.Payer e \<and> refundDenied env e = None
     \<and> creditAccount env (Escrow.Payer e) pb (Escrow.Amount e) s = (Inr (), s1)
     \<and> s' = emit n ats (setEscrow (MsgRefundEscrow.Id msg) (e\<lparr>Escrow.Status := EscrowStatusRefunded\<rparr>) s1)"
proof -
  have id: "Escrow.Id e = i" if "kv_get (Keeper.Escrow s) i = Some e" for i e
    using core_inv_escrow [OF assms(2) that] by simp
  show ?thesis
    using assms(1)
    by (simp add: RefundEscrow_def Let_def id split: option.splits if_splits sum.splits prod.splits) blast+
qed

interpretation refund_escrow: moving_handler RefundEscrow
proof unfold_locales
  fix env m s r s'
  assume run: "RefundEscrow env m s = (Inr r, s')" and inv: "core_inv s"
  let ?upd = "\<lambda>e. e\<lparr>Escrow.Status := EscrowStatusRefunded\<rparr>"
  obtain e pb s1 n ats where e: "kv_get (Keeper.Escrow s) (MsgRefundEscrow.Id m) = Some e"
      "Escrow.Status e \<in> {EscrowStatusLocked, EscrowStatusFailAttested}"
    and cr: "creditAccount env (Escrow.Payer e) pb (Escrow.Amount e) s = (Inr (), s1)"
    and s': "s' = emit n ats (setEscrow (MsgRefundEscrow.Id m) (?upd e) s1)"
    using RefundEscrow_success [OF run inv] by blast
  have st: "escrow_step e (?upd e)" "Escrow.Attestations (?upd e) = Escrow.Attestations e"
    and un: "unsettled e" "\<not> unsettled (?upd e)"
    using e by (auto simp: escrow_step_def same_terms_def same_delivery_def)
  show "core_inv s' \<and> total_supply s' = total_supply s \<and> Keeper.EmissionState s' = Keeper.EmissionState s"
    if "total_supply s < 2 ^ 64"
    using settleEscrow_ok [OF e(1) inv that cr st un] creditAccount_frame [OF cr] by (simp add: s')
  show "lifecycle s s' \<and> seqs_step s s'"
    using creditAccount_frame [OF cr] lifecycle_setEscrow [OF e(1) st, of s'] by (simp add: s' seqs_step_def)
qed

lemma DisputeEscrow_success:
  assumes "DisputeEscrow env msg s = (Inr r, s')" and "core_inv s"
  shows "\<exists>e n ats. kv_get (Keeper.Escrow s) (MsgDisputeEscrow.Id msg) = Some e
     \<and> Escrow.Status e = EscrowStatusSubmitted \<and> MsgDisputeEscrow.Creator msg = Escrow.Payer e
     \<and> Escrow.VerifierAddrs e = []
     \<and> s' = emit n ats (setEscrow (MsgDisputeEscrow.Id msg) (e\<lparr>Escrow.Status := EscrowStatusDisputed\<rparr>) s)"
proof -
  have id: "Escrow.Id e = i" if "kv_get (Keeper.Escrow s) i = Some e" for i e
    using core_inv_escrow [OF assms(2) that] by simp
  show ?thesis
    using assms(1)
    by (simp add: DisputeEscrow_def Let_def id split: option.splits if_splits) blast+
qed

interpretation dispute_escrow: moving_handler DisputeEscrow
proof unfold_locales
  fix env m s r s'
  assume run: "DisputeEscrow env m s = (Inr r, s')" and inv: "core_inv s"
  obtain e n ats where e: "kv_get (Keeper.Escrow s) (MsgDisputeEscrow.Id m) = Some e"
      "Escrow.Status e = EscrowStatusSubmitted"
    and s': "s' = emit n ats (setEscrow (MsgDisputeEscrow.Id m) (e\<lparr>Escrow.Status := EscrowStatusDisputed\<rparr>) s)"
    using DisputeEscrow_success [OF run inv] by blast
  have "escrow_step e (e\<lparr>Escrow.Status := EscrowStatusDisputed\<rparr>)"
    "heldEscrow (e\<lparr>Escrow.Status := EscrowStatusDisputed\<rparr>) = heldEscrow e"
    using e by (simp_all add: escrow_step_def same_terms_def same_delivery_def heldEscrow_def)
  note rw = rewriteEscrow_ok [OF e(1) inv this]
  show "core_inv s' \<and> total_supply s' = total_supply s \<and> Keeper.EmissionState s' = Keeper.EmissionState s"
    using rw by (simp add: s')
  show "lifecycle s s' \<and> seqs_step s s'"
    using rw(3) by (simp add: s' seqs_step_def)
qed

section \<open>Properties\<close>

text \<open>The terms an escrow gets when it is funded.\<close>

lemma LockEscrow_ledger:
  assumes run: "LockEscrow env msg s = (Inr i, s')" and inv: "core_inv s"
  shows "\<exists>na. checkVerifierTerms env msg = Inr na
     \<and> kv_get (Keeper.Escrow s) i = None
     \<and> kv_get (Keeper.Escrow s') i = Some (lockedEscrow env msg i na)
     \<and> balance s' (MsgLockEscrow.Creator msg) + unat (MsgLockEscrow.Amount msg) = balance s (MsgLockEscrow.Creator msg)
     \<and> getRegistered s' (MsgLockEscrow.Payee msg) \<noteq> None
     \<and> StringToBytes env (MsgLockEscrow.Payee msg) \<noteq> None"
proof -
  let ?c = "MsgLockEscrow.Creator msg" and ?p = "MsgLockEscrow.Payee msg" and ?amt = "MsgLockEscrow.Amount msg"
  obtain pb na acc s1 n ats where acc: "getRegistered s ?c = Some acc" "?amt \<le> Account.Balance acc" "?c \<noteq> ?p"
    and na: "checkVerifierTerms env msg = Inr na" and pb: "StringToBytes env ?p = Some pb"
    and er: "ensureRegistered env ?p pb ?amt s = (Inr (), s1)" and i: "i = Keeper.EscrowSeq s1"
    and s': "s' = emit n ats (setEscrow (Keeper.EscrowSeq s1) (lockedEscrow env msg (Keeper.EscrowSeq s1) na)
          ((setAccount ?c (acc\<lparr>Account.Balance := Account.Balance acc - ?amt\<rparr>) s1)
            \<lparr>Keeper.EscrowSeq := Keeper.EscrowSeq s1 + 1\<rparr>))"
    using LockEscrow_success [OF run] by blast
  have seq: "Keeper.EscrowSeq s1 = Keeper.EscrowSeq s" using ensureRegistered_frame [OF er] by simp
  have fresh: "kv_get (Keeper.Escrow s) i = None" using core_inv_fresh(2) [OF inv] by (simp add: i seq)
  have "getRegistered s1 ?p \<noteq> None"
    using er by (auto simp: ensureRegistered_def Let_def getRegistered_def newAccount_def split: option.splits if_splits)
  then have "getRegistered s' ?p \<noteq> None" using acc(3) by (simp add: s' getRegistered_def)
  moreover have "balance s' ?c + unat ?amt = balance s ?c"
    using acc by (simp add: s' unat_sub_no_wrap balance_registered [OF acc(1)] u64_le_iff)
  ultimately show ?thesis using na pb fresh by (simp add: s' i)
qed

text \<open>What a lock writes: the new escrow, the next id, the balance of the payer, and nothing else of these.\<close>

lemma LockEscrow_writes:
  assumes run: "LockEscrow env msg s = (Inr i, s')"
  shows "MsgLockEscrow.Amount msg \<noteq> 0" and "MsgLockEscrow.Creator msg \<noteq> MsgLockEscrow.Payee msg"
    and "i = Keeper.EscrowSeq s" and "Keeper.EscrowSeq s' = Keeper.EscrowSeq s + 1"
    and "checkVerifierTerms env msg = Inr na \<Longrightarrow>
           Keeper.Escrow s' = kv_set (Keeper.Escrow s) i (lockedEscrow env msg i na)"
    and "a \<noteq> MsgLockEscrow.Creator msg \<Longrightarrow> balance s' a = balance s a"
proof -
  let ?c = "MsgLockEscrow.Creator msg" and ?p = "MsgLockEscrow.Payee msg" and ?amt = "MsgLockEscrow.Amount msg"
  obtain pb na1 acc s1 n ats where ok: "?amt \<noteq> 0" "?c \<noteq> ?p" "checkVerifierTerms env msg = Inr na1"
    and er: "ensureRegistered env ?p pb ?amt s = (Inr (), s1)" and i: "i = Keeper.EscrowSeq s1"
    and s': "s' = emit n ats (setEscrow (Keeper.EscrowSeq s1) (lockedEscrow env msg (Keeper.EscrowSeq s1) na1)
          ((setAccount ?c (acc\<lparr>Account.Balance := Account.Balance acc - ?amt\<rparr>) s1)
            \<lparr>Keeper.EscrowSeq := Keeper.EscrowSeq s1 + 1\<rparr>))"
    using LockEscrow_success [OF run] by blast
  note fr = ensureRegistered_frame [OF er]
  show "?amt \<noteq> 0" "?c \<noteq> ?p" by (fact ok)+
  show "i = Keeper.EscrowSeq s" "Keeper.EscrowSeq s' = Keeper.EscrowSeq s + 1" by (simp_all add: i s' fr)
  show "Keeper.Escrow s' = kv_set (Keeper.Escrow s) i (lockedEscrow env msg i na)" if "checkVerifierTerms env msg = Inr na"
    using that ok(3) by (simp add: i s' fr)
  show "balance s' a = balance s a" if "a \<noteq> ?c"
  proof (cases "a = ?p")
    case True
    then have "balance s1 a = balance s a"
      using er by (auto simp: ensureRegistered_def Let_def balance_def newAccount_def split: option.splits if_splits)
    then show ?thesis using that by (simp add: s' balance_def)
  next
    case False
    then show ?thesis using that ensureRegistered_other [OF er False] by (simp add: s' balance_def)
  qed
qed

lemma checkVerifierTerms_unbound:
  "checkVerifierTerms env msg = Inr na \<Longrightarrow> MsgLockEscrow.VerifierAddrs msg = [] \<Longrightarrow>
     na = MsgLockEscrow.NoAutoRelease msg \<and> MsgLockEscrow.VerifierQuorum msg = 0
   \<and> (MsgLockEscrow.AcceptanceHash msg = [] \<or> isHexSHA256 (MsgLockEscrow.AcceptanceHash msg))"
  by (auto simp: checkVerifierTerms_def word_gt_0 split: if_splits)

text \<open>
  C11: What a funded escrow is. A successful \<open>LockEscrow\<close> is for a positive amount and another
  payee, debits the payer by exactly the amount and changes no other balance, registers the payee,
  and stores under the next id, which is fresh, one escrow and leaves the others: locked, with payer, payee,
  amount, reference, verifiers, quorum and acceptance hash of the message, with the block time plus
  the dispute window (in 64 bits) as its deadline, and with nothing delivered or attested yet. A verifier-bound
  escrow never releases by the clock, pins a
  well-formed acceptance hash, and has between 1 and all of its verifiers as quorum, all of
  them different from each other, from the payer and from the payee. Without verifiers there is
  no quorum, the payer decides about the release by the clock, and the acceptance hash is absent or well-formed.
\<close>

theorem lock_escrow_terms:
  assumes "LockEscrow env msg s = (Inr i, s')" and "core_inv s"
  shows "0 < unat (MsgLockEscrow.Amount msg) \<and> MsgLockEscrow.Creator msg \<noteq> MsgLockEscrow.Payee msg
     \<and> balance s' (MsgLockEscrow.Creator msg) + unat (MsgLockEscrow.Amount msg)
         = balance s (MsgLockEscrow.Creator msg)
     \<and> (\<forall>a. a \<noteq> MsgLockEscrow.Creator msg \<longrightarrow> balance s' a = balance s a)
     \<and> getRegistered s' (MsgLockEscrow.Payee msg) \<noteq> None
     \<and> i = Keeper.EscrowSeq s \<and> Keeper.EscrowSeq s' = Keeper.EscrowSeq s + 1 \<and> kv_get (Keeper.Escrow s) i = None
     \<and> Keeper.Escrow s' = kv_set (Keeper.Escrow s) i
          \<lparr>Escrow.Id = i, Escrow.Payer = MsgLockEscrow.Creator msg, Escrow.Payee = MsgLockEscrow.Payee msg,
           Escrow.Amount = MsgLockEscrow.Amount msg, Escrow.Ref = MsgLockEscrow.Ref msg,
           Escrow.Status = EscrowStatusLocked,
           Escrow.Deadline = BlockTime env + MsgLockEscrow.DisputeSeconds msg,
           Escrow.NoAutoRelease = (MsgLockEscrow.NoAutoRelease msg \<or> MsgLockEscrow.VerifierAddrs msg \<noteq> []),
           Escrow.DeliveryHash = [], Escrow.VerifierAddrs = MsgLockEscrow.VerifierAddrs msg,
           Escrow.VerifierQuorum = MsgLockEscrow.VerifierQuorum msg,
           Escrow.AcceptanceHash = MsgLockEscrow.AcceptanceHash msg,
           Escrow.KeyHash = [], Escrow.ChallengeDeadline = 0, Escrow.Attestations = [],
           Escrow.ArtifactUri = [], Escrow.SubmittedAt = 0, Escrow.ReleasedAt = 0\<rparr>
     \<and> (if MsgLockEscrow.VerifierAddrs msg = [] then MsgLockEscrow.VerifierQuorum msg = 0
          \<and> (MsgLockEscrow.AcceptanceHash msg = [] \<or> isHexSHA256 (MsgLockEscrow.AcceptanceHash msg))
        else isHexSHA256 (MsgLockEscrow.AcceptanceHash msg) \<and> distinct (MsgLockEscrow.VerifierAddrs msg)
          \<and> MsgLockEscrow.Creator msg \<notin> set (MsgLockEscrow.VerifierAddrs msg)
          \<and> MsgLockEscrow.Payee msg \<notin> set (MsgLockEscrow.VerifierAddrs msg)
          \<and> 0 < MsgLockEscrow.VerifierQuorum msg
          \<and> MsgLockEscrow.VerifierQuorum msg \<le> word_of_nat (length (MsgLockEscrow.VerifierAddrs msg)))"
proof -
  obtain na where na: "checkVerifierTerms env msg = Inr na"
    and rest: "kv_get (Keeper.Escrow s) i = None"
      "balance s' (MsgLockEscrow.Creator msg) + unat (MsgLockEscrow.Amount msg) = balance s (MsgLockEscrow.Creator msg)"
      "getRegistered s' (MsgLockEscrow.Payee msg) \<noteq> None"
    using LockEscrow_ledger [OF assms] by blast
  note w = LockEscrow_writes [OF assms(1)]
  have "na = (MsgLockEscrow.NoAutoRelease msg \<or> MsgLockEscrow.VerifierAddrs msg \<noteq> [])"
    using checkVerifierTerms_unbound [OF na] checkVerifierTerms_bound [OF na] by (cases "MsgLockEscrow.VerifierAddrs msg = []") auto
  then have "Keeper.Escrow s' = kv_set (Keeper.Escrow s) i
      (lockedEscrow env msg i (MsgLockEscrow.NoAutoRelease msg \<or> MsgLockEscrow.VerifierAddrs msg \<noteq> []))"
    using w(5) [OF na] by simp
  moreover have "0 < unat (MsgLockEscrow.Amount msg)" using w(1) by (simp add: unat_gt_0)
  ultimately show ?thesis
    using rest w(2,3,4,6) checkVerifierTerms_unbound [OF na] checkVerifierTerms_bound [OF na]
    unfolding lockedEscrow_def by simp
qed

definition hex64 :: string where
  "hex64 = replicate 64 (CHR ''a'')"

lemma hex64_ok [simp]: "isHexSHA256 hex64" "hex64 \<noteq> []"
  by (simp_all add: hex64_def isHexSHA256_def list_all_iff) (simp add: hex_digit_def)

definition sampleLock :: MsgLockEscrow where
  "sampleLock = \<lparr>MsgLockEscrow.Creator = ''alice'', MsgLockEscrow.Payee = ''bob'', MsgLockEscrow.Amount = 300,
     MsgLockEscrow.Ref = ''job'', MsgLockEscrow.DisputeSeconds = 1000, MsgLockEscrow.NoAutoRelease = False,
     MsgLockEscrow.VerifierAddrs = [], MsgLockEscrow.VerifierQuorum = 0, MsgLockEscrow.AcceptanceHash = []\<rparr>"

definition sampleLocked :: Keeper where
  "sampleLocked = snd (LockEscrow (sampleEnv 100) sampleLock sampleState)"

lemma sampleLock_run: "LockEscrow (sampleEnv 100) sampleLock sampleState = (Inr 0, sampleLocked)"
  by (simp add: sampleLocked_def LockEscrow_def sampleLock_def checkVerifierTerms_def getRegistered_def
      ensureRegistered_def Let_def)

lemma sampleLocked_inv [simp]: "core_inv sampleLocked" "total_supply sampleLocked = 6000"
  using lock_escrow.effect [OF sampleLock_run] by simp_all

lemma sampleLocked_escrow [simp]:
  "kv_get (Keeper.Escrow sampleLocked) 0 = Some (lockedEscrow (sampleEnv 100) sampleLock 0 False)"
  using LockEscrow_ledger [OF sampleLock_run] by (auto simp: checkVerifierTerms_def sampleLock_def)

lemma sampleLocked_account [simp]:
  "kv_get (Keeper.Account sampleLocked) a =
     (if a = ''alice'' then Some (funded ''alice'' 700)
      else kv_get (Keeper.Account sampleState) a)"
  by (simp add: sampleLocked_def LockEscrow_def sampleLock_def checkVerifierTerms_def getRegistered_def
      ensureRegistered_def Let_def)

lemma sampleLock_simps [simp]:
  "MsgLockEscrow.Creator sampleLock = ''alice''" "MsgLockEscrow.Payee sampleLock = ''bob''"
  "MsgLockEscrow.Amount sampleLock = 300" "MsgLockEscrow.DisputeSeconds sampleLock = 1000"
  "MsgLockEscrow.VerifierAddrs sampleLock = []"
  by (simp_all add: sampleLock_def)

lemma lock_escrow_terms_witness:
  "balance sampleLocked ''alice'' + 300 = 1000
     \<and> (\<exists>e. kv_get (Keeper.Escrow sampleLocked) 0 = Some e \<and> Escrow.Payee e = ''bob''
          \<and> Escrow.Ref e = ''job'' \<and> Escrow.Deadline e = 1100)"
  using lock_escrow_terms [OF sampleLock_run] by (auto simp: sampleLock_def balance_def)

text \<open>
  C12: When an escrow can be refunded. \<open>RefundEscrow\<close> of a stored escrow succeeds exactly for
  the payer, and exactly when the escrow is still locked and its deadline has not come, or a
  verifier failed it and the payee's contest window has passed. In particular a submitted,
  disputed or jury-controlled escrow is never refunded this way. The refund pays the payer
  the full amount and nobody else anything.
\<close>

theorem refund_exactly_when:
  assumes "core_inv s" and "total_supply s < 2 ^ 64"
    and "kv_get (Keeper.Escrow s) i = Some e" and "getRegistered s (Escrow.Payer e) \<noteq> None"
    and "StringToBytes env (Escrow.Payer e) \<noteq> None" and "StringToBytes env c \<noteq> None"
  shows "case RefundEscrow env \<lparr>MsgRefundEscrow.Creator = c, MsgRefundEscrow.Id = i\<rparr> s of
      (Inl _, s') \<Rightarrow> s' = s \<and> \<not> (c = Escrow.Payer e \<and>
        (Escrow.Status e = EscrowStatusLocked \<and> BlockTime env <s Escrow.Deadline e
         \<or> Escrow.Status e = EscrowStatusFailAttested \<and> Escrow.ChallengeDeadline e <=s BlockTime env))
    | (Inr _, s') \<Rightarrow> c = Escrow.Payer e \<and>
        (Escrow.Status e = EscrowStatusLocked \<and> BlockTime env <s Escrow.Deadline e
         \<or> Escrow.Status e = EscrowStatusFailAttested \<and> Escrow.ChallengeDeadline e <=s BlockTime env)
        \<and> (\<forall>a. balance s' a = balance s a + (if a = Escrow.Payer e then unat (Escrow.Amount e) else 0))"
proof -
  let ?m = "\<lparr>MsgRefundEscrow.Creator = c, MsgRefundEscrow.Id = i\<rparr>"
  obtain acc where acc: "kv_get (Keeper.Account s) (Escrow.Payer e) = Some acc"
    using assms(4) by (auto simp: getRegistered_def split: option.splits)
  show ?thesis
  proof (cases "RefundEscrow env ?m s")
    case (Pair r s')
    show ?thesis
    proof (cases r)
      case (Inl err)
      then show ?thesis
        using Pair assms(3,5,6) acc
        by (auto simp: RefundEscrow_def refundDenied_def creditAccount_cases checkNewAccountCredit_def Let_def
            i64_less_iff i64_le_iff split: option.splits if_splits)
    next
      case (Inr u)
      then have run: "RefundEscrow env ?m s = (Inr u, s')" using Pair by simp
      obtain pb s1 n ats where st: "Escrow.Status e \<in> {EscrowStatusLocked, EscrowStatusFailAttested}"
        and c: "c = Escrow.Payer e" and ok: "refundDenied env e = None"
        and cr: "creditAccount env (Escrow.Payer e) pb (Escrow.Amount e) s = (Inr (), s1)"
        and s': "s' = emit n ats (setEscrow i (e\<lparr>Escrow.Status := EscrowStatusRefunded\<rparr>) s1)"
        using RefundEscrow_success [OF run assms(1)] assms(3) by auto
      have fit: "balance s (Escrow.Payer e) + unat (Escrow.Amount e) < 2 ^ 64"
        using held_escrow_le [OF assms(3), of "Escrow.Payer e"] st assms(2) by (auto simp: heldEscrow_def)
      show ?thesis
        unfolding Pair Inr prod.case sum.case
        using st c ok creditAccount_ok(3) [OF cr assms(1) fit]
        by (auto simp: s' refundDenied_def Let_def i64_less_iff i64_le_iff split: if_splits)
    qed
  qed
qed

lemma refund_exactly_when_witness:
  "balance (snd (RefundEscrow (sampleEnv 150) \<lparr>MsgRefundEscrow.Creator = ''alice'', MsgRefundEscrow.Id = 0\<rparr>
      sampleLocked)) ''alice'' = 1000"
proof -
  obtain s' where run: "RefundEscrow (sampleEnv 150) \<lparr>MsgRefundEscrow.Creator = ''alice'', MsgRefundEscrow.Id = 0\<rparr>
      sampleLocked = (Inr (), s')"
    by (simp add: RefundEscrow_def refundDenied_def creditAccount_cases checkNewAccountCredit_def Let_def)
  have "balance sampleLocked ''alice'' = 700" by (simp add: balance_def)
  then show ?thesis
    using refund_exactly_when [OF sampleLocked_inv(1) _ sampleLocked_escrow,
        where env = "sampleEnv 150" and c = "''alice''"]
    by (simp add: run getRegistered_def)
qed

text \<open>
  C13: Who can release an escrow, and when. \<open>ReleaseEscrow\<close> of a stored escrow succeeds
  exactly when it is locked, submitted or failed by a verifier and either the sender is the
  payer, or the escrow may release by the clock and its deadline has come; or when it is
  disputed and the sender is the payer. So a jury-bound or verifier-bound escrow is never
  released by anyone but the payer, however late. The release pays the payee the full amount
  and nobody else anything.
\<close>

theorem release_exactly_when:
  assumes "core_inv s" and "total_supply s < 2 ^ 64"
    and "kv_get (Keeper.Escrow s) i = Some e" and "getRegistered s (Escrow.Payee e) \<noteq> None"
    and "StringToBytes env (Escrow.Payee e) \<noteq> None" and "StringToBytes env c \<noteq> None"
  shows "case ReleaseEscrow env \<lparr>MsgReleaseEscrow.Creator = c, MsgReleaseEscrow.Id = i\<rparr> s of
      (Inl _, s') \<Rightarrow> s' = s \<and> \<not> (
          Escrow.Status e \<in> {EscrowStatusLocked, EscrowStatusSubmitted, EscrowStatusFailAttested} \<and>
            (c = Escrow.Payer e \<or> \<not> Escrow.NoAutoRelease e \<and> Escrow.Deadline e <=s BlockTime env)
          \<or> Escrow.Status e = EscrowStatusDisputed \<and> c = Escrow.Payer e)
    | (Inr _, s') \<Rightarrow>
         (Escrow.Status e \<in> {EscrowStatusLocked, EscrowStatusSubmitted, EscrowStatusFailAttested} \<and>
            (c = Escrow.Payer e \<or> \<not> Escrow.NoAutoRelease e \<and> Escrow.Deadline e <=s BlockTime env)
          \<or> Escrow.Status e = EscrowStatusDisputed \<and> c = Escrow.Payer e)
        \<and> (\<forall>a. balance s' a = balance s a + (if a = Escrow.Payee e then unat (Escrow.Amount e) else 0))"
proof -
  let ?m = "\<lparr>MsgReleaseEscrow.Creator = c, MsgReleaseEscrow.Id = i\<rparr>"
  obtain acc where acc: "kv_get (Keeper.Account s) (Escrow.Payee e) = Some acc"
    using assms(4) by (auto simp: getRegistered_def split: option.splits)
  show ?thesis
  proof (cases "ReleaseEscrow env ?m s")
    case (Pair r s')
    show ?thesis
    proof (cases r)
      case (Inl err)
      then show ?thesis
        using Pair assms(3,5,6) acc
        by (auto simp: ReleaseEscrow_def releaseDenied_def creditAccount_cases checkNewAccountCredit_def Let_def
            i64_less_iff i64_le_iff split: option.splits if_splits)
    next
      case (Inr u)
      then have run: "ReleaseEscrow env ?m s = (Inr u, s')" using Pair by simp
      obtain pb s1 n ats where st: "Escrow.Status e \<in> {EscrowStatusLocked, EscrowStatusSubmitted,
            EscrowStatusDisputed, EscrowStatusFailAttested}"
        and ok: "releaseDenied env c e = None"
        and cr: "creditAccount env (Escrow.Payee e) pb (Escrow.Amount e) s = (Inr (), s1)"
        and s': "s' = emit n ats (setEscrow i (e\<lparr>Escrow.Status := EscrowStatusReleased,
             Escrow.ReleasedAt := BlockTime env\<rparr>) s1)"
        using ReleaseEscrow_success [OF run assms(1)] assms(3) by auto
      have fit: "balance s (Escrow.Payee e) + unat (Escrow.Amount e) < 2 ^ 64"
        using held_escrow_le [OF assms(3), of "Escrow.Payee e"] st assms(2) by (auto simp: heldEscrow_def)
      show ?thesis
        unfolding Pair Inr prod.case sum.case
        using st ok creditAccount_ok(3) [OF cr assms(1) fit]
        by (auto simp: s' releaseDenied_def Let_def i64_less_iff i64_le_iff split: if_splits)
    qed
  qed
qed

lemma release_exactly_when_witness:
  "balance (snd (ReleaseEscrow (sampleEnv 1100) \<lparr>MsgReleaseEscrow.Creator = ''bob'', MsgReleaseEscrow.Id = 0\<rparr>
      sampleLocked)) ''bob'' = 1300"
proof -
  obtain s' where run: "ReleaseEscrow (sampleEnv 1100) \<lparr>MsgReleaseEscrow.Creator = ''bob'', MsgReleaseEscrow.Id = 0\<rparr>
      sampleLocked = (Inr (), s')"
    by (simp add: ReleaseEscrow_def releaseDenied_def creditAccount_cases checkNewAccountCredit_def Let_def)
  have "balance sampleLocked ''bob'' = 1000" by (simp add: balance_def)
  then show ?thesis
    using release_exactly_when [OF sampleLocked_inv(1) _ sampleLocked_escrow,
        where env = "sampleEnv 1100" and c = "''bob''"]
    by (simp add: run getRegistered_def)
qed

text \<open>
  C14: A dispute window of 2^63 seconds or more is no window. The code converts it to a
  signed number, so the deadline of the new escrow lies in the past, and whoever asks, the
  payee included, can release the escrow in the very block that funded it.
\<close>

theorem huge_dispute_window_is_none:
  assumes "LockEscrow env msg s = (Inr i, s')" and "core_inv s" and "total_supply s < 2 ^ 64" and "ids_free s"
    and "2 ^ 63 \<le> unat (MsgLockEscrow.DisputeSeconds msg)" and "0 \<le> sint (BlockTime env)"
    and "MsgLockEscrow.VerifierAddrs msg = []" and "\<not> MsgLockEscrow.NoAutoRelease msg"
    and "StringToBytes env c \<noteq> None"
  shows "\<exists>s2. ReleaseEscrow env \<lparr>MsgReleaseEscrow.Creator = c, MsgReleaseEscrow.Id = i\<rparr> s' = (Inr (), s2)"
proof -
  let ?ds = "MsgLockEscrow.DisputeSeconds msg"
  have neg: "sint ?ds < 0" using assms(5) by (rule sint_neg_if_big)
  have late: "sint (BlockTime env + ?ds) < sint (BlockTime env)"
    using neg assms(6) sint_i64_bounds [of ?ds] sint_i64_bounds [of "BlockTime env"]
    by (subst sint_add_no_wrap) auto
  obtain na where na: "checkVerifierTerms env msg = Inr na"
    and e: "kv_get (Keeper.Escrow s') i = Some (lockedEscrow env msg i na)"
    and reg: "getRegistered s' (MsgLockEscrow.Payee msg) \<noteq> None" and codec: "StringToBytes env (MsgLockEscrow.Payee msg) \<noteq> None"
    using LockEscrow_ledger [OF assms(1,2)] by blast
  have auto: "\<not> na" using na assms(7,8) by (simp add: checkVerifierTerms_def split: if_splits)
  obtain acc where acc: "kv_get (Keeper.Account s') (MsgLockEscrow.Payee msg) = Some acc"
    using reg by (auto simp: getRegistered_def split: option.splits)
  show ?thesis
    using e acc codec auto late assms(9)
    by (auto simp: ReleaseEscrow_def releaseDenied_def creditAccount_cases checkNewAccountCredit_def Let_def
        i64_less_iff split: option.splits)
qed

lemma huge_dispute_window_is_none_witness:
  "\<exists>s1 s2. LockEscrow (sampleEnv 100) (sampleLock\<lparr>MsgLockEscrow.DisputeSeconds := 2 ^ 63\<rparr>) sampleState = (Inr 0, s1)
     \<and> ReleaseEscrow (sampleEnv 100) \<lparr>MsgReleaseEscrow.Creator = ''bob'', MsgReleaseEscrow.Id = 0\<rparr> s1 = (Inr (), s2)"
proof -
  obtain s1 where run: "LockEscrow (sampleEnv 100) (sampleLock\<lparr>MsgLockEscrow.DisputeSeconds := 2 ^ 63\<rparr>) sampleState
      = (Inr 0, s1)"
    by (simp add: LockEscrow_def sampleLock_def checkVerifierTerms_def getRegistered_def ensureRegistered_def Let_def)
  show ?thesis
    using huge_dispute_window_is_none [OF run, where c = "''bob''"] run by (auto simp: sampleLock_def)
qed

end
