(* ===== verification/Verifier.thy ===== *)
theory Verifier
  imports EscrowFlow
begin

text \<open>
  Verifier-bound escrows: staked verdicts (\<^verbatim>\<open>msg_server_attest_escrow.go\<close>), the release
  they authorise (\<^verbatim>\<open>msg_server_verified_release.go\<close>), and the return of the stakes
  (\<^verbatim>\<open>msg_server_reclaim_attestation_bonds.go\<close>).
\<close>

section \<open>Attesting\<close>

record MsgAttestEscrow =
  Creator :: string
  EscrowId :: u64
  Passed :: bool
  StakeAmount :: u64
  DeliveryHash :: string
  KeyHash :: string
  AcceptanceHash :: string

fun isVerifier :: "string \<Rightarrow> string list \<Rightarrow> bool" where
  "isVerifier addr [] = False"
| "isVerifier addr (v # verifiers) = (if v = addr then True else isVerifier addr verifiers)"

lemma isVerifier_iff [simp]: "isVerifier addr vs \<longleftrightarrow> addr \<in> set vs"
  by (induction vs) auto

definition AttestEscrow :: "Env \<Rightarrow> MsgAttestEscrow \<Rightarrow> Keeper \<Rightarrow> u64 result" where
  "AttestEscrow env msg s =
    (case StringToBytes env (MsgAttestEscrow.Creator msg) of
       None \<Rightarrow> fail (ErrAddress ''invalid creator address'') s
     | Some _ \<Rightarrow>
    (case kv_get (Keeper.Escrow s) (MsgAttestEscrow.EscrowId msg) of
       None \<Rightarrow> fail (ErrKeyNotFound ''escrow not found'') s
     | Some escrow \<Rightarrow>
    (if Escrow.Status escrow \<noteq> EscrowStatusSubmitted then
       fail (ErrInvalidRequest (''escrow is not submitted (status='' @ Escrow.Status escrow @ '')'')) s
     else if \<not> isVerifier (MsgAttestEscrow.Creator msg) (Escrow.VerifierAddrs escrow) then
       fail (ErrUnauthorized ''caller is not in the escrow's verifier set'') s
     else if list_ex (\<lambda>a. Attestation.Verifier a = MsgAttestEscrow.Creator msg) (Escrow.Attestations escrow) then
       fail (ErrInvalidRequest ''verifier has already attested this escrow'') s
     else if \<not> EqualFold (FoldUnicode env) (MsgAttestEscrow.DeliveryHash msg) (Escrow.DeliveryHash escrow) \<or>
             \<not> EqualFold (FoldUnicode env) (MsgAttestEscrow.KeyHash msg) (Escrow.KeyHash escrow) \<or>
             \<not> EqualFold (FoldUnicode env) (MsgAttestEscrow.AcceptanceHash msg) (Escrow.AcceptanceHash escrow) then
       fail (ErrInvalidRequest ''attestation must restate the escrow's delivery_hash, key_hash and acceptance_hash exactly'') s
     else if MsgAttestEscrow.StakeAmount msg < Escrow.Amount escrow then
       fail (ErrInvalidRequest (''attestation stake must be at least the escrow amount (''
               @ FormatUint (Escrow.Amount escrow) @ '')'')) s
     else
    (case getRegistered s (MsgAttestEscrow.Creator msg) of
       None \<Rightarrow> fail (ErrInvalidRequest ''verifier not registered'') s
     | Some verifier \<Rightarrow>
    (if Account.Balance verifier < MsgAttestEscrow.StakeAmount msg then
       fail (ErrInsufficientFunds ''insufficient balance for attestation stake'') s
     else
    (let s1 = setAccount (MsgAttestEscrow.Creator msg)
                (verifier\<lparr>Account.Balance := Account.Balance verifier - MsgAttestEscrow.StakeAmount msg\<rparr>) s;
         (bondID, s2) = nextBondID s1;
         s3 = setBond bondID
                \<lparr>Bond.Id = bondID, Bond.Poster = MsgAttestEscrow.Creator msg,
                 Bond.Amount = MsgAttestEscrow.StakeAmount msg,
                 Bond.Purpose = attestationPurpose (Escrow.Id escrow), Bond.Slasher = [],
                 Bond.Status = BondStatusActive, Bond.Ref = FormatUint (Escrow.Id escrow)\<rparr> s2;
         escrow1 = escrow\<lparr>Escrow.Attestations := Escrow.Attestations escrow @
                     [\<lparr>Attestation.Verifier = MsgAttestEscrow.Creator msg,
                       Attestation.Passed = MsgAttestEscrow.Passed msg,
                       Attestation.BondId = bondID,
                       Attestation.DeliveryHash = Escrow.DeliveryHash escrow,
                       Attestation.KeyHash = Escrow.KeyHash escrow,
                       Attestation.AcceptanceHash = Escrow.AcceptanceHash escrow,
                       Attestation.AttestedAt = BlockTime env\<rparr>]\<rparr>;
         escrow2 = (if \<not> MsgAttestEscrow.Passed msg then
                      escrow1\<lparr>Escrow.Status := EscrowStatusFailAttested,
                              Escrow.ChallengeDeadline := BlockTime env + ChallengeWindowSeconds\<rparr>
                    else escrow1);
         s4 = setEscrow (Escrow.Id escrow2) escrow2 s3
     in respond bondID (emit ''agntcoin_escrow_attested''
          [(''escrow_id'', FormatUint (Escrow.Id escrow2)),
           (''verifier'', MsgAttestEscrow.Creator msg),
           (''passed'', FormatBool (MsgAttestEscrow.Passed msg)),
           (''bond_id'', FormatUint bondID),
           (''stake'', FormatUint (MsgAttestEscrow.StakeAmount msg))] s4)))))))"

section \<open>Release by quorum\<close>

record MsgVerifiedRelease =
  Creator :: string
  EscrowId :: u64
  Key :: string

text \<open>Does an attestation count, and how many do.\<close>

definition countsAsPass :: "Env \<Rightarrow> Escrow \<Rightarrow> Attestation \<Rightarrow> bool" where
  "countsAsPass env escrow a \<longleftrightarrow>
     Attestation.Passed a \<and>
     EqualFold (FoldUnicode env) (Attestation.DeliveryHash a) (Escrow.DeliveryHash escrow) \<and>
     EqualFold (FoldUnicode env) (Attestation.KeyHash a) (Escrow.KeyHash escrow) \<and>
     EqualFold (FoldUnicode env) (Attestation.AcceptanceHash a) (Escrow.AcceptanceHash escrow)"

fun countPasses :: "Env \<Rightarrow> Escrow \<Rightarrow> u64 \<Rightarrow> Attestation list \<Rightarrow> u64" where
  "countPasses env escrow passed [] = passed"
| "countPasses env escrow passed (a # as1) =
     countPasses env escrow (if countsAsPass env escrow a then passed + 1 else passed) as1"

text \<open>The key check: the preimage of the committed hash, or no key when none was committed.\<close>

definition keyMismatch :: "Env \<Rightarrow> string \<Rightarrow> Escrow \<Rightarrow> go_error option" where
  "keyMismatch env key escrow =
    (if Escrow.KeyHash escrow \<noteq> [] then
      (if \<not> EqualFold (FoldUnicode env) (hex_EncodeToString (Sha256 env key)) (Escrow.KeyHash escrow)
       then Some (ErrInvalidRequest ''key does not match the committed key_hash'') else None)
     else if key \<noteq> [] then Some (ErrInvalidRequest ''no key_hash was committed for this escrow'')
     else None)"

definition VerifiedRelease :: "Env \<Rightarrow> MsgVerifiedRelease \<Rightarrow> Keeper \<Rightarrow> unit result" where
  "VerifiedRelease env msg s =
    (case StringToBytes env (MsgVerifiedRelease.Creator msg) of
       None \<Rightarrow> fail (ErrAddress ''invalid creator address'') s
     | Some _ \<Rightarrow>
    (case kv_get (Keeper.Escrow s) (MsgVerifiedRelease.EscrowId msg) of
       None \<Rightarrow> fail (ErrKeyNotFound ''escrow not found'') s
     | Some escrow \<Rightarrow>
    (if length (Escrow.VerifierAddrs escrow) = 0 then
       fail (ErrInvalidRequest ''escrow is not verifier-bound'') s
     else if Escrow.Status escrow \<noteq> EscrowStatusSubmitted then
       fail (ErrInvalidRequest (''escrow is not submitted (status='' @ Escrow.Status escrow @ '')'')) s
     else
    (let passed = countPasses env escrow 0 (Escrow.Attestations escrow)
     in if passed < Escrow.VerifierQuorum escrow then
          fail (ErrInvalidRequest (''verifier quorum not met: '' @ FormatUint passed @ '' of ''
                 @ FormatUint (Escrow.VerifierQuorum escrow) @ '' required pass attestations'')) s
        else
    (case keyMismatch env (MsgVerifiedRelease.Key msg) escrow of
       Some err \<Rightarrow> fail err s
     | None \<Rightarrow>
    (case StringToBytes env (Escrow.Payee escrow) of
       None \<Rightarrow> fail (ErrAddress ''invalid payee address'') s
     | Some payeeBytes \<Rightarrow>
    (case checkNewAccountCredit s (Escrow.Payee escrow) (Escrow.Amount escrow) of
       Some err \<Rightarrow> fail err s
     | None \<Rightarrow>
    (case creditAccount env (Escrow.Payee escrow) payeeBytes (Escrow.Amount escrow) s of
       (Inl err, s1) \<Rightarrow> fail err s1
     | (Inr _, s1) \<Rightarrow>
    (let escrow1 = escrow\<lparr>Escrow.Status := EscrowStatusReleased, Escrow.ReleasedAt := BlockTime env,
                     Escrow.ChallengeDeadline := BlockTime env + ChallengeWindowSeconds\<rparr>;
         s2 = setEscrow (Escrow.Id escrow1) escrow1 s1
     in respond () (emit ''agntcoin_escrow_verified_release''
          [(''id'', FormatUint (Escrow.Id escrow1)),
           (''payer'', Escrow.Payer escrow1),
           (''payee'', Escrow.Payee escrow1),
           (''amount'', FormatUint (Escrow.Amount escrow1)),
           (''ref'', Escrow.Ref escrow1),
           (''key'', MsgVerifiedRelease.Key msg),
           (''pass_attestations'', FormatUint passed),
           (''challenge_deadline'', FormatInt (Escrow.ChallengeDeadline escrow1))] s2))))))))))"

section \<open>Reclaiming stakes\<close>

record MsgReclaimAttestationBonds =
  Creator :: string
  EscrowId :: u64

text \<open>The loop over the attestations of the escrow.\<close>

fun reclaimBonds :: "Escrow \<Rightarrow> string \<Rightarrow> Attestation list \<Rightarrow> Keeper \<Rightarrow> unit result" where
  "reclaimBonds escrow purpose [] s = respond () s"
| "reclaimBonds escrow purpose (a # as1) s =
    (case kv_get (Keeper.Bond s) (Attestation.BondId a) of
       None \<Rightarrow> reclaimBonds escrow purpose as1 s
     | Some bond \<Rightarrow>
    (if Bond.Status bond \<noteq> BondStatusActive \<or> Bond.Purpose bond \<noteq> purpose
     then reclaimBonds escrow purpose as1 s
     else
    (case settleBond (Bond.Poster bond) (bond\<lparr>Bond.Status := BondStatusReleased\<rparr>) s of
       (Inl err, s1) \<Rightarrow> fail err s1
     | (Inr _, s1) \<Rightarrow>
         reclaimBonds escrow purpose as1
           (emit ''agntcoin_attestation_bond_reclaimed''
             [(''escrow_id'', FormatUint (Escrow.Id escrow)),
              (''verifier'', Attestation.Verifier a),
              (''bond_id'', FormatUint (Bond.Id bond)),
              (''amount'', FormatUint (Bond.Amount bond))] s1))))"

definition ReclaimAttestationBonds :: "Env \<Rightarrow> MsgReclaimAttestationBonds \<Rightarrow> Keeper \<Rightarrow> unit result" where
  "ReclaimAttestationBonds env msg s =
    (case StringToBytes env (MsgReclaimAttestationBonds.Creator msg) of
       None \<Rightarrow> fail (ErrAddress ''invalid creator address'') s
     | Some _ \<Rightarrow>
    (case kv_get (Keeper.Escrow s) (MsgReclaimAttestationBonds.EscrowId msg) of
       None \<Rightarrow> fail (ErrKeyNotFound ''escrow not found'') s
     | Some escrow \<Rightarrow>
    (if length (Escrow.Attestations escrow) = 0 then
       fail (ErrInvalidRequest ''escrow has no attestations'') s
     else if \<not> (Escrow.Status escrow = EscrowStatusReleased \<or> Escrow.Status escrow = EscrowStatusRefunded
               \<or> Escrow.Status escrow = EscrowStatusFailAttested) then
       fail (ErrInvalidRequest (''escrow's attestation stakes are not reclaimable (status=''
               @ Escrow.Status escrow @ '')'')) s
     else if 0 <s Escrow.ChallengeDeadline escrow \<and> BlockTime env <s Escrow.ChallengeDeadline escrow then
       fail (ErrInvalidRequest ''challenge window is still open'') s
     else reclaimBonds escrow (attestationPurpose (Escrow.Id escrow)) (Escrow.Attestations escrow) s)))"

section \<open>The handlers meet the contract\<close>

text \<open>The verdict as it is stored.\<close>

definition verdict :: "Env \<Rightarrow> MsgAttestEscrow \<Rightarrow> Escrow \<Rightarrow> u64 \<Rightarrow> Attestation" where
  "verdict env msg e i =
     \<lparr>Attestation.Verifier = MsgAttestEscrow.Creator msg, Attestation.Passed = MsgAttestEscrow.Passed msg,
      Attestation.BondId = i, Attestation.DeliveryHash = Escrow.DeliveryHash e,
      Attestation.KeyHash = Escrow.KeyHash e, Attestation.AcceptanceHash = Escrow.AcceptanceHash e,
      Attestation.AttestedAt = BlockTime env\<rparr>"

definition attested :: "Env \<Rightarrow> MsgAttestEscrow \<Rightarrow> u64 \<Rightarrow> Escrow \<Rightarrow> Escrow" where
  "attested env msg i e =
     (let e1 = e\<lparr>Escrow.Attestations := Escrow.Attestations e @ [verdict env msg e i]\<rparr>
      in if MsgAttestEscrow.Passed msg then e1
         else e1\<lparr>Escrow.Status := EscrowStatusFailAttested,
                 Escrow.ChallengeDeadline := BlockTime env + ChallengeWindowSeconds\<rparr>)"

lemma attested_simps [simp]:
  "Escrow.Id (attested env msg i e) = Escrow.Id e"
  "Escrow.Amount (attested env msg i e) = Escrow.Amount e"
  "Escrow.Payer (attested env msg i e) = Escrow.Payer e"
  "Escrow.Payee (attested env msg i e) = Escrow.Payee e"
  "Escrow.VerifierAddrs (attested env msg i e) = Escrow.VerifierAddrs e"
  "Escrow.VerifierQuorum (attested env msg i e) = Escrow.VerifierQuorum e"
  "Escrow.NoAutoRelease (attested env msg i e) = Escrow.NoAutoRelease e"
  "Escrow.DeliveryHash (attested env msg i e) = Escrow.DeliveryHash e"
  "Escrow.KeyHash (attested env msg i e) = Escrow.KeyHash e"
  "Escrow.AcceptanceHash (attested env msg i e) = Escrow.AcceptanceHash e"
  "Escrow.Attestations (attested env msg i e) = Escrow.Attestations e @ [verdict env msg e i]"
  "Escrow.Status (attested env msg i e) =
     (if MsgAttestEscrow.Passed msg then Escrow.Status e else EscrowStatusFailAttested)"
  by (simp_all add: attested_def Let_def)

lemma escrow_step_attested:
  "Escrow.Status e = EscrowStatusSubmitted \<Longrightarrow> MsgAttestEscrow.Creator msg \<in> set (Escrow.VerifierAddrs e) \<Longrightarrow>
   MsgAttestEscrow.Creator msg \<notin> Attestation.Verifier ` set (Escrow.Attestations e) \<Longrightarrow>
     escrow_step e (attested env msg i e)"
  by (simp add: escrow_step_def same_terms_def same_delivery_def attested_def verdict_def Let_def)

lemma AttestEscrow_success:
  assumes "AttestEscrow env msg s = (Inr r, s')" and "core_inv s"
  shows "\<exists>e acc n ats. kv_get (Keeper.Escrow s) (MsgAttestEscrow.EscrowId msg) = Some e
     \<and> Escrow.Status e = EscrowStatusSubmitted
     \<and> MsgAttestEscrow.Creator msg \<in> set (Escrow.VerifierAddrs e)
     \<and> MsgAttestEscrow.Creator msg \<notin> Attestation.Verifier ` set (Escrow.Attestations e)
     \<and> Escrow.Amount e \<le> MsgAttestEscrow.StakeAmount msg
     \<and> getRegistered s (MsgAttestEscrow.Creator msg) = Some acc
     \<and> MsgAttestEscrow.StakeAmount msg \<le> Account.Balance acc
     \<and> r = Keeper.BondSeq s
     \<and> s' = emit n ats (setEscrow (MsgAttestEscrow.EscrowId msg) (attested env msg (Keeper.BondSeq s) e)
          (lockBond (MsgAttestEscrow.Creator msg) acc (MsgAttestEscrow.StakeAmount msg)
             (attestationPurpose (MsgAttestEscrow.EscrowId msg)) []
             (FormatUint (MsgAttestEscrow.EscrowId msg)) s))"
proof -
  have id: "Escrow.Id e = i" if "kv_get (Keeper.Escrow s) i = Some e" for i e
    using core_inv_escrow [OF assms(2) that] by simp
  show ?thesis
    using assms(1)
    by (simp add: AttestEscrow_def Let_def id not_less lockBond_def activeBond_def attested_def verdict_def
        list_ex_iff image_iff split: option.splits if_splits prod.splits) (metis (no_types))+
qed

interpretation attest_escrow: moving_handler AttestEscrow
proof unfold_locales
  fix env m s r s'
  assume run: "AttestEscrow env m s = (Inr r, s')" and inv: "core_inv s"
  let ?i = "MsgAttestEscrow.EscrowId m"
  obtain e acc n ats where e: "kv_get (Keeper.Escrow s) ?i = Some e" "Escrow.Status e = EscrowStatusSubmitted"
    and new: "MsgAttestEscrow.Creator m \<in> set (Escrow.VerifierAddrs e)"
      "MsgAttestEscrow.Creator m \<notin> Attestation.Verifier ` set (Escrow.Attestations e)"
    and cover: "Escrow.Amount e \<le> MsgAttestEscrow.StakeAmount m"
    and acc: "getRegistered s (MsgAttestEscrow.Creator m) = Some acc" "MsgAttestEscrow.StakeAmount m \<le> Account.Balance acc"
    and s': "s' = emit n ats (setEscrow ?i (attested env m (Keeper.BondSeq s) e)
          (lockBond (MsgAttestEscrow.Creator m) acc (MsgAttestEscrow.StakeAmount m) (attestationPurpose ?i) []
             (FormatUint ?i) s))"
    using AttestEscrow_success [OF run inv] by blast
  note st = escrow_step_attested [OF e(2) new]
  let ?s1 = "lockBond (MsgAttestEscrow.Creator m) acc (MsgAttestEscrow.StakeAmount m) (attestationPurpose ?i) []
             (FormatUint ?i) s"
  have held: "heldEscrow (attested env m (Keeper.BondSeq s) e) = heldEscrow e"
    using e(2) by (simp add: heldEscrow_def unsettled_def)
  show "core_inv s' \<and> total_supply s' = total_supply s \<and> Keeper.EmissionState s' = Keeper.EmissionState s"
    if "ids_free s"
  proof -
    have "Keeper.BondSeq s \<noteq> - 1" using that by (simp add: ids_free_def)
    note lock = lockBond_ok [OF acc inv this]
    have "kv_get (Keeper.Escrow ?s1) ?i = Some e" using e by simp
    from rewriteEscrow_ok(1,2) [OF this lock(1) st held] lock(2) show ?thesis by (simp add: s')
  qed
  have "attestations_backed s s'"
    using e(1) cover by (auto simp: attestations_backed_def s' verdict_def backed_def split: if_splits)
  then show "lifecycle s s' \<and> seqs_step s s'"
    using inv e(1) st
    by (simp add: s' lifecycle_def seqs_step_def table_step_refl table_step_fresh_bond table_step_escrow)
qed

lemma VerifiedRelease_success:
  assumes "VerifiedRelease env msg s = (Inr r, s')" and "core_inv s"
  shows "\<exists>e pb s1. kv_get (Keeper.Escrow s) (MsgVerifiedRelease.EscrowId msg) = Some e
     \<and> Escrow.VerifierAddrs e \<noteq> [] \<and> Escrow.Status e = EscrowStatusSubmitted
     \<and> Escrow.VerifierQuorum e \<le> countPasses env e 0 (Escrow.Attestations e)
     \<and> keyMismatch env (MsgVerifiedRelease.Key msg) e = None
     \<and> creditAccount env (Escrow.Payee e) pb (Escrow.Amount e) s = (Inr (), s1)
     \<and> s' = emit ''agntcoin_escrow_verified_release''
          [(''id'', FormatUint (MsgVerifiedRelease.EscrowId msg)), (''payer'', Escrow.Payer e),
           (''payee'', Escrow.Payee e), (''amount'', FormatUint (Escrow.Amount e)), (''ref'', Escrow.Ref e),
           (''key'', MsgVerifiedRelease.Key msg),
           (''pass_attestations'', FormatUint (countPasses env e 0 (Escrow.Attestations e))),
           (''challenge_deadline'', FormatInt (BlockTime env + ChallengeWindowSeconds))]
          (setEscrow (MsgVerifiedRelease.EscrowId msg)
            (e\<lparr>Escrow.Status := EscrowStatusReleased, Escrow.ReleasedAt := BlockTime env,
               Escrow.ChallengeDeadline := BlockTime env + ChallengeWindowSeconds\<rparr>) s1)"
proof -
  have id: "Escrow.Id e = i" if "kv_get (Keeper.Escrow s) i = Some e" for i e
    using core_inv_escrow [OF assms(2) that] by simp
  show ?thesis
    using assms(1)
    by (simp add: VerifiedRelease_def Let_def id not_less split: option.splits if_splits sum.splits prod.splits) blast
qed

interpretation verified_release: moving_handler VerifiedRelease
proof unfold_locales
  fix env m s r s'
  assume run: "VerifiedRelease env m s = (Inr r, s')" and inv: "core_inv s"
  let ?upd = "\<lambda>e. e\<lparr>Escrow.Status := EscrowStatusReleased, Escrow.ReleasedAt := BlockTime env,
      Escrow.ChallengeDeadline := BlockTime env + ChallengeWindowSeconds\<rparr>"
  obtain e pb s1 n ats where e: "kv_get (Keeper.Escrow s) (MsgVerifiedRelease.EscrowId m) = Some e"
      "Escrow.Status e = EscrowStatusSubmitted"
    and cr: "creditAccount env (Escrow.Payee e) pb (Escrow.Amount e) s = (Inr (), s1)"
    and s': "s' = emit n ats (setEscrow (MsgVerifiedRelease.EscrowId m) (?upd e) s1)"
    using VerifiedRelease_success [OF run inv] by blast
  have st: "escrow_step e (?upd e)" "Escrow.Attestations (?upd e) = Escrow.Attestations e"
    and un: "unsettled e" "\<not> unsettled (?upd e)"
    using e by (simp_all add: escrow_step_def same_terms_def same_delivery_def)
  show "core_inv s' \<and> total_supply s' = total_supply s \<and> Keeper.EmissionState s' = Keeper.EmissionState s"
    if "total_supply s < 2 ^ 64"
    using settleEscrow_ok [OF e(1) inv that cr st un] creditAccount_frame [OF cr] by (simp add: s')
  show "lifecycle s s' \<and> seqs_step s s'"
    using creditAccount_frame [OF cr] lifecycle_setEscrow [OF e(1) st, of s'] by (simp add: s' seqs_step_def)
qed

interpretation reclaim_loop: stake_loop "reclaimBonds escrow purpose" Attestation.BondId purpose
    "\<lambda>a b. Bond.Poster b" "\<lambda>_. BondStatusReleased" for escrow purpose
  by unfold_locales (auto simp: live_def split: option.splits if_splits, blast)

lemma ReclaimAttestationBonds_success:
  assumes "ReclaimAttestationBonds env msg s = (Inr r, s')" and "core_inv s"
  shows "\<exists>e. kv_get (Keeper.Escrow s) (MsgReclaimAttestationBonds.EscrowId msg) = Some e
     \<and> Escrow.Attestations e \<noteq> []
     \<and> Escrow.Status e \<in> {EscrowStatusReleased, EscrowStatusRefunded, EscrowStatusFailAttested}
     \<and> (Escrow.ChallengeDeadline e <=s 0 \<or> Escrow.ChallengeDeadline e <=s BlockTime env)
     \<and> reclaimBonds e (attestationPurpose (MsgReclaimAttestationBonds.EscrowId msg)) (Escrow.Attestations e) s = (Inr r, s')"
proof -
  have id: "Escrow.Id e = i" if "kv_get (Keeper.Escrow s) i = Some e" for i e
    using core_inv_escrow [OF assms(2) that] by simp
  show ?thesis
    using assms(1)
    by (auto simp: ReclaimAttestationBonds_def id i64_less_iff i64_le_iff split: option.splits if_splits)
qed

interpretation reclaim: moving_handler ReclaimAttestationBonds
proof unfold_locales
  fix env m s r s'
  assume run: "ReclaimAttestationBonds env m s = (Inr r, s')" and inv: "core_inv s" and room: "total_supply s < 2 ^ 64"
  have only: "only_bonds s s'"
    using ReclaimAttestationBonds_success [OF run inv] reclaim_loop.only [OF _ inv room] by blast
  then show "core_inv s' \<and> total_supply s' = total_supply s \<and> Keeper.EmissionState s' = Keeper.EmissionState s"
    using inv room by (simp add: only_bonds_def)
  show "lifecycle s s' \<and> seqs_step s s'" using only by (rule only_bonds_lifecycle)
qed

section \<open>Well-formed escrows\<close>

text \<open>
  What holds of every stored escrow: the verdicts come from different members of the
  verifier set, restate the escrow's commitments, and there are none before delivery.
\<close>

definition escrow_wf :: "Escrow \<Rightarrow> bool" where
  "escrow_wf e \<longleftrightarrow> distinct (map Attestation.Verifier (Escrow.Attestations e))
     \<and> Attestation.Verifier ` set (Escrow.Attestations e) \<subseteq> set (Escrow.VerifierAddrs e)
     \<and> (\<forall>a \<in> set (Escrow.Attestations e). Attestation.DeliveryHash a = Escrow.DeliveryHash e
          \<and> Attestation.KeyHash a = Escrow.KeyHash e \<and> Attestation.AcceptanceHash a = Escrow.AcceptanceHash e)
     \<and> (Escrow.Status e = EscrowStatusLocked \<longrightarrow> Escrow.Attestations e = [])"

lemma escrow_wf_born: "born_escrow e \<Longrightarrow> escrow_wf e"
  by (simp add: born_escrow_def escrow_wf_def)

lemma escrow_wf_step:
  assumes "escrow_step e e'" and "escrow_wf e"
  shows "escrow_wf e'"
proof (cases "Escrow.Status e = EscrowStatusLocked")
  case True
  then show ?thesis using assms by (auto simp: escrow_step_def escrow_wf_def)
next
  case False
  then have st: "Escrow.Status e' \<noteq> EscrowStatusLocked"
    and pins: "Escrow.DeliveryHash e' = Escrow.DeliveryHash e" "Escrow.KeyHash e' = Escrow.KeyHash e"
      "Escrow.AcceptanceHash e' = Escrow.AcceptanceHash e" "Escrow.VerifierAddrs e' = Escrow.VerifierAddrs e"
    using assms(1) by (auto simp: escrow_step_def same_terms_def same_delivery_def)
  consider "Escrow.Attestations e' = Escrow.Attestations e"
    | a where "Escrow.Attestations e' = Escrow.Attestations e @ [a]"
        "Attestation.Verifier a \<in> set (Escrow.VerifierAddrs e)"
        "Attestation.Verifier a \<notin> Attestation.Verifier ` set (Escrow.Attestations e)"
        "Attestation.DeliveryHash a = Escrow.DeliveryHash e" "Attestation.KeyHash a = Escrow.KeyHash e"
        "Attestation.AcceptanceHash a = Escrow.AcceptanceHash e"
    using assms(1) unfolding escrow_step_def by blast
  then show ?thesis
    by cases (use assms(2) st pins in \<open>simp_all add: escrow_wf_def\<close>)
qed

definition escrows_wf :: "Keeper \<Rightarrow> bool" where
  "escrows_wf s \<longleftrightarrow> (\<forall>i e. kv_get (Keeper.Escrow s) i = Some e \<longrightarrow> escrow_wf e)"

lemma escrows_wf_lifecycle: "lifecycle s s' \<Longrightarrow> escrows_wf s \<Longrightarrow> escrows_wf s'"
  unfolding escrows_wf_def lifecycle_def
  by (blast dest: table_step_cases intro: escrow_wf_step escrow_wf_born)

section \<open>Counting verdicts\<close>

lemma countPasses_eq:
  "countPasses env e n as1 = n + word_of_nat (length (filter (countsAsPass env e) as1))"
  by (induction as1 arbitrary: n) (simp_all add: ac_simps)

lemma countPasses_le: "unat (countPasses env e 0 as1) \<le> length (filter (countsAsPass env e) as1)"
  by (simp add: countPasses_eq unat_of_nat)

lemma passing_verifiers:
  assumes "escrow_wf e" and "q \<le> countPasses env e 0 (Escrow.Attestations e)"
  shows "unat q \<le> card {v \<in> set (Escrow.VerifierAddrs e).
     \<exists>a \<in> set (Escrow.Attestations e). Attestation.Verifier a = v \<and> Attestation.Passed a}"
proof -
  let ?ps = "filter (countsAsPass env e) (Escrow.Attestations e)"
  have "distinct (map Attestation.Verifier ?ps)"
    using assms(1) by (simp add: escrow_wf_def distinct_map_filter)
  then have "length ?ps = card (Attestation.Verifier ` set ?ps)"
    by (metis distinct_card length_map list.set_map)
  also have "\<dots> \<le> card {v \<in> set (Escrow.VerifierAddrs e).
     \<exists>a \<in> set (Escrow.Attestations e). Attestation.Verifier a = v \<and> Attestation.Passed a}"
    using assms(1) by (intro card_mono) (auto simp: escrow_wf_def countsAsPass_def)
  finally show ?thesis
    using assms(2) countPasses_le [of env e "Escrow.Attestations e"] by (simp add: u64_le_iff)
qed

section \<open>A verifier-bound deal on the sample chain\<close>

definition sampleKeyHash :: string where
  "sampleKeyHash = hex_EncodeToString (take 32 (''k'' @ replicate 32 (CHR 0x00)))"

lemma sampleKeyHash_ok [simp]: "isHexSHA256 sampleKeyHash" "sampleKeyHash \<noteq> []"
proof -
  show "isHexSHA256 sampleKeyHash" unfolding sampleKeyHash_def by (rule isHexSHA256_hex_Encode) simp
  then show "sampleKeyHash \<noteq> []" by (rule isHexSHA256_nonempty)
qed

definition boundLock :: MsgLockEscrow where
  "boundLock = sampleLock\<lparr>MsgLockEscrow.VerifierAddrs := [''carol''], MsgLockEscrow.VerifierQuorum := 1,
     MsgLockEscrow.AcceptanceHash := hex64\<rparr>"

lemma boundLock_simps [simp]:
  "MsgLockEscrow.Creator boundLock = ''alice''" "MsgLockEscrow.Payee boundLock = ''bob''"
  "MsgLockEscrow.Amount boundLock = 300" "MsgLockEscrow.DisputeSeconds boundLock = 1000"
  "MsgLockEscrow.VerifierAddrs boundLock = [''carol'']" "MsgLockEscrow.VerifierQuorum boundLock = 1"
  "MsgLockEscrow.AcceptanceHash boundLock = hex64"
  by (simp_all add: boundLock_def)

definition deal0 :: Keeper where
  "deal0 = snd (LockEscrow (sampleEnv 100) boundLock sampleState)"

lemma deal0_run: "LockEscrow (sampleEnv 100) boundLock sampleState = (Inr 0, deal0)"
  by (simp add: deal0_def LockEscrow_def checkVerifierTerms_def getRegistered_def ensureRegistered_def Let_def)

lemma deal0_inv [simp]: "core_inv deal0" "total_supply deal0 = 6000"
  using lock_escrow.effect [OF deal0_run] by simp_all

lemma deal0_escrow [simp]:
  "kv_get (Keeper.Escrow deal0) i =
     (if i = 0 then Some (lockedEscrow (sampleEnv 100) boundLock 0 True) else None)"
  by (simp add: deal0_def LockEscrow_def checkVerifierTerms_def getRegistered_def ensureRegistered_def Let_def
      lockedEscrow_def)

lemma deal0_account [simp]:
  "kv_get (Keeper.Account deal0) a =
     (if a = ''alice'' then Some (funded ''alice'' 700) else kv_get (Keeper.Account sampleState) a)"
  by (simp add: deal0_def LockEscrow_def checkVerifierTerms_def getRegistered_def ensureRegistered_def Let_def)

lemma deal0_bonds [simp]: "Keeper.Bond deal0 = kv_empty" "Keeper.BondSeq deal0 = 0"
  "Keeper.Dispute deal0 = kv_empty" "Keeper.DisputeSeq deal0 = 0"
  "Keeper.Params deal0 = Keeper.Params sampleState"
  by (simp_all add: deal0_def LockEscrow_def checkVerifierTerms_def getRegistered_def ensureRegistered_def Let_def)

lemma deal0_free [simp]: "ids_free deal0"
  by (simp add: ids_free_def deal0_def LockEscrow_def checkVerifierTerms_def getRegistered_def
      ensureRegistered_def Let_def)

definition dealSubmit :: MsgSubmitEscrow where
  "dealSubmit = \<lparr>MsgSubmitEscrow.Creator = ''bob'', MsgSubmitEscrow.Id = 0, MsgSubmitEscrow.DeliveryHash = hex64,
     MsgSubmitEscrow.KeyHash = sampleKeyHash, MsgSubmitEscrow.ArtifactUri = ''ipfs''\<rparr>"

definition deliveredEscrow :: Escrow where
  "deliveredEscrow = (lockedEscrow (sampleEnv 100) boundLock 0 True)\<lparr>Escrow.Status := EscrowStatusSubmitted,
     Escrow.DeliveryHash := hex64, Escrow.KeyHash := sampleKeyHash, Escrow.ArtifactUri := ''ipfs'',
     Escrow.SubmittedAt := 200\<rparr>"

lemma deliveredEscrow_simps [simp]:
  "Escrow.Id deliveredEscrow = 0" "Escrow.Payer deliveredEscrow = ''alice''" "Escrow.Payee deliveredEscrow = ''bob''"
  "Escrow.Amount deliveredEscrow = 300" "Escrow.Status deliveredEscrow = EscrowStatusSubmitted"
  "Escrow.VerifierAddrs deliveredEscrow = [''carol'']" "Escrow.VerifierQuorum deliveredEscrow = 1"
  "Escrow.DeliveryHash deliveredEscrow = hex64" "Escrow.KeyHash deliveredEscrow = sampleKeyHash"
  "Escrow.AcceptanceHash deliveredEscrow = hex64" "Escrow.Attestations deliveredEscrow = []"
  by (simp_all add: deliveredEscrow_def)

definition deal1 :: Keeper where
  "deal1 = snd (SubmitEscrow (sampleEnv 200) dealSubmit deal0)"

lemma deal1_run: "SubmitEscrow (sampleEnv 200) dealSubmit deal0 = (Inr (), deal1)"
  by (simp add: deal1_def SubmitEscrow_def dealSubmit_def Let_def)

lemma deal1_inv [simp]: "core_inv deal1" "total_supply deal1 = 6000"
  using submit_escrow.effect [OF deal1_run] by simp_all

lemma deal1_escrow [simp]:
  "kv_get (Keeper.Escrow deal1) i = (if i = 0 then Some deliveredEscrow else None)"
  by (simp add: deal1_def SubmitEscrow_def dealSubmit_def deliveredEscrow_def Let_def)

lemma deal1_other [simp]: "Keeper.Account deal1 = Keeper.Account deal0" "Keeper.Bond deal1 = kv_empty"
  "Keeper.BondSeq deal1 = 0" "Keeper.Dispute deal1 = kv_empty" "Keeper.DisputeSeq deal1 = 0"
  "Keeper.Params deal1 = Keeper.Params sampleState"
  by (simp_all add: deal1_def SubmitEscrow_def dealSubmit_def Let_def)

lemma deal1_free [simp]: "ids_free deal1"
  by (simp add: ids_free_def deal1_def SubmitEscrow_def dealSubmit_def deal0_def LockEscrow_def
      checkVerifierTerms_def getRegistered_def ensureRegistered_def Let_def)

definition dealAttest :: "bool \<Rightarrow> MsgAttestEscrow" where
  "dealAttest pass = \<lparr>MsgAttestEscrow.Creator = ''carol'', MsgAttestEscrow.EscrowId = 0, MsgAttestEscrow.Passed = pass,
     MsgAttestEscrow.StakeAmount = 400, MsgAttestEscrow.DeliveryHash = hex64, MsgAttestEscrow.KeyHash = sampleKeyHash,
     MsgAttestEscrow.AcceptanceHash = hex64\<rparr>"

lemma dealAttest_simps [simp]:
  "MsgAttestEscrow.Creator (dealAttest p) = ''carol''" "MsgAttestEscrow.EscrowId (dealAttest p) = 0"
  "MsgAttestEscrow.Passed (dealAttest p) = p" "MsgAttestEscrow.StakeAmount (dealAttest p) = 400"
  "MsgAttestEscrow.DeliveryHash (dealAttest p) = hex64" "MsgAttestEscrow.KeyHash (dealAttest p) = sampleKeyHash"
  "MsgAttestEscrow.AcceptanceHash (dealAttest p) = hex64"
  by (simp_all add: dealAttest_def)

definition deal2 :: "bool \<Rightarrow> Keeper" where
  "deal2 p = snd (AttestEscrow (sampleEnv 300) (dealAttest p) deal1)"

lemma deal2_run: "AttestEscrow (sampleEnv 300) (dealAttest p) deal1 = (Inr 0, deal2 p)"
  by (simp add: deal2_def AttestEscrow_def getRegistered_def Let_def)

lemma deal2_inv [simp]: "core_inv (deal2 p)" "total_supply (deal2 p) = 6000"
  using attest_escrow.effect [OF deal2_run] by simp_all

definition dealEscrow :: "bool \<Rightarrow> Escrow" where
  "dealEscrow p = attested (sampleEnv 300) (dealAttest p) 0 deliveredEscrow"

lemma deal2_escrow [simp]:
  "kv_get (Keeper.Escrow (deal2 p)) i = (if i = 0 then Some (dealEscrow p) else None)"
  by (simp add: deal2_def AttestEscrow_def getRegistered_def Let_def dealEscrow_def attested_def verdict_def)

lemma deal2_other [simp]:
  "kv_get (Keeper.Account (deal2 p)) a =
     (if a = ''carol'' then Some (funded ''carol'' 600) else kv_get (Keeper.Account deal0) a)"
  "kv_get (Keeper.Bond (deal2 p)) i =
     (if i = 0 then Some (activeBond 0 ''carol'' 400 (attestationPurpose 0) [] (FormatUint 0)) else None)"
  "Keeper.BondSeq (deal2 p) = 1" "Keeper.Dispute (deal2 p) = kv_empty" "Keeper.DisputeSeq (deal2 p) = 0"
  "Keeper.Params (deal2 p) = Keeper.Params sampleState"
  by (simp_all add: deal2_def AttestEscrow_def getRegistered_def Let_def activeBond_def)

lemma deal2_wf [simp]: "escrows_wf (deal2 p)"
  by (simp add: escrows_wf_def escrow_wf_def dealEscrow_def verdict_def)

definition deal3 :: Keeper where
  "deal3 = snd (VerifiedRelease (sampleEnv 400)
     \<lparr>MsgVerifiedRelease.Creator = ''dave'', MsgVerifiedRelease.EscrowId = 0, MsgVerifiedRelease.Key = ''k''\<rparr> (deal2 True))"

lemma deal3_run: "VerifiedRelease (sampleEnv 400)
     \<lparr>MsgVerifiedRelease.Creator = ''dave'', MsgVerifiedRelease.EscrowId = 0, MsgVerifiedRelease.Key = ''k''\<rparr> (deal2 True)
     = (Inr (), deal3)"
proof -
  have "hex_EncodeToString (Sha256 (sampleEnv 400) ''k'') = sampleKeyHash" by (simp add: sampleKeyHash_def)
  then have "keyMismatch (sampleEnv 400) ''k'' (dealEscrow True) = None"
    unfolding keyMismatch_def by (simp only:) (simp add: dealEscrow_def)
  moreover have "countPasses (sampleEnv 400) (dealEscrow True) 0 (Escrow.Attestations (dealEscrow True)) = 1"
    by (simp add: dealEscrow_def countsAsPass_def verdict_def)
  ultimately show ?thesis
    by (simp add: deal3_def VerifiedRelease_def Let_def creditAccount_cases checkNewAccountCredit_def)
      (simp add: dealEscrow_def)
qed

section \<open>Properties\<close>

text \<open>
  C15: Verified release is backed by a quorum and reveals the key. Whenever
  \<open>VerifiedRelease\<close> succeeds, the escrow was submitted and verifier-bound; at least
  \<open>VerifierQuorum\<close> different members of its verifier set have passed it; if a key hash was
  committed, the key in the message hashes to it; the payee is paid the full amount and no
  other balance changes; the same state transition publishes the key in its event, and it
  opens the payer's challenge window.
\<close>

theorem verified_release_sound:
  assumes "VerifiedRelease env msg s = (Inr r, s')" and "core_inv s" and "total_supply s < 2 ^ 64"
    and "escrows_wf s"
  shows "\<exists>e. kv_get (Keeper.Escrow s) (MsgVerifiedRelease.EscrowId msg) = Some e
     \<and> Escrow.Status e = EscrowStatusSubmitted \<and> Escrow.VerifierAddrs e \<noteq> []
     \<and> unat (Escrow.VerifierQuorum e) \<le> card {v \<in> set (Escrow.VerifierAddrs e).
          \<exists>a \<in> set (Escrow.Attestations e). Attestation.Verifier a = v \<and> Attestation.Passed a}
     \<and> (if Escrow.KeyHash e = [] then MsgVerifiedRelease.Key msg = []
        else EqualFold (FoldUnicode env) (hex_EncodeToString (Sha256 env (MsgVerifiedRelease.Key msg))) (Escrow.KeyHash e))
     \<and> (\<forall>a. balance s' a = balance s a + (if a = Escrow.Payee e then unat (Escrow.Amount e) else 0))
     \<and> (\<exists>ats. last (Keeper.Events s') = NewEvent ''agntcoin_escrow_verified_release'' ats
          \<and> (''key'', MsgVerifiedRelease.Key msg) \<in> set ats)
     \<and> (\<exists>e'. kv_get (Keeper.Escrow s') (MsgVerifiedRelease.EscrowId msg) = Some e'
          \<and> Escrow.Status e' = EscrowStatusReleased
          \<and> Escrow.ChallengeDeadline e' = BlockTime env + ChallengeWindowSeconds)"
proof -
  let ?i = "MsgVerifiedRelease.EscrowId msg"
  let ?upd = "\<lambda>e. e\<lparr>Escrow.Status := EscrowStatusReleased, Escrow.ReleasedAt := BlockTime env,
      Escrow.ChallengeDeadline := BlockTime env + ChallengeWindowSeconds\<rparr>"
  obtain e pb s1 ats where e: "kv_get (Keeper.Escrow s) ?i = Some e" "Escrow.Status e = EscrowStatusSubmitted"
    and vs: "Escrow.VerifierAddrs e \<noteq> []"
    and q: "Escrow.VerifierQuorum e \<le> countPasses env e 0 (Escrow.Attestations e)"
    and key: "keyMismatch env (MsgVerifiedRelease.Key msg) e = None"
    and cr: "creditAccount env (Escrow.Payee e) pb (Escrow.Amount e) s = (Inr (), s1)"
    and s': "s' = emit ''agntcoin_escrow_verified_release'' ats (setEscrow ?i (?upd e) s1)"
    and ats: "(''key'', MsgVerifiedRelease.Key msg) \<in> set ats"
    using VerifiedRelease_success [OF assms(1,2)] by fastforce
  have fit: "balance s (Escrow.Payee e) + unat (Escrow.Amount e) < 2 ^ 64"
    using held_escrow_le [OF e(1), of "Escrow.Payee e"] e(2) assms(3) by (simp add: heldEscrow_def)
  have "escrow_wf e" using assms(4) e(1) by (simp add: escrows_wf_def)
  note quorum = passing_verifiers [OF this q]
  have "if Escrow.KeyHash e = [] then MsgVerifiedRelease.Key msg = []
        else EqualFold (FoldUnicode env) (hex_EncodeToString (Sha256 env (MsgVerifiedRelease.Key msg))) (Escrow.KeyHash e)"
    using key by (simp add: keyMismatch_def split: if_splits)
  moreover have "\<forall>a. balance s' a = balance s a + (if a = Escrow.Payee e then unat (Escrow.Amount e) else 0)"
    using creditAccount_ok(3) [OF cr assms(2) fit] by (simp add: s')
  moreover have "last (Keeper.Events s') = NewEvent ''agntcoin_escrow_verified_release'' ats"
    by (simp add: s' emit_def)
  ultimately show ?thesis
    using e vs quorum ats by (intro exI [of _ e]) (auto simp: s')
qed

lemma verified_release_sound_witness:
  "balance deal3 ''bob'' = 1300"
  using verified_release_sound [OF deal3_run] by (auto simp: dealEscrow_def balance_def)

text \<open>
  A verdict is staked, once. A successful \<open>AttestEscrow\<close> comes from a named verifier
  with no earlier verdict on the escrow; it takes the stake, at least the escrow amount, out
  of the verifier's balance into a bond that belongs to the protocol; and the same verifier
  can never attest this escrow again.
\<close>

theorem attestation_staked_once:
  assumes "AttestEscrow env msg s = (Inr i, s')" and "core_inv s"
  shows "\<exists>e e'. kv_get (Keeper.Escrow s) (MsgAttestEscrow.EscrowId msg) = Some e
     \<and> kv_get (Keeper.Escrow s') (MsgAttestEscrow.EscrowId msg) = Some e'
     \<and> MsgAttestEscrow.Creator msg \<in> set (Escrow.VerifierAddrs e)
     \<and> MsgAttestEscrow.Creator msg \<notin> Attestation.Verifier ` set (Escrow.Attestations e)
     \<and> MsgAttestEscrow.Creator msg \<in> Attestation.Verifier ` set (Escrow.Attestations e')
     \<and> kv_get (Keeper.Bond s') i = Some (activeBond i (MsgAttestEscrow.Creator msg) (MsgAttestEscrow.StakeAmount msg)
          (attestationPurpose (MsgAttestEscrow.EscrowId msg)) [] (FormatUint (MsgAttestEscrow.EscrowId msg)))
     \<and> Escrow.Amount e \<le> MsgAttestEscrow.StakeAmount msg
     \<and> balance s' (MsgAttestEscrow.Creator msg) + unat (MsgAttestEscrow.StakeAmount msg)
         = balance s (MsgAttestEscrow.Creator msg)
     \<and> (\<forall>env' msg'. MsgAttestEscrow.Creator msg' = MsgAttestEscrow.Creator msg \<longrightarrow>
          MsgAttestEscrow.EscrowId msg' = MsgAttestEscrow.EscrowId msg \<longrightarrow>
          (\<exists>err. AttestEscrow env' msg' s' = (Inl err, s')))"
proof -
  let ?c = "MsgAttestEscrow.Creator msg" and ?k = "MsgAttestEscrow.EscrowId msg"
  obtain e acc n ats where e: "kv_get (Keeper.Escrow s) ?k = Some e"
    and new: "?c \<in> set (Escrow.VerifierAddrs e)" "?c \<notin> Attestation.Verifier ` set (Escrow.Attestations e)"
    and cover: "Escrow.Amount e \<le> MsgAttestEscrow.StakeAmount msg"
    and acc: "getRegistered s ?c = Some acc" "MsgAttestEscrow.StakeAmount msg \<le> Account.Balance acc"
    and i: "i = Keeper.BondSeq s"
    and s': "s' = emit n ats (setEscrow ?k (attested env msg (Keeper.BondSeq s) e)
          (lockBond ?c acc (MsgAttestEscrow.StakeAmount msg) (attestationPurpose ?k) [] (FormatUint ?k) s))"
    using AttestEscrow_success [OF assms] by blast
  have e': "kv_get (Keeper.Escrow s') ?k = Some (attested env msg (Keeper.BondSeq s) e)" by (simp add: s')
  have in': "?c \<in> Attestation.Verifier ` set (Escrow.Attestations (attested env msg (Keeper.BondSeq s) e))"
    by (simp add: verdict_def)
  have again: "\<exists>err. AttestEscrow env' msg' s' = (Inl err, s')"
    if "MsgAttestEscrow.Creator msg' = ?c" "MsgAttestEscrow.EscrowId msg' = ?k" for env' msg'
    using e' in' that by (auto simp: AttestEscrow_def list_ex_iff image_iff split: option.splits)
  have "balance s' ?c + unat (MsgAttestEscrow.StakeAmount msg) = balance s ?c"
    using acc by (simp add: s' lockBond_def unat_sub_no_wrap balance_registered [OF acc(1)] u64_le_iff)
  moreover have "kv_get (Keeper.Bond s') i = Some (activeBond i ?c (MsgAttestEscrow.StakeAmount msg)
          (attestationPurpose ?k) [] (FormatUint ?k))"
    by (simp add: s' i)
  ultimately show ?thesis using e e' new in' cover again by blast
qed

lemma attestation_staked_once_witness:
  "balance (deal2 True) ''carol'' + 400 = 1000
     \<and> (\<exists>err. AttestEscrow (sampleEnv 350) (dealAttest False) (deal2 True) = (Inl err, deal2 True))"
  using attestation_staked_once [OF deal2_run [of True]] by (auto simp: balance_def)

text \<open>
  C16: A fail verdict never refunds at once. After a successful fail attestation the escrow
  is not released by the verdict and cannot be refunded by anybody in any block before the
  end of the payee's contest window of 72 hours.
\<close>

theorem fail_verdict_waits:
  assumes "AttestEscrow env msg s = (Inr i, s')" and "core_inv s" and "\<not> MsgAttestEscrow.Passed msg"
    and "BlockTime env' <s BlockTime env + ChallengeWindowSeconds"
    and "MsgRefundEscrow.Id m = MsgAttestEscrow.EscrowId msg"
  shows "\<exists>err. RefundEscrow env' m s' = (Inl err, s')"
proof -
  obtain e acc n ats where
    s': "s' = emit n ats (setEscrow (MsgAttestEscrow.EscrowId msg) (attested env msg (Keeper.BondSeq s) e)
          (lockBond (MsgAttestEscrow.Creator msg) acc (MsgAttestEscrow.StakeAmount msg)
             (attestationPurpose (MsgAttestEscrow.EscrowId msg)) [] (FormatUint (MsgAttestEscrow.EscrowId msg)) s))"
    using AttestEscrow_success [OF assms(1,2)] by blast
  have "Escrow.ChallengeDeadline (attested env msg (Keeper.BondSeq s) e) = BlockTime env + ChallengeWindowSeconds"
    using assms(3) by (simp add: attested_def Let_def)
  then show ?thesis
    using assms(3,4,5) by (simp add: RefundEscrow_def refundDenied_def s' Let_def split: option.splits)
qed

lemma fail_verdict_waits_witness:
  "\<exists>err. RefundEscrow (sampleEnv 200000) \<lparr>MsgRefundEscrow.Creator = ''alice'', MsgRefundEscrow.Id = 0\<rparr> (deal2 False)
     = (Inl err, deal2 False)"
  using fail_verdict_waits [OF deal2_run [of False]] by (simp add: i64_less_iff ChallengeWindowSeconds_def)

lemma settleBond_auth: "settleBond a b s = (r, s') \<Longrightarrow> Keeper.AuthAccounts s' = Keeper.AuthAccounts s"
  by (auto simp: settleBond_def split: option.splits)

lemma reclaimBonds_auth:
  "reclaimBonds e p xs s = (r, s') \<Longrightarrow> Keeper.AuthAccounts s' = Keeper.AuthAccounts s"
  by (induction xs arbitrary: s) (auto simp: settleBond_auth split: option.splits if_splits prod.splits sum.splits)

text \<open>
  C17: Reclaiming is complete and idempotent. A successful \<open>ReclaimAttestationBonds\<close> leaves no
  stake of the escrow's verdicts active, writes to no table but those of the accounts and the bonds, makes
  and loses no coin, and running it again in the same block changes nothing. When the verdicts have
  different bonds, every active stake is paid back once, to the account that posted it,
  and no other balance changes.
\<close>

theorem reclaim_complete_and_idempotent:
  assumes "ReclaimAttestationBonds env msg s = (Inr r, s')" and "core_inv s" and "total_supply s < 2 ^ 64"
  shows "\<exists>e. kv_get (Keeper.Escrow s) (MsgReclaimAttestationBonds.EscrowId msg) = Some e
     \<and> (\<forall>a \<in> set (Escrow.Attestations e).
          live s' (Attestation.BondId a) (attestationPurpose (MsgReclaimAttestationBonds.EscrowId msg)) = None)
     \<and> s' = s\<lparr>Keeper.Account := Keeper.Account s', Keeper.Bond := Keeper.Bond s', Keeper.Events := Keeper.Events s'\<rparr>
     \<and> Keeper.Escrow s' = Keeper.Escrow s \<and> total_supply s' = total_supply s
     \<and> (distinct (map Attestation.BondId (Escrow.Attestations e)) \<longrightarrow> (\<forall>c. balance s' c = balance s c
          + (\<Sum>a\<leftarrow>Escrow.Attestations e.
               case live s (Attestation.BondId a) (attestationPurpose (MsgReclaimAttestationBonds.EscrowId msg)) of
                 None \<Rightarrow> 0
               | Some b \<Rightarrow> if c = Bond.Poster b then unat (Bond.Amount b) else 0)))
     \<and> ReclaimAttestationBonds env msg s' = (Inr (), s')"
proof -
  let ?i = "MsgReclaimAttestationBonds.EscrowId msg"
  obtain e where e: "kv_get (Keeper.Escrow s) ?i = Some e"
    and loop: "reclaimBonds e (attestationPurpose ?i) (Escrow.Attestations e) s = (Inr r, s')"
    using ReclaimAttestationBonds_success [OF assms(1,2)] by blast
  note only = reclaim_loop.only [OF loop assms(2,3)]
  have gone: "\<forall>a \<in> set (Escrow.Attestations e). live s' (Attestation.BondId a) (attestationPurpose ?i) = None"
    using reclaim_loop.settled [OF loop assms(2,3)] by blast
  have frame: "s' = s\<lparr>Keeper.Account := Keeper.Account s', Keeper.Bond := Keeper.Bond s', Keeper.Events := Keeper.Events s'\<rparr>"
    using only reclaimBonds_auth [OF loop] by (intro Keeper.equality) (simp_all add: only_bonds_def)
  have esc: "Keeper.Escrow s' = Keeper.Escrow s" using only by (simp add: only_bonds_def)
  have id: "Escrow.Id e = ?i" using core_inv_escrow [OF assms(2) e] by simp
  have again: "ReclaimAttestationBonds env msg s' = (Inr (), s')"
    using assms(1) reclaim_loop.noop [OF gone, of e]
    by (auto simp: ReclaimAttestationBonds_def e esc id split: option.splits if_splits)
  note paid = reclaim_loop.paid [OF loop assms(2,3), unfolded reclaim_loop.dues_def]
  have total: "total_supply s' = total_supply s" using only assms(2,3) by (simp add: only_bonds_def)
  show ?thesis
    using e gone frame esc total again paid by blast
qed

lemma reclaim_complete_and_idempotent_witness:
  "\<exists>s'. ReclaimAttestationBonds (sampleEnv 300000)
       \<lparr>MsgReclaimAttestationBonds.Creator = ''dave'', MsgReclaimAttestationBonds.EscrowId = 0\<rparr> (deal2 False) = (Inr (), s')
     \<and> ReclaimAttestationBonds (sampleEnv 300000)
       \<lparr>MsgReclaimAttestationBonds.Creator = ''dave'', MsgReclaimAttestationBonds.EscrowId = 0\<rparr> s' = (Inr (), s')"
proof -
  let ?m = "\<lparr>MsgReclaimAttestationBonds.Creator = ''dave'', MsgReclaimAttestationBonds.EscrowId = 0\<rparr>"
  have "Escrow.ChallengeDeadline (dealEscrow False) = 300 + ChallengeWindowSeconds"
    by (simp add: dealEscrow_def attested_def Let_def)
  then obtain s' where run: "ReclaimAttestationBonds (sampleEnv 300000) ?m (deal2 False) = (Inr (), s')"
    by (simp add: ReclaimAttestationBonds_def i64_less_iff ChallengeWindowSeconds_def)
      (simp add: dealEscrow_def verdict_def settleBond_def)
  show ?thesis
    using reclaim_complete_and_idempotent [OF run] run by auto
qed

end
