(* ===== verification/Jury.thy ===== *)
theory Jury
  imports Verifier
begin

text \<open>
  The jury: opening a dispute (\<^verbatim>\<open>msg_server_open_dispute.go\<close>), staked votes
  (\<^verbatim>\<open>msg_server_cast_vote.go\<close>) and the verdict, which settles the escrow, the dispute bond,
  the juror stakes and the verifiers' stakes (\<^verbatim>\<open>msg_server_resolve_dispute.go\<close>). The long body
  of \<open>ResolveDispute\<close> is cut into the four settlements it makes, in their order.
\<close>

section \<open>Opening\<close>

record MsgOpenDispute =
  Creator :: string
  EscrowId :: u64
  Reason :: string
  BondAmount :: u64

text \<open>The switch on the escrow status: an error, or the status the escrow is frozen in.\<close>

definition frozenStatusFor :: "Env \<Rightarrow> string \<Rightarrow> Escrow \<Rightarrow> go_error + string" where
  "frozenStatusFor env creator escrow =
    (let now = BlockTime env
     in if Escrow.Status escrow = EscrowStatusSubmitted \<or> Escrow.Status escrow = EscrowStatusDisputed then
          Inr EscrowStatusInJury
        else if Escrow.Status escrow = EscrowStatusFailAttested then
          (if creator \<noteq> Escrow.Payee escrow then
             Inl (ErrUnauthorized ''only the payee may contest a fail attestation'')
           else if Escrow.ChallengeDeadline escrow <=s now then
             Inl (ErrInvalidRequest ''the contest window has closed'')
           else Inr EscrowStatusInJury)
        else if Escrow.Status escrow = EscrowStatusReleased then
          (if creator \<noteq> Escrow.Payer escrow then
             Inl (ErrUnauthorized ''only the payer may challenge a verified release'')
           else if length (Escrow.Attestations escrow) = 0 \<or> Escrow.ChallengeDeadline escrow = 0 then
             Inl (ErrInvalidRequest ''released escrow has no challengeable attestations'')
           else if Escrow.ChallengeDeadline escrow <=s now then
             Inl (ErrInvalidRequest ''the challenge window has closed'')
           else Inr EscrowStatusChallenged)
        else Inl (ErrInvalidRequest (''escrow is not disputable (status='' @ Escrow.Status escrow @ '')'')))"

definition OpenDispute :: "Env \<Rightarrow> MsgOpenDispute \<Rightarrow> Keeper \<Rightarrow> u64 result" where
  "OpenDispute env msg s =
    (case StringToBytes env (MsgOpenDispute.Creator msg) of
       None \<Rightarrow> fail (ErrAddress ''invalid creator address'') s
     | Some _ \<Rightarrow>
    (case kv_get (Keeper.Escrow s) (MsgOpenDispute.EscrowId msg) of
       None \<Rightarrow> fail (ErrKeyNotFound ''escrow not found'') s
     | Some escrow \<Rightarrow>
    (if MsgOpenDispute.Creator msg \<noteq> Escrow.Payer escrow \<and> MsgOpenDispute.Creator msg \<noteq> Escrow.Payee escrow then
       fail (ErrUnauthorized ''only the escrow payer or payee may open a dispute'') s
     else
    (case frozenStatusFor env (MsgOpenDispute.Creator msg) escrow of
       Inl err \<Rightarrow> fail err s
     | Inr frozenStatus \<Rightarrow>
    (if MsgOpenDispute.BondAmount msg < MinDisputeBond then
       fail (ErrInvalidRequest (''opening a dispute requires a bond of at least '' @ FormatUint MinDisputeBond)) s
     else
    (case getRegistered s (MsgOpenDispute.Creator msg) of
       None \<Rightarrow> fail (ErrInvalidRequest ''opener not registered'') s
     | Some opener \<Rightarrow>
    (if Account.Balance opener < MsgOpenDispute.BondAmount msg then
       fail (ErrInsufficientFunds ''insufficient balance for dispute bond'') s
     else
    (let (i, s1) = nextDisputeID s;
         s2 = setAccount (MsgOpenDispute.Creator msg)
                (opener\<lparr>Account.Balance := Account.Balance opener - MsgOpenDispute.BondAmount msg\<rparr>) s1;
         (bondID, s3) = nextBondID s2;
         bond = \<lparr>Bond.Id = bondID, Bond.Poster = MsgOpenDispute.Creator msg,
                 Bond.Amount = MsgOpenDispute.BondAmount msg, Bond.Purpose = disputePurpose i,
                 Bond.Slasher = [], Bond.Status = BondStatusActive,
                 Bond.Ref = FormatUint (MsgOpenDispute.EscrowId msg)\<rparr>;
         s4 = setBond bondID bond s3;
         dispute = \<lparr>Dispute.Id = i, Dispute.EscrowId = MsgOpenDispute.EscrowId msg,
                    Dispute.Opener = MsgOpenDispute.Creator msg, Dispute.Reason = MsgOpenDispute.Reason msg,
                    Dispute.Status = DisputeStatusOpen, Dispute.Resolution = [], Dispute.Votes = [],
                    Dispute.BondId = bondID\<rparr>;
         s5 = setDispute i dispute s4;
         escrow1 = escrow\<lparr>Escrow.Status := frozenStatus\<rparr>;
         s6 = setEscrow (Escrow.Id escrow1) escrow1 s5
     in respond i (emit ''agntcoin_dispute_opened''
          [(''id'', FormatUint i),
           (''escrow_id'', FormatUint (MsgOpenDispute.EscrowId msg)),
           (''opener'', MsgOpenDispute.Creator msg)] s6)))))))))"

section \<open>Voting\<close>

record MsgCastVote =
  Creator :: string
  DisputeId :: u64
  Accept :: bool
  StakeAmount :: u64

definition CastVote :: "Env \<Rightarrow> MsgCastVote \<Rightarrow> Keeper \<Rightarrow> unit result" where
  "CastVote env msg s =
    (case StringToBytes env (MsgCastVote.Creator msg) of
       None \<Rightarrow> fail (ErrAddress ''invalid creator address'') s
     | Some _ \<Rightarrow>
    (case kv_get (Keeper.Dispute s) (MsgCastVote.DisputeId msg) of
       None \<Rightarrow> fail (ErrKeyNotFound ''dispute not found'') s
     | Some dispute \<Rightarrow>
    (if Dispute.Status dispute \<noteq> DisputeStatusOpen then
       fail (ErrInvalidRequest (''dispute is not open (status='' @ Dispute.Status dispute @ '')'')) s
     else
    (case Keeper.Params s of
       None \<Rightarrow> fail (ErrIO ''collections: not found'') s
     | Some params \<Rightarrow>
    (if \<not> isJuror (MsgCastVote.Creator msg) (resolveAnchors env (Params.Anchors params)) then
       fail (ErrUnauthorized ''caller is not an eligible juror'') s
     else if list_ex (\<lambda>v. Vote.Juror v = MsgCastVote.Creator msg) (Dispute.Votes dispute) then
       fail (ErrInvalidRequest ''juror has already voted on this dispute'') s
     else if MsgCastVote.StakeAmount msg < MinJurorStake then
       fail (ErrInvalidRequest (''voting requires a juror-stake of at least '' @ FormatUint MinJurorStake)) s
     else
    (case getRegistered s (MsgCastVote.Creator msg) of
       None \<Rightarrow> fail (ErrInvalidRequest ''juror not registered'') s
     | Some juror \<Rightarrow>
    (if Account.Balance juror < MsgCastVote.StakeAmount msg then
       fail (ErrInsufficientFunds ''insufficient balance for juror stake'') s
     else
    (let s1 = setAccount (MsgCastVote.Creator msg)
                (juror\<lparr>Account.Balance := Account.Balance juror - MsgCastVote.StakeAmount msg\<rparr>) s;
         (bondID, s2) = nextBondID s1;
         s3 = setBond bondID
                \<lparr>Bond.Id = bondID, Bond.Poster = MsgCastVote.Creator msg,
                 Bond.Amount = MsgCastVote.StakeAmount msg, Bond.Purpose = jurorPurpose (Dispute.Id dispute),
                 Bond.Slasher = [], Bond.Status = BondStatusActive,
                 Bond.Ref = FormatUint (Dispute.Id dispute)\<rparr> s2;
         dispute1 = dispute\<lparr>Dispute.Votes := Dispute.Votes dispute @
                      [\<lparr>Vote.Juror = MsgCastVote.Creator msg, Vote.Accept = MsgCastVote.Accept msg,
                        Vote.BondId = bondID\<rparr>]\<rparr>;
         s4 = setDispute (Dispute.Id dispute1) dispute1 s3
     in respond () (emit ''agntcoin_dispute_vote''
          [(''dispute_id'', FormatUint (Dispute.Id dispute1)),
           (''juror'', MsgCastVote.Creator msg),
           (''accept'', FormatBool (MsgCastVote.Accept msg))] s4)))))))))"

section \<open>The settlements of a verdict\<close>

text \<open>The tally.\<close>

fun countVotes :: "nat \<Rightarrow> nat \<Rightarrow> Vote list \<Rightarrow> nat \<times> nat" where
  "countVotes accept reject [] = (accept, reject)"
| "countVotes accept reject (v # vs) =
     (if Vote.Accept v then countVotes (accept + 1) reject vs else countVotes accept (reject + 1) vs)"

text \<open>First the escrow: its money moves unless it is a challenge of a past release.\<close>

definition settleVerdict :: "Env \<Rightarrow> bool \<Rightarrow> bool \<Rightarrow> Escrow \<Rightarrow> Keeper \<Rightarrow> (Escrow \<times> string) result" where
  "settleVerdict env challenged majorityAccepts escrow s =
    (let settled =
      (if challenged then
         respond (escrow\<lparr>Escrow.Status := EscrowStatusReleased\<rparr>,
                  if majorityAccepts then DisputeResolutionAccept else DisputeResolutionReject) s
       else if majorityAccepts then
        (case StringToBytes env (Escrow.Payee escrow) of
           None \<Rightarrow> fail (ErrAddress ''invalid payee address'') s
         | Some payeeBytes \<Rightarrow>
        (case checkNewAccountCredit s (Escrow.Payee escrow) (Escrow.Amount escrow) of
           Some err \<Rightarrow> fail err s
         | None \<Rightarrow>
        (case creditAccount env (Escrow.Payee escrow) payeeBytes (Escrow.Amount escrow) s of
           (Inl err, s1) \<Rightarrow> fail err s1
         | (Inr _, s1) \<Rightarrow>
             respond (escrow\<lparr>Escrow.Status := EscrowStatusReleased, Escrow.ReleasedAt := BlockTime env\<rparr>,
                      DisputeResolutionAccept) s1)))
       else
        (case StringToBytes env (Escrow.Payer escrow) of
           None \<Rightarrow> fail (ErrAddress ''invalid payer address'') s
         | Some payerBytes \<Rightarrow>
        (case creditAccount env (Escrow.Payer escrow) payerBytes (Escrow.Amount escrow) s of
           (Inl err, s1) \<Rightarrow> fail err s1
         | (Inr _, s1) \<Rightarrow>
             respond (escrow\<lparr>Escrow.Status := EscrowStatusRefunded\<rparr>, DisputeResolutionReject) s1)))
     in case settled of
          (Inl err, s1) \<Rightarrow> fail err s1
        | (Inr (escrow1, resolution), s1) \<Rightarrow>
            respond (escrow1, resolution) (setEscrow (Escrow.Id escrow1) escrow1 s1))"

text \<open>
  Second the opener's bond: back to an upheld opener, else to the party it griefed, which
  for a lost challenge is the first verifier that passed the escrow.
\<close>

definition openerUpheld :: "Dispute \<Rightarrow> Escrow \<Rightarrow> string \<Rightarrow> bool" where
  "openerUpheld dispute escrow resolution \<longleftrightarrow>
     (Dispute.Opener dispute = Escrow.Payer escrow \<and> resolution = DisputeResolutionReject) \<or>
     (Dispute.Opener dispute = Escrow.Payee escrow \<and> resolution = DisputeResolutionAccept)"

definition disputeBondRecipient :: "bool \<Rightarrow> Dispute \<Rightarrow> Escrow \<Rightarrow> string \<Rightarrow> string" where
  "disputeBondRecipient challenged dispute escrow resolution =
    (if openerUpheld dispute escrow resolution then Dispute.Opener dispute
     else let counterparty = (if Dispute.Opener dispute = Escrow.Payer escrow
                              then Escrow.Payee escrow else Escrow.Payer escrow)
          in if challenged then
               (case List.find Attestation.Passed (Escrow.Attestations escrow) of
                  Some a \<Rightarrow> Attestation.Verifier a
                | None \<Rightarrow> counterparty)
             else counterparty)"

definition settleDisputeBond :: "bool \<Rightarrow> Dispute \<Rightarrow> Escrow \<Rightarrow> string \<Rightarrow> Keeper \<Rightarrow> unit result" where
  "settleDisputeBond challenged dispute escrow resolution s =
    (case kv_get (Keeper.Bond s) (Dispute.BondId dispute) of
       None \<Rightarrow> respond () s
     | Some bond \<Rightarrow>
    (if Bond.Status bond = BondStatusActive \<and> Bond.Purpose bond = disputePurpose (Dispute.Id dispute) then
      (let recipient = disputeBondRecipient challenged dispute escrow resolution;
           bond1 = bond\<lparr>Bond.Status := (if openerUpheld dispute escrow resolution
                                        then BondStatusReleased else BondStatusSlashed)\<rparr>
       in case settleBond recipient bond1 s of
            (Inl err, s1) \<Rightarrow> fail err s1
          | (Inr _, s1) \<Rightarrow>
              respond () (emit ''agntcoin_dispute_bond_settled''
                [(''dispute_id'', FormatUint (Dispute.Id dispute)),
                 (''bond_id'', FormatUint (Bond.Id bond1)),
                 (''status'', Bond.Status bond1),
                 (''recipient'', recipient),
                 (''amount'', FormatUint (Bond.Amount bond1))] s1))
     else respond () s))"

text \<open>Third the jurors' stakes.\<close>

fun settleJurorStakes :: "Dispute \<Rightarrow> bool \<Rightarrow> string \<Rightarrow> Vote list \<Rightarrow> Keeper \<Rightarrow> unit result" where
  "settleJurorStakes dispute verdictAccept winner [] s = respond () s"
| "settleJurorStakes dispute verdictAccept winner (v # vs) s =
    (case kv_get (Keeper.Bond s) (Vote.BondId v) of
       None \<Rightarrow> settleJurorStakes dispute verdictAccept winner vs s
     | Some bond \<Rightarrow>
    (if Bond.Status bond \<noteq> BondStatusActive \<or> Bond.Purpose bond \<noteq> jurorPurpose (Dispute.Id dispute) then
       settleJurorStakes dispute verdictAccept winner vs s
     else
    (let recipient = (if Vote.Accept v = verdictAccept then Vote.Juror v else winner);
         bond1 = bond\<lparr>Bond.Status := (if Vote.Accept v = verdictAccept
                                      then BondStatusReleased else BondStatusSlashed)\<rparr>
     in case settleBond recipient bond1 s of
          (Inl err, s1) \<Rightarrow> fail err s1
        | (Inr _, s1) \<Rightarrow>
            settleJurorStakes dispute verdictAccept winner vs
              (emit ''agntcoin_juror_stake_settled''
                [(''dispute_id'', FormatUint (Dispute.Id dispute)),
                 (''juror'', Vote.Juror v),
                 (''bond_id'', FormatUint (Bond.Id bond1)),
                 (''status'', Bond.Status bond1),
                 (''recipient'', recipient),
                 (''amount'', FormatUint (Bond.Amount bond1))] s1))))"

text \<open>Last the verifiers' stakes.\<close>

fun settleAttestationStakes ::
  "Dispute \<Rightarrow> Escrow \<Rightarrow> bool \<Rightarrow> string \<Rightarrow> Attestation list \<Rightarrow> Keeper \<Rightarrow> unit result" where
  "settleAttestationStakes dispute escrow verdictAccept winner [] s = respond () s"
| "settleAttestationStakes dispute escrow verdictAccept winner (a # as1) s =
    (case kv_get (Keeper.Bond s) (Attestation.BondId a) of
       None \<Rightarrow> settleAttestationStakes dispute escrow verdictAccept winner as1 s
     | Some bond \<Rightarrow>
    (if Bond.Status bond \<noteq> BondStatusActive \<or> Bond.Purpose bond \<noteq> attestationPurpose (Escrow.Id escrow) then
       settleAttestationStakes dispute escrow verdictAccept winner as1 s
     else
    (let recipient = (if Attestation.Passed a = verdictAccept then Attestation.Verifier a else winner);
         bond1 = bond\<lparr>Bond.Status := (if Attestation.Passed a = verdictAccept
                                      then BondStatusReleased else BondStatusSlashed)\<rparr>
     in case settleBond recipient bond1 s of
          (Inl err, s1) \<Rightarrow> fail err s1
        | (Inr _, s1) \<Rightarrow>
            settleAttestationStakes dispute escrow verdictAccept winner as1
              (emit ''agntcoin_attestation_bond_settled''
                [(''dispute_id'', FormatUint (Dispute.Id dispute)),
                 (''escrow_id'', FormatUint (Escrow.Id escrow)),
                 (''verifier'', Attestation.Verifier a),
                 (''bond_id'', FormatUint (Bond.Id bond1)),
                 (''status'', Bond.Status bond1),
                 (''recipient'', recipient),
                 (''amount'', FormatUint (Bond.Amount bond1))] s1))))"

section \<open>Resolving\<close>

record MsgResolveDispute =
  Creator :: string
  DisputeId :: u64

definition ResolveDispute :: "Env \<Rightarrow> MsgResolveDispute \<Rightarrow> Keeper \<Rightarrow> string result" where
  "ResolveDispute env msg s =
    (case StringToBytes env (MsgResolveDispute.Creator msg) of
       None \<Rightarrow> fail (ErrAddress ''invalid creator address'') s
     | Some _ \<Rightarrow>
    (case kv_get (Keeper.Dispute s) (MsgResolveDispute.DisputeId msg) of
       None \<Rightarrow> fail (ErrKeyNotFound ''dispute not found'') s
     | Some dispute \<Rightarrow>
    (if Dispute.Status dispute \<noteq> DisputeStatusOpen then
       fail (ErrInvalidRequest (''dispute is not open (status='' @ Dispute.Status dispute @ '')'')) s
     else
    (let (accept, reject) = countVotes 0 0 (Dispute.Votes dispute)
     in case Keeper.Params s of
          None \<Rightarrow> fail (ErrIO ''collections: not found'') s
        | Some params \<Rightarrow>
    (let nJurors = length (resolveAnchors env (Params.Anchors params));
         quorum = nJurors div 2 + 1
     in if length (Dispute.Votes dispute) < quorum then
          fail (ErrInvalidRequest (''quorum not reached: '' @ Itoa (length (Dispute.Votes dispute)) @ '' of ''
                  @ Itoa nJurors @ '' eligible jurors voted (need '' @ Itoa quorum @ '')'')) s
        else if accept = reject then
          fail (ErrInvalidRequest (''no majority yet '' @ em_dash
                  @ '' need a strict accept/reject majority to resolve'')) s
        else
    (case kv_get (Keeper.Escrow s) (Dispute.EscrowId dispute) of
       None \<Rightarrow> fail (ErrIO ''collections: not found'') s
     | Some escrow \<Rightarrow>
    (let challenged = (Escrow.Status escrow = EscrowStatusChallenged)
     in if Escrow.Status escrow \<noteq> EscrowStatusInJury \<and> \<not> challenged then
          fail (ErrInvalidRequest (''escrow is not under jury control (status='' @ Escrow.Status escrow @ '')'')) s
        else
    (case settleVerdict env challenged (accept > reject) escrow s of
       (Inl err, s1) \<Rightarrow> fail err s1
     | (Inr (escrow1, resolution), s1) \<Rightarrow>
    (case settleDisputeBond challenged dispute escrow1 resolution s1 of
       (Inl err, s2) \<Rightarrow> fail err s2
     | (Inr _, s2) \<Rightarrow>
    (let verdictAccept = (resolution = DisputeResolutionAccept);
         winner = (if verdictAccept then Escrow.Payee escrow1 else Escrow.Payer escrow1)
     in case settleJurorStakes dispute verdictAccept winner (Dispute.Votes dispute) s2 of
          (Inl err, s3) \<Rightarrow> fail err s3
        | (Inr _, s3) \<Rightarrow>
    (case settleAttestationStakes dispute escrow1 verdictAccept winner (Escrow.Attestations escrow1) s3 of
       (Inl err, s4) \<Rightarrow> fail err s4
     | (Inr _, s4) \<Rightarrow>
    (let dispute1 = dispute\<lparr>Dispute.Status := DisputeStatusResolved, Dispute.Resolution := resolution\<rparr>;
         s5 = setDispute (Dispute.Id dispute1) dispute1 s4
     in respond resolution (emit ''agntcoin_dispute_resolved''
          [(''id'', FormatUint (Dispute.Id dispute1)),
           (''escrow_id'', FormatUint (Escrow.Id escrow1)),
           (''resolution'', resolution),
           (''accept_votes'', Itoa accept),
           (''reject_votes'', Itoa reject)] s5)))))))))))))"

section \<open>Opening and voting meet the contract\<close>

definition openedDispute :: "MsgOpenDispute \<Rightarrow> u64 \<Rightarrow> u64 \<Rightarrow> Dispute" where
  "openedDispute msg i bondID =
     \<lparr>Dispute.Id = i, Dispute.EscrowId = MsgOpenDispute.EscrowId msg, Dispute.Opener = MsgOpenDispute.Creator msg,
      Dispute.Reason = MsgOpenDispute.Reason msg, Dispute.Status = DisputeStatusOpen, Dispute.Resolution = [],
      Dispute.Votes = [], Dispute.BondId = bondID\<rparr>"

lemma openedDispute_simps [simp]:
  "Dispute.Id (openedDispute msg i k) = i" "Dispute.EscrowId (openedDispute msg i k) = MsgOpenDispute.EscrowId msg"
  "Dispute.Opener (openedDispute msg i k) = MsgOpenDispute.Creator msg"
  "Dispute.Status (openedDispute msg i k) = DisputeStatusOpen" "Dispute.Votes (openedDispute msg i k) = []"
  "Dispute.BondId (openedDispute msg i k) = k" "Dispute.Resolution (openedDispute msg i k) = []"
  by (simp_all add: openedDispute_def)

lemma OpenDispute_success:
  assumes "OpenDispute env msg s = (Inr r, s')" and "core_inv s"
  shows "\<exists>e frozen acc n ats. kv_get (Keeper.Escrow s) (MsgOpenDispute.EscrowId msg) = Some e
     \<and> (MsgOpenDispute.Creator msg = Escrow.Payer e \<or> MsgOpenDispute.Creator msg = Escrow.Payee e)
     \<and> frozenStatusFor env (MsgOpenDispute.Creator msg) e = Inr frozen
     \<and> MinDisputeBond \<le> MsgOpenDispute.BondAmount msg
     \<and> getRegistered s (MsgOpenDispute.Creator msg) = Some acc
     \<and> MsgOpenDispute.BondAmount msg \<le> Account.Balance acc
     \<and> r = Keeper.DisputeSeq s
     \<and> s' = emit n ats (setEscrow (MsgOpenDispute.EscrowId msg) (e\<lparr>Escrow.Status := frozen\<rparr>)
          (setDispute (Keeper.DisputeSeq s) (openedDispute msg (Keeper.DisputeSeq s) (Keeper.BondSeq s))
            (lockBond (MsgOpenDispute.Creator msg) acc (MsgOpenDispute.BondAmount msg)
               (disputePurpose (Keeper.DisputeSeq s)) [] (FormatUint (MsgOpenDispute.EscrowId msg))
               (s\<lparr>Keeper.DisputeSeq := Keeper.DisputeSeq s + 1\<rparr>))))"
proof -
  have id: "Escrow.Id e = i" if "kv_get (Keeper.Escrow s) i = Some e" for i e
    using core_inv_escrow [OF assms(2) that] by simp
  show ?thesis
    using assms(1)
    by (simp add: OpenDispute_def Let_def id not_less lockBond_def activeBond_def openedDispute_def
        split: option.splits if_splits sum.splits prod.splits) (metis (no_types))+
qed

lemma frozen_step:
  assumes "frozenStatusFor env c e = Inr frozen"
  shows "escrow_step e (e\<lparr>Escrow.Status := frozen\<rparr>)" "heldEscrow (e\<lparr>Escrow.Status := frozen\<rparr>) = heldEscrow e"
  using assms
  by (auto simp: frozenStatusFor_def Let_def escrow_step_def same_terms_def same_delivery_def heldEscrow_def
      unsettled_def split: if_splits)

interpretation open_dispute: moving_handler OpenDispute
proof unfold_locales
  fix env m s r s'
  assume run: "OpenDispute env m s = (Inr r, s')" and inv: "core_inv s" and free: "ids_free s"
  let ?i = "MsgOpenDispute.EscrowId m" and ?c = "MsgOpenDispute.Creator m" and ?d = "Keeper.DisputeSeq s"
  obtain e frozen acc n ats where e: "kv_get (Keeper.Escrow s) ?i = Some e"
    and fz: "frozenStatusFor env ?c e = Inr frozen" and min: "MinDisputeBond \<le> MsgOpenDispute.BondAmount m"
    and acc: "getRegistered s ?c = Some acc" "MsgOpenDispute.BondAmount m \<le> Account.Balance acc"
    and s': "s' = emit n ats (setEscrow ?i (e\<lparr>Escrow.Status := frozen\<rparr>)
          (setDispute ?d (openedDispute m ?d (Keeper.BondSeq s))
            (lockBond ?c acc (MsgOpenDispute.BondAmount m) (disputePurpose ?d) [] (FormatUint ?i)
               (s\<lparr>Keeper.DisputeSeq := ?d + 1\<rparr>))))"
    using OpenDispute_success [OF run inv] by blast
  note st = frozen_step [OF fz]
  let ?s0 = "s\<lparr>Keeper.DisputeSeq := ?d + 1\<rparr>"
  let ?s1 = "lockBond ?c acc (MsgOpenDispute.BondAmount m) (disputePurpose ?d) [] (FormatUint ?i) ?s0"
  let ?s2 = "setDispute ?d (openedDispute m ?d (Keeper.BondSeq s)) ?s1"
  have seqs: "?d \<noteq> - 1" "Keeper.BondSeq s \<noteq> - 1" using free by (simp_all add: ids_free_def)
  have inv0: "core_inv ?s0" using core_inv_seq(3) [OF inv seqs(1)] .
  have acc0: "getRegistered ?s0 ?c = Some acc" using acc by (simp add: getRegistered_def)
  have fresh: "kv_get (Keeper.Dispute s) ?d = None" using inv by (rule core_inv_fresh)
  have lock: "core_inv ?s1" "total_supply ?s1 = total_supply ?s0"
    using lockBond_ok [OF acc0 acc(2) inv0] seqs(2) by simp_all
  have inv2: "core_inv ?s2"
    using lock(1) u64_less_self_Suc [OF seqs(1)] by (intro core_inv_setDispute) simp_all
  have e2: "kv_get (Keeper.Escrow ?s2) ?i = Some e" using e by simp
  show "core_inv s' \<and> total_supply s' = total_supply s \<and> Keeper.EmissionState s' = Keeper.EmissionState s"
    using rewriteEscrow_ok(1,2) [OF e2 inv2 st] lock(2) by (simp add: s')
  have "attestations_backed s s'"
    by (rule attestations_backed_old [where e' = "e\<lparr>Escrow.Status := frozen\<rparr>", OF _ e]) (simp_all add: s')
  moreover have "disputes_backed s s'"
    using min by (auto simp: disputes_backed_def s' backed_def split: if_splits)
  ultimately show "lifecycle s s' \<and> seqs_step s s'"
    using inv e st(1) fresh
    by (simp add: s' lifecycle_def seqs_step_def table_step_refl table_step_fresh_bond table_step_escrow
        table_step_new born_dispute_def)
qed

definition castedVote :: "MsgCastVote \<Rightarrow> u64 \<Rightarrow> Vote" where
  "castedVote msg bondID =
     \<lparr>Vote.Juror = MsgCastVote.Creator msg, Vote.Accept = MsgCastVote.Accept msg, Vote.BondId = bondID\<rparr>"

lemma CastVote_success:
  assumes "CastVote env msg s = (Inr r, s')" and "core_inv s"
  shows "\<exists>d params acc n ats. kv_get (Keeper.Dispute s) (MsgCastVote.DisputeId msg) = Some d
     \<and> Dispute.Status d = DisputeStatusOpen \<and> Keeper.Params s = Some params
     \<and> MsgCastVote.Creator msg \<in> set (resolveAnchors env (Params.Anchors params))
     \<and> MsgCastVote.Creator msg \<notin> Vote.Juror ` set (Dispute.Votes d)
     \<and> MinJurorStake \<le> MsgCastVote.StakeAmount msg
     \<and> getRegistered s (MsgCastVote.Creator msg) = Some acc
     \<and> MsgCastVote.StakeAmount msg \<le> Account.Balance acc
     \<and> s' = emit n ats (setDispute (MsgCastVote.DisputeId msg)
            (d\<lparr>Dispute.Votes := Dispute.Votes d @ [castedVote msg (Keeper.BondSeq s)]\<rparr>)
          (lockBond (MsgCastVote.Creator msg) acc (MsgCastVote.StakeAmount msg)
             (jurorPurpose (MsgCastVote.DisputeId msg)) [] (FormatUint (MsgCastVote.DisputeId msg)) s))"
proof -
  have id: "Dispute.Id d = i" if "kv_get (Keeper.Dispute s) i = Some d" for i d
    using core_inv_dispute [OF assms(2) that] by simp
  show ?thesis
    using assms(1)
    by (simp add: CastVote_def Let_def id not_less lockBond_def activeBond_def castedVote_def list_ex_iff image_iff
        split: option.splits if_splits prod.splits) (metis (no_types))+
qed

interpretation cast_vote: moving_handler CastVote
proof unfold_locales
  fix env m s r s'
  assume run: "CastVote env m s = (Inr r, s')" and inv: "core_inv s" and free: "ids_free s"
  let ?i = "MsgCastVote.DisputeId m" and ?c = "MsgCastVote.Creator m"
  obtain d acc n ats where d: "kv_get (Keeper.Dispute s) ?i = Some d" "Dispute.Status d = DisputeStatusOpen"
    and new: "?c \<notin> Vote.Juror ` set (Dispute.Votes d)"
    and min: "MinJurorStake \<le> MsgCastVote.StakeAmount m"
    and acc: "getRegistered s ?c = Some acc" "MsgCastVote.StakeAmount m \<le> Account.Balance acc"
    and s': "s' = emit n ats (setDispute ?i
            (d\<lparr>Dispute.Votes := Dispute.Votes d @ [castedVote m (Keeper.BondSeq s)]\<rparr>)
          (lockBond ?c acc (MsgCastVote.StakeAmount m) (jurorPurpose ?i) [] (FormatUint ?i) s))"
    using CastVote_success [OF run inv] by blast
  let ?d' = "d\<lparr>Dispute.Votes := Dispute.Votes d @ [castedVote m (Keeper.BondSeq s)]\<rparr>"
  let ?s1 = "lockBond ?c acc (MsgCastVote.StakeAmount m) (jurorPurpose ?i) [] (FormatUint ?i) s"
  have "Keeper.BondSeq s \<noteq> - 1" using free by (simp add: ids_free_def)
  note lock = lockBond_ok [OF acc inv this]
  have "core_inv (setDispute ?i ?d' ?s1)"
    using lock(1) core_inv_dispute [OF inv d(1)] by (intro core_inv_setDispute) simp_all
  then show "core_inv s' \<and> total_supply s' = total_supply s \<and> Keeper.EmissionState s' = Keeper.EmissionState s"
    using lock(2) by (simp add: s')
  have "dispute_step d ?d'"
    using d(2) new by (auto simp: dispute_step_def castedVote_def intro!: exI [of _ "castedVote m (Keeper.BondSeq s)"])
  then have "table_step dispute_step born_dispute (Keeper.Dispute s) (kv_set (Keeper.Dispute s) ?i ?d')"
    using d(1) by (intro table_step_old) simp_all
  moreover have "disputes_backed s s'"
    using d(1) min by (auto simp: disputes_backed_def s' backed_def castedVote_def split: if_splits)
  ultimately show "lifecycle s s' \<and> seqs_step s s'"
    using inv by (simp add: s' lifecycle_def seqs_step_def table_step_refl table_step_fresh_bond)
qed

end
