(* ===== verification/Verdict.thy ===== *)
theory Verdict
  imports Jury
begin

text \<open>
  What a jury verdict does: the settlements of \<open>ResolveDispute\<close> meet the contract, and the
  properties of disputes, votes and verdicts.
\<close>

section \<open>The settlements\<close>

interpretation juror_loop: stake_loop "settleJurorStakes dispute va winner" Vote.BondId
    "jurorPurpose (Dispute.Id dispute)" "\<lambda>v b. if Vote.Accept v = va then Vote.Juror v else winner"
    "\<lambda>v. if Vote.Accept v = va then BondStatusReleased else BondStatusSlashed" for dispute va winner
  by unfold_locales (auto simp: live_def Let_def split: option.splits if_splits, blast+)

interpretation attestation_loop: stake_loop "settleAttestationStakes dispute escrow va winner" Attestation.BondId
    "attestationPurpose (Escrow.Id escrow)" "\<lambda>a b. if Attestation.Passed a = va then Attestation.Verifier a else winner"
    "\<lambda>a. if Attestation.Passed a = va then BondStatusReleased else BondStatusSlashed" for dispute escrow va winner
  by unfold_locales (auto simp: live_def Let_def split: option.splits if_splits, blast+)

lemma countVotes_eq:
  "countVotes m n vs = (m + length (filter Vote.Accept vs), n + length (filter (\<lambda>v. \<not> Vote.Accept v) vs))"
  by (induction m n vs rule: countVotes.induct) auto

lemma settleDisputeBond_only:
  assumes "settleDisputeBond ch d e res s = (Inr r, s')" and "core_inv s"
  shows "only_bonds s s'"
proof (cases "live s (Dispute.BondId d) (disputePurpose (Dispute.Id d))")
  case None
  then have "s' = s" using assms(1) by (auto simp: settleDisputeBond_def live_def split: option.splits if_splits)
  then show ?thesis by simp
next
  case (Some b)
  let ?st = "if openerUpheld d e res then BondStatusReleased else BondStatusSlashed"
  have b: "kv_get (Keeper.Bond s) (Dispute.BondId d) = Some b" "Bond.Status b = BondStatusActive"
    using Some by (simp_all add: live_Some)
  obtain u s1 n ats where
    set: "settleBond (disputeBondRecipient ch d e res) (b\<lparr>Bond.Status := ?st\<rparr>) s = (Inr u, s1)"
    and s': "s' = emit n ats s1"
    using assms(1) Some by (auto simp: settleDisputeBond_def live_Some Let_def split: sum.splits prod.splits)
  show ?thesis using settleBond_ok(1) [OF b assms(2) _ set] s' by simp
qed

text \<open>The escrow a verdict leaves behind.\<close>

definition judged :: "Env \<Rightarrow> bool \<Rightarrow> bool \<Rightarrow> Escrow \<Rightarrow> Escrow" where
  "judged env challenged accepts e =
     (if challenged then e\<lparr>Escrow.Status := EscrowStatusReleased\<rparr>
      else if accepts then e\<lparr>Escrow.Status := EscrowStatusReleased, Escrow.ReleasedAt := BlockTime env\<rparr>
      else e\<lparr>Escrow.Status := EscrowStatusRefunded\<rparr>)"

definition resolutionOf :: "bool \<Rightarrow> string" where
  "resolutionOf accepts = (if accepts then DisputeResolutionAccept else DisputeResolutionReject)"

lemma judged_simps [simp]:
  "Escrow.Id (judged env ch ac e) = Escrow.Id e" "Escrow.Payer (judged env ch ac e) = Escrow.Payer e"
  "Escrow.Payee (judged env ch ac e) = Escrow.Payee e" "Escrow.Amount (judged env ch ac e) = Escrow.Amount e"
  "Escrow.Attestations (judged env ch ac e) = Escrow.Attestations e"
  by (simp_all add: judged_def)

lemma resolution_neq [simp]: "DisputeResolutionAccept \<noteq> DisputeResolutionReject"
  "DisputeResolutionReject \<noteq> DisputeResolutionAccept"
  by (simp_all add: DisputeResolutionAccept_def DisputeResolutionReject_def)

lemma judged_step:
  assumes "Escrow.Status e = (if ch then EscrowStatusChallenged else EscrowStatusInJury)"
  shows "escrow_step e (judged env ch ac e)"
  using assms by (auto simp: judged_def escrow_step_def same_terms_def same_delivery_def split: if_splits)

lemma settleVerdict_ok:
  assumes run: "settleVerdict env ch ac e s = (Inr (e1, res), s1)"
    and e: "kv_get (Keeper.Escrow s) i = Some e" "Escrow.Status e = (if ch then EscrowStatusChallenged else EscrowStatusInJury)"
    and inv: "core_inv s" and room: "total_supply s < 2 ^ 64"
  shows "e1 = judged env ch ac e \<and> res = resolutionOf ac
     \<and> core_inv s1 \<and> total_supply s1 = total_supply s \<and> lifecycle s s1 \<and> seqs_step s s1
     \<and> Keeper.Escrow s1 = kv_set (Keeper.Escrow s) i (judged env ch ac e)
     \<and> Keeper.Bond s1 = Keeper.Bond s \<and> Keeper.Dispute s1 = Keeper.Dispute s \<and> Keeper.Gate s1 = Keeper.Gate s
     \<and> Keeper.EmissionState s1 = Keeper.EmissionState s
     \<and> (\<forall>a. balance s1 a = balance s a +
          (if \<not> ch \<and> a = (if ac then Escrow.Payee e else Escrow.Payer e) then unat (Escrow.Amount e) else 0))"
proof -
  have id: "Escrow.Id e = i" using core_inv_escrow [OF inv e(1)] by simp
  note st = judged_step [OF e(2), of env ac]
  show ?thesis
  proof (cases ch)
    case True
    then have s1: "e1 = judged env ch ac e" "res = resolutionOf ac" "s1 = setEscrow i (judged env ch ac e) s"
      using run id by (auto simp: settleVerdict_def judged_def resolutionOf_def Let_def)
    have "heldEscrow (judged env ch ac e) = heldEscrow e"
      using e(2) True by (simp add: judged_def heldEscrow_def unsettled_def)
    from rewriteEscrow_ok [OF e(1) inv st this] show ?thesis
      using True s1 by (simp add: seqs_step_def)
  next
    case False
    obtain ab u s0 where
      cr: "creditAccount env (if ac then Escrow.Payee e else Escrow.Payer e) ab (Escrow.Amount e) s = (Inr u, s0)"
      and s1: "e1 = judged env ch ac e" "res = resolutionOf ac" "s1 = setEscrow i (judged env ch ac e) s0"
      using run id False
      by (cases ac) (auto simp: settleVerdict_def judged_def resolutionOf_def Let_def
          split: option.splits sum.splits prod.splits)
    have "unsettled e" "\<not> unsettled (judged env ch ac e)"
      using e(2) False by (simp_all add: unsettled_def judged_def)
    from settleEscrow_ok [OF e(1) inv room cr st _ this] creditAccount_frame [OF cr] show ?thesis
      using False s1 by (simp add: seqs_step_def)
  qed
qed

section \<open>Resolving meets the contract\<close>

lemma settleVerdict_value:
  assumes "settleVerdict env ch ac e s = (Inr er, s1)"
  shows "er = (judged env ch ac e, resolutionOf ac)"
  using assms
  by (auto simp: settleVerdict_def judged_def resolutionOf_def Let_def
      split: option.splits sum.splits prod.splits if_splits)

lemma resolutionOf_Accept [simp]: "(resolutionOf ac = DisputeResolutionAccept) = ac"
  by (simp add: resolutionOf_def)

lemma ResolveDispute_success:
  assumes "ResolveDispute env msg s = (Inr r, s')" and "core_inv s"
  shows "\<exists>d e params ac ch s1 s2 s3 s4 n ats. kv_get (Keeper.Dispute s) (MsgResolveDispute.DisputeId msg) = Some d
     \<and> Dispute.Status d = DisputeStatusOpen \<and> Keeper.Params s = Some params
     \<and> length (resolveAnchors env (Params.Anchors params)) div 2 + 1 \<le> length (Dispute.Votes d)
     \<and> length (filter Vote.Accept (Dispute.Votes d)) \<noteq> length (filter (\<lambda>v. \<not> Vote.Accept v) (Dispute.Votes d))
     \<and> ac = (length (filter Vote.Accept (Dispute.Votes d)) > length (filter (\<lambda>v. \<not> Vote.Accept v) (Dispute.Votes d)))
     \<and> kv_get (Keeper.Escrow s) (Dispute.EscrowId d) = Some e
     \<and> Escrow.Status e = (if ch then EscrowStatusChallenged else EscrowStatusInJury)
     \<and> r = resolutionOf ac
     \<and> settleVerdict env ch ac e s = (Inr (judged env ch ac e, resolutionOf ac), s1)
     \<and> settleDisputeBond ch d (judged env ch ac e) (resolutionOf ac) s1 = (Inr (), s2)
     \<and> settleJurorStakes d ac (if ac then Escrow.Payee e else Escrow.Payer e) (Dispute.Votes d) s2 = (Inr (), s3)
     \<and> settleAttestationStakes d (judged env ch ac e) ac (if ac then Escrow.Payee e else Escrow.Payer e)
          (Escrow.Attestations e) s3 = (Inr (), s4)
     \<and> s' = emit n ats (setDispute (MsgResolveDispute.DisputeId msg)
          (d\<lparr>Dispute.Status := DisputeStatusResolved, Dispute.Resolution := resolutionOf ac\<rparr>) s4)"
proof -
  let ?i = "MsgResolveDispute.DisputeId msg"
  obtain d cb where d: "kv_get (Keeper.Dispute s) ?i = Some d" and open_: "Dispute.Status d = DisputeStatusOpen"
    and cb: "StringToBytes env (MsgResolveDispute.Creator msg) = Some cb"
    using assms(1) by (auto simp: ResolveDispute_def split: option.splits if_splits)
  have id: "Dispute.Id d = ?i" using core_inv_dispute [OF assms(2) d] by simp
  define ac where "ac = (length (filter Vote.Accept (Dispute.Votes d)) > length (filter (\<lambda>v. \<not> Vote.Accept v) (Dispute.Votes d)))"
  obtain params e where p: "Keeper.Params s = Some params" and e: "kv_get (Keeper.Escrow s) (Dispute.EscrowId d) = Some e"
    and q: "length (resolveAnchors env (Params.Anchors params)) div 2 + 1 \<le> length (Dispute.Votes d)"
    and neq: "length (filter Vote.Accept (Dispute.Votes d)) \<noteq> length (filter (\<lambda>v. \<not> Vote.Accept v) (Dispute.Votes d))"
    using assms(1) by (auto simp: ResolveDispute_def Let_def countVotes_eq cb d open_ split: option.splits if_splits)
  define ch where "ch = (Escrow.Status e = EscrowStatusChallenged)"
  have st: "Escrow.Status e = (if ch then EscrowStatusChallenged else EscrowStatusInJury)"
    using assms(1) q neq
    by (auto simp: ch_def ResolveDispute_def Let_def countVotes_eq cb d open_ p e split: option.splits if_splits)
  have jury: "(Escrow.Status e \<noteq> EscrowStatusInJury \<and> \<not> ch) = False" using st by simp
  obtain er s1 where v: "settleVerdict env ch ac e s = (Inr er, s1)"
    using assms(1) q neq
    by (auto simp: ResolveDispute_def Let_def countVotes_eq cb d open_ p e ch_def [symmetric] ac_def [symmetric] jury
        split: if_splits sum.splits prod.splits)
  note er = settleVerdict_value [OF v]
  let ?w = "if ac then Escrow.Payee e else Escrow.Payer e"
  obtain s2 s3 s4 n ats where steps:
      "settleDisputeBond ch d (judged env ch ac e) (resolutionOf ac) s1 = (Inr (), s2)"
      "settleJurorStakes d ac ?w (Dispute.Votes d) s2 = (Inr (), s3)"
      "settleAttestationStakes d (judged env ch ac e) ac ?w (Escrow.Attestations e) s3 = (Inr (), s4)"
      "r = resolutionOf ac"
      "s' = emit n ats (setDispute ?i
          (d\<lparr>Dispute.Status := DisputeStatusResolved, Dispute.Resolution := resolutionOf ac\<rparr>) s4)"
    using assms(1) q neq
    by (simp add: ResolveDispute_def Let_def countVotes_eq cb d open_ p e ch_def [symmetric] ac_def [symmetric] jury v er id
        cong: if_cong split: sum.splits prod.splits) blast
  show ?thesis using d open_ p q neq ac_def e st v er steps by blast
qed

text \<open>The state after the four settlements, before the dispute itself is closed.\<close>

lemma settlements_ok:
  assumes inv: "core_inv s" and room: "total_supply s < 2 ^ 64"
    and e: "kv_get (Keeper.Escrow s) i = Some e" "Escrow.Status e = (if ch then EscrowStatusChallenged else EscrowStatusInJury)"
    and v: "settleVerdict env ch ac e s = (Inr (judged env ch ac e, res), s1)"
    and b: "settleDisputeBond ch d (judged env ch ac e) res s1 = (Inr u2, s2)"
    and j: "settleJurorStakes d ac w vs s2 = (Inr u3, s3)"
    and t: "settleAttestationStakes d (judged env ch ac e) ac w as1 s3 = (Inr u4, s4)"
  shows "core_inv s1 \<and> total_supply s1 = total_supply s \<and> core_inv s2 \<and> total_supply s2 = total_supply s
     \<and> core_inv s3 \<and> total_supply s3 = total_supply s \<and> core_inv s4 \<and> total_supply s4 = total_supply s
     \<and> only_bonds s1 s2 \<and> only_bonds s2 s3 \<and> only_bonds s3 s4 \<and> only_bonds s1 s4"
proof -
  note sv = settleVerdict_ok [OF v e inv room]
  have s1: "core_inv s1" "total_supply s1 = total_supply s" using sv by simp_all
  have o2: "only_bonds s1 s2" using settleDisputeBond_only [OF b s1(1)] .
  then have s2: "core_inv s2" "total_supply s2 = total_supply s"
    using s1 room by (simp_all add: only_bonds_def)
  have o3: "only_bonds s2 s3" using juror_loop.only [OF j s2(1)] s2(2) room by simp
  then have s3: "core_inv s3" "total_supply s3 = total_supply s"
    using s2 room by (simp_all add: only_bonds_def)
  have o4: "only_bonds s3 s4" using attestation_loop.only [OF t s3(1)] s3(2) room by simp
  then have s4: "core_inv s4" "total_supply s4 = total_supply s"
    using s3 room by (simp_all add: only_bonds_def)
  have "only_bonds s1 s4" using only_bonds_trans [OF only_bonds_trans [OF o2 o3] o4] .
  then show ?thesis using s1 s2 s3 s4 o2 o3 o4 by simp
qed

lemma disputes_backed_old:
  "Keeper.Dispute s' = kv_set (Keeper.Dispute s) i d' \<Longrightarrow> kv_get (Keeper.Dispute s) i = Some d \<Longrightarrow>
     Dispute.Votes d' = Dispute.Votes d \<Longrightarrow> disputes_backed s s'"
  by (auto simp: disputes_backed_def split: if_splits)

lemma resolutionOf_range: "resolutionOf ac \<in> {DisputeResolutionAccept, DisputeResolutionReject}"
  by (simp add: resolutionOf_def)

interpretation resolve_dispute: moving_handler ResolveDispute
proof unfold_locales
  fix env m s r s'
  assume run: "ResolveDispute env m s = (Inr r, s')" and inv: "core_inv s" and room: "total_supply s < 2 ^ 64"
  let ?i = "MsgResolveDispute.DisputeId m"
  obtain d e ac ch s1 s2 s3 s4 n ats where d: "kv_get (Keeper.Dispute s) ?i = Some d" "Dispute.Status d = DisputeStatusOpen"
    and e: "kv_get (Keeper.Escrow s) (Dispute.EscrowId d) = Some e"
      "Escrow.Status e = (if ch then EscrowStatusChallenged else EscrowStatusInJury)"
    and v: "settleVerdict env ch ac e s = (Inr (judged env ch ac e, resolutionOf ac), s1)"
    and b: "settleDisputeBond ch d (judged env ch ac e) (resolutionOf ac) s1 = (Inr (), s2)"
    and j: "settleJurorStakes d ac (if ac then Escrow.Payee e else Escrow.Payer e) (Dispute.Votes d) s2 = (Inr (), s3)"
    and t: "settleAttestationStakes d (judged env ch ac e) ac (if ac then Escrow.Payee e else Escrow.Payer e)
          (Escrow.Attestations e) s3 = (Inr (), s4)"
    and s': "s' = emit n ats (setDispute ?i
          (d\<lparr>Dispute.Status := DisputeStatusResolved, Dispute.Resolution := resolutionOf ac\<rparr>) s4)"
    using ResolveDispute_success [OF run inv] by blast
  note sv = settleVerdict_ok [OF v e inv room]
  note ok = settlements_ok [OF inv room e v b j t]
  have esc: "Keeper.Escrow s1 = kv_set (Keeper.Escrow s) (Dispute.EscrowId d) (judged env ch ac e)"
    using sv by blast
  have o14: "only_bonds s1 s4" using ok by simp
  have same: "Keeper.Escrow s4 = Keeper.Escrow s1" "Keeper.Dispute s4 = Keeper.Dispute s" "Keeper.Gate s4 = Keeper.Gate s"
    "Keeper.EmissionState s4 = Keeper.EmissionState s" "seqs_step s1 s4"
    "Keeper.DisputeSeq s4 = Keeper.DisputeSeq s1" "Keeper.BondSeq s4 = Keeper.BondSeq s1"
    "Keeper.EscrowSeq s4 = Keeper.EscrowSeq s1" "Keeper.VouchSeq s4 = Keeper.VouchSeq s1" "Keeper.GateSeq s4 = Keeper.GateSeq s1"
    using o14 sv only_bonds_lifecycle [OF o14] by (simp_all add: only_bonds_def)
  let ?d' = "d\<lparr>Dispute.Status := DisputeStatusResolved, Dispute.Resolution := resolutionOf ac\<rparr>"
  have "kv_get (Keeper.Dispute s4) ?i = Some d" using d same by simp
  then have "core_inv (setDispute ?i ?d' s4)"
    using ok core_inv_dispute [of s4 ?i d] by (intro core_inv_setDispute) simp_all
  then show "core_inv s' \<and> total_supply s' = total_supply s \<and> Keeper.EmissionState s' = Keeper.EmissionState s"
    using ok same by (simp add: s')
  have "dispute_step d ?d'" using d(2) resolutionOf_range unfolding dispute_step_def by blast
  then have "table_step dispute_step born_dispute (Keeper.Dispute s) (kv_set (Keeper.Dispute s) ?i ?d')"
    using d(1) by (intro table_step_old) simp_all
  moreover have "attestations_backed s s'"
    by (rule attestations_backed_old [where e' = "judged env ch ac e", OF _ e(1)]) (simp_all add: s' same esc)
  moreover have "disputes_backed s s'"
    by (rule disputes_backed_old [where d' = ?d', OF _ d(1)]) (simp_all add: s' same)
  moreover have "table_step bond_step born_bond (Keeper.Bond s) (Keeper.Bond s')"
    using o14 sv by (simp add: s' only_bonds_def table_step_weaken)
  ultimately show "lifecycle s s' \<and> seqs_step s s'"
    using sv table_step_escrow [OF e(1) judged_step [OF e(2)]]
    by (simp add: s' lifecycle_def seqs_step_def same esc table_step_refl)
qed

section \<open>Who is paid\<close>

context stake_loop
begin

lemma other:
  "loop xs s = (Inr r, s') \<Longrightarrow> core_inv s \<Longrightarrow> total_supply s < 2 ^ 64 \<Longrightarrow> p \<noteq> purpose \<Longrightarrow>
     live s' k p = live s k p"
proof (induction xs arbitrary: s)
  case (Cons x xs)
  show ?case
  proof (cases "live s (bondId x) purpose")
    case (Some b)
    then obtain n ats s1 where
      set: "settleBond (recipient x b) (b\<lparr>Bond.Status := status x\<rparr>) s = (Inr (), s1)"
      and rest: "loop xs (emit n ats s1) = (Inr r, s')" using turn [OF Cons.prems(1)] by blast
    note ok = turn_ok [OF set Some Cons.prems(2,3)]
    have b: "kv_get (Keeper.Bond s) (bondId x) = Some b" "Bond.Status b = BondStatusActive" "Bond.Purpose b = purpose"
      using Some by (simp_all add: live_Some)
    have "live (emit n ats s1) k p = live s k p"
      using settleBond_ok(2) [OF b(1,2) Cons.prems(2) resolved set, of k] b(1,3) Cons.prems(4)
      by (cases "k = bondId x") (simp_all add: live_def)
    then show ?thesis using Cons.IH [OF rest ok(2,3) Cons.prems(4)] by simp
  qed (use Cons loop_skip in auto)
qed (simp add: loop_nil)

end

definition stakeDue :: "Keeper \<Rightarrow> u64 \<Rightarrow> string \<Rightarrow> string \<Rightarrow> string \<Rightarrow> nat" where
  "stakeDue s i purpose recipient a =
     (case live s i purpose of
        None \<Rightarrow> 0
      | Some b \<Rightarrow> if a = recipient then unat (Bond.Amount b) else 0)"

lemma purposes_neq [simp]:
  "disputePurpose i \<noteq> jurorPurpose j" "jurorPurpose j \<noteq> disputePurpose i"
  "disputePurpose i \<noteq> attestationPurpose j" "attestationPurpose j \<noteq> disputePurpose i"
  "jurorPurpose i \<noteq> attestationPurpose j" "attestationPurpose j \<noteq> jurorPurpose i"
  by (simp_all add: disputePurpose_def jurorPurpose_def attestationPurpose_def)

lemma juror_dues:
  "juror_loop.dues d ac w s a = (\<lambda>v.
     stakeDue s (Vote.BondId v) (jurorPurpose (Dispute.Id d)) (if Vote.Accept v = ac then Vote.Juror v else w) a)"
  by (rule ext) (simp add: juror_loop.dues_def stakeDue_def)

lemma attestation_dues:
  "attestation_loop.dues e ac w s a = (\<lambda>t.
     stakeDue s (Attestation.BondId t) (attestationPurpose (Escrow.Id e))
       (if Attestation.Passed t = ac then Attestation.Verifier t else w) a)"
  by (rule ext) (simp add: attestation_loop.dues_def stakeDue_def)

lemma stakeDue_cong: "live s' i p = live s i p \<Longrightarrow> stakeDue s' i p = stakeDue s i p"
  by (intro ext) (simp add: stakeDue_def)

lemma settleDisputeBond_ok:
  assumes run: "settleDisputeBond ch d e res s = (Inr r, s')" and inv: "core_inv s" and room: "total_supply s < 2 ^ 64"
  shows "balance s' a = balance s a
     + stakeDue s (Dispute.BondId d) (disputePurpose (Dispute.Id d)) (disputeBondRecipient ch d e res) a"
    and "p \<noteq> disputePurpose (Dispute.Id d) \<Longrightarrow> live s' k p = live s k p"
proof -
  have "balance s' a = balance s a
     + stakeDue s (Dispute.BondId d) (disputePurpose (Dispute.Id d)) (disputeBondRecipient ch d e res) a
     \<and> (p \<noteq> disputePurpose (Dispute.Id d) \<longrightarrow> live s' k p = live s k p)"
  proof (cases "live s (Dispute.BondId d) (disputePurpose (Dispute.Id d))")
    case None
    then have "s' = s" using run by (auto simp: settleDisputeBond_def live_def split: option.splits if_splits)
    then show ?thesis using None by (simp add: stakeDue_def)
  next
    case (Some b)
    let ?st = "if openerUpheld d e res then BondStatusReleased else BondStatusSlashed"
    have b: "kv_get (Keeper.Bond s) (Dispute.BondId d) = Some b" "Bond.Status b = BondStatusActive"
      "Bond.Purpose b = disputePurpose (Dispute.Id d)"
      using Some by (simp_all add: live_Some)
    obtain u s1 n ats where
      set: "settleBond (disputeBondRecipient ch d e res) (b\<lparr>Bond.Status := ?st\<rparr>) s = (Inr u, s1)"
      and s': "s' = emit n ats s1"
      using run Some by (auto simp: settleDisputeBond_def live_Some Let_def split: sum.splits prod.splits)
    have "?st = BondStatusReleased \<or> ?st = BondStatusSlashed" by simp
    note ok = settleBond_ok [OF b(1,2) inv this set]
    have "p \<noteq> disputePurpose (Dispute.Id d) \<longrightarrow> live s' k p = live s k p"
      using ok(2) [of k] b by (cases "k = Dispute.BondId d") (simp_all add: s' live_def)
    then show ?thesis using ok(3) [OF room, of a] by (simp add: s' stakeDue_def Some)
  qed
  then show "balance s' a = balance s a
     + stakeDue s (Dispute.BondId d) (disputePurpose (Dispute.Id d)) (disputeBondRecipient ch d e res) a"
    and "p \<noteq> disputePurpose (Dispute.Id d) \<Longrightarrow> live s' k p = live s k p" by simp_all
qed

section \<open>Collateral\<close>

text \<open>
  Every verdict, vote and dispute on the chain is backed by a bond of its author, and no
  juror votes twice. With distinct verifiers it follows that the entries of one escrow, or of
  one dispute, have different bonds.
\<close>

definition collateral_ok :: "Keeper \<Rightarrow> bool" where
  "collateral_ok s \<longleftrightarrow>
     (\<forall>i e. kv_get (Keeper.Escrow s) i = Some e \<longrightarrow>
        (\<forall>a \<in> set (Escrow.Attestations e).
           backed s (Attestation.BondId a) (Attestation.Verifier a) (attestationPurpose i) (Escrow.Amount e)))
   \<and> (\<forall>i d. kv_get (Keeper.Dispute s) i = Some d \<longrightarrow>
        backed s (Dispute.BondId d) (Dispute.Opener d) (disputePurpose i) MinDisputeBond
      \<and> distinct (map Vote.Juror (Dispute.Votes d))
      \<and> (\<forall>v \<in> set (Dispute.Votes d). backed s (Vote.BondId v) (Vote.Juror v) (jurorPurpose i) MinJurorStake))"

lemma backed_step:
  assumes "table_step bond_step N (Keeper.Bond s) (Keeper.Bond s')" and "backed s i p pu amt"
  shows "backed s' i p pu amt"
proof -
  obtain b where b: "kv_get (Keeper.Bond s) i = Some b" "Bond.Poster b = p" "Bond.Purpose b = pu"
      "Bond.Slasher b = []" "amt \<le> Bond.Amount b"
    using assms(2) by (auto simp: backed_def)
  obtain b' where "kv_get (Keeper.Bond s') i = Some b'" "bond_step b b'"
    using table_step_Some [OF assms(1) b(1)] by blast
  then show ?thesis using b bond_step_fields [of b b'] by (simp add: backed_def)
qed

lemma dispute_step_fields:
  "dispute_step d d' \<Longrightarrow> Dispute.Id d' = Dispute.Id d \<and> Dispute.Opener d' = Dispute.Opener d
     \<and> Dispute.EscrowId d' = Dispute.EscrowId d \<and> Dispute.BondId d' = Dispute.BondId d
     \<and> (distinct (map Vote.Juror (Dispute.Votes d)) \<longrightarrow> distinct (map Vote.Juror (Dispute.Votes d')))
     \<and> (Dispute.Status d \<noteq> DisputeStatusOpen \<longrightarrow> d' = d)"
  by (auto simp: dispute_step_def)

lemma attestations_collateral:
  assumes life: "lifecycle s s'" and ok: "collateral_ok s"
    and e': "kv_get (Keeper.Escrow s') i = Some e'" and a: "a \<in> set (Escrow.Attestations e')"
  shows "backed s' (Attestation.BondId a) (Attestation.Verifier a) (attestationPurpose i) (Escrow.Amount e')"
proof (cases "\<exists>e. kv_get (Keeper.Escrow s) i = Some e \<and> a \<in> set (Escrow.Attestations e)")
  case True
  then obtain e where e: "kv_get (Keeper.Escrow s) i = Some e" "a \<in> set (Escrow.Attestations e)" by blast
  have "escrow_step e e'"
    using table_step_Some [of escrow_step born_escrow "Keeper.Escrow s" "Keeper.Escrow s'" i e] life e(1) e'
    by (auto simp: lifecycle_def)
  then have "Escrow.Amount e' = Escrow.Amount e" by (simp add: escrow_step_def same_terms_def)
  moreover have "backed s (Attestation.BondId a) (Attestation.Verifier a) (attestationPurpose i) (Escrow.Amount e)"
    using ok e by (simp add: collateral_ok_def)
  ultimately show ?thesis using life backed_step [of born_bond s s'] by (simp add: lifecycle_def)
next
  case False
  then show ?thesis using life e' a unfolding lifecycle_def attestations_backed_def by blast
qed

lemma disputes_collateral:
  assumes life: "lifecycle s s'" and ok: "collateral_ok s" and d': "kv_get (Keeper.Dispute s') i = Some d'"
  shows "backed s' (Dispute.BondId d') (Dispute.Opener d') (disputePurpose i) MinDisputeBond
      \<and> distinct (map Vote.Juror (Dispute.Votes d'))
      \<and> (\<forall>v \<in> set (Dispute.Votes d'). backed s' (Vote.BondId v) (Vote.Juror v) (jurorPurpose i) MinJurorStake)"
proof -
  have tb: "table_step bond_step born_bond (Keeper.Bond s) (Keeper.Bond s')"
    and td: "table_step dispute_step born_dispute (Keeper.Dispute s) (Keeper.Dispute s')"
    and db: "disputes_backed s s'" using life by (simp_all add: lifecycle_def)
  note keep = backed_step [OF tb]
  have votes: "backed s' (Vote.BondId v) (Vote.Juror v) (jurorPurpose i) MinJurorStake"
    if "v \<in> set (Dispute.Votes d')" for v
    using db d' that ok keep unfolding disputes_backed_def collateral_ok_def by meson
  show ?thesis
  proof (cases "kv_get (Keeper.Dispute s) i")
    case None
    then have "born_dispute d'" using table_step_cases [OF td d'] by simp
    moreover have "backed s' (Dispute.BondId d') (Dispute.Opener d') (disputePurpose i) MinDisputeBond"
      using db d' None unfolding disputes_backed_def by (metis option.distinct(1))
    ultimately show ?thesis using votes by (simp add: born_dispute_def)
  next
    case (Some d)
    then have st: "dispute_step d d'" using table_step_cases [OF td d'] by simp
    have "backed s (Dispute.BondId d) (Dispute.Opener d) (disputePurpose i) MinDisputeBond"
      "distinct (map Vote.Juror (Dispute.Votes d))"
      using ok Some by (simp_all add: collateral_ok_def)
    then show ?thesis using dispute_step_fields [OF st] keep votes by simp
  qed
qed

lemma collateral_ok_lifecycle: "lifecycle s s' \<Longrightarrow> collateral_ok s \<Longrightarrow> collateral_ok s'"
  using attestations_collateral disputes_collateral unfolding collateral_ok_def [of s'] by blast

lemma distinct_bonds:
  assumes "distinct (map who xs)" and "\<forall>x \<in> set xs. backed s (bondId x) (who x) pu amt"
  shows "distinct (map bondId xs)"
proof -
  have "inj_on who (set xs)" using assms(1) by (simp add: distinct_map)
  moreover have "who x = who y" if "x \<in> set xs" "y \<in> set xs" "bondId x = bondId y" for x y
    using assms(2) that unfolding backed_def by (metis option.inject)
  ultimately have "inj_on bondId (set xs)" unfolding inj_on_def by blast
  then show ?thesis using assms(1) by (simp add: distinct_map)
qed

lemma disputeBondRecipient_judged [simp]:
  "disputeBondRecipient ch d (judged env ch' ac e) res = disputeBondRecipient ch d e res"
  by (simp only: disputeBondRecipient_def openerUpheld_def judged_simps)

text \<open>Everything a verdict pays, in the order in which it is paid.\<close>

lemma juror_stakes_paid:
  assumes run: "settleJurorStakes d ac w (Dispute.Votes d) s = (Inr (), s')" and inv: "core_inv s" "total_supply s < 2 ^ 64"
    and col: "collateral_ok s0" and d: "kv_get (Keeper.Dispute s0) i = Some d"
  shows "balance s' a = balance s a + (\<Sum>v\<leftarrow>Dispute.Votes d.
      stakeDue s (Vote.BondId v) (jurorPurpose (Dispute.Id d)) (if Vote.Accept v = ac then Vote.Juror v else w) a)"
proof -
  have "distinct (map Vote.BondId (Dispute.Votes d))"
    using col d distinct_bonds [of Vote.Juror "Dispute.Votes d"] unfolding collateral_ok_def by blast
  from juror_loop.paid [OF run inv this, unfolded juror_dues] show ?thesis .
qed

lemma attestation_stakes_paid:
  assumes run: "settleAttestationStakes d (judged env ch ac e) ac w (Escrow.Attestations e) s = (Inr (), s')"
    and inv: "core_inv s" "total_supply s < 2 ^ 64"
    and col: "collateral_ok s0" and wf: "escrows_wf s0" and e: "kv_get (Keeper.Escrow s0) i = Some e"
  shows "balance s' a = balance s a + (\<Sum>t\<leftarrow>Escrow.Attestations e.
      stakeDue s (Attestation.BondId t) (attestationPurpose (Escrow.Id e))
        (if Attestation.Passed t = ac then Attestation.Verifier t else w) a)"
proof -
  have "distinct (map Attestation.Verifier (Escrow.Attestations e))"
    using wf e by (auto simp: escrows_wf_def escrow_wf_def)
  then have "distinct (map Attestation.BondId (Escrow.Attestations e))"
    using col e distinct_bonds [of Attestation.Verifier "Escrow.Attestations e"] unfolding collateral_ok_def by blast
  from attestation_loop.paid [OF run inv this, unfolded attestation_dues] show ?thesis
    by (simp only: judged_simps)
qed

lemma verdict_payout:
  assumes run: "ResolveDispute env msg s = (Inr r, s')" and inv: "core_inv s" and room: "total_supply s < 2 ^ 64"
    and wf: "escrows_wf s" and col: "collateral_ok s"
  shows "\<exists>d e ac ch. kv_get (Keeper.Dispute s) (MsgResolveDispute.DisputeId msg) = Some d
     \<and> kv_get (Keeper.Escrow s) (Dispute.EscrowId d) = Some e
     \<and> Escrow.Status e = (if ch then EscrowStatusChallenged else EscrowStatusInJury) \<and> r = resolutionOf ac
     \<and> kv_get (Keeper.Escrow s') (Dispute.EscrowId d) = Some (judged env ch ac e)
     \<and> (let w = (if ac then Escrow.Payee e else Escrow.Payer e) in \<forall>a.
          balance s' a = balance s a
            + (if \<not> ch \<and> a = w then unat (Escrow.Amount e) else 0)
            + stakeDue s (Dispute.BondId d) (disputePurpose (MsgResolveDispute.DisputeId msg))
                (disputeBondRecipient ch d e r) a
            + (\<Sum>v\<leftarrow>Dispute.Votes d. stakeDue s (Vote.BondId v) (jurorPurpose (MsgResolveDispute.DisputeId msg))
                 (if Vote.Accept v = ac then Vote.Juror v else w) a)
            + (\<Sum>t\<leftarrow>Escrow.Attestations e. stakeDue s (Attestation.BondId t) (attestationPurpose (Dispute.EscrowId d))
                 (if Attestation.Passed t = ac then Attestation.Verifier t else w) a))"
proof -
  let ?i = "MsgResolveDispute.DisputeId msg"
  obtain d e ac ch s1 s2 s3 s4 n ats where d: "kv_get (Keeper.Dispute s) ?i = Some d"
    and e: "kv_get (Keeper.Escrow s) (Dispute.EscrowId d) = Some e"
      "Escrow.Status e = (if ch then EscrowStatusChallenged else EscrowStatusInJury)"
    and r: "r = resolutionOf ac"
    and v: "settleVerdict env ch ac e s = (Inr (judged env ch ac e, resolutionOf ac), s1)"
    and b: "settleDisputeBond ch d (judged env ch ac e) (resolutionOf ac) s1 = (Inr (), s2)"
    and j: "settleJurorStakes d ac (if ac then Escrow.Payee e else Escrow.Payer e) (Dispute.Votes d) s2 = (Inr (), s3)"
    and t: "settleAttestationStakes d (judged env ch ac e) ac (if ac then Escrow.Payee e else Escrow.Payer e)
          (Escrow.Attestations e) s3 = (Inr (), s4)"
    and s': "s' = emit n ats (setDispute ?i
          (d\<lparr>Dispute.Status := DisputeStatusResolved, Dispute.Resolution := resolutionOf ac\<rparr>) s4)"
    using ResolveDispute_success [OF run inv] by blast
  let ?w = "if ac then Escrow.Payee e else Escrow.Payer e"
  note sv = settleVerdict_ok [OF v e inv room] and ok = settlements_ok [OF inv room e v b j t]
  have ids: "Dispute.Id d = ?i" "Escrow.Id e = Dispute.EscrowId d"
    using core_inv_dispute [OF inv d] core_inv_escrow [OF inv e(1)] by simp_all
  have inv1: "core_inv s1" "total_supply s1 < 2 ^ 64" and inv2: "core_inv s2" "total_supply s2 < 2 ^ 64"
    and inv3: "core_inv s3" "total_supply s3 < 2 ^ 64" using ok room by simp_all
  have bonds1: "Keeper.Bond s1 = Keeper.Bond s" using sv by blast
  have live1: "live s1 k p = live s k p" for k p using bonds1 by (simp add: live_def)
  have live2: "live s2 k (jurorPurpose i) = live s k (jurorPurpose i)"
      "live s2 k (attestationPurpose i) = live s k (attestationPurpose i)" for k i
    using settleDisputeBond_ok(2) [OF b inv1] live1 by simp_all
  have live3: "live s3 k (attestationPurpose i) = live s k (attestationPurpose i)" for k i
    using juror_loop.other [OF j inv2] live2 by simp
  note pj = juror_stakes_paid [OF j inv2 col d, unfolded ids]
    and pt = attestation_stakes_paid [OF t inv3 col wf e(1), unfolded ids]
  have due1: "stakeDue s1 k p = stakeDue s k p" for k p by (intro stakeDue_cong live1)
  have due2: "stakeDue s2 k (jurorPurpose i) = stakeDue s k (jurorPurpose i)" for k i by (intro stakeDue_cong live2)
  have due3: "stakeDue s3 k (attestationPurpose i) = stakeDue s k (attestationPurpose i)" for k i
    by (intro stakeDue_cong live3)
  have "balance s' a = balance s4 a" for a by (simp add: s')
  moreover have "balance s1 a = balance s a + (if \<not> ch \<and> a = ?w then unat (Escrow.Amount e) else 0)" for a
    using sv by blast
  moreover have "balance s2 a = balance s1 a + stakeDue s (Dispute.BondId d) (disputePurpose ?i) (disputeBondRecipient ch d e r) a" for a
    using settleDisputeBond_ok(1) [OF b inv1, of a] ids r due1 by simp
  moreover note pj pt
  moreover have esc: "Keeper.Escrow s' = kv_set (Keeper.Escrow s) (Dispute.EscrowId d) (judged env ch ac e)"
    using sv ok by (simp add: s' only_bonds_def)
  ultimately have bal: "balance s' a = balance s a + (if \<not> ch \<and> a = ?w then unat (Escrow.Amount e) else 0)
       + stakeDue s (Dispute.BondId d) (disputePurpose ?i) (disputeBondRecipient ch d e r) a
       + (\<Sum>v\<leftarrow>Dispute.Votes d.
           stakeDue s (Vote.BondId v) (jurorPurpose ?i) (if Vote.Accept v = ac then Vote.Juror v else ?w) a)
       + (\<Sum>t\<leftarrow>Escrow.Attestations e. stakeDue s (Attestation.BondId t) (attestationPurpose (Dispute.EscrowId d))
           (if Attestation.Passed t = ac then Attestation.Verifier t else ?w) a)" for a
    by (simp only: pt pj due2 due3)
  have "kv_get (Keeper.Escrow s') (Dispute.EscrowId d) = Some (judged env ch ac e)"
    using esc by simp
  then show ?thesis using d e r bal by (auto simp only: Let_def)
qed

section \<open>A sample case\<close>

text \<open>
  The verified release of the theory \<open>Verifier\<close>, challenged as fraudulent by the payer: two of
  the three jurors reject the release.
\<close>

lemma deal2_seqs [simp]: "Keeper.VouchSeq (deal2 p) = 0" "Keeper.EscrowSeq (deal2 p) = 1" "Keeper.GateSeq (deal2 p) = 0"
  by (simp_all add: deal2_def AttestEscrow_def Let_def getRegistered_def deal1_def SubmitEscrow_def dealSubmit_def
      deal0_def LockEscrow_def checkVerifierTerms_def ensureRegistered_def)

lemma deal3_inv [simp]: "core_inv deal3" "total_supply deal3 = 6000"
  using verified_release.effect [OF deal3_run] by (simp_all add: ids_free_def)

definition paidEscrow :: Escrow where
  "paidEscrow = (dealEscrow True)\<lparr>Escrow.Status := EscrowStatusReleased, Escrow.ReleasedAt := 400,
     Escrow.ChallengeDeadline := 400 + ChallengeWindowSeconds\<rparr>"

definition carolsVerdict :: Attestation where
  "carolsVerdict = verdict (sampleEnv 300) (dealAttest True) deliveredEscrow 0"

lemma carolsVerdict_simps [simp]: "Attestation.Verifier carolsVerdict = ''carol''"
  "Attestation.Passed carolsVerdict" "Attestation.BondId carolsVerdict = 0"
  by (simp_all add: carolsVerdict_def verdict_def)

lemma paidEscrow_simps [simp]:
  "Escrow.Id paidEscrow = 0" "Escrow.Payer paidEscrow = ''alice''" "Escrow.Payee paidEscrow = ''bob''"
  "Escrow.Amount paidEscrow = 300" "Escrow.Status paidEscrow = EscrowStatusReleased"
  "Escrow.ChallengeDeadline paidEscrow = 400 + ChallengeWindowSeconds"
  "Escrow.Attestations paidEscrow = [carolsVerdict]"
  by (simp_all add: paidEscrow_def dealEscrow_def carolsVerdict_def)

lemma deal3_eq:
  "\<exists>n ats pb. deal3 = emit n ats (setEscrow 0 paidEscrow (setAccount ''bob'' (funded ''bob'' 1300)
     (ensureAuthAccount (sampleEnv 400) pb (deal2 True))))"
proof -
  obtain pb s1 n ats where
    cr: "creditAccount (sampleEnv 400) ''bob'' pb 300 (deal2 True) = (Inr (), s1)"
    and eq: "deal3 = emit n ats (setEscrow 0 paidEscrow s1)"
    using VerifiedRelease_success [OF deal3_run] by (auto simp: paidEscrow_def dealEscrow_def)
  then show ?thesis by (auto simp: creditAccount_cases checkNewAccountCredit_def)
qed

lemma deal3_fields [simp]:
  "kv_get (Keeper.Escrow deal3) i = (if i = 0 then Some paidEscrow else None)"
  "kv_get (Keeper.Account deal3) a =
     (if a = ''bob'' then Some (funded ''bob'' 1300) else kv_get (Keeper.Account (deal2 True)) a)"
  "Keeper.Bond deal3 = Keeper.Bond (deal2 True)" "Keeper.BondSeq deal3 = 1"
  "Keeper.Dispute deal3 = kv_empty" "Keeper.DisputeSeq deal3 = 0"
  "Keeper.VouchSeq deal3 = 0" "Keeper.EscrowSeq deal3 = 1" "Keeper.GateSeq deal3 = 0"
  "Keeper.Params deal3 = Keeper.Params sampleState"
proof -
  obtain n ats pb where eq: "deal3 = emit n ats (setEscrow 0 paidEscrow (setAccount ''bob'' (funded ''bob'' 1300)
     (ensureAuthAccount (sampleEnv 400) pb (deal2 True))))" using deal3_eq by blast
  show "kv_get (Keeper.Escrow deal3) i = (if i = 0 then Some paidEscrow else None)"
    "kv_get (Keeper.Account deal3) a =
       (if a = ''bob'' then Some (funded ''bob'' 1300) else kv_get (Keeper.Account (deal2 True)) a)"
    "Keeper.Bond deal3 = Keeper.Bond (deal2 True)" "Keeper.BondSeq deal3 = 1"
    "Keeper.Dispute deal3 = kv_empty" "Keeper.DisputeSeq deal3 = 0"
    "Keeper.VouchSeq deal3 = 0" "Keeper.EscrowSeq deal3 = 1" "Keeper.GateSeq deal3 = 0"
    "Keeper.Params deal3 = Keeper.Params sampleState"
    unfolding eq by simp_all
qed

definition fraudClaim :: MsgOpenDispute where
  "fraudClaim = \<lparr>MsgOpenDispute.Creator = ''alice'', MsgOpenDispute.EscrowId = 0, MsgOpenDispute.Reason = ''fraud'',
     MsgOpenDispute.BondAmount = 200\<rparr>"

definition case0 :: Keeper where
  "case0 = snd (OpenDispute (sampleEnv 500) fraudClaim deal3)"

lemma sample_window: "500 <s (400 + ChallengeWindowSeconds)" "\<not> 400 + ChallengeWindowSeconds <=s (500 :: i64)"
  "400 + ChallengeWindowSeconds \<noteq> (0 :: i64)"
  by (simp_all add: ChallengeWindowSeconds_def i64_less_iff i64_le_iff)

lemma case0_run: "OpenDispute (sampleEnv 500) fraudClaim deal3 = (Inr 0, case0)"
  using sample_window
  by (simp add: case0_def OpenDispute_def fraudClaim_def frozenStatusFor_def getRegistered_def MinDisputeBond_def Let_def)

lemma case0_inv [simp]: "core_inv case0" "total_supply case0 = 6000"
  using open_dispute.effect [OF case0_run] by (simp_all add: ids_free_def)

lemma case0_eq:
  "\<exists>n ats. case0 = emit n ats (setEscrow 0 (paidEscrow\<lparr>Escrow.Status := EscrowStatusChallenged\<rparr>)
     (setDispute 0 (openedDispute fraudClaim 0 1)
       (lockBond ''alice'' (funded ''alice'' 700) 200 (disputePurpose 0) [] (FormatUint 0)
         (deal3\<lparr>Keeper.DisputeSeq := 1\<rparr>))))"
  using OpenDispute_success [OF case0_run] sample_window
  by (auto simp: fraudClaim_def frozenStatusFor_def getRegistered_def)

lemma case0_fields [simp]:
  "kv_get (Keeper.Escrow case0) i = (if i = 0 then Some (paidEscrow\<lparr>Escrow.Status := EscrowStatusChallenged\<rparr>) else None)"
  "kv_get (Keeper.Account case0) a =
     (if a = ''alice'' then Some (funded ''alice'' 500) else kv_get (Keeper.Account deal3) a)"
  "kv_get (Keeper.Bond case0) i = (if i = 1 then
      Some (activeBond 1 ''alice'' 200 (disputePurpose 0) [] (FormatUint 0)) else kv_get (Keeper.Bond (deal2 True)) i)"
  "Keeper.BondSeq case0 = 2" "kv_get (Keeper.Dispute case0) i = (if i = 0 then Some (openedDispute fraudClaim 0 1) else None)"
  "Keeper.DisputeSeq case0 = 1" "Keeper.VouchSeq case0 = 0" "Keeper.EscrowSeq case0 = 1" "Keeper.GateSeq case0 = 0"
  "Keeper.Params case0 = Keeper.Params sampleState"
proof -
  obtain n ats where eq: "case0 = emit n ats (setEscrow 0 (paidEscrow\<lparr>Escrow.Status := EscrowStatusChallenged\<rparr>)
     (setDispute 0 (openedDispute fraudClaim 0 1)
       (lockBond ''alice'' (funded ''alice'' 700) 200 (disputePurpose 0) [] (FormatUint 0)
         (deal3\<lparr>Keeper.DisputeSeq := 1\<rparr>))))" using case0_eq by blast
  show "kv_get (Keeper.Escrow case0) i = (if i = 0 then Some (paidEscrow\<lparr>Escrow.Status := EscrowStatusChallenged\<rparr>) else None)"
    "kv_get (Keeper.Account case0) a =
       (if a = ''alice'' then Some (funded ''alice'' 500) else kv_get (Keeper.Account deal3) a)"
    "kv_get (Keeper.Bond case0) i = (if i = 1 then
        Some (activeBond 1 ''alice'' 200 (disputePurpose 0) [] (FormatUint 0)) else kv_get (Keeper.Bond (deal2 True)) i)"
    "Keeper.BondSeq case0 = 2" "kv_get (Keeper.Dispute case0) i = (if i = 0 then Some (openedDispute fraudClaim 0 1) else None)"
    "Keeper.DisputeSeq case0 = 1" "Keeper.VouchSeq case0 = 0" "Keeper.EscrowSeq case0 = 1" "Keeper.GateSeq case0 = 0"
    "Keeper.Params case0 = Keeper.Params sampleState"
    unfolding eq by simp_all
qed

definition jurorVote :: "string \<Rightarrow> MsgCastVote" where
  "jurorVote j = \<lparr>MsgCastVote.Creator = j, MsgCastVote.DisputeId = 0, MsgCastVote.Accept = False, MsgCastVote.StakeAmount = 150\<rparr>"

definition case1 :: Keeper where
  "case1 = snd (CastVote (sampleEnv 600) (jurorVote ''dave'') case0)"

lemma sample_jurors [simp]: "resolveAnchors env [''dave'', ''erin'', ''frank''] = [''dave'', ''erin'', ''frank'']"
  by (simp add: resolveAnchors_def)

lemma case1_run: "CastVote (sampleEnv 600) (jurorVote ''dave'') case0 = (Inr (), case1)"
  by (simp add: case1_def CastVote_def jurorVote_def getRegistered_def MinJurorStake_def Let_def)

lemma case1_inv [simp]: "core_inv case1" "total_supply case1 = 6000"
  using cast_vote.effect [OF case1_run] by (simp_all add: ids_free_def)

definition jurorsVote :: "string \<Rightarrow> u64 \<Rightarrow> Vote" where
  "jurorsVote j i = \<lparr>Vote.Juror = j, Vote.Accept = False, Vote.BondId = i\<rparr>"

lemma jurorsVote_simps [simp]: "Vote.Juror (jurorsVote j i) = j" "\<not> Vote.Accept (jurorsVote j i)"
  "Vote.BondId (jurorsVote j i) = i"
  by (simp_all add: jurorsVote_def)

lemma case1_fields [simp]:
  "Keeper.Escrow case1 = Keeper.Escrow case0"
  "kv_get (Keeper.Account case1) a =
     (if a = ''dave'' then Some (funded ''dave'' 850) else kv_get (Keeper.Account case0) a)"
  "kv_get (Keeper.Bond case1) i = (if i = 2 then
      Some (activeBond 2 ''dave'' 150 (jurorPurpose 0) [] (FormatUint 0)) else kv_get (Keeper.Bond case0) i)"
  "Keeper.BondSeq case1 = 3" "kv_get (Keeper.Dispute case1) i = (if i = 0 then
      Some ((openedDispute fraudClaim 0 1)\<lparr>Dispute.Votes := [jurorsVote ''dave'' 2]\<rparr>) else None)"
  "Keeper.DisputeSeq case1 = 1" "Keeper.VouchSeq case1 = 0" "Keeper.EscrowSeq case1 = 1" "Keeper.GateSeq case1 = 0"
  "Keeper.Params case1 = Keeper.Params sampleState"
  by (simp_all add: case1_def CastVote_def jurorVote_def jurorsVote_def getRegistered_def MinJurorStake_def Let_def
      activeBond_def)

definition case2 :: Keeper where
  "case2 = snd (CastVote (sampleEnv 700) (jurorVote ''erin'') case1)"

lemma case2_run: "CastVote (sampleEnv 700) (jurorVote ''erin'') case1 = (Inr (), case2)"
  by (simp add: case2_def CastVote_def jurorVote_def getRegistered_def MinJurorStake_def Let_def)

lemma case2_inv [simp]: "core_inv case2" "total_supply case2 = 6000"
  using cast_vote.effect [OF case2_run] by (simp_all add: ids_free_def)

lemma case2_fields [simp]:
  "Keeper.Escrow case2 = Keeper.Escrow case0"
  "kv_get (Keeper.Account case2) a =
     (if a = ''erin'' then Some (funded ''erin'' 850) else kv_get (Keeper.Account case1) a)"
  "kv_get (Keeper.Bond case2) i = (if i = 3 then
      Some (activeBond 3 ''erin'' 150 (jurorPurpose 0) [] (FormatUint 0)) else kv_get (Keeper.Bond case1) i)"
  "Keeper.BondSeq case2 = 4" "kv_get (Keeper.Dispute case2) i = (if i = 0 then
      Some ((openedDispute fraudClaim 0 1)\<lparr>Dispute.Votes := [jurorsVote ''dave'' 2, jurorsVote ''erin'' 3]\<rparr>) else None)"
  "Keeper.DisputeSeq case2 = 1" "Keeper.VouchSeq case2 = 0" "Keeper.EscrowSeq case2 = 1" "Keeper.GateSeq case2 = 0"
  "Keeper.Params case2 = Keeper.Params sampleState"
  by (simp_all add: case2_def CastVote_def jurorVote_def jurorsVote_def getRegistered_def MinJurorStake_def Let_def
      activeBond_def)

lemma case2_ok [simp]: "escrows_wf case2" "collateral_ok case2"
proof -
  have "escrow_wf (dealEscrow True)" using deal2_wf [of True] by (simp add: escrows_wf_def)
  then show "escrows_wf case2" by (simp add: escrows_wf_def escrow_wf_def paidEscrow_def)
  show "collateral_ok case2"
    by (simp add: collateral_ok_def backed_def fraudClaim_def MinDisputeBond_def MinJurorStake_def)
qed

definition rejection :: Keeper where
  "rejection = snd (ResolveDispute (sampleEnv 800)
     \<lparr>MsgResolveDispute.Creator = ''frank'', MsgResolveDispute.DisputeId = 0\<rparr> case2)"

lemma rejection_run: "ResolveDispute (sampleEnv 800)
     \<lparr>MsgResolveDispute.Creator = ''frank'', MsgResolveDispute.DisputeId = 0\<rparr> case2 =
     (Inr DisputeResolutionReject, rejection)"
  by (simp add: rejection_def ResolveDispute_def countVotes_eq settleVerdict_def settleDisputeBond_def
      disputeBondRecipient_def openerUpheld_def settleBond_def fraudClaim_def Let_def)

lemma verdict_payout_for:
  assumes "ResolveDispute env msg s = (Inr r, s')" and "core_inv s" and "total_supply s < 2 ^ 64"
    and "escrows_wf s" and "collateral_ok s"
    and d: "kv_get (Keeper.Dispute s) (MsgResolveDispute.DisputeId msg) = Some d"
    and e: "kv_get (Keeper.Escrow s) (Dispute.EscrowId d) = Some e"
    and ac: "ac = (r = DisputeResolutionAccept)" and w: "w = (if ac then Escrow.Payee e else Escrow.Payer e)"
  shows "\<exists>ch. Escrow.Status e = (if ch then EscrowStatusChallenged else EscrowStatusInJury) \<and> (\<forall>a. balance s' a = balance s a
      + (if \<not> ch \<and> a = w then unat (Escrow.Amount e) else 0)
      + stakeDue s (Dispute.BondId d) (disputePurpose (MsgResolveDispute.DisputeId msg)) (disputeBondRecipient ch d e r) a
      + (\<Sum>v\<leftarrow>Dispute.Votes d. stakeDue s (Vote.BondId v) (jurorPurpose (MsgResolveDispute.DisputeId msg))
           (if Vote.Accept v = ac then Vote.Juror v else w) a)
      + (\<Sum>t\<leftarrow>Escrow.Attestations e. stakeDue s (Attestation.BondId t) (attestationPurpose (Dispute.EscrowId d))
           (if Attestation.Passed t = ac then Attestation.Verifier t else w) a))"
proof -
  obtain d' e' ac' ch where d': "kv_get (Keeper.Dispute s) (MsgResolveDispute.DisputeId msg) = Some d'"
    and e': "kv_get (Keeper.Escrow s) (Dispute.EscrowId d') = Some e'"
    and ch: "Escrow.Status e' = (if ch then EscrowStatusChallenged else EscrowStatusInJury)"
    and r: "r = resolutionOf ac'"
    and pay: "\<forall>a. balance s' a = balance s a
      + (if \<not> ch \<and> a = (if ac' then Escrow.Payee e' else Escrow.Payer e') then unat (Escrow.Amount e') else 0)
      + stakeDue s (Dispute.BondId d') (disputePurpose (MsgResolveDispute.DisputeId msg)) (disputeBondRecipient ch d' e' r) a
      + (\<Sum>v\<leftarrow>Dispute.Votes d'. stakeDue s (Vote.BondId v) (jurorPurpose (MsgResolveDispute.DisputeId msg))
           (if Vote.Accept v = ac' then Vote.Juror v else if ac' then Escrow.Payee e' else Escrow.Payer e') a)
      + (\<Sum>t\<leftarrow>Escrow.Attestations e'. stakeDue s (Attestation.BondId t) (attestationPurpose (Dispute.EscrowId d'))
           (if Attestation.Passed t = ac' then Attestation.Verifier t else if ac' then Escrow.Payee e' else Escrow.Payer e') a)"
    using verdict_payout [OF assms(1-5)] unfolding Let_def by blast
  have "d' = d" using d d' by simp
  moreover have "e' = e" using e e' calculation by simp
  moreover have "ac' = ac" using ac r by simp
  ultimately show ?thesis using ch pay unfolding w by blast
qed

section \<open>Verdicts go through\<close>

context stake_loop
begin

lemma accounts:
  "loop xs s = (Inr r, s') \<Longrightarrow> core_inv s \<Longrightarrow> total_supply s < 2 ^ 64 \<Longrightarrow>
     kv_get (Keeper.Account s') a = None \<longleftrightarrow> kv_get (Keeper.Account s) a = None"
proof (induction xs arbitrary: s)
  case (Cons x xs)
  show ?case
  proof (cases "live s (bondId x) purpose")
    case (Some b)
    then obtain n ats s1 where
      set: "settleBond (recipient x b) (b\<lparr>Bond.Status := status x\<rparr>) s = (Inr (), s1)"
      and rest: "loop xs (emit n ats s1) = (Inr r, s')" using turn [OF Cons.prems(1)] by blast
    note ok = turn_ok [OF set Some Cons.prems(2,3)]
    show ?thesis using Cons.IH [OF rest ok(2,3)] ok(7) by simp
  qed (use Cons loop_skip in auto)
qed (simp add: loop_nil)

end

lemma settleBond_total:
  "kv_get (Keeper.Account s) a \<noteq> None \<Longrightarrow> \<exists>s1. settleBond a b s = (Inr (), s1)"
  by (auto simp: settleBond_def)

lemma settleDisputeBond_total:
  assumes "kv_get (Keeper.Account s) (disputeBondRecipient ch d e res) \<noteq> None" and "core_inv s"
  shows "\<exists>s'. settleDisputeBond ch d e res s = (Inr (), s')
     \<and> (\<forall>a. kv_get (Keeper.Account s') a = None \<longleftrightarrow> kv_get (Keeper.Account s) a = None)"
proof (cases "live s (Dispute.BondId d) (disputePurpose (Dispute.Id d))")
  case None
  then show ?thesis by (auto simp: settleDisputeBond_def live_def split: option.splits if_splits)
next
  case (Some b)
  let ?st = "if openerUpheld d e res then BondStatusReleased else BondStatusSlashed"
  have b: "kv_get (Keeper.Bond s) (Dispute.BondId d) = Some b" "Bond.Status b = BondStatusActive"
    using Some by (simp_all add: live_Some)
  obtain s1 where set: "settleBond (disputeBondRecipient ch d e res) (b\<lparr>Bond.Status := ?st\<rparr>) s = (Inr (), s1)"
    using settleBond_total [OF assms(1)] by blast
  have "?st = BondStatusReleased \<or> ?st = BondStatusSlashed" by simp
  note ok = settleBond_ok(4) [OF b assms(2) this set]
  obtain n ats where "settleDisputeBond ch d e res s = (Inr (), emit n ats s1)"
    using Some set by (simp add: settleDisputeBond_def live_Some Let_def)
  then show ?thesis using ok by simp
qed

lemma settleVerdict_total:
  assumes "StringToBytes env (if ac then Escrow.Payee e else Escrow.Payer e) \<noteq> None"
    and "kv_get (Keeper.Account s) (if ac then Escrow.Payee e else Escrow.Payer e) \<noteq> None"
  shows "\<exists>s1. settleVerdict env ch ac e s = (Inr (judged env ch ac e, resolutionOf ac), s1)
     \<and> (\<forall>a. kv_get (Keeper.Account s1) a = None \<longleftrightarrow> kv_get (Keeper.Account s) a = None)"
proof -
  have "\<exists>er s1. settleVerdict env ch ac e s = (Inr er, s1)
     \<and> (\<forall>a. kv_get (Keeper.Account s1) a = None \<longleftrightarrow> kv_get (Keeper.Account s) a = None)"
    using assms
    by (cases ch; cases ac) (auto simp: settleVerdict_def creditAccount_cases checkNewAccountCredit_def Let_def)
  then show ?thesis using settleVerdict_value by blast
qed

text \<open>The four settlements only fail for want of an account of one of the parties.\<close>

lemma settlements_total:
  assumes inv: "core_inv s" and room: "total_supply s < 2 ^ 64"
    and e: "kv_get (Keeper.Escrow s) i = Some e" "Escrow.Status e = (if ch then EscrowStatusChallenged else EscrowStatusInJury)"
    and win: "StringToBytes env w \<noteq> None" "w = (if ac then Escrow.Payee e else Escrow.Payer e)"
    and acc: "\<forall>a \<in> {Escrow.Payer e, Escrow.Payee e, Dispute.Opener d} \<union> Vote.Juror ` set (Dispute.Votes d)
        \<union> Attestation.Verifier ` set (Escrow.Attestations e). kv_get (Keeper.Account s) a \<noteq> None"
  shows "\<exists>s1 s2 s3 s4. settleVerdict env ch ac e s = (Inr (judged env ch ac e, resolutionOf ac), s1)
     \<and> settleDisputeBond ch d (judged env ch ac e) (resolutionOf ac) s1 = (Inr (), s2)
     \<and> settleJurorStakes d ac w (Dispute.Votes d) s2 = (Inr (), s3)
     \<and> settleAttestationStakes d (judged env ch ac e) ac w (Escrow.Attestations e) s3 = (Inr (), s4)"
proof -
  have w: "kv_get (Keeper.Account s) w \<noteq> None" using acc win(2) by (cases ac) simp_all
  obtain s1 where v: "settleVerdict env ch ac e s = (Inr (judged env ch ac e, resolutionOf ac), s1)"
    and a1: "\<And>a. kv_get (Keeper.Account s1) a = None \<longleftrightarrow> kv_get (Keeper.Account s) a = None"
    using settleVerdict_total [of env ac e s ch] win w by blast
  note sv = settleVerdict_ok [OF v e inv room]
  have inv1: "core_inv s1" "total_supply s1 < 2 ^ 64" using sv room by simp_all
  have "disputeBondRecipient ch d e (resolutionOf ac) \<in> {Escrow.Payer e, Escrow.Payee e, Dispute.Opener d}
      \<union> Attestation.Verifier ` set (Escrow.Attestations e)"
    by (auto simp: disputeBondRecipient_def Let_def find_Some_iff split: option.splits)
  then have "kv_get (Keeper.Account s1) (disputeBondRecipient ch d (judged env ch ac e) (resolutionOf ac)) \<noteq> None"
    using acc a1 by auto
  then obtain s2 where b: "settleDisputeBond ch d (judged env ch ac e) (resolutionOf ac) s1 = (Inr (), s2)"
    and a2: "\<And>a. kv_get (Keeper.Account s2) a = None \<longleftrightarrow> kv_get (Keeper.Account s1) a = None"
    using settleDisputeBond_total [OF _ inv1(1)] by blast
  have o2: "only_bonds s1 s2" using settleDisputeBond_only [OF b inv1(1)] .
  then have inv2: "core_inv s2" "total_supply s2 < 2 ^ 64" using inv1 by (simp_all add: only_bonds_def)
  have "\<exists>s3. settleJurorStakes d ac w (Dispute.Votes d) s2 = (Inr (), s3)"
    using acc w a1 a2 by (intro juror_loop.total [OF inv2]) auto
  then obtain s3 where j: "settleJurorStakes d ac w (Dispute.Votes d) s2 = (Inr (), s3)" by blast
  note a3 = juror_loop.accounts [OF j inv2]
  have inv3: "core_inv s3" "total_supply s3 < 2 ^ 64"
    using juror_loop.only [OF j inv2] inv2 by (simp_all add: only_bonds_def)
  have "\<exists>s4. settleAttestationStakes d (judged env ch ac e) ac w (Escrow.Attestations e) s3 = (Inr (), s4)"
    using acc w a1 a2 a3 by (intro attestation_loop.total [OF inv3]) auto
  then show ?thesis using v b j by blast
qed

section \<open>Properties\<close>

text \<open>
  C18: A vote is a staked vote of a juror who has not voted. A successful \<open>CastVote\<close> comes
  from an anchor, on an open dispute on which the sender had no vote; it locks at least the
  minimal stake of the sender in a bond of the protocol; it appends exactly the sender's vote;
  and from then on the sender cannot vote on the dispute again.
\<close>

theorem one_staked_vote_per_juror:
  assumes "CastVote env msg s = (Inr r, s')" and "core_inv s"
  shows "\<exists>d params i. kv_get (Keeper.Dispute s) (MsgCastVote.DisputeId msg) = Some d
     \<and> Dispute.Status d = DisputeStatusOpen \<and> Keeper.Params s = Some params
     \<and> MsgCastVote.Creator msg \<in> set (resolveAnchors env (Params.Anchors params))
     \<and> MsgCastVote.Creator msg \<notin> Vote.Juror ` set (Dispute.Votes d)
     \<and> kv_get (Keeper.Dispute s') (MsgCastVote.DisputeId msg) = Some (d\<lparr>Dispute.Votes := Dispute.Votes d @
          [\<lparr>Vote.Juror = MsgCastVote.Creator msg, Vote.Accept = MsgCastVote.Accept msg, Vote.BondId = i\<rparr>]\<rparr>)
     \<and> backed s' i (MsgCastVote.Creator msg) (jurorPurpose (MsgCastVote.DisputeId msg)) MinJurorStake
     \<and> balance s' (MsgCastVote.Creator msg) + unat (MsgCastVote.StakeAmount msg) = balance s (MsgCastVote.Creator msg)
     \<and> (\<forall>env' msg'. MsgCastVote.Creator msg' = MsgCastVote.Creator msg \<longrightarrow>
          MsgCastVote.DisputeId msg' = MsgCastVote.DisputeId msg \<longrightarrow>
          (\<exists>err. CastVote env' msg' s' = (Inl err, s')))"
proof -
  let ?c = "MsgCastVote.Creator msg" and ?i = "MsgCastVote.DisputeId msg"
  obtain d params acc n ats where d: "kv_get (Keeper.Dispute s) ?i = Some d" "Dispute.Status d = DisputeStatusOpen"
    and juror: "Keeper.Params s = Some params" "?c \<in> set (resolveAnchors env (Params.Anchors params))"
      "?c \<notin> Vote.Juror ` set (Dispute.Votes d)"
    and min: "MinJurorStake \<le> MsgCastVote.StakeAmount msg"
    and acc: "getRegistered s ?c = Some acc" "MsgCastVote.StakeAmount msg \<le> Account.Balance acc"
    and s': "s' = emit n ats (setDispute ?i
            (d\<lparr>Dispute.Votes := Dispute.Votes d @ [castedVote msg (Keeper.BondSeq s)]\<rparr>)
          (lockBond ?c acc (MsgCastVote.StakeAmount msg) (jurorPurpose ?i) [] (FormatUint ?i) s))"
    using CastVote_success [OF assms] by blast
  have d': "kv_get (Keeper.Dispute s') ?i =
      Some (d\<lparr>Dispute.Votes := Dispute.Votes d @ [castedVote msg (Keeper.BondSeq s)]\<rparr>)" by (simp add: s')
  have "Vote.Juror (castedVote msg (Keeper.BondSeq s)) = ?c" by (simp add: castedVote_def)
  then have "\<exists>err. CastVote env' msg' s' = (Inl err, s')"
    if "MsgCastVote.Creator msg' = ?c" "MsgCastVote.DisputeId msg' = ?i" for env' msg'
    using d' that by (simp add: CastVote_def split: option.splits)
  moreover have "balance s' ?c + unat (MsgCastVote.StakeAmount msg) = balance s ?c"
    using acc by (simp add: s' lockBond_def unat_sub_no_wrap balance_registered [OF acc(1)] u64_le_iff)
  moreover have "backed s' (Keeper.BondSeq s) ?c (jurorPurpose ?i) MinJurorStake"
    using min by (simp add: s' backed_def)
  ultimately show ?thesis using d juror d' by (auto simp: castedVote_def)
qed

lemma one_staked_vote_per_juror_witness:
  "balance case1 ''dave'' + 150 = balance case0 ''dave''
     \<and> (\<exists>err. CastVote (sampleEnv 900) (jurorVote ''dave'') case1 = (Inl err, case1))"
  using one_staked_vote_per_juror [OF case1_run] by (auto simp: jurorVote_def)

text \<open>
  C19: A verdict needs a quorum and a strict majority, follows it, and is final. When
  \<open>ResolveDispute\<close> succeeds, more than half of the eligible jurors' number voted, the accepting
  and the rejecting votes differ in number, the resolution is the side with more votes, the
  escrow was under jury control and ends released, or refunded when a pre-settlement case is
  rejected; the dispute is then resolved, and no later message votes on it or resolves it again.
\<close>

theorem verdict_by_quorum_and_majority:
  assumes "ResolveDispute env msg s = (Inr r, s')" and "core_inv s" and "total_supply s < 2 ^ 64"
  shows "\<exists>d e params. kv_get (Keeper.Dispute s) (MsgResolveDispute.DisputeId msg) = Some d
     \<and> Dispute.Status d = DisputeStatusOpen \<and> Keeper.Params s = Some params
     \<and> length (resolveAnchors env (Params.Anchors params)) < 2 * length (Dispute.Votes d)
     \<and> (r = DisputeResolutionAccept \<and>
            2 * length (filter Vote.Accept (Dispute.Votes d)) > length (Dispute.Votes d)
        \<or> r = DisputeResolutionReject \<and>
            2 * length (filter Vote.Accept (Dispute.Votes d)) < length (Dispute.Votes d))
     \<and> kv_get (Keeper.Escrow s) (Dispute.EscrowId d) = Some e
     \<and> Escrow.Status e \<in> {EscrowStatusInJury, EscrowStatusChallenged}
     \<and> (\<exists>e'. kv_get (Keeper.Escrow s') (Dispute.EscrowId d) = Some e' \<and> Escrow.Status e' =
          (if Escrow.Status e = EscrowStatusInJury \<and> r = DisputeResolutionReject then EscrowStatusRefunded
           else EscrowStatusReleased))
     \<and> kv_get (Keeper.Dispute s') (MsgResolveDispute.DisputeId msg) =
          Some (d\<lparr>Dispute.Status := DisputeStatusResolved, Dispute.Resolution := r\<rparr>)
     \<and> (\<forall>env' msg'. MsgResolveDispute.DisputeId msg' = MsgResolveDispute.DisputeId msg \<longrightarrow>
          (\<exists>err. ResolveDispute env' msg' s' = (Inl err, s')))
     \<and> (\<forall>env' msg'. MsgCastVote.DisputeId msg' = MsgResolveDispute.DisputeId msg \<longrightarrow>
          (\<exists>err. CastVote env' msg' s' = (Inl err, s')))"
proof -
  let ?i = "MsgResolveDispute.DisputeId msg"
  obtain d e params ac ch s1 s2 s3 s4 n ats where d: "kv_get (Keeper.Dispute s) ?i = Some d"
      "Dispute.Status d = DisputeStatusOpen" and p: "Keeper.Params s = Some params"
    and q: "length (resolveAnchors env (Params.Anchors params)) div 2 + 1 \<le> length (Dispute.Votes d)"
    and neq: "length (filter Vote.Accept (Dispute.Votes d)) \<noteq> length (filter (\<lambda>v. \<not> Vote.Accept v) (Dispute.Votes d))"
    and ac: "ac = (length (filter Vote.Accept (Dispute.Votes d)) > length (filter (\<lambda>v. \<not> Vote.Accept v) (Dispute.Votes d)))"
    and e: "kv_get (Keeper.Escrow s) (Dispute.EscrowId d) = Some e"
      "Escrow.Status e = (if ch then EscrowStatusChallenged else EscrowStatusInJury)"
    and r: "r = resolutionOf ac"
    and v: "settleVerdict env ch ac e s = (Inr (judged env ch ac e, resolutionOf ac), s1)"
    and b: "settleDisputeBond ch d (judged env ch ac e) (resolutionOf ac) s1 = (Inr (), s2)"
    and j: "settleJurorStakes d ac (if ac then Escrow.Payee e else Escrow.Payer e) (Dispute.Votes d) s2 = (Inr (), s3)"
    and t: "settleAttestationStakes d (judged env ch ac e) ac (if ac then Escrow.Payee e else Escrow.Payer e)
          (Escrow.Attestations e) s3 = (Inr (), s4)"
    and s': "s' = emit n ats (setDispute ?i
          (d\<lparr>Dispute.Status := DisputeStatusResolved, Dispute.Resolution := resolutionOf ac\<rparr>) s4)"
    using ResolveDispute_success [OF assms(1,2)] by blast
  note sv = settleVerdict_ok [OF v e assms(2,3)] and ok = settlements_ok [OF assms(2,3) e v b j t]
  have esc: "Keeper.Escrow s' = kv_set (Keeper.Escrow s) (Dispute.EscrowId d) (judged env ch ac e)"
    using sv ok by (simp add: s' only_bonds_def)
  have d': "kv_get (Keeper.Dispute s') ?i = Some (d\<lparr>Dispute.Status := DisputeStatusResolved, Dispute.Resolution := r\<rparr>)"
    by (simp add: s' r)
  have total: "length (filter Vote.Accept (Dispute.Votes d)) + length (filter (\<lambda>v. \<not> Vote.Accept v) (Dispute.Votes d))
      = length (Dispute.Votes d)" by (rule sum_length_filter_compl)
  have majority: "r = DisputeResolutionAccept \<and> 2 * length (filter Vote.Accept (Dispute.Votes d)) > length (Dispute.Votes d)
        \<or> r = DisputeResolutionReject \<and> 2 * length (filter Vote.Accept (Dispute.Votes d)) < length (Dispute.Votes d)"
    using total neq ac by (cases ac) (simp_all add: r resolutionOf_def)
  have quorum: "length (resolveAnchors env (Params.Anchors params)) < 2 * length (Dispute.Votes d)" using q by linarith
  have "\<exists>err. ResolveDispute env' msg' s' = (Inl err, s')" if "MsgResolveDispute.DisputeId msg' = ?i" for env' msg'
    using d' that by (simp add: ResolveDispute_def split: option.splits)
  moreover have "\<exists>err. CastVote env' msg' s' = (Inl err, s')" if "MsgCastVote.DisputeId msg' = ?i" for env' msg'
    using d' that by (simp add: CastVote_def split: option.splits)
  moreover have "Escrow.Status (judged env ch ac e) =
      (if Escrow.Status e = EscrowStatusInJury \<and> r = DisputeResolutionReject then EscrowStatusRefunded
       else EscrowStatusReleased)"
    using e(2) by (auto simp: judged_def r resolutionOf_def)
  ultimately show ?thesis
    using d p quorum majority e d' esc by (intro exI [of _ d] exI [of _ e] exI [of _ params]) simp
qed

lemma verdict_by_quorum_and_majority_witness:
  "\<exists>e'. kv_get (Keeper.Escrow rejection) 0 = Some e' \<and> Escrow.Status e' = EscrowStatusReleased"
  using verdict_by_quorum_and_majority [OF rejection_run] by (auto simp: fraudClaim_def)

text \<open>Who gets the bond of the opener, in the words of the case.\<close>

lemma disputeBondRecipient_rule:
  assumes "Escrow.Status e = (if ch then EscrowStatusChallenged else EscrowStatusInJury)"
    and "q = disputeBondRecipient ch d e r"
    and "upheld \<longleftrightarrow> Dispute.Opener d = Escrow.Payer e \<and> r = DisputeResolutionReject
                 \<or> Dispute.Opener d = Escrow.Payee e \<and> r = DisputeResolutionAccept"
    and "other = (if Dispute.Opener d = Escrow.Payer e then Escrow.Payee e else Escrow.Payer e)"
  shows "upheld \<Longrightarrow> q = Dispute.Opener d"
    and "\<not> upheld \<Longrightarrow> Escrow.Status e = EscrowStatusInJury \<Longrightarrow> q = other"
    and "\<not> upheld \<Longrightarrow> Escrow.Status e = EscrowStatusChallenged \<Longrightarrow>
           (\<exists>n < length (Escrow.Attestations e). q = Attestation.Verifier (Escrow.Attestations e ! n)
              \<and> Attestation.Passed (Escrow.Attestations e ! n) \<and> (\<forall>m < n. \<not> Attestation.Passed (Escrow.Attestations e ! m)))
         \<or> (\<forall>t \<in> set (Escrow.Attestations e). \<not> Attestation.Passed t) \<and> q = other"
  using assms
  by (auto simp: disputeBondRecipient_def openerUpheld_def Let_def find_Some_iff find_None_iff
      split: if_splits option.splits)

text \<open>
  C20: A verdict pays everybody exactly what is due. The winner of a pre-settlement case gets
  the escrow amount. The opener's bond goes back to the opener when the verdict went the opener's way (a
  payer wants a rejection, a payee an acceptance); else to the other party of the escrow before the
  settlement, and after it to the first verifier that passed the work, or to the other party when there is
  none. Every juror who voted with the verdict, and every verifier whose verdict agrees with it, gets the
  own stake back, and the stakes of the others go to the winner; each only while the stake is
  still locked. No other balance changes, and no coin is made or lost.
\<close>

theorem verdict_pays_everyone:
  assumes "ResolveDispute env msg s = (Inr r, s')" and "core_inv s" and "total_supply s < 2 ^ 64" and "ids_free s"
    and "escrows_wf s" and "collateral_ok s"
    and "kv_get (Keeper.Dispute s) (MsgResolveDispute.DisputeId msg) = Some d"
    and "kv_get (Keeper.Escrow s) (Dispute.EscrowId d) = Some e"
    and "ac \<longleftrightarrow> r = DisputeResolutionAccept" and "w = (if ac then Escrow.Payee e else Escrow.Payer e)"
    and "upheld \<longleftrightarrow> Dispute.Opener d = Escrow.Payer e \<and> r = DisputeResolutionReject
                 \<or> Dispute.Opener d = Escrow.Payee e \<and> r = DisputeResolutionAccept"
    and "other = (if Dispute.Opener d = Escrow.Payer e then Escrow.Payee e else Escrow.Payer e)"
  shows "total_supply s' = total_supply s \<and> (\<exists>q.
        (upheld \<longrightarrow> q = Dispute.Opener d)
      \<and> (\<not> upheld \<longrightarrow> Escrow.Status e = EscrowStatusInJury \<longrightarrow> q = other)
      \<and> (\<not> upheld \<longrightarrow> Escrow.Status e = EscrowStatusChallenged \<longrightarrow>
           (\<exists>n < length (Escrow.Attestations e). q = Attestation.Verifier (Escrow.Attestations e ! n)
              \<and> Attestation.Passed (Escrow.Attestations e ! n) \<and> (\<forall>m < n. \<not> Attestation.Passed (Escrow.Attestations e ! m)))
         \<or> (\<forall>t \<in> set (Escrow.Attestations e). \<not> Attestation.Passed t) \<and> q = other)
      \<and> (\<forall>a. balance s' a = balance s a
           + (if Escrow.Status e = EscrowStatusInJury \<and> a = w then unat (Escrow.Amount e) else 0)
           + stakeDue s (Dispute.BondId d) (disputePurpose (MsgResolveDispute.DisputeId msg)) q a
           + (\<Sum>v\<leftarrow>Dispute.Votes d. stakeDue s (Vote.BondId v) (jurorPurpose (MsgResolveDispute.DisputeId msg))
                (if Vote.Accept v = ac then Vote.Juror v else w) a)
           + (\<Sum>t\<leftarrow>Escrow.Attestations e. stakeDue s (Attestation.BondId t) (attestationPurpose (Dispute.EscrowId d))
                (if Attestation.Passed t = ac then Attestation.Verifier t else w) a)))"
proof -
  obtain ch where ch: "Escrow.Status e = (if ch then EscrowStatusChallenged else EscrowStatusInJury)" and pay: "\<forall>a. balance s' a = balance s a
      + (if \<not> ch \<and> a = w then unat (Escrow.Amount e) else 0)
      + stakeDue s (Dispute.BondId d) (disputePurpose (MsgResolveDispute.DisputeId msg)) (disputeBondRecipient ch d e r) a
      + (\<Sum>v\<leftarrow>Dispute.Votes d. stakeDue s (Vote.BondId v) (jurorPurpose (MsgResolveDispute.DisputeId msg))
           (if Vote.Accept v = ac then Vote.Juror v else w) a)
      + (\<Sum>t\<leftarrow>Escrow.Attestations e. stakeDue s (Attestation.BondId t) (attestationPurpose (Dispute.EscrowId d))
           (if Attestation.Passed t = ac then Attestation.Verifier t else w) a)"
    using verdict_payout_for [OF assms(1-3,5-8) _ assms(10)] assms(9) by blast
  have jury: "(Escrow.Status e = EscrowStatusInJury) = (\<not> ch)" using ch by simp
  note rule = disputeBondRecipient_rule [OF ch refl assms(11,12)]
  have total: "total_supply s' = total_supply s" using resolve_dispute.effect [OF assms(1-4)] by simp
  show ?thesis
    unfolding jury
    by (rule conjI [OF total], rule exI [of _ "disputeBondRecipient ch d e r"], intro conjI impI rule [unfolded jury])
      (assumption+, fact pay)
qed

lemma verdict_pays_everyone_witness:
  "balance rejection ''alice'' = 1100 \<and> balance rejection ''bob'' = 1300 \<and> balance rejection ''carol'' = 600
     \<and> balance rejection ''dave'' = 1000"
proof -
  let ?d = "(openedDispute fraudClaim 0 1)\<lparr>Dispute.Votes := [jurorsVote ''dave'' 2, jurorsVote ''erin'' 3]\<rparr>"
  let ?e = "paidEscrow\<lparr>Escrow.Status := EscrowStatusChallenged\<rparr>"
  let ?m = "\<lparr>MsgResolveDispute.Creator = ''frank'', MsgResolveDispute.DisputeId = 0\<rparr>"
  have opener: "Dispute.Opener ?d = ''alice''" "Dispute.BondId ?d = 1" "Dispute.EscrowId ?d = 0" by (simp_all add: fraudClaim_def)
  have case2: "core_inv case2" "total_supply case2 < 2 ^ 64" "ids_free case2" "escrows_wf case2" "collateral_ok case2"
      "kv_get (Keeper.Dispute case2) (MsgResolveDispute.DisputeId ?m) = Some ?d"
      "kv_get (Keeper.Escrow case2) (Dispute.EscrowId ?d) = Some ?e"
    by (simp_all add: ids_free_def opener)
  have sides: "False = (DisputeResolutionReject = DisputeResolutionAccept)"
      "''alice'' = (if False then Escrow.Payee ?e else Escrow.Payer ?e)"
      "True = (Dispute.Opener ?d = Escrow.Payer ?e \<and> DisputeResolutionReject = DisputeResolutionReject
             \<or> Dispute.Opener ?d = Escrow.Payee ?e \<and> DisputeResolutionReject = DisputeResolutionAccept)"
      "''bob'' = (if Dispute.Opener ?d = Escrow.Payer ?e then Escrow.Payee ?e else Escrow.Payer ?e)"
    by (simp_all add: opener)
  obtain q where q: "q = ''alice''" and pay: "\<forall>a. balance rejection a = balance case2 a
      + (if Escrow.Status ?e = EscrowStatusInJury \<and> a = ''alice'' then unat (Escrow.Amount ?e) else 0)
      + stakeDue case2 (Dispute.BondId ?d) (disputePurpose (MsgResolveDispute.DisputeId ?m)) q a
      + (\<Sum>v\<leftarrow>Dispute.Votes ?d. stakeDue case2 (Vote.BondId v) (jurorPurpose (MsgResolveDispute.DisputeId ?m))
           (if Vote.Accept v = False then Vote.Juror v else ''alice'') a)
      + (\<Sum>t\<leftarrow>Escrow.Attestations ?e. stakeDue case2 (Attestation.BondId t) (attestationPurpose (Dispute.EscrowId ?d))
           (if Attestation.Passed t = False then Attestation.Verifier t else ''alice'') a)"
    using verdict_pays_everyone [OF rejection_run case2 sides] unfolding opener(1) by iprover
  have "balance rejection a = balance case2 a + stakeDue case2 1 (disputePurpose 0) ''alice'' a
      + (stakeDue case2 2 (jurorPurpose 0) ''dave'' a + stakeDue case2 3 (jurorPurpose 0) ''erin'' a)
      + stakeDue case2 0 (attestationPurpose 0) ''alice'' a" for a
    using pay [rule_format, of a] by (simp add: q opener)
  then show ?thesis by (simp add: balance_def stakeDue_def live_def)
qed

text \<open>
  C21: The losing verifier makes the winner whole. Whenever a verdict goes against a verifier
  whose stake is still locked, be it a fraudulent pass that is challenged or a false fail that
  is contested, the winner's balance grows by at least the full escrow amount.
\<close>

theorem losing_verifier_pays_winner:
  assumes "ResolveDispute env msg s = (Inr r, s')" and "core_inv s" and "total_supply s < 2 ^ 64"
    and "escrows_wf s" and "collateral_ok s"
    and "kv_get (Keeper.Dispute s) (MsgResolveDispute.DisputeId msg) = Some d"
    and "kv_get (Keeper.Escrow s) (Dispute.EscrowId d) = Some e"
    and "t \<in> set (Escrow.Attestations e)" and "Attestation.Passed t \<noteq> (r = DisputeResolutionAccept)"
    and "live s (Attestation.BondId t) (attestationPurpose (Dispute.EscrowId d)) = Some b"
  shows "balance s (if r = DisputeResolutionAccept then Escrow.Payee e else Escrow.Payer e) + unat (Escrow.Amount e)
     \<le> balance s' (if r = DisputeResolutionAccept then Escrow.Payee e else Escrow.Payer e)"
proof -
  define ac where "ac = (r = DisputeResolutionAccept)"
  define w where "w = (if ac then Escrow.Payee e else Escrow.Payer e)"
  define due where "due = (\<lambda>t :: Attestation. stakeDue s (Attestation.BondId t) (attestationPurpose (Dispute.EscrowId d))
           (if Attestation.Passed t = ac then Attestation.Verifier t else w) w)"
  have "balance s w + (\<Sum>t\<leftarrow>Escrow.Attestations e. due t) \<le> balance s' w"
    using verdict_payout_for [OF assms(1-7) ac_def w_def] by (auto simp: due_def)
  moreover have "due t \<le> (\<Sum>t\<leftarrow>Escrow.Attestations e. due t)"
    using assms(8) member_le_sum_list [of "due t" "map due (Escrow.Attestations e)"] by auto
  moreover have "due t = unat (Bond.Amount b)"
    using assms(9,10) by (simp add: due_def stakeDue_def ac_def)
  moreover have "backed s (Attestation.BondId t) (Attestation.Verifier t) (attestationPurpose (Dispute.EscrowId d)) (Escrow.Amount e)"
    using assms(5,7,8) by (simp add: collateral_ok_def)
  then have "Escrow.Amount e \<le> Bond.Amount b"
    using assms(10) by (auto simp: backed_def live_Some)
  ultimately show ?thesis by (simp add: u64_le_iff w_def ac_def)
qed

lemma losing_verifier_pays_winner_witness:
  "balance case2 ''alice'' + 300 \<le> balance rejection ''alice''"
  using losing_verifier_pays_winner [OF rejection_run, where t = carolsVerdict
      and d = "(openedDispute fraudClaim 0 1)\<lparr>Dispute.Votes := [jurorsVote ''dave'' 2, jurorsVote ''erin'' 3]\<rparr>"
      and e = "paidEscrow\<lparr>Escrow.Status := EscrowStatusChallenged\<rparr>"]
  by (simp add: live_def fraudClaim_def)

text \<open>
  C22: A case with a quorum and a majority can be closed by anybody. If the dispute is open, its
  escrow is under jury control, enough jurors voted and the votes are not tied, the winner's
  address decodes, and the parties, the jurors who voted and the verifiers have accounts, then
  \<open>ResolveDispute\<close> of any sender with a valid address succeeds with the majority's resolution.
\<close>

theorem decided_case_resolves:
  assumes "core_inv s" and "total_supply s < 2 ^ 64"
    and "StringToBytes env c \<noteq> None"
    and "kv_get (Keeper.Dispute s) i = Some d" and "Dispute.Status d = DisputeStatusOpen"
    and "Keeper.Params s = Some params"
    and "length (resolveAnchors env (Params.Anchors params)) < 2 * length (Dispute.Votes d)"
    and "2 * length (filter Vote.Accept (Dispute.Votes d)) \<noteq> length (Dispute.Votes d)"
    and "kv_get (Keeper.Escrow s) (Dispute.EscrowId d) = Some e"
    and "Escrow.Status e = EscrowStatusInJury \<or> Escrow.Status e = EscrowStatusChallenged"
    and "ac \<longleftrightarrow> 2 * length (filter Vote.Accept (Dispute.Votes d)) > length (Dispute.Votes d)"
    and "StringToBytes env (if ac then Escrow.Payee e else Escrow.Payer e) \<noteq> None"
    and "\<forall>a \<in> {Escrow.Payer e, Escrow.Payee e, Dispute.Opener d} \<union> Vote.Juror ` set (Dispute.Votes d)
        \<union> Attestation.Verifier ` set (Escrow.Attestations e). kv_get (Keeper.Account s) a \<noteq> None"
  shows "\<exists>s'. ResolveDispute env \<lparr>MsgResolveDispute.Creator = c, MsgResolveDispute.DisputeId = i\<rparr> s
     = (Inr (if ac then DisputeResolutionAccept else DisputeResolutionReject), s')"
proof -
  let ?m = "\<lparr>MsgResolveDispute.Creator = c, MsgResolveDispute.DisputeId = i\<rparr>"
  define ch where "ch = (Escrow.Status e = EscrowStatusChallenged)"
  have st: "Escrow.Status e = (if ch then EscrowStatusChallenged else EscrowStatusInJury)"
    using assms(10) by (auto simp: ch_def)
  have jury: "(Escrow.Status e \<noteq> EscrowStatusInJury \<and> \<not> ch) = False" using st by simp
  obtain cb where cb: "StringToBytes env c = Some cb" using assms(3) by blast
  have total: "length (filter Vote.Accept (Dispute.Votes d)) + length (filter (\<lambda>v. \<not> Vote.Accept v) (Dispute.Votes d))
      = length (Dispute.Votes d)" by (rule sum_length_filter_compl)
  then have neq: "length (filter Vote.Accept (Dispute.Votes d)) \<noteq> length (filter (\<lambda>v. \<not> Vote.Accept v) (Dispute.Votes d))"
    using assms(8) by linarith
  have ac: "(length (filter (\<lambda>v. \<not> Vote.Accept v) (Dispute.Votes d)) < length (filter Vote.Accept (Dispute.Votes d))) = ac"
    using assms(11) total by auto
  have quorum: "\<not> length (Dispute.Votes d) < Suc (length (resolveAnchors env (Params.Anchors params)) div 2)"
    using assms(7) by linarith
  obtain s1 s2 s3 s4 where steps: "settleVerdict env ch ac e s = (Inr (judged env ch ac e, resolutionOf ac), s1)"
      "settleDisputeBond ch d (judged env ch ac e) (resolutionOf ac) s1 = (Inr (), s2)"
      "settleJurorStakes d ac (if ac then Escrow.Payee e else Escrow.Payer e) (Dispute.Votes d) s2 = (Inr (), s3)"
      "settleAttestationStakes d (judged env ch ac e) ac (if ac then Escrow.Payee e else Escrow.Payer e)
         (Escrow.Attestations e) s3 = (Inr (), s4)"
    using settlements_total [OF assms(1,2,9) st assms(12) refl assms(13)] by blast
  have "\<exists>s'. ResolveDispute env ?m s = (Inr (resolutionOf ac), s')"
    using neq quorum
    by (simp add: ResolveDispute_def cb assms(4,5,6,9) countVotes_eq Let_def ch_def [symmetric] jury ac steps cong: if_cong)
  then show ?thesis by (simp add: resolutionOf_def)
qed

lemma decided_case_resolves_witness:
  "\<exists>s'. ResolveDispute (sampleEnv 800) \<lparr>MsgResolveDispute.Creator = ''frank'', MsgResolveDispute.DisputeId = 0\<rparr> case2
     = (Inr DisputeResolutionReject, s')"
  using decided_case_resolves [of case2 "sampleEnv 800" "''frank''" 0
      "(openedDispute fraudClaim 0 1)\<lparr>Dispute.Votes := [jurorsVote ''dave'' 2, jurorsVote ''erin'' 3]\<rparr>"
      "\<lparr>Params.Anchors = [''dave'', ''erin'', ''frank'']\<rparr>" "paidEscrow\<lparr>Escrow.Status := EscrowStatusChallenged\<rparr>" False]
  by (simp add: fraudClaim_def)

text \<open>
  C23: A payer's own release is not final. The comment in \<open>OpenDispute\<close> says that a release by the
  payer's goodwill, or by a jury, is final; but a fail verdict leaves a challenge deadline behind,
  and \<open>ReleaseEscrow\<close> does not clear it. So after the payer releases a fail-attested escrow, the
  same payer can challenge that release until the deadline passes.
\<close>

theorem goodwill_release_is_challengeable:
  assumes "ReleaseEscrow env \<lparr>MsgReleaseEscrow.Creator = p, MsgReleaseEscrow.Id = i\<rparr> s = (Inr r, s')"
    and "core_inv s" and "kv_get (Keeper.Escrow s) i = Some e"
    and "Escrow.Status e = EscrowStatusFailAttested" and "Escrow.Attestations e \<noteq> []" and "p = Escrow.Payer e"
    and "StringToBytes env' p \<noteq> None" and "Escrow.ChallengeDeadline e \<noteq> 0" and "BlockTime env' <s Escrow.ChallengeDeadline e"
    and "getRegistered s' p = Some acc" and "MinDisputeBond \<le> amt" and "amt \<le> Account.Balance acc"
  shows "\<exists>d s2 e2. OpenDispute env' \<lparr>MsgOpenDispute.Creator = p, MsgOpenDispute.EscrowId = i,
            MsgOpenDispute.Reason = why, MsgOpenDispute.BondAmount = amt\<rparr> s' = (Inr d, s2)
     \<and> kv_get (Keeper.Escrow s2) i = Some e2 \<and> Escrow.Status e2 = EscrowStatusChallenged"
proof -
  obtain n ats s1 where s': "s' = emit n ats (setEscrow i
      (e\<lparr>Escrow.Status := EscrowStatusReleased, Escrow.ReleasedAt := BlockTime env\<rparr>) s1)"
    using ReleaseEscrow_success [OF assms(1,2)] assms(3) by auto
  then have e': "kv_get (Keeper.Escrow s') i =
      Some (e\<lparr>Escrow.Status := EscrowStatusReleased, Escrow.ReleasedAt := BlockTime env\<rparr>)" by simp
  have id: "Escrow.Id e = i" using core_inv_escrow [OF assms(2,3)] by simp
  have "\<not> Escrow.ChallengeDeadline e <=s BlockTime env'" using assms(9) by (simp add: i64_le_iff i64_less_iff)
  then show ?thesis
    using assms(5-8,10-12) e' id
    by (auto simp: OpenDispute_def frozenStatusFor_def Let_def)
qed

lemma goodwill_release_is_challengeable_witness:
  "\<exists>s' d s2 e2. ReleaseEscrow (sampleEnv 400) \<lparr>MsgReleaseEscrow.Creator = ''alice'', MsgReleaseEscrow.Id = 0\<rparr> (deal2 False)
       = (Inr (), s')
     \<and> OpenDispute (sampleEnv 500) \<lparr>MsgOpenDispute.Creator = ''alice'', MsgOpenDispute.EscrowId = 0,
            MsgOpenDispute.Reason = [], MsgOpenDispute.BondAmount = 100\<rparr> s' = (Inr d, s2)
     \<and> kv_get (Keeper.Escrow s2) 0 = Some e2 \<and> Escrow.Status e2 = EscrowStatusChallenged"
proof -
  have deal: "Escrow.Status (dealEscrow False) = EscrowStatusFailAttested" "Escrow.Payer (dealEscrow False) = ''alice''"
      "Escrow.Payee (dealEscrow False) = ''bob''" "Escrow.Amount (dealEscrow False) = 300" "Escrow.Id (dealEscrow False) = 0"
    by (simp_all add: dealEscrow_def attested_def Let_def)
  have "releaseDenied (sampleEnv 400) ''alice'' (dealEscrow False) = None"
    by (simp add: releaseDenied_def deal Let_def)
  then obtain s' where run: "ReleaseEscrow (sampleEnv 400) \<lparr>MsgReleaseEscrow.Creator = ''alice'', MsgReleaseEscrow.Id = 0\<rparr> (deal2 False)
       = (Inr (), s')" and acc: "getRegistered s' ''alice'' = Some (funded ''alice'' 700)"
    by (simp add: ReleaseEscrow_def deal Let_def creditAccount_cases helper_defs)
  have "Escrow.ChallengeDeadline (dealEscrow False) = 300 + ChallengeWindowSeconds"
    by (simp add: dealEscrow_def attested_def Let_def)
  then show ?thesis
    using goodwill_release_is_challengeable [OF run _ _ _ _ _ _ _ _ acc, of "dealEscrow False" "sampleEnv 500" 100 "[]"] run
    by (auto simp: dealEscrow_def attested_def Let_def MinDisputeBond_def ChallengeWindowSeconds_def i64_less_iff)
qed

end
