(* ===== verification/Gates.thy ===== *)
theory Gates
  imports Bonds Schedule "HOL-Library.AList" "HOL-Library.Multiset"
begin

text \<open>
  The review gates (\<^verbatim>\<open>msg_server_gate.go\<close>): an anchor posts a gate, agents commit hashed
  answers, reveal them once commits are closed, and the settlement mints the drip for every
  answer that agrees with the gold answer or, when there is none, with the strict plurality.
\<close>

section \<open>Helpers\<close>

definition gateAnswerCommit :: "Env \<Rightarrow> string \<Rightarrow> string \<Rightarrow> string" where
  "gateAnswerCommit env answer salt = hex_EncodeToString (Sha256 env (answer @ '':'' @ salt))"

definition gateWindowSeconds :: "Env \<Rightarrow> string \<Rightarrow> i64 \<Rightarrow> i64" where
  "gateWindowSeconds env envName fallback =
    (let raw = TrimSpace (Getenv env envName)
     in if raw = [] then fallback
     else case ParseInt raw of
         None \<Rightarrow> fallback
       | Some n \<Rightarrow> if n <=s 0 then fallback else n)"

section \<open>Posting\<close>

record MsgPostGate =
  Creator :: string
  PayloadUri :: string
  PayloadHash :: string
  GoldCommit :: string
  Drip :: u64
  MaxAnswers :: u64

definition PostGate :: "Env \<Rightarrow> MsgPostGate \<Rightarrow> Keeper \<Rightarrow> u64 result" where
  "PostGate env msg s =
    (case StringToBytes env (MsgPostGate.Creator msg) of
       None \<Rightarrow> fail (ErrAddress ''invalid creator address'') s
     | Some _ \<Rightarrow>
    (case Keeper.Params s of
       None \<Rightarrow> fail (ErrIO ''collections: not found'') s
     | Some params \<Rightarrow>
    (if \<not> isJuror (MsgPostGate.Creator msg) (resolveAnchors env (Params.Anchors params)) then
       fail (ErrUnauthorized ''only an anchor may post gates (the drip is minted supply)'') s
     else if \<not> isHexSHA256 (MsgPostGate.PayloadHash msg) then
       fail (ErrInvalidRequest ''payload_hash must be a hex sha256'') s
     else if \<not> isHexSHA256 (MsgPostGate.GoldCommit msg) then
       fail (ErrInvalidRequest ''gold_commit must be a hex sha256'') s
     else if MsgPostGate.Drip msg = 0 \<or> MsgPostGate.Drip msg > MaxDripPerAnswer then
       fail (ErrInvalidRequest (''drip must be 1..'' @ FormatUint MaxDripPerAnswer
               @ '' (the per-answer emission cap)'')) s
     else if MsgPostGate.MaxAnswers msg = 0 \<or> MsgPostGate.MaxAnswers msg > MaxGateAnswers then
       fail (ErrInvalidRequest (''max_answers must be 1..'' @ FormatUint MaxGateAnswers)) s
     else
    (let now = BlockTime env;
         commitWindow = gateWindowSeconds env ''AGNT_GATE_COMMIT_WINDOW_SECONDS'' GateCommitWindowSeconds;
         revealWindow = gateWindowSeconds env ''AGNT_GATE_REVEAL_WINDOW_SECONDS'' GateRevealWindowSeconds;
         (i, s1) = nextGateID s;
         gate = \<lparr>Gate.Id = i, Gate.Poster = MsgPostGate.Creator msg, Gate.PayloadUri = MsgPostGate.PayloadUri msg,
                 Gate.PayloadHash = MsgPostGate.PayloadHash msg, Gate.GoldCommit = MsgPostGate.GoldCommit msg,
                 Gate.Drip = MsgPostGate.Drip msg, Gate.MaxAnswers = MsgPostGate.MaxAnswers msg,
                 Gate.CommitDeadline = now + commitWindow,
                 Gate.RevealDeadline = now + commitWindow + revealWindow,
                 Gate.Status = GateStatusOpen, Gate.Answers = [], Gate.GoldAnswer = [], Gate.Consensus = []\<rparr>;
         s2 = setGate i gate s1
     in respond i (emit ''agntcoin_gate_posted''
          [(''id'', FormatUint i),
           (''poster'', MsgPostGate.Creator msg),
           (''payload_hash'', MsgPostGate.PayloadHash msg),
           (''drip'', FormatUint (MsgPostGate.Drip msg)),
           (''commit_deadline'', FormatInt (Gate.CommitDeadline gate)),
           (''reveal_deadline'', FormatInt (Gate.RevealDeadline gate))] s2)))))"

section \<open>Committing\<close>

record MsgCommitAnswer =
  Creator :: string
  GateId :: u64
  Commit :: string

definition CommitAnswer :: "Env \<Rightarrow> MsgCommitAnswer \<Rightarrow> Keeper \<Rightarrow> unit result" where
  "CommitAnswer env msg s =
    (case StringToBytes env (MsgCommitAnswer.Creator msg) of
       None \<Rightarrow> fail (ErrAddress ''invalid creator address'') s
     | Some _ \<Rightarrow>
    (case kv_get (Keeper.Gate s) (MsgCommitAnswer.GateId msg) of
       None \<Rightarrow> fail (ErrKeyNotFound ''gate not found'') s
     | Some gate \<Rightarrow>
    (if Gate.Status gate \<noteq> GateStatusOpen then
       fail (ErrInvalidRequest (''gate is not open (status='' @ Gate.Status gate @ '')'')) s
     else if Gate.CommitDeadline gate <=s BlockTime env then
       fail (ErrInvalidRequest ''commit window has closed'') s
     else if MsgCommitAnswer.Creator msg = Gate.Poster gate then
       fail (ErrInvalidRequest ''the poster cannot answer its own gate'') s
     else
    (case getRegistered s (MsgCommitAnswer.Creator msg) of
       None \<Rightarrow> fail (ErrInvalidRequest ''answerer not registered'') s
     | Some acct \<Rightarrow>
    (if \<not> isHexSHA256 (MsgCommitAnswer.Commit msg) then
       fail (ErrInvalidRequest ''commit must be a hex sha256'') s
     else if word_of_nat (length (Gate.Answers gate)) \<ge> Gate.MaxAnswers gate then
       fail (ErrInvalidRequest ''gate is full'') s
     else if list_ex (\<lambda>a. GateAnswer.Agent a = MsgCommitAnswer.Creator msg) (Gate.Answers gate) then
       fail (ErrInvalidRequest ''agent has already committed to this gate'') s
     else
    (let gate1 = gate\<lparr>Gate.Answers := Gate.Answers gate @
           [\<lparr>GateAnswer.Agent = MsgCommitAnswer.Creator msg, GateAnswer.Commit = MsgCommitAnswer.Commit msg,
             GateAnswer.Answer = [], GateAnswer.Revealed = False, GateAnswer.Paid = False\<rparr>]\<rparr>;
         s1 = setGate (Gate.Id gate1) gate1 s
     in respond () (emit ''agntcoin_gate_answer_committed''
          [(''gate_id'', FormatUint (Gate.Id gate1)),
           (''agent'', MsgCommitAnswer.Creator msg)] s1)))))))"

section \<open>Revealing\<close>

record MsgRevealAnswer =
  Creator :: string
  GateId :: u64
  Answer :: string
  Salt :: string

text \<open>The loop over the answers: the first one of the sender decides.\<close>

fun revealIn :: "Env \<Rightarrow> MsgRevealAnswer \<Rightarrow> GateAnswer list \<Rightarrow> go_error + GateAnswer list" where
  "revealIn env msg [] = Inl (ErrInvalidRequest ''no commit from this agent on this gate'')"
| "revealIn env msg (a # as1) =
    (if GateAnswer.Agent a \<noteq> MsgRevealAnswer.Creator msg then
       (case revealIn env msg as1 of
          Inl err \<Rightarrow> Inl err
        | Inr as2 \<Rightarrow> Inr (a # as2))
     else if GateAnswer.Revealed a then Inl (ErrInvalidRequest ''answer already revealed'')
     else if \<not> EqualFold (FoldUnicode env) (gateAnswerCommit env (MsgRevealAnswer.Answer msg) (MsgRevealAnswer.Salt msg))
               (GateAnswer.Commit a) then
       Inl (ErrInvalidRequest ''answer+salt does not match the commit'')
     else Inr (a\<lparr>GateAnswer.Answer := MsgRevealAnswer.Answer msg, GateAnswer.Revealed := True\<rparr> # as1))"

definition RevealAnswer :: "Env \<Rightarrow> MsgRevealAnswer \<Rightarrow> Keeper \<Rightarrow> unit result" where
  "RevealAnswer env msg s =
    (case StringToBytes env (MsgRevealAnswer.Creator msg) of
       None \<Rightarrow> fail (ErrAddress ''invalid creator address'') s
     | Some _ \<Rightarrow>
    (case kv_get (Keeper.Gate s) (MsgRevealAnswer.GateId msg) of
       None \<Rightarrow> fail (ErrKeyNotFound ''gate not found'') s
     | Some gate \<Rightarrow>
    (if Gate.Status gate \<noteq> GateStatusOpen then
       fail (ErrInvalidRequest (''gate is not open (status='' @ Gate.Status gate @ '')'')) s
     else if BlockTime env <s Gate.CommitDeadline gate then
       fail (ErrInvalidRequest (''reveal window has not opened (commits are still open '' @ em_dash
               @ '' an early reveal would be copyable)'')) s
     else if Gate.RevealDeadline gate <=s BlockTime env then
       fail (ErrInvalidRequest ''reveal window has closed'') s
     else if MsgRevealAnswer.Answer msg = [] then
       fail (ErrInvalidRequest ''answer must be non-empty (the empty answer is the live-gate gold sentinel)'') s
     else
    (case revealIn env msg (Gate.Answers gate) of
       Inl err \<Rightarrow> fail err s
     | Inr answers \<Rightarrow>
    (let gate1 = gate\<lparr>Gate.Answers := answers\<rparr>;
         s1 = setGate (Gate.Id gate1) gate1 s
     in respond () (emit ''agntcoin_gate_answer_revealed''
          [(''gate_id'', FormatUint (Gate.Id gate1)),
           (''agent'', MsgRevealAnswer.Creator msg),
           (''answer'', MsgRevealAnswer.Answer msg)] s1))))))"

section \<open>Settling\<close>

record MsgSettleGate =
  Creator :: string
  GateId :: u64
  GoldAnswer :: string
  GoldSalt :: string

text \<open>
  The plurality of a live gate: a Go map of counts, then a scan of the map in the order in
  which \<^verbatim>\<open>range\<close> happens to visit its keys.
\<close>

fun countAnswers :: "(string \<times> nat) list \<Rightarrow> GateAnswer list \<Rightarrow> (string \<times> nat) list" where
  "countAnswers counts [] = counts"
| "countAnswers counts (a # as1) =
    (if GateAnswer.Revealed a
     then countAnswers (AList.update (GateAnswer.Answer a)
            ((case map_of counts (GateAnswer.Answer a) of None \<Rightarrow> 0 | Some c \<Rightarrow> c) + 1) counts) as1
     else countAnswers counts as1)"

fun scanCounts :: "(string \<times> nat) list \<Rightarrow> string \<Rightarrow> nat \<Rightarrow> bool \<Rightarrow> string \<times> nat \<times> bool" where
  "scanCounts [] best bestCount tied = (best, bestCount, tied)"
| "scanCounts ((ans, c) # rest) best bestCount tied =
    (if c > bestCount then scanCounts rest ans c False
     else if c = bestCount then scanCounts rest best bestCount True
     else scanCounts rest best bestCount tied)"

definition rangeCounts :: "Env \<Rightarrow> (string \<times> nat) list \<Rightarrow> (string \<times> nat) list" where
  "rangeCounts env counts =
     map (\<lambda>ans. (ans, case map_of counts ans of None \<Rightarrow> 0 | Some c \<Rightarrow> c)) (RangeKeys env (map fst counts))"

definition winningAnswer :: "Env \<Rightarrow> string \<Rightarrow> GateAnswer list \<Rightarrow> string" where
  "winningAnswer env goldAnswer answers =
    (if goldAnswer = [] then
      (let counts = countAnswers [] answers;
           (best, bestCount, tied) = scanCounts (rangeCounts env counts) [] 0 False
       in if \<not> tied \<and> bestCount > 0 then best else goldAnswer)
     else goldAnswer)"

text \<open>The mint loop.\<close>

fun payAnswers :: "Env \<Rightarrow> u64 \<Rightarrow> string \<Rightarrow> GateAnswer list \<Rightarrow> u64 \<Rightarrow> Keeper \<Rightarrow> (GateAnswer list \<times> u64) result" where
  "payAnswers env drip winning [] minted s = respond ([], minted) s"
| "payAnswers env drip winning (a # as1) minted s =
    (if \<not> GateAnswer.Revealed a \<or> GateAnswer.Answer a \<noteq> winning then
      (case payAnswers env drip winning as1 minted s of
         (Inl err, s1) \<Rightarrow> fail err s1
       | (Inr (as2, m), s1) \<Rightarrow> respond (a # as2, m) s1)
     else
      (case StringToBytes env (GateAnswer.Agent a) of
         None \<Rightarrow> fail (ErrAddress ''invalid answerer address'') s
       | Some agentBytes \<Rightarrow>
      (case mintProtocolReward env (GateAnswer.Agent a) agentBytes drip ''gate'' s of
         (Inl err, s1) \<Rightarrow> fail err s1
       | (Inr _, s1) \<Rightarrow>
      (case payAnswers env drip winning as1 (minted + drip) s1 of
         (Inl err, s2) \<Rightarrow> fail err s2
       | (Inr (as2, m), s2) \<Rightarrow> respond (a\<lparr>GateAnswer.Paid := True\<rparr> # as2, m) s2))))"

definition SettleGate :: "Env \<Rightarrow> MsgSettleGate \<Rightarrow> Keeper \<Rightarrow> string result" where
  "SettleGate env msg s =
    (case StringToBytes env (MsgSettleGate.Creator msg) of
       None \<Rightarrow> fail (ErrAddress ''invalid creator address'') s
     | Some _ \<Rightarrow>
    (case kv_get (Keeper.Gate s) (MsgSettleGate.GateId msg) of
       None \<Rightarrow> fail (ErrKeyNotFound ''gate not found'') s
     | Some gate \<Rightarrow>
    (if Gate.Status gate \<noteq> GateStatusOpen then
       fail (ErrInvalidRequest (''gate is not open (status='' @ Gate.Status gate @ '')'')) s
     else if BlockTime env <s Gate.RevealDeadline gate then
       fail (ErrInvalidRequest ''reveal window has not closed'') s
     else if \<not> EqualFold (FoldUnicode env) (gateAnswerCommit env (MsgSettleGate.GoldAnswer msg) (MsgSettleGate.GoldSalt msg))
               (Gate.GoldCommit gate) then
       fail (ErrInvalidRequest ''gold preimage does not match the gate's gold_commit'') s
     else
    (let winning = winningAnswer env (MsgSettleGate.GoldAnswer msg) (Gate.Answers gate);
         paid = (if winning \<noteq> [] then payAnswers env (Gate.Drip gate) winning (Gate.Answers gate) 0 s
                 else respond (Gate.Answers gate, 0) s)
     in case paid of
          (Inl err, s1) \<Rightarrow> fail err s1
        | (Inr (answers, minted), s1) \<Rightarrow>
    (let gate1 = gate\<lparr>Gate.Answers := answers, Gate.Status := GateStatusSettled,
                      Gate.GoldAnswer := MsgSettleGate.GoldAnswer msg, Gate.Consensus := winning\<rparr>;
         s2 = setGate (Gate.Id gate1) gate1 s1
     in respond winning (emit ''agntcoin_gate_settled''
          [(''gate_id'', FormatUint (Gate.Id gate1)),
           (''kind'', if MsgSettleGate.GoldAnswer msg \<noteq> [] then ''decoy'' else ''live''),
           (''consensus'', winning),
           (''minted'', FormatUint minted)] s2))))))"

section \<open>The mint loop\<close>

definition coherent :: "string \<Rightarrow> GateAnswer \<Rightarrow> bool" where
  "coherent winning a \<longleftrightarrow> GateAnswer.Revealed a \<and> GateAnswer.Answer a = winning"

definition markPaid :: "string \<Rightarrow> GateAnswer \<Rightarrow> GateAnswer" where
  "markPaid winning a = (if coherent winning a then a\<lparr>GateAnswer.Paid := True\<rparr> else a)"

lemma markPaid_simps [simp]:
  "GateAnswer.Agent (markPaid w a) = GateAnswer.Agent a" "GateAnswer.Commit (markPaid w a) = GateAnswer.Commit a"
  "GateAnswer.Answer (markPaid w a) = GateAnswer.Answer a" "GateAnswer.Revealed (markPaid w a) = GateAnswer.Revealed a"
  by (simp_all add: markPaid_def)

text \<open>A paid answer, and the rest.\<close>

lemma payAnswers_pay:
  assumes "payAnswers env drip w (a # as1) m s = (Inr r, s')" and "coherent w a"
  obtains ab s1 as2 m2 where "StringToBytes env (GateAnswer.Agent a) = Some ab"
    and "mintProtocolReward env (GateAnswer.Agent a) ab drip ''gate'' s = (Inr (), s1)"
    and "payAnswers env drip w as1 (m + drip) s1 = (Inr (as2, m2), s')" and "r = (a\<lparr>GateAnswer.Paid := True\<rparr> # as2, m2)"
  using assms by (auto simp: coherent_def split: option.splits sum.splits prod.splits)

lemma payAnswers_skip:
  assumes "payAnswers env drip w (a # as1) m s = (Inr r, s')" and "\<not> coherent w a"
  obtains as2 m2 where "payAnswers env drip w as1 m s = (Inr (as2, m2), s')" and "r = (a # as2, m2)"
  using assms by (auto simp: coherent_def split: option.splits sum.splits prod.splits if_splits)

lemma payAnswers_ok:
  "payAnswers env drip w as1 m s = (Inr (as2, m2), s') \<Longrightarrow> core_inv s \<Longrightarrow> emission_inv s \<Longrightarrow>
   total_supply s + mintable s < 2 ^ 64 \<Longrightarrow>
     core_inv s' \<and> emission_inv s' \<and> same_tables s s' \<and> as2 = map (markPaid w) as1
   \<and> m2 = m + of_nat (length (filter (coherent w) as1)) * drip
   \<and> total_supply s' = total_supply s + length (filter (coherent w) as1) * unat drip
   \<and> minedTotal s' = minedTotal s + length (filter (coherent w) as1) * unat drip
   \<and> length (filter (coherent w) as1) * unat drip + mintable s' \<le> mintable s
   \<and> balance s' c = balance s c + length (filter (\<lambda>a. coherent w a \<and> GateAnswer.Agent a = c) as1) * unat drip"
proof (induction as1 arbitrary: s m as2 m2)
  case (Cons a as1)
  show ?case
  proof (cases "coherent w a")
    case True
    obtain ab s1 as3 m3 where mint: "mintProtocolReward env (GateAnswer.Agent a) ab drip ''gate'' s = (Inr (), s1)"
      and rest: "payAnswers env drip w as1 (m + drip) s1 = (Inr (as3, m3), s')"
      and r: "(as2, m2) = (a\<lparr>GateAnswer.Paid := True\<rparr> # as3, m3)"
      using payAnswers_pay [OF Cons.prems(1) True] by metis
    note ok = mintProtocolReward_ok [OF mint Cons.prems(2-4)]
    have "total_supply s1 + mintable s1 < 2 ^ 64" using ok Cons.prems(4) by linarith
    note ih = Cons.IH [OF rest ok(1,2) this]
    have "same_tables s s'" using mintProtocolReward_frame [OF mint] ih by (blast intro: same_tables_trans)
    then show ?thesis
      using ih ok r True by (auto simp: markPaid_def algebra_simps)
  next
    case False
    obtain as3 m3 where rest: "payAnswers env drip w as1 m s = (Inr (as3, m3), s')" and r: "(as2, m2) = (a # as3, m3)"
      using payAnswers_skip [OF Cons.prems(1) False] by metis
    show ?thesis using Cons.IH [OF rest Cons.prems(2-4)] r False by (simp add: markPaid_def)
  qed
qed simp

section \<open>The handlers meet the contract\<close>

definition postedGate :: "Env \<Rightarrow> MsgPostGate \<Rightarrow> u64 \<Rightarrow> Gate" where
  "postedGate env msg i =
     (let c = gateWindowSeconds env ''AGNT_GATE_COMMIT_WINDOW_SECONDS'' GateCommitWindowSeconds;
          r = gateWindowSeconds env ''AGNT_GATE_REVEAL_WINDOW_SECONDS'' GateRevealWindowSeconds
      in \<lparr>Gate.Id = i, Gate.Poster = MsgPostGate.Creator msg, Gate.PayloadUri = MsgPostGate.PayloadUri msg,
          Gate.PayloadHash = MsgPostGate.PayloadHash msg, Gate.GoldCommit = MsgPostGate.GoldCommit msg,
          Gate.Drip = MsgPostGate.Drip msg, Gate.MaxAnswers = MsgPostGate.MaxAnswers msg,
          Gate.CommitDeadline = BlockTime env + c, Gate.RevealDeadline = BlockTime env + c + r,
          Gate.Status = GateStatusOpen, Gate.Answers = [], Gate.GoldAnswer = [], Gate.Consensus = []\<rparr>)"

lemma postedGate_simps [simp]:
  "Gate.Id (postedGate env msg i) = i" "Gate.Poster (postedGate env msg i) = MsgPostGate.Creator msg"
  "Gate.GoldCommit (postedGate env msg i) = MsgPostGate.GoldCommit msg" "Gate.Drip (postedGate env msg i) = MsgPostGate.Drip msg"
  "Gate.MaxAnswers (postedGate env msg i) = MsgPostGate.MaxAnswers msg" "Gate.Status (postedGate env msg i) = GateStatusOpen"
  "Gate.Answers (postedGate env msg i) = []"
  by (simp_all add: postedGate_def Let_def)

lemma PostGate_success:
  assumes "PostGate env msg s = (Inr r, s')"
  shows "\<exists>params n ats. Keeper.Params s = Some params
     \<and> MsgPostGate.Creator msg \<in> set (resolveAnchors env (Params.Anchors params))
     \<and> isHexSHA256 (MsgPostGate.PayloadHash msg) \<and> isHexSHA256 (MsgPostGate.GoldCommit msg)
     \<and> MsgPostGate.Drip msg \<noteq> 0 \<and> MsgPostGate.Drip msg \<le> MaxDripPerAnswer
     \<and> MsgPostGate.MaxAnswers msg \<noteq> 0 \<and> MsgPostGate.MaxAnswers msg \<le> MaxGateAnswers \<and> r = Keeper.GateSeq s
     \<and> s' = emit n ats (setGate (Keeper.GateSeq s) (postedGate env msg (Keeper.GateSeq s))
          (s\<lparr>Keeper.GateSeq := Keeper.GateSeq s + 1\<rparr>))"
  using assms
  by (simp add: PostGate_def postedGate_def Let_def not_less split: option.splits if_splits prod.splits) blast

interpretation post_gate: moving_handler PostGate
proof unfold_locales
  fix env m s r s'
  assume run: "PostGate env m s = (Inr r, s')" and inv: "core_inv s" and free: "ids_free s"
  obtain n ats where s': "s' = emit n ats (setGate (Keeper.GateSeq s) (postedGate env m (Keeper.GateSeq s))
          (s\<lparr>Keeper.GateSeq := Keeper.GateSeq s + 1\<rparr>))"
    using PostGate_success [OF run] by blast
  have seq: "Keeper.GateSeq s \<noteq> - 1" using free by (simp add: ids_free_def)
  have "core_inv (s\<lparr>Keeper.GateSeq := Keeper.GateSeq s + 1\<rparr>)" using core_inv_seq(4) [OF inv seq] .
  then have "core_inv (setGate (Keeper.GateSeq s) (postedGate env m (Keeper.GateSeq s))
          (s\<lparr>Keeper.GateSeq := Keeper.GateSeq s + 1\<rparr>))"
    using u64_less_self_Suc [OF seq] by (intro core_inv_setGate) simp_all
  then show "core_inv s' \<and> total_supply s' = total_supply s \<and> Keeper.EmissionState s' = Keeper.EmissionState s"
    by (simp add: s')
  have "kv_get (Keeper.Gate s) (Keeper.GateSeq s) = None" using inv by (rule core_inv_fresh)
  then show "lifecycle s s' \<and> seqs_step s s'"
    by (simp add: s' lifecycle_def seqs_step_def table_step_refl table_step_new born_gate_def)
qed

text \<open>The other messages rewrite one stored gate.\<close>

lemma rewriteGate_ok:
  assumes g: "kv_get (Keeper.Gate s) i = Some g" and inv: "core_inv s" and step: "gate_step g g'"
  shows "core_inv (setGate i g' s)" "lifecycle s (setGate i g' s)"
proof -
  have "Gate.Id g' = i" using core_inv_gate [OF inv g] step by (auto simp: gate_step_def same_gate_terms_def)
  then show "core_inv (setGate i g' s)" using inv core_inv_gate [OF inv g] by blast
  show "lifecycle s (setGate i g' s)"
    using table_step_old [of gate_step "Keeper.Gate s" i g g'] g step by (simp add: lifecycle_def table_step_refl)
qed

lemma CommitAnswer_success:
  assumes "CommitAnswer env msg s = (Inr r, s')" and "core_inv s"
  shows "\<exists>g acc n ats. kv_get (Keeper.Gate s) (MsgCommitAnswer.GateId msg) = Some g
     \<and> Gate.Status g = GateStatusOpen \<and> BlockTime env <s Gate.CommitDeadline g
     \<and> MsgCommitAnswer.Creator msg \<noteq> Gate.Poster g \<and> getRegistered s (MsgCommitAnswer.Creator msg) = Some acc
     \<and> isHexSHA256 (MsgCommitAnswer.Commit msg) \<and> word_of_nat (length (Gate.Answers g)) < Gate.MaxAnswers g
     \<and> MsgCommitAnswer.Creator msg \<notin> GateAnswer.Agent ` set (Gate.Answers g)
     \<and> s' = emit n ats (setGate (MsgCommitAnswer.GateId msg) (g\<lparr>Gate.Answers := Gate.Answers g @
           [\<lparr>GateAnswer.Agent = MsgCommitAnswer.Creator msg, GateAnswer.Commit = MsgCommitAnswer.Commit msg,
             GateAnswer.Answer = [], GateAnswer.Revealed = False, GateAnswer.Paid = False\<rparr>]\<rparr>) s)"
proof -
  have id: "Gate.Id g = i" if "kv_get (Keeper.Gate s) i = Some g" for i g
    using core_inv_gate [OF assms(2) that] by simp
  show ?thesis
    using assms(1)
    by (simp add: CommitAnswer_def Let_def id not_le i64_le_iff i64_less_iff list_ex_iff image_iff
        split: option.splits if_splits) (metis (no_types))+
qed

lemma revealIn_keys:
  "revealIn env msg as1 = Inr as2 \<Longrightarrow>
     map (\<lambda>a. (GateAnswer.Agent a, GateAnswer.Commit a)) as2 = map (\<lambda>a. (GateAnswer.Agent a, GateAnswer.Commit a)) as1"
  by (induction as1 arbitrary: as2) (auto split: if_splits sum.splits)

lemma RevealAnswer_success:
  assumes "RevealAnswer env msg s = (Inr r, s')" and "core_inv s"
  shows "\<exists>g as2 n ats. kv_get (Keeper.Gate s) (MsgRevealAnswer.GateId msg) = Some g
     \<and> Gate.Status g = GateStatusOpen \<and> Gate.CommitDeadline g <=s BlockTime env \<and> BlockTime env <s Gate.RevealDeadline g
     \<and> MsgRevealAnswer.Answer msg \<noteq> [] \<and> revealIn env msg (Gate.Answers g) = Inr as2
     \<and> s' = emit n ats (setGate (MsgRevealAnswer.GateId msg) (g\<lparr>Gate.Answers := as2\<rparr>) s)"
proof -
  have id: "Gate.Id g = i" if "kv_get (Keeper.Gate s) i = Some g" for i g
    using core_inv_gate [OF assms(2) that] by simp
  show ?thesis
    using assms(1)
    by (simp add: RevealAnswer_def Let_def id not_le not_less i64_le_iff i64_less_iff
        split: option.splits if_splits sum.splits) blast
qed

lemma SettleGate_success:
  assumes "SettleGate env msg s = (Inr r, s')" and "core_inv s"
  shows "\<exists>g as2 m s1 n ats. kv_get (Keeper.Gate s) (MsgSettleGate.GateId msg) = Some g
     \<and> Gate.Status g = GateStatusOpen \<and> Gate.RevealDeadline g <=s BlockTime env
     \<and> EqualFold (FoldUnicode env) (gateAnswerCommit env (MsgSettleGate.GoldAnswer msg) (MsgSettleGate.GoldSalt msg))
          (Gate.GoldCommit g)
     \<and> r = winningAnswer env (MsgSettleGate.GoldAnswer msg) (Gate.Answers g)
     \<and> (if r \<noteq> [] then payAnswers env (Gate.Drip g) r (Gate.Answers g) 0 s else (Inr (Gate.Answers g, 0), s))
         = (Inr (as2, m), s1)
     \<and> s' = emit n ats (setGate (MsgSettleGate.GateId msg) (g\<lparr>Gate.Answers := as2, Gate.Status := GateStatusSettled,
                      Gate.GoldAnswer := MsgSettleGate.GoldAnswer msg, Gate.Consensus := r\<rparr>) s1)"
proof -
  have id: "Gate.Id g = i" if "kv_get (Keeper.Gate s) i = Some g" for i g
    using core_inv_gate [OF assms(2) that] by simp
  show ?thesis
    using assms(1)
    by (simp add: SettleGate_def Let_def id not_le not_less i64_le_iff i64_less_iff
        split: option.splits if_splits sum.splits prod.splits) blast+
qed

interpretation commit_answer: moving_handler CommitAnswer
proof unfold_locales
  fix env m s r s'
  assume run: "CommitAnswer env m s = (Inr r, s')" and inv: "core_inv s"
  let ?i = "MsgCommitAnswer.GateId m"
  obtain g a n ats where g: "kv_get (Keeper.Gate s) ?i = Some g" "Gate.Status g = GateStatusOpen"
    and s': "s' = emit n ats (setGate ?i (g\<lparr>Gate.Answers := Gate.Answers g @ [a]\<rparr>) s)"
    using CommitAnswer_success [OF run inv] by blast
  have "gate_step g (g\<lparr>Gate.Answers := Gate.Answers g @ [a]\<rparr>)"
    using g(2) by (simp add: gate_step_def same_gate_terms_def answer_keys_def)
  note ok = rewriteGate_ok [OF g(1) inv this]
  show "core_inv s' \<and> total_supply s' = total_supply s \<and> Keeper.EmissionState s' = Keeper.EmissionState s"
    using ok by (simp add: s')
  show "lifecycle s s' \<and> seqs_step s s'" using ok by (simp add: s' seqs_step_def)
qed

interpretation reveal_answer: moving_handler RevealAnswer
proof unfold_locales
  fix env m s r s'
  assume run: "RevealAnswer env m s = (Inr r, s')" and inv: "core_inv s"
  let ?i = "MsgRevealAnswer.GateId m"
  obtain g as2 n ats where g: "kv_get (Keeper.Gate s) ?i = Some g" "Gate.Status g = GateStatusOpen"
    and as2: "revealIn env m (Gate.Answers g) = Inr as2"
    and s': "s' = emit n ats (setGate ?i (g\<lparr>Gate.Answers := as2\<rparr>) s)"
    using RevealAnswer_success [OF run inv] by blast
  have "gate_step g (g\<lparr>Gate.Answers := as2\<rparr>)"
    using g(2) revealIn_keys [OF as2] unfolding gate_step_def same_gate_terms_def answer_keys_def by simp
  note ok = rewriteGate_ok [OF g(1) inv this]
  show "core_inv s' \<and> total_supply s' = total_supply s \<and> Keeper.EmissionState s' = Keeper.EmissionState s"
    using ok by (simp add: s')
  show "lifecycle s s' \<and> seqs_step s s'" using ok by (simp add: s' seqs_step_def)
qed

text \<open>What a settlement does to the ledger.\<close>

definition settledGate :: "MsgSettleGate \<Rightarrow> string \<Rightarrow> Gate \<Rightarrow> Gate" where
  "settledGate msg w g =
     g\<lparr>Gate.Answers := (if w \<noteq> [] then map (markPaid w) (Gate.Answers g) else Gate.Answers g),
       Gate.Status := GateStatusSettled, Gate.GoldAnswer := MsgSettleGate.GoldAnswer msg, Gate.Consensus := w\<rparr>"

definition winners :: "string \<Rightarrow> Gate \<Rightarrow> GateAnswer list" where
  "winners w g = (if w \<noteq> [] then filter (coherent w) (Gate.Answers g) else [])"

lemma gate_step_settled:
  assumes "Gate.Status g = GateStatusOpen"
  shows "gate_step g (settledGate msg w g)"
proof -
  have "answer_keys (settledGate msg w g) = answer_keys g"
    by (simp add: answer_keys_def settledGate_def comp_def)
  then show ?thesis using assms by (simp add: gate_step_def same_gate_terms_def settledGate_def)
qed

lemma SettleGate_ledger:
  assumes run: "SettleGate env msg s = (Inr w, s')" and inv: "ledger_inv s"
  shows "\<exists>g s1 n ats. kv_get (Keeper.Gate s) (MsgSettleGate.GateId msg) = Some g \<and> Gate.Status g = GateStatusOpen
     \<and> Gate.RevealDeadline g <=s BlockTime env
     \<and> EqualFold (FoldUnicode env) (gateAnswerCommit env (MsgSettleGate.GoldAnswer msg) (MsgSettleGate.GoldSalt msg))
          (Gate.GoldCommit g)
     \<and> w = winningAnswer env (MsgSettleGate.GoldAnswer msg) (Gate.Answers g)
     \<and> core_inv s1 \<and> emission_inv s1 \<and> same_tables s s1
     \<and> total_supply s1 = total_supply s + length (winners w g) * unat (Gate.Drip g)
     \<and> minedTotal s1 = minedTotal s + length (winners w g) * unat (Gate.Drip g)
     \<and> length (winners w g) * unat (Gate.Drip g) + mintable s1 \<le> mintable s
     \<and> (\<forall>c. balance s1 c = balance s c
          + length (filter (\<lambda>a. GateAnswer.Agent a = c) (winners w g)) * unat (Gate.Drip g))
     \<and> s' = emit n ats (setGate (MsgSettleGate.GateId msg) (settledGate msg w g) s1)"
proof -
  obtain g as2 m s1 n ats where g: "kv_get (Keeper.Gate s) (MsgSettleGate.GateId msg) = Some g"
      "Gate.Status g = GateStatusOpen" "Gate.RevealDeadline g <=s BlockTime env"
      "EqualFold (FoldUnicode env) (gateAnswerCommit env (MsgSettleGate.GoldAnswer msg) (MsgSettleGate.GoldSalt msg))
         (Gate.GoldCommit g)"
    and w: "w = winningAnswer env (MsgSettleGate.GoldAnswer msg) (Gate.Answers g)"
    and pay: "(if w \<noteq> [] then payAnswers env (Gate.Drip g) w (Gate.Answers g) 0 s else (Inr (Gate.Answers g, 0), s))
         = (Inr (as2, m), s1)"
    and s': "s' = emit n ats (setGate (MsgSettleGate.GateId msg) (g\<lparr>Gate.Answers := as2, Gate.Status := GateStatusSettled,
                      Gate.GoldAnswer := MsgSettleGate.GoldAnswer msg, Gate.Consensus := w\<rparr>) s1)"
    using SettleGate_success [OF run] inv unfolding ledger_inv_def by blast
  have invs: "core_inv s" "emission_inv s" "total_supply s + mintable s < 2 ^ 64" using inv by (simp_all add: ledger_inv_def)
  show ?thesis
  proof (cases "w = []")
    case True
    then have "s1 = s" "settledGate msg w g = g\<lparr>Gate.Answers := as2, Gate.Status := GateStatusSettled,
                      Gate.GoldAnswer := MsgSettleGate.GoldAnswer msg, Gate.Consensus := w\<rparr>" "winners w g = []"
      using pay by (simp_all add: settledGate_def winners_def)
    then show ?thesis using g w s' invs by (intro exI [of _ g] exI [of _ s1] exI [of _ n] exI [of _ ats]) simp
  next
    case False
    then have "payAnswers env (Gate.Drip g) w (Gate.Answers g) 0 s = (Inr (as2, m), s1)" using pay by simp
    note ok = payAnswers_ok [OF this invs]
    have "winners w g = filter (coherent w) (Gate.Answers g)"
      "\<And>c. filter (\<lambda>a. GateAnswer.Agent a = c) (winners w g)
           = filter (\<lambda>a. coherent w a \<and> GateAnswer.Agent a = c) (Gate.Answers g)"
      "settledGate msg w g = g\<lparr>Gate.Answers := as2, Gate.Status := GateStatusSettled,
                      Gate.GoldAnswer := MsgSettleGate.GoldAnswer msg, Gate.Consensus := w\<rparr>"
      using False ok by (simp_all add: winners_def settledGate_def conj_commute)
    then show ?thesis using g w s' ok by (intro exI [of _ g] exI [of _ s1] exI [of _ n] exI [of _ ats]) simp
  qed
qed

interpretation settle_gate: conserving_handler SettleGate
proof unfold_locales
  fix env m s r s'
  assume run: "SettleGate env m s = (Inr r, s')" and inv: "ledger_inv s"
  let ?i = "MsgSettleGate.GateId m"
  obtain g s1 n ats where g: "kv_get (Keeper.Gate s) ?i = Some g" "Gate.Status g = GateStatusOpen"
    and ok: "core_inv s1" "emission_inv s1" "same_tables s s1"
      "total_supply s1 = total_supply s + length (winners r g) * unat (Gate.Drip g)"
      "minedTotal s1 = minedTotal s + length (winners r g) * unat (Gate.Drip g)"
      "length (winners r g) * unat (Gate.Drip g) + mintable s1 \<le> mintable s"
    and s': "s' = emit n ats (setGate ?i (settledGate m r g) s1)"
    using SettleGate_ledger [OF run inv] by blast
  have g1: "kv_get (Keeper.Gate s1) ?i = Some g" using g ok(3) by (simp add: same_tables_def)
  note rw = rewriteGate_ok [OF g1 ok(1) gate_step_settled [OF g(2)]]
  have em: "Keeper.EmissionState s' = Keeper.EmissionState s1" by (simp add: s')
  show "core_inv s'" using rw by (simp add: s')
  show "emission_inv s'" "total_supply s' + minedTotal s \<le> total_supply s + minedTotal s'"
    "minedTotal s \<le> minedTotal s' \<and> minedTotal s' + mintable s' \<le> minedTotal s + mintable s"
    "total_supply s + minedTotal s' \<le> total_supply s' + minedTotal s"
    using emission_unchanged [OF em] ok by (simp_all add: s')
  show "lifecycle s s'"
    using rw(2) ok(3)
    by (simp add: s' lifecycle_def same_tables_def attestations_backed_def disputes_backed_def backed_def)
  show "seqs_step s s'" using ok(3) by (simp add: s' seqs_step_def same_tables_def)
qed

section \<open>The plurality\<close>

text \<open>
  What the map and the scan compute: the strict plurality among the revealed answers, when
  there is one. The order of the scan does not matter.
\<close>

definition tally :: "GateAnswer list \<Rightarrow> string \<Rightarrow> nat" where
  "tally answers v = length (filter (coherent v) answers)"

definition strict_plurality :: "GateAnswer list \<Rightarrow> string \<Rightarrow> bool" where
  "strict_plurality answers v \<longleftrightarrow> 0 < tally answers v \<and> (\<forall>v'. v' \<noteq> v \<longrightarrow> tally answers v' < tally answers v)"

lemma strict_plurality_unique: "strict_plurality answers v \<Longrightarrow> strict_plurality answers v' \<Longrightarrow> v' = v"
  by (metis less_asym strict_plurality_def)

definition lookup :: "(string \<times> nat) list \<Rightarrow> string \<Rightarrow> nat" where
  "lookup counts v = (case map_of counts v of None \<Rightarrow> 0 | Some c \<Rightarrow> c)"

lemma lookup_update [simp]: "lookup (AList.update k c counts) v = (if v = k then c else lookup counts v)"
  by (simp add: lookup_def update_conv')

lemma lookup_Nil [simp]: "lookup [] v = 0"
  by (simp add: lookup_def)

lemma lookup_key: "0 < lookup counts k \<Longrightarrow> k \<in> fst ` set counts"
  by (metis less_irrefl lookup_def map_of_eq_None_iff option.case(1))

lemma countAnswers_lookup: "lookup (countAnswers counts as1) v = lookup counts v + tally as1 v"
  by (induction as1 arbitrary: counts)
    (auto simp: tally_def coherent_def lookup_def [symmetric])

lemma countAnswers_keys:
  "distinct (map fst counts) \<Longrightarrow> \<forall>k \<in> set (map fst counts). 0 < lookup counts k \<Longrightarrow>
     distinct (map fst (countAnswers counts as1))
   \<and> (\<forall>k. k \<in> set (map fst (countAnswers counts as1)) \<longleftrightarrow> 0 < lookup (countAnswers counts as1) k)"
proof (induction as1 arbitrary: counts)
  case Nil
  then show ?case using lookup_key by auto
next
  case (Cons a as1)
  let ?c = "AList.update (GateAnswer.Answer a) (lookup counts (GateAnswer.Answer a) + 1) counts"
  have "distinct (map fst ?c)" using Cons.prems(1) by (rule distinct_update)
  moreover have "\<forall>k \<in> set (map fst ?c). 0 < lookup ?c k"
    using Cons.prems(2) by (auto simp: dom_update)
  ultimately show ?case using Cons by (auto simp: lookup_def [symmetric])
qed

text \<open>The scan: the best key seen, its count, and whether another key has the same count.\<close>

definition leads :: "(string \<Rightarrow> nat) \<Rightarrow> string set \<Rightarrow> string \<Rightarrow> nat \<Rightarrow> bool \<Rightarrow> bool" where
  "leads f seen best n tied \<longleftrightarrow> (\<forall>k \<in> seen. f k \<le> n) \<and> (n = 0 \<longrightarrow> seen = {})
     \<and> (0 < n \<longrightarrow> best \<in> seen \<and> f best = n \<and> (tied \<longleftrightarrow> (\<exists>k \<in> seen. k \<noteq> best \<and> f k = n)))"

lemma scanCounts_leads:
  "distinct ks \<Longrightarrow> \<forall>k \<in> set ks. 0 < f k \<and> k \<notin> seen \<Longrightarrow> leads f seen best n tied \<Longrightarrow>
     scanCounts (map (\<lambda>k. (k, f k)) ks) best n tied = (best', n', tied') \<Longrightarrow>
     leads f (seen \<union> set ks) best' n' tied'"
proof (induction ks arbitrary: seen best n tied)
  case (Cons k ks)
  let ?new = "if f k > n then (k, f k, False) else if f k = n then (best, n, True) else (best, n, tied)"
  obtain b1 n1 t1 where new: "?new = (b1, n1, t1)" by (cases ?new)
  have "scanCounts (map (\<lambda>k. (k, f k)) ks) b1 n1 t1 = (best', n', tied')"
    using Cons.prems(4) new by (auto split: if_splits)
  moreover have "leads f (insert k seen) b1 n1 t1"
  proof (cases "n < f k")
    case True
    then have "b1 = k" "n1 = f k" "\<not> t1" using new by auto
    then show ?thesis using Cons.prems(2,3) True by (auto simp: leads_def)
  next
    case False
    then have "b1 = best" "n1 = n" "t1 \<longleftrightarrow> f k = n \<or> tied" using new by (auto split: if_splits)
    moreover have "0 < n" using False Cons.prems(2) by auto
    ultimately show ?thesis using Cons.prems(2,3) False by (auto simp: leads_def)
  qed
  moreover have "\<forall>k' \<in> set ks. 0 < f k' \<and> k' \<notin> insert k seen" using Cons.prems(1,2) by auto
  ultimately show ?case using Cons.IH [of "insert k seen" b1 n1 t1] Cons.prems(1) by simp
qed simp

lemma winningAnswer_plurality:
  assumes perm: "\<And>ks. mset (RangeKeys env ks) = mset ks" and w: "w \<noteq> []"
  shows "winningAnswer env [] answers = w \<longleftrightarrow> strict_plurality answers w"
proof -
  let ?counts = "countAnswers [] answers"
  let ?ks = "RangeKeys env (map fst ?counts)"
  have look: "lookup ?counts = tally answers" by (rule ext) (simp add: countAnswers_lookup)
  have keys: "distinct (map fst ?counts)" "\<And>k. k \<in> set (map fst ?counts) \<longleftrightarrow> 0 < tally answers k"
    using countAnswers_keys [of "[]" answers] look by simp_all
  have ks: "set ?ks = set (map fst ?counts)" "distinct ?ks"
    using perm [of "map fst ?counts"] keys(1) by (metis set_mset_mset, metis mset_eq_imp_distinct_iff)
  obtain b n t where scan: "scanCounts (rangeCounts env ?counts) [] 0 False = (b, n, t)"
    by (cases "scanCounts (rangeCounts env ?counts) [] 0 False")
  have "rangeCounts env ?counts = map (\<lambda>k. (k, tally answers k)) ?ks"
    unfolding rangeCounts_def lookup_def [symmetric] look ..
  then have "leads (tally answers) ({} \<union> set ?ks) b n t"
    using scan ks keys(2) by (intro scanCounts_leads [of _ _ "{}" "[]" 0 False]) (auto simp: leads_def)
  moreover have "{} \<union> set ?ks = {k. 0 < tally answers k}" using keys(2) ks(1) by blast
  ultimately have lead: "leads (tally answers) {k. 0 < tally answers k} b n t" by (simp only:)
  have "strict_plurality answers v \<longleftrightarrow> \<not> t \<and> 0 < n \<and> v = b" for v
  proof
    assume sp: "strict_plurality answers v"
    then have v: "0 < tally answers v" "\<And>v'. v' \<noteq> v \<Longrightarrow> tally answers v' < tally answers v"
      by (auto simp: strict_plurality_def)
    have n: "0 < n" "tally answers b = n" "tally answers v \<le> n" using lead v(1) by (auto simp: leads_def)
    have "v = b" using v(2) [of b] n by fastforce
    moreover have "\<not> t"
    proof
      assume t
      then obtain k where "k \<noteq> b" "tally answers k = n" using lead n(1) by (auto simp: leads_def)
      then show False using v(2) [of k] n(2) \<open>v = b\<close> by simp
    qed
    ultimately show "\<not> t \<and> 0 < n \<and> v = b" using n by simp
  next
    assume r: "\<not> t \<and> 0 < n \<and> v = b"
    have "tally answers v' < tally answers b" if "v' \<noteq> b" for v'
    proof -
      have "tally answers b = n" "\<not> (0 < tally answers v' \<and> tally answers v' = n)"
        "0 < tally answers v' \<Longrightarrow> tally answers v' \<le> n"
        using lead r that unfolding leads_def by blast+
      then show ?thesis using r by linarith
    qed
    then show "strict_plurality answers v" using lead r by (simp add: strict_plurality_def leads_def)
  qed
  moreover have "winningAnswer env [] answers = (if \<not> t \<and> 0 < n then b else [])"
    by (simp add: winningAnswer_def scan Let_def)
  ultimately show ?thesis using w by auto
qed

section \<open>Settling within the budget\<close>

lemma mint_account_exists:
  assumes "mintProtocolReward env a ab amt rail s = (Inr r, s')" and "amt < MinNewAccountCredit"
  shows "kv_get (Keeper.Account s) a \<noteq> None"
  using assms by (auto simp: mintProtocolReward_def checkNewAccountCredit_def split: if_splits option.splits)

lemma payAnswers_within:
  "payAnswers env drip w as1 m s = (Inr r, s') \<Longrightarrow> core_inv s \<Longrightarrow> emission_inv s \<Longrightarrow>
   total_supply s + mintable s < 2 ^ 64 \<Longrightarrow> clock_ok env s \<Longrightarrow> drip \<noteq> 0 \<Longrightarrow> drip < MinNewAccountCredit \<Longrightarrow>
     length (filter (coherent w) as1) * unat drip \<le> epochBudget env s"
proof (induction as1 arbitrary: s m r)
  case (Cons a as1)
  show ?case
  proof (cases "coherent w a")
    case True
    obtain ab s1 as2 m2 where mint: "mintProtocolReward env (GateAnswer.Agent a) ab drip ''gate'' s = (Inr (), s1)"
      and rest: "payAnswers env drip w as1 (m + drip) s1 = (Inr (as2, m2), s')"
      using payAnswers_pay [OF Cons.prems(1) True] by metis
    note ok = mintProtocolReward_ok [OF mint Cons.prems(2-4)]
    note ex = mint_exactly(2) [OF mint_account_exists [OF mint Cons.prems(7)] Cons.prems(6,3,5) mint]
    have "total_supply s1 + mintable s1 < 2 ^ 64" using ok Cons.prems(4) by linarith
    then have "length (filter (coherent w) as1) * unat drip \<le> epochBudget env s1"
      using Cons.IH [OF rest ok(1,2)] ex Cons.prems(6,7) by blast
    then show ?thesis using ex True by simp
  next
    case False
    obtain as2 m2 where rest: "payAnswers env drip w as1 m s = (Inr (as2, m2), s')"
      using payAnswers_skip [OF Cons.prems(1) False] by metis
    show ?thesis using Cons.IH [OF rest Cons.prems(2-7)] False by simp
  qed
qed simp

lemma payAnswers_total:
  "core_inv s \<Longrightarrow> emission_inv s \<Longrightarrow> total_supply s + mintable s < 2 ^ 64 \<Longrightarrow> clock_ok env s \<Longrightarrow> drip \<noteq> 0 \<Longrightarrow>
   \<forall>a \<in> set as1. coherent w a \<longrightarrow> StringToBytes env (GateAnswer.Agent a) \<noteq> None
        \<and> kv_get (Keeper.Account s) (GateAnswer.Agent a) \<noteq> None \<Longrightarrow>
   length (filter (coherent w) as1) * unat drip \<le> epochBudget env s \<Longrightarrow>
     \<exists>r s'. payAnswers env drip w as1 m s = (Inr r, s')"
proof (induction as1 arbitrary: s m)
  case (Cons a as1)
  show ?case
  proof (cases "coherent w a")
    case True
    then obtain ab where ab: "StringToBytes env (GateAnswer.Agent a) = Some ab"
      and acc: "kv_get (Keeper.Account s) (GateAnswer.Agent a) \<noteq> None" using Cons.prems(6) by auto
    note ex = mint_exactly [OF acc Cons.prems(5,2,4), of ab "''gate''"]
    have "unat drip \<le> epochBudget env s" using Cons.prems(7) True by simp
    then obtain s1 where mint: "mintProtocolReward env (GateAnswer.Agent a) ab drip ''gate'' s = (Inr (), s1)"
      using ex(1) by blast
    note ok = mintProtocolReward_ok [OF mint Cons.prems(1-3)] and ex2 = ex(2) [OF mint]
    have "total_supply s1 + mintable s1 < 2 ^ 64" using ok Cons.prems(3) by linarith
    then have "\<exists>r s'. payAnswers env drip w as1 (m + drip) s1 = (Inr r, s')"
      using Cons.prems(5,6,7) ex2 True by (intro Cons.IH [OF ok(1,2)]) auto
    then show ?thesis using True ab mint by (auto simp: coherent_def)
  next
    case False
    then have "\<exists>r s'. payAnswers env drip w as1 m s = (Inr r, s')"
      using Cons.prems by (intro Cons.IH) auto
    then show ?thesis using False by (auto simp: coherent_def)
  qed
qed simp

section \<open>A sample gate\<close>

definition gateAnswers :: "nat \<Rightarrow> GateAnswer list" where
  "gateAnswers n = replicate n \<lparr>GateAnswer.Agent = ''alice'', GateAnswer.Commit = ''c'', GateAnswer.Answer = ''yes'',
     GateAnswer.Revealed = True, GateAnswer.Paid = False\<rparr>"

definition goldHash :: string where
  "goldHash = gateAnswerCommit (sampleEnv 0) ''yes'' ''salt''"

lemma goldHash_eq [simp]: "gateAnswerCommit (sampleEnv t) ''yes'' ''salt'' = goldHash"
  by (simp add: goldHash_def gateAnswerCommit_def)

lemma goldHash_hex [simp]: "isHexSHA256 goldHash"
  unfolding goldHash_def gateAnswerCommit_def by (rule isHexSHA256_hex_Encode) simp

definition yesGate :: "GateAnswer list \<Rightarrow> Gate" where
  "yesGate answers = \<lparr>Gate.Id = 0, Gate.Poster = ''dave'', Gate.PayloadUri = [], Gate.PayloadHash = goldHash,
     Gate.GoldCommit = goldHash, Gate.Drip = 50, Gate.MaxAnswers = 1000, Gate.CommitDeadline = 500,
     Gate.RevealDeadline = 900, Gate.Status = GateStatusOpen, Gate.Answers = answers, Gate.GoldAnswer = [],
     Gate.Consensus = []\<rparr>"

lemma yesGate_simps [simp]:
  "Gate.Id (yesGate as1) = 0" "Gate.Poster (yesGate as1) = ''dave''" "Gate.GoldCommit (yesGate as1) = goldHash"
  "Gate.Drip (yesGate as1) = 50" "Gate.MaxAnswers (yesGate as1) = 1000" "Gate.CommitDeadline (yesGate as1) = 500"
  "Gate.RevealDeadline (yesGate as1) = 900" "Gate.Status (yesGate as1) = GateStatusOpen"
  "Gate.Answers (yesGate as1) = as1"
  by (simp_all add: yesGate_def)

definition sampleGate :: "GateAnswer list \<Rightarrow> Keeper" where
  "sampleGate answers = setGate 0 (yesGate answers) (sampleSchedule\<lparr>Keeper.GateSeq := 1\<rparr>)"

lemma sampleGate_fields [simp]:
  "kv_get (Keeper.Gate (sampleGate as1)) i = (if i = 0 then Some (yesGate as1) else None)"
  "Keeper.Account (sampleGate as1) = Keeper.Account sampleState"
  "Keeper.EmissionState (sampleGate as1) = Some (DefaultEmissionState 1000)"
  "Keeper.Params (sampleGate as1) = Keeper.Params sampleState"
  by (simp_all add: sampleGate_def sampleSchedule_def)

lemma sampleGate_core [simp]: "core_inv (sampleGate as1)"
  by (auto simp: core_inv_def accounts_registered_def ids_in_order_def sampleGate_def sampleSchedule_def split: if_splits)

lemma sampleGate_ledger [simp]: "ledger_inv (sampleGate as1)"
proof -
  have em: "Keeper.EmissionState (sampleGate as1) = Keeper.EmissionState sampleSchedule" by simp
  have "total_supply (sampleGate as1) = 6000" by (simp add: sampleGate_def sampleSchedule_def)
  moreover have "mintable (sampleGate as1) = 21000000"
    by (simp add: mintable_def unat_RemainingScheduled) (simp add: DefaultEmissionState_def Constants.MaxSupply_def)
  ultimately show ?thesis using emission_unchanged(1) [OF em] by (simp add: ledger_inv_def)
qed

lemma sampleGate_budget [simp]: "epochBudget (sampleEnv 2000) (sampleGate as1) = 21000" "clock_ok (sampleEnv 2000) (sampleGate as1)"
proof -
  have em: "Keeper.EmissionState (sampleGate as1) = Keeper.EmissionState sampleSchedule" by simp
  show "epochBudget (sampleEnv 2000) (sampleGate as1) = 21000" using epochBudget_cong [OF em] by simp
  show "clock_ok (sampleEnv 2000) (sampleGate as1)"
    using sampleSchedule_clock by (simp add: clock_ok_def epochLen_def)
qed

lemma sampleGate_standard [simp]: "standard_schedule (sampleGate as1)"
  using weekly_default by (simp add: standard_schedule_def)

definition yesSettle :: MsgSettleGate where
  "yesSettle = \<lparr>MsgSettleGate.Creator = ''frank'', MsgSettleGate.GateId = 0, MsgSettleGate.GoldAnswer = ''yes'',
     MsgSettleGate.GoldSalt = ''salt''\<rparr>"

lemma yesSettle_simps [simp]:
  "MsgSettleGate.Creator yesSettle = ''frank''" "MsgSettleGate.GateId yesSettle = 0"
  "MsgSettleGate.GoldAnswer yesSettle = ''yes''" "MsgSettleGate.GoldSalt yesSettle = ''salt''"
  by (simp_all add: yesSettle_def)

lemma winners_sample [simp]:
  "winners ''yes'' (yesGate (gateAnswers n)) = gateAnswers n" "length (gateAnswers n) = n"
  by (simp_all add: winners_def gateAnswers_def coherent_def)

section \<open>Properties\<close>

text \<open>
  C27: The winner of a live gate is the strict plurality. With the empty gold answer, a
  non-empty answer wins exactly when more agents revealed it than any other answer, in whatever
  order the nodes happen to range over the map of counts; so all nodes agree on the winner,
  and a tie has none.
\<close>

theorem live_gate_pays_strict_plurality:
  assumes "\<And>ks. mset (RangeKeys env ks) = mset ks" and "w \<noteq> []"
  shows "winningAnswer env [] answers = w \<longleftrightarrow> strict_plurality answers w"
  by (rule winningAnswer_plurality [OF assms])

lemma live_gate_pays_strict_plurality_witness:
  "winningAnswer (sampleEnv 0) [] (gateAnswers 3) = ''yes''"
proof -
  have "tally (gateAnswers 3) v = (if v = ''yes'' then 3 else 0)" for v
    by (simp add: tally_def gateAnswers_def coherent_def)
  then have "strict_plurality (gateAnswers 3) ''yes''" by (simp add: strict_plurality_def)
  then show ?thesis using live_gate_pays_strict_plurality [of "sampleEnv 0" "''yes''" "gateAnswers 3"] by simp
qed

text \<open>
  C28: A settlement mints the drip once for every revealed winning answer, and is final. When
  \<open>SettleGate\<close> succeeds, the gate was open and its reveal window over; the gold preimage matched
  the commitment; every account gains the drip for each of its coherent answers and nothing
  else; exactly these coins are added to the supply and to the total mined; the gate is settled
  with those answers marked as paid, and no later message settles it again.
\<close>

theorem settlement_mints_drip_per_winner:
  assumes "SettleGate env msg s = (Inr w, s')" and "ledger_inv s"
  shows "\<exists>g. kv_get (Keeper.Gate s) (MsgSettleGate.GateId msg) = Some g \<and> Gate.Status g = GateStatusOpen
     \<and> Gate.RevealDeadline g <=s BlockTime env
     \<and> EqualFold (FoldUnicode env) (gateAnswerCommit env (MsgSettleGate.GoldAnswer msg) (MsgSettleGate.GoldSalt msg))
          (Gate.GoldCommit g)
     \<and> w = winningAnswer env (MsgSettleGate.GoldAnswer msg) (Gate.Answers g)
     \<and> (\<forall>a. balance s' a = balance s a
          + length (filter (\<lambda>x. GateAnswer.Agent x = a) (winners w g)) * unat (Gate.Drip g))
     \<and> total_supply s' = total_supply s + length (winners w g) * unat (Gate.Drip g)
     \<and> minedTotal s' = minedTotal s + length (winners w g) * unat (Gate.Drip g)
     \<and> kv_get (Keeper.Gate s') (MsgSettleGate.GateId msg) = Some (settledGate msg w g)
     \<and> (\<forall>env' msg'. MsgSettleGate.GateId msg' = MsgSettleGate.GateId msg \<longrightarrow>
          (\<exists>err. SettleGate env' msg' s' = (Inl err, s')))"
proof -
  let ?i = "MsgSettleGate.GateId msg"
  obtain g s1 n ats where g: "kv_get (Keeper.Gate s) ?i = Some g" "Gate.Status g = GateStatusOpen"
      "Gate.RevealDeadline g <=s BlockTime env"
      "EqualFold (FoldUnicode env) (gateAnswerCommit env (MsgSettleGate.GoldAnswer msg) (MsgSettleGate.GoldSalt msg))
         (Gate.GoldCommit g)"
      "w = winningAnswer env (MsgSettleGate.GoldAnswer msg) (Gate.Answers g)"
    and ok: "total_supply s1 = total_supply s + length (winners w g) * unat (Gate.Drip g)"
      "minedTotal s1 = minedTotal s + length (winners w g) * unat (Gate.Drip g)"
      "\<forall>c. balance s1 c = balance s c + length (filter (\<lambda>a. GateAnswer.Agent a = c) (winners w g)) * unat (Gate.Drip g)"
    and s': "s' = emit n ats (setGate ?i (settledGate msg w g) s1)"
    using SettleGate_ledger [OF assms] by blast
  have g': "kv_get (Keeper.Gate s') ?i = Some (settledGate msg w g)" by (simp add: s')
  have "Gate.Status (settledGate msg w g) \<noteq> GateStatusOpen"
    by (simp add: settledGate_def GateStatusOpen_def GateStatusSettled_def)
  then have "\<exists>err. SettleGate env' msg' s' = (Inl err, s')" if "MsgSettleGate.GateId msg' = ?i" for env' msg'
    using g' that by (simp add: SettleGate_def split: option.splits)
  moreover have "minedTotal s' = minedTotal s1" by (simp add: s' minedTotal_def)
  ultimately show ?thesis using g ok g' by (intro exI [of _ g]) (simp add: s')
qed

lemma sampleGate_total:
  "n \<le> 420 \<Longrightarrow> \<exists>w s'. SettleGate (sampleEnv 2000) yesSettle (sampleGate (gateAnswers n)) = (Inr w, s')"
proof -
  assume "n \<le> 420"
  then have "\<exists>r s'. payAnswers (sampleEnv 2000) 50 ''yes'' (gateAnswers n) 0 (sampleGate (gateAnswers n)) = (Inr r, s')"
    using sampleGate_ledger [of "gateAnswers n"]
    by (intro payAnswers_total) (auto simp: ledger_inv_def gateAnswers_def coherent_def)
  then show ?thesis
    by (auto simp: SettleGate_def Let_def winningAnswer_def i64_less_iff)
qed

lemma settlement_mints_drip_per_winner_witness:
  "\<exists>w s'. SettleGate (sampleEnv 2000) yesSettle (sampleGate (gateAnswers 3)) = (Inr w, s')
     \<and> balance s' ''alice'' = 1150"
proof -
  obtain w s' where run: "SettleGate (sampleEnv 2000) yesSettle (sampleGate (gateAnswers 3)) = (Inr w, s')"
    using sampleGate_total [of 3] by auto
  have w: "w = ''yes''"
    using settlement_mints_drip_per_winner [OF run] by (auto simp: winningAnswer_def)
  have "filter (\<lambda>x. GateAnswer.Agent x = ''alice'') (gateAnswers 3) = gateAnswers 3" by (simp add: gateAnswers_def)
  then have "balance s' ''alice'' = 1150"
    using settlement_mints_drip_per_winner [OF run] w by (auto simp: balance_def)
  then show ?thesis using run by blast
qed

text \<open>
  C29: A gate settles if and only if its winners fit into the budget of the epoch. For an open gate
  past its reveal window, with the right preimage, a drip below the new-account minimum, and
  winners that have accounts, \<open>SettleGate\<close> succeeds exactly when the drip times the number of
  winners is at most what the schedule has left for the epoch of the block.
\<close>

theorem gate_settles_iff_budget_fits:
  assumes "ledger_inv s" and "clock_ok env s" and "StringToBytes env (MsgSettleGate.Creator msg) \<noteq> None"
    and "kv_get (Keeper.Gate s) (MsgSettleGate.GateId msg) = Some g" and "Gate.Status g = GateStatusOpen"
    and "Gate.RevealDeadline g <=s BlockTime env"
    and "EqualFold (FoldUnicode env) (gateAnswerCommit env (MsgSettleGate.GoldAnswer msg) (MsgSettleGate.GoldSalt msg))
           (Gate.GoldCommit g)"
    and "Gate.Drip g \<noteq> 0" and "Gate.Drip g < MinNewAccountCredit"
    and "w = winningAnswer env (MsgSettleGate.GoldAnswer msg) (Gate.Answers g)"
    and "\<forall>a \<in> set (winners w g). StringToBytes env (GateAnswer.Agent a) \<noteq> None
        \<and> kv_get (Keeper.Account s) (GateAnswer.Agent a) \<noteq> None"
  shows "(\<exists>s'. SettleGate env msg s = (Inr w, s')) \<longleftrightarrow>
     length (winners w g) * unat (Gate.Drip g) \<le> epochBudget env s"
proof -
  have invs: "core_inv s" "emission_inv s" "total_supply s + mintable s < 2 ^ 64"
    using assms(1) by (simp_all add: ledger_inv_def)
  have late: "\<not> BlockTime env <s Gate.RevealDeadline g" using assms(6) by (simp add: i64_le_iff i64_less_iff)
  obtain cb where cb: "StringToBytes env (MsgSettleGate.Creator msg) = Some cb" using assms(3) by blast
  have eq: "(\<exists>s'. SettleGate env msg s = (Inr w, s')) \<longleftrightarrow>
      (w = [] \<or> (\<exists>r s1. payAnswers env (Gate.Drip g) w (Gate.Answers g) 0 s = (Inr r, s1)))"
    by (auto simp: SettleGate_def cb assms(4,5,7) late assms(10) [symmetric] Let_def split: sum.splits prod.splits)
  show ?thesis
  proof (cases "w = []")
    case True
    then show ?thesis using eq by (simp add: winners_def)
  next
    case False
    then have win: "winners w g = filter (coherent w) (Gate.Answers g)" by (simp add: winners_def)
    have "(\<exists>r s1. payAnswers env (Gate.Drip g) w (Gate.Answers g) 0 s = (Inr r, s1)) \<longleftrightarrow>
        length (winners w g) * unat (Gate.Drip g) \<le> epochBudget env s"
      using payAnswers_within [OF _ invs assms(2,8,9), of w "Gate.Answers g" 0]
        payAnswers_total [OF invs assms(2,8), of "Gate.Answers g" w 0] assms(11) unfolding win by fastforce
    then show ?thesis using eq False by simp
  qed
qed

lemma gate_settles_iff_budget_fits_witness:
  "(\<exists>s'. SettleGate (sampleEnv 2000) yesSettle (sampleGate (gateAnswers 420)) = (Inr ''yes'', s'))
     \<and> \<not> (\<exists>s'. SettleGate (sampleEnv 2000) yesSettle (sampleGate (gateAnswers 421)) = (Inr ''yes'', s'))"
proof -
  have agents: "\<forall>a \<in> set (winners ''yes'' (yesGate (gateAnswers n))). StringToBytes (sampleEnv 2000) (GateAnswer.Agent a) \<noteq> None
      \<and> kv_get (Keeper.Account (sampleGate (gateAnswers n))) (GateAnswer.Agent a) \<noteq> None" for n
    by (auto simp: gateAnswers_def winners_def coherent_def)
  have "(\<exists>s'. SettleGate (sampleEnv 2000) yesSettle (sampleGate (gateAnswers n)) = (Inr ''yes'', s')) \<longleftrightarrow>
      length (winners ''yes'' (yesGate (gateAnswers n))) * unat (Gate.Drip (yesGate (gateAnswers n)))
        \<le> epochBudget (sampleEnv 2000) (sampleGate (gateAnswers n))" for n
    by (rule gate_settles_iff_budget_fits [OF _ _ _ _ _ _ _ _ _ _ agents])
      (simp_all add: winningAnswer_def i64_le_iff MinNewAccountCredit_def)
  then show ?thesis by simp
qed

text \<open>
  A gate with too many winners cannot be settled. The limits of \<open>PostGate\<close> allow 1000 answers
  at 50 coins, while the schedule never gives an epoch more than 21000. If the winners of an open
  gate are owed more than that, \<open>SettleGate\<close> fails in every block, for every sender and in whatever
  state of the schedule: the gate stays open and nobody is paid.
\<close>

lemma overfull_gate_never_settles:
  assumes "ledger_inv s" and "standard_schedule s" and "clock_ok env s"
    and "kv_get (Keeper.Gate s) (MsgSettleGate.GateId msg) = Some g"
    and "Gate.Drip g \<noteq> 0" and "Gate.Drip g \<le> MaxDripPerAnswer"
    and "21000 < length (winners (winningAnswer env (MsgSettleGate.GoldAnswer msg) (Gate.Answers g)) g) * unat (Gate.Drip g)"
  shows "\<exists>err. fst (SettleGate env msg s) = Inl err"
proof (rule ccontr)
  assume "\<not> ?thesis"
  then obtain w s' where run: "SettleGate env msg s = (Inr w, s')"
    by (cases "SettleGate env msg s"; cases "fst (SettleGate env msg s)") auto
  obtain g1 as2 m s1 where g1: "kv_get (Keeper.Gate s) (MsgSettleGate.GateId msg) = Some g1"
    and w: "w = winningAnswer env (MsgSettleGate.GoldAnswer msg) (Gate.Answers g1)"
    and pay: "(if w \<noteq> [] then payAnswers env (Gate.Drip g1) w (Gate.Answers g1) 0 s else (Inr (Gate.Answers g1, 0), s))
         = (Inr (as2, m), s1)"
    using SettleGate_success [OF run] assms(1) unfolding ledger_inv_def by blast
  have g: "g1 = g" using g1 assms(4) by simp
  have w0: "w \<noteq> []" using assms(7) w g by (auto simp: winners_def)
  have small: "Gate.Drip g < MinNewAccountCredit"
    using assms(6) by (simp add: MaxDripPerAnswer_def MinNewAccountCredit_def u64_le_iff u64_less_iff)
  have "length (winners w g) * unat (Gate.Drip g) \<le> epochBudget env s"
    using payAnswers_within [of env "Gate.Drip g" w "Gate.Answers g" 0 s] pay w0 g assms(1,3,5) small
    by (auto simp: ledger_inv_def winners_def)
  then show False using weekly_budget [OF assms(2), of env] assms(7) w g by simp
qed

lemma overfull_gate_never_settles_witness:
  "\<exists>err. fst (SettleGate (sampleEnv 2000) yesSettle (sampleGate (gateAnswers 421))) = Inl err"
  using overfull_gate_never_settles [of "sampleGate (gateAnswers 421)" "sampleEnv 2000" yesSettle "yesGate (gateAnswers 421)"]
  by (simp add: winningAnswer_def MaxDripPerAnswer_def)

text \<open>Who reveals is one entry of a list with one entry for each agent, and no other entry changes.\<close>

lemma revealIn_valid:
  "revealIn env m as1 = Inr as2 \<Longrightarrow> distinct (map GateAnswer.Agent as1) \<Longrightarrow> x \<in> set as1 \<Longrightarrow>
     GateAnswer.Agent x = MsgRevealAnswer.Creator m \<Longrightarrow>
     EqualFold (FoldUnicode env) (gateAnswerCommit env (MsgRevealAnswer.Answer m) (MsgRevealAnswer.Salt m)) (GateAnswer.Commit x)"
  by (induction as1 arbitrary: as2) (auto split: if_splits sum.splits simp: image_iff)

lemma revealIn_keeps:
  "revealIn env m as1 = Inr as2 \<Longrightarrow> y \<in> set as1 \<Longrightarrow> GateAnswer.Agent y \<noteq> MsgRevealAnswer.Creator m \<Longrightarrow> y \<in> set as2"
  by (induction as1 arbitrary: as2) (auto split: if_splits sum.splits)

lemma revealIn_succeeds:
  "y \<in> set as1 \<Longrightarrow> distinct (map GateAnswer.Agent as1) \<Longrightarrow> GateAnswer.Agent y = MsgRevealAnswer.Creator m \<Longrightarrow>
     \<not> GateAnswer.Revealed y \<Longrightarrow>
     EqualFold (FoldUnicode env) (gateAnswerCommit env (MsgRevealAnswer.Answer m) (MsgRevealAnswer.Salt m)) (GateAnswer.Commit y)
     \<Longrightarrow> \<exists>as2. revealIn env m as1 = Inr as2"
  by (induction as1) (auto split: sum.splits simp: image_iff)

text \<open>
  C31: A commitment does not bind its author. The commit is the hash of answer and salt without the
  agent, and the commits are public: an agent that commits the same hash as another one can wait
  until the other reveals and then reveal the same answer and salt. So whenever a reveal
  succeeds, every other agent whose first entry on the gate is unrevealed and carries the same
  commit can reveal that answer too, in the same block and without having known it.
\<close>

theorem copied_commit_free_rides:
  assumes "RevealAnswer env \<lparr>MsgRevealAnswer.Creator = a, MsgRevealAnswer.GateId = i, MsgRevealAnswer.Answer = ans,
            MsgRevealAnswer.Salt = salt\<rparr> s = (Inr r, s')" and "core_inv s"
    and "kv_get (Keeper.Gate s) i = Some g" and "distinct (map GateAnswer.Agent (Gate.Answers g))"
    and "x \<in> set (Gate.Answers g)" and "GateAnswer.Agent x = a"
    and "y \<in> set (Gate.Answers g)" and "GateAnswer.Agent y = b" and "b \<noteq> a" and "StringToBytes env b \<noteq> None"
    and "\<not> GateAnswer.Revealed y" and "GateAnswer.Commit y = GateAnswer.Commit x"
  shows "\<exists>s2. RevealAnswer env \<lparr>MsgRevealAnswer.Creator = b, MsgRevealAnswer.GateId = i, MsgRevealAnswer.Answer = ans,
            MsgRevealAnswer.Salt = salt\<rparr> s' = (Inr (), s2)"
proof -
  let ?m = "\<lambda>c. \<lparr>MsgRevealAnswer.Creator = c, MsgRevealAnswer.GateId = i, MsgRevealAnswer.Answer = ans,
            MsgRevealAnswer.Salt = salt\<rparr>"
  obtain as2 n ats where as2: "revealIn env (?m a) (Gate.Answers g) = Inr as2"
    and g: "Gate.Status g = GateStatusOpen" "Gate.CommitDeadline g <=s BlockTime env" "BlockTime env <s Gate.RevealDeadline g"
      "ans \<noteq> []"
    and s': "s' = emit n ats (setGate i (g\<lparr>Gate.Answers := as2\<rparr>) s)"
    using RevealAnswer_success [OF assms(1,2)] assms(3) by auto
  have "map GateAnswer.Agent as2 = map GateAnswer.Agent (Gate.Answers g)"
    using arg_cong [OF revealIn_keys [OF as2], of "map fst"] by (simp add: comp_def)
  then obtain bs where "revealIn env (?m b) as2 = Inr bs"
    using revealIn_succeeds [of y as2 "?m b" env] revealIn_keeps [OF as2 assms(7)] revealIn_valid [OF as2 assms(4,5)]
      assms(4,6,8,9,11,12) by auto
  then show ?thesis
    using g assms(10) by (auto simp: RevealAnswer_def s' Let_def i64_le_iff i64_less_iff)
qed

definition copiedAnswers :: "GateAnswer list" where
  "copiedAnswers = map (\<lambda>c. \<lparr>GateAnswer.Agent = c, GateAnswer.Commit = goldHash, GateAnswer.Answer = [],
     GateAnswer.Revealed = False, GateAnswer.Paid = False\<rparr>) [''alice'', ''bob'']"

lemma copied_commit_free_rides_witness:
  "\<exists>s' s2. RevealAnswer (sampleEnv 600) \<lparr>MsgRevealAnswer.Creator = ''alice'', MsgRevealAnswer.GateId = 0,
        MsgRevealAnswer.Answer = ''yes'', MsgRevealAnswer.Salt = ''salt''\<rparr> (sampleGate copiedAnswers) = (Inr (), s')
     \<and> RevealAnswer (sampleEnv 600) \<lparr>MsgRevealAnswer.Creator = ''bob'', MsgRevealAnswer.GateId = 0,
        MsgRevealAnswer.Answer = ''yes'', MsgRevealAnswer.Salt = ''salt''\<rparr> s' = (Inr (), s2)"
proof -
  obtain s' where run: "RevealAnswer (sampleEnv 600) \<lparr>MsgRevealAnswer.Creator = ''alice'', MsgRevealAnswer.GateId = 0,
        MsgRevealAnswer.Answer = ''yes'', MsgRevealAnswer.Salt = ''salt''\<rparr> (sampleGate copiedAnswers) = (Inr (), s')"
    by (simp add: RevealAnswer_def copiedAnswers_def Let_def i64_less_iff i64_le_iff)
  show ?thesis
    using copied_commit_free_rides [OF run, of "yesGate copiedAnswers" "hd copiedAnswers" "hd (tl copiedAnswers)" "''bob''"] run
    by (simp add: copiedAnswers_def)
qed

text \<open>
  C26: Commits and reveals of a gate never overlap. If an answer is committed to a gate in one block
  and an answer of the same gate is revealed in another block, in any two states that agree on the
  commit deadline of the gate, then the block of the commit is strictly earlier: when the
  first answer becomes public, no commit is possible any more.
\<close>

theorem commits_precede_reveals:
  assumes "CommitAnswer env m s = (Inr r, s')" and "RevealAnswer env2 m2 s2 = (Inr r2, s3)"
    and "core_inv s" and "core_inv s2"
    and "kv_get (Keeper.Gate s) (MsgCommitAnswer.GateId m) = Some g"
    and "kv_get (Keeper.Gate s2) (MsgRevealAnswer.GateId m2) = Some g2"
    and "Gate.CommitDeadline g2 = Gate.CommitDeadline g"
  shows "BlockTime env <s BlockTime env2"
proof -
  have "BlockTime env <s Gate.CommitDeadline g" using CommitAnswer_success [OF assms(1,3)] assms(5) by auto
  moreover have "Gate.CommitDeadline g <=s BlockTime env2" using RevealAnswer_success [OF assms(2,4)] assms(6,7) by auto
  ultimately show ?thesis by (simp add: i64_le_iff i64_less_iff)
qed

lemma commits_precede_reveals_witness:
  "BlockTime (sampleEnv 400) <s BlockTime (sampleEnv 600)"
proof -
  obtain s' where commit: "CommitAnswer (sampleEnv 400) \<lparr>MsgCommitAnswer.Creator = ''carol'', MsgCommitAnswer.GateId = 0,
        MsgCommitAnswer.Commit = goldHash\<rparr> (sampleGate copiedAnswers) = (Inr (), s')"
    by (simp add: CommitAnswer_def copiedAnswers_def getRegistered_def Let_def i64_less_iff i64_le_iff)
  obtain s2 where reveal: "RevealAnswer (sampleEnv 600) \<lparr>MsgRevealAnswer.Creator = ''alice'', MsgRevealAnswer.GateId = 0,
        MsgRevealAnswer.Answer = ''yes'', MsgRevealAnswer.Salt = ''salt''\<rparr> (sampleGate copiedAnswers) = (Inr (), s2)"
    by (simp add: RevealAnswer_def copiedAnswers_def Let_def i64_less_iff i64_le_iff)
  show ?thesis using commits_precede_reveals [OF commit reveal] by simp
qed

end
