(* ===== verification/Float64.thy ===== *)
theory Float64
  imports Complex_Main KeeperState "HOL-Library.Log_Nat"
begin

text \<open>
  The floating-point arithmetic of \<^verbatim>\<open>pagerank.go\<close>. A Go \<^verbatim>\<open>float64\<close> is an IEEE 754 binary64
  number; the values of this code are finite (at most \<open>2 ^ 64\<close> per edge), so a value is the
  rational it denotes and an operation is the exact result, rounded to 53 significant bits
  with ties to even. Signed zeros, infinities and NaN do not occur.

  The Go language lets a compiler fuse a multiplication with the addition that uses it into
  one operation with a single rounding, which it does on some processors and not on others.
  The arithmetic is therefore an argument of the ranking: \<open>ieee False\<close> rounds every operation,
  \<open>ieee True\<close> fuses, and \<open>exact\<close> does not round at all and serves as the reference.
\<close>

section \<open>The operations the code uses\<close>

record 'f floats =
  Const :: "rat \<Rightarrow> 'f"
  FromUint :: "u64 \<Rightarrow> 'f"
  FromLen :: "nat \<Rightarrow> 'f"
  Add :: "'f \<Rightarrow> 'f \<Rightarrow> 'f"
  Sub :: "'f \<Rightarrow> 'f \<Rightarrow> 'f"
  Mul :: "'f \<Rightarrow> 'f \<Rightarrow> 'f"
  Div :: "'f \<Rightarrow> 'f \<Rightarrow> 'f"
  Abs :: "'f \<Rightarrow> 'f"
  MulAdd :: "'f \<Rightarrow> 'f \<Rightarrow> 'f \<Rightarrow> 'f"
  MulAddMul :: "'f \<Rightarrow> 'f \<Rightarrow> 'f \<Rightarrow> 'f \<Rightarrow> 'f"
  Less :: "'f \<Rightarrow> 'f \<Rightarrow> bool"
  IsZero :: "'f \<Rightarrow> bool"
  Format8 :: "'f \<Rightarrow> string"
  FormatShortest :: "'f \<Rightarrow> string"

abbreviation Zero :: "'f floats \<Rightarrow> 'f" where
  "Zero F \<equiv> Const F 0"

section \<open>Rounding\<close>

definition round_even :: "rat \<Rightarrow> int" where
  "round_even x =
     (let f = \<lfloor>x\<rfloor>; d = x - of_int f
      in if 2 * d < 1 then f else if 2 * d > 1 then f + 1 else if even f then f else f + 1)"

definition pow2 :: "int \<Rightarrow> rat" where
  "pow2 e = (if 0 \<le> e then 2 ^ nat e else 1 / 2 ^ nat (- e))"

text \<open>The exponent of the last of the 53 bits of a positive number, at least \<open>-1074\<close>.\<close>

definition last_bit :: "rat \<Rightarrow> int" where
  "last_bit x =
     (let (n, d) = quotient_of x;
          e = bitlen n - bitlen d - 53
      in max (if x < pow2 53 * pow2 e then e else e + 1) (- 1074))"

definition round64 :: "rat \<Rightarrow> rat" where
  "round64 x =
     (if x = 0 then 0
      else if x < 0 then - (of_int (round_even (- x / pow2 (last_bit (- x)))) * pow2 (last_bit (- x)))
      else of_int (round_even (x / pow2 (last_bit x))) * pow2 (last_bit x))"

lemma round_even_near: "\<bar>of_int (round_even x) - x\<bar> \<le> 1 / 2"
proof -
  define d where "d = x - of_int \<lfloor>x\<rfloor>"
  have d: "0 \<le> d" "d < 1" unfolding d_def by linarith+
  have x: "x = of_int \<lfloor>x\<rfloor> + d" by (simp add: d_def)
  have "\<bar>of_int (round_even x) - (of_int \<lfloor>x\<rfloor> + d)\<bar> \<le> 1 / 2"
    unfolding round_even_def Let_def d_def [symmetric] using d by auto
  then show ?thesis by (simp only: x [symmetric])
qed

lemma round_even_nonneg: "0 \<le> x \<Longrightarrow> 0 \<le> round_even x"
  by (auto simp: round_even_def Let_def)

lemma pow2_pos [simp]: "0 < pow2 e"
  by (simp add: pow2_def)

lemma round64_zero [simp]: "round64 0 = 0"
  by (simp add: round64_def)

lemma round64_nonneg: "0 \<le> x \<Longrightarrow> 0 \<le> round64 x"
  by (auto simp: round64_def less_imp_le intro!: mult_nonneg_nonneg round_even_nonneg divide_nonneg_pos)

text \<open>Rounding moves a positive number by at most half a unit in its last place.\<close>

lemma round64_near:
  assumes "0 < x"
  shows "\<bar>round64 x - x\<bar> \<le> pow2 (last_bit x) / 2"
proof -
  let ?u = "pow2 (last_bit x)"
  have "round64 x - x = (of_int (round_even (x / ?u)) - x / ?u) * ?u"
    using assms less_imp_neq [OF pow2_pos, of "last_bit x"] by (simp add: round64_def left_diff_distrib)
  then have "\<bar>round64 x - x\<bar> = \<bar>of_int (round_even (x / ?u)) - x / ?u\<bar> * \<bar>?u\<bar>"
    by (simp only: abs_mult)
  also have "\<dots> = \<bar>of_int (round_even (x / ?u)) - x / ?u\<bar> * ?u"
    by (simp add: less_imp_le)
  also have "\<dots> \<le> 1 / 2 * ?u"
    by (rule mult_right_mono [OF round_even_near]) (simp add: less_imp_le)
  finally show ?thesis by simp
qed

section \<open>Formatting\<close>

text \<open>A non-negative number \<open>n / 10 ^ k\<close> with \<open>k\<close> decimals.\<close>

definition decimal :: "nat \<Rightarrow> nat \<Rightarrow> string" where
  "decimal n k =
     (let digits = nat_digits (n mod 10 ^ k)
      in nat_digits (n div 10 ^ k)
         @ (if k = 0 then [] else ''.'' @ replicate (k - length digits) (CHR ''0'') @ digits))"

text \<open>\<^verbatim>\<open>%.8f\<close>\<close>

definition format8 :: "rat \<Rightarrow> string" where
  "format8 x = decimal (nat (round_even (x * 10 ^ 8))) 8"

text \<open>
  \<^verbatim>\<open>strconv.FormatFloat(x, 'f', -1, 64)\<close>: the fewest decimals that parse back to the same
  number, and of those the closest; 1074 decimals always do.
\<close>

fun shortest_from :: "nat \<Rightarrow> nat \<Rightarrow> rat \<Rightarrow> string" where
  "shortest_from 0 k x = decimal (nat \<lfloor>x * 10 ^ k\<rfloor>) k"
| "shortest_from (Suc fuel) k x =
     (let y = x * 10 ^ k; lo = \<lfloor>y\<rfloor>; hi = lo + 1;
          lo_ok = round64 (of_int lo / 10 ^ k) = x; hi_ok = round64 (of_int hi / 10 ^ k) = x
      in if lo_ok \<and> hi_ok then decimal (nat (round_even y)) k
         else if lo_ok then decimal (nat lo) k
         else if hi_ok then decimal (nat hi) k
         else shortest_from fuel (k + 1) x)"

definition format_shortest :: "rat \<Rightarrow> string" where
  "format_shortest x = shortest_from 1074 0 x"

section \<open>The three arithmetics\<close>

definition exact :: "rat floats" where
  "exact =
    \<lparr>Const = (\<lambda>c. c), FromUint = (\<lambda>w. of_nat (unat w)), FromLen = of_nat,
     Add = (+), Sub = (-), Mul = (*), Div = (/), Abs = abs,
     MulAdd = (\<lambda>x y z. x * y + z), MulAddMul = (\<lambda>x y z w. x * y + z * w),
     Less = (<), IsZero = (\<lambda>x. x = 0), Format8 = format8, FormatShortest = format_shortest\<rparr>"

definition ieee :: "bool \<Rightarrow> rat floats" where
  "ieee fused =
    \<lparr>Const = round64, FromUint = (\<lambda>w. round64 (of_nat (unat w))), FromLen = (\<lambda>n. round64 (of_nat n)),
     Add = (\<lambda>x y. round64 (x + y)), Sub = (\<lambda>x y. round64 (x - y)),
     Mul = (\<lambda>x y. round64 (x * y)), Div = (\<lambda>x y. round64 (x / y)), Abs = abs,
     MulAdd = (\<lambda>x y z. if fused then round64 (x * y + z) else round64 (round64 (x * y) + z)),
     MulAddMul = (\<lambda>x y z w. if fused then round64 (x * y + round64 (z * w))
                             else round64 (round64 (x * y) + round64 (z * w))),
     Less = (<), IsZero = (\<lambda>x. x = 0), Format8 = format8, FormatShortest = format_shortest\<rparr>"

text \<open>
  What the ranking relies on: a product with zero is zero and a sum of zeros is zero, and the
  operations keep a set \<open>nonneg\<close> of admissible values, zero included.
\<close>

locale float_laws =
  fixes F :: "'f floats" and nonneg :: "'f \<Rightarrow> bool"
  assumes mul_add_zero: "MulAdd F x (Zero F) (Zero F) = Zero F"
    and products_zero: "MulAddMul F x (Zero F) z (Zero F) = Zero F"
    and nonneg_const: "0 \<le> c \<Longrightarrow> nonneg (Const F c)"
    and nonneg_uint: "nonneg (FromUint F w)"
    and nonneg_len: "nonneg (FromLen F n)"
    and nonneg_add: "nonneg x \<Longrightarrow> nonneg y \<Longrightarrow> nonneg (Add F x y)"
    and nonneg_mul: "nonneg x \<Longrightarrow> nonneg y \<Longrightarrow> nonneg (Mul F x y)"
    and nonneg_div: "nonneg x \<Longrightarrow> nonneg y \<Longrightarrow> nonneg (Div F x y)"
    and nonneg_mul_add: "nonneg x \<Longrightarrow> nonneg y \<Longrightarrow> nonneg z \<Longrightarrow> nonneg (MulAdd F x y z)"
    and nonneg_products: "nonneg x \<Longrightarrow> nonneg y \<Longrightarrow> nonneg z \<Longrightarrow> nonneg u \<Longrightarrow> nonneg (MulAddMul F x y z u)"
begin

lemmas nonneg_rules = nonneg_const nonneg_uint nonneg_len nonneg_add nonneg_mul nonneg_div
  nonneg_mul_add nonneg_products

end

lemma value_nonneg: "0 \<le> (unsigned (w :: u64) :: rat)"
  using of_nat_0_le_iff [where 'a = rat, of "unat w"] by simp

interpretation exact: float_laws exact "\<lambda>x. 0 \<le> x"
  by unfold_locales (simp_all add: exact_def value_nonneg)

interpretation ieee: float_laws "ieee fused" "\<lambda>x. 0 \<le> x" for fused
  by unfold_locales (simp_all add: ieee_def round64_nonneg value_nonneg)

end
