(* ===== verification/PageRank.thy ===== *)
theory PageRank
  imports Float64 Sample "HOL-Library.Multiset"
begin

text \<open>
  Anchor-rooted PageRank (\<^verbatim>\<open>keeper/pagerank.go\<close>): the graph of vouch stakes and paid jobs,
  the personalization vector on the anchors, and at most a hundred rounds of power iteration.
  A Go map from addresses to indices is an association list here, a map used as a set is the
  list of its keys, and the order in which \<^verbatim>\<open>range\<close> visits that map is the environment's.
\<close>

section \<open>The graph\<close>

definition pagerankDamping :: rat where
  "pagerankDamping = 85 / 100"

definition pagerankMaxIter :: nat where
  "pagerankMaxIter = 100"

definition pagerankTolerance :: rat where
  "pagerankTolerance = 1 / 10 ^ 9"

record JobEdge =
  Payer :: string
  Payee :: string
  Amount :: u64

record 'f repEdge =
  fromNode :: string
  toNode :: string
  weight :: 'f

fun vouchEdges :: "'f floats \<Rightarrow> Vouch list \<Rightarrow> 'f repEdge list" where
  "vouchEdges F [] = []"
| "vouchEdges F (v # vs) =
     (if Vouch.FromAddr v = Vouch.ToAddr v \<or> Vouch.Stake v = 0 then vouchEdges F vs
      else \<lparr>fromNode = Vouch.FromAddr v, toNode = Vouch.ToAddr v, weight = FromUint F (Vouch.Stake v)\<rparr>
           # vouchEdges F vs)"

fun jobEdges :: "'f floats \<Rightarrow> JobEdge list \<Rightarrow> 'f repEdge list" where
  "jobEdges F [] = []"
| "jobEdges F (j # js) =
     (if JobEdge.Payer j = JobEdge.Payee j \<or> JobEdge.Amount j = 0 then jobEdges F js
      else \<lparr>fromNode = JobEdge.Payer j, toNode = JobEdge.Payee j, weight = FromUint F (JobEdge.Amount j)\<rparr>
           # jobEdges F js)"

definition nodeSet :: "'f repEdge list \<Rightarrow> string list \<Rightarrow> string list" where
  "nodeSet edges anchors =
     fold List.insert (filter (\<lambda>a. a \<noteq> []) anchors)
       (fold (\<lambda>e ns. List.insert (toNode e) (List.insert (fromNode e) ns)) edges [])"

definition indexOf :: "string list \<Rightarrow> string \<Rightarrow> nat option" where
  "indexOf nodes a = map_of (zip nodes [0 ..< length nodes]) a"

text \<open>\<^verbatim>\<open>idx[a]\<close> is 0 for a missing key.\<close>

definition idx :: "string list \<Rightarrow> string \<Rightarrow> nat" where
  "idx nodes a = (case indexOf nodes a of None \<Rightarrow> 0 | Some i \<Rightarrow> i)"

definition outWeights :: "'f floats \<Rightarrow> string list \<Rightarrow> 'f repEdge list \<Rightarrow> 'f list" where
  "outWeights F nodes edges =
     foldl (\<lambda>w e. w[idx nodes (fromNode e) := Add F (w ! idx nodes (fromNode e)) (weight e)])
       (replicate (length nodes) (Zero F)) edges"

record 'f fedge =
  fsrc :: nat
  fdst :: nat
  share :: 'f

fun fedgesOf :: "'f floats \<Rightarrow> string list \<Rightarrow> 'f list \<Rightarrow> 'f repEdge list \<Rightarrow> 'f fedge list" where
  "fedgesOf F nodes outWeight [] = []"
| "fedgesOf F nodes outWeight (e # es) =
     (let f = idx nodes (fromNode e); tw = outWeight ! f
      in if IsZero F tw then fedgesOf F nodes outWeight es
         else \<lparr>fsrc = f, fdst = idx nodes (toNode e), share = Div F (weight e) tw\<rparr>
              # fedgesOf F nodes outWeight es)"

section \<open>The personalization vector\<close>

definition anchorIdx :: "string list \<Rightarrow> string list \<Rightarrow> nat list" where
  "anchorIdx nodes anchors = List.map_filter (indexOf nodes) anchors"

definition personalization :: "'f floats \<Rightarrow> nat \<Rightarrow> nat list \<Rightarrow> 'f list" where
  "personalization F n ais =
     (if ais = [] then replicate n (Div F (Const F 1) (FromLen F n))
      else foldl (\<lambda>p i. p[i := Div F (Const F 1) (FromLen F (length ais))]) (replicate n (Zero F)) ais)"

section \<open>Power iteration\<close>

definition danglingMass :: "'f floats \<Rightarrow> 'f list \<Rightarrow> 'f list \<Rightarrow> 'f" where
  "danglingMass F outWeight r =
     foldl (\<lambda>m i. if IsZero F (outWeight ! i) then Add F m (r ! i) else m) (Zero F) [0 ..< length r]"

definition baseTerm :: "'f floats \<Rightarrow> 'f list \<Rightarrow> 'f \<Rightarrow> 'f list" where
  "baseTerm F p dangling =
     map (\<lambda>x. MulAddMul F (Const F (1 - pagerankDamping)) x (Mul F (Const F pagerankDamping) dangling) x) p"

definition edgeTerms :: "'f floats \<Rightarrow> 'f fedge list \<Rightarrow> 'f list \<Rightarrow> 'f list \<Rightarrow> 'f list" where
  "edgeTerms F fedges r base =
     foldl (\<lambda>next1 e. next1[fdst e := MulAdd F (Mul F (Const F pagerankDamping) (share e)) (r ! fsrc e)
                                   (next1 ! fdst e)]) base fedges"

definition nextRank :: "'f floats \<Rightarrow> 'f list \<Rightarrow> 'f list \<Rightarrow> 'f fedge list \<Rightarrow> 'f list \<Rightarrow> 'f list" where
  "nextRank F p outWeight fedges r =
     edgeTerms F fedges r (baseTerm F p (danglingMass F outWeight r))"

definition rankDelta :: "'f floats \<Rightarrow> 'f list \<Rightarrow> 'f list \<Rightarrow> 'f" where
  "rankDelta F next1 r =
     foldl (\<lambda>delta i. Add F delta (Abs F (Sub F (next1 ! i) (r ! i)))) (Zero F) [0 ..< length r]"

fun powerIteration ::
  "'f floats \<Rightarrow> 'f list \<Rightarrow> 'f list \<Rightarrow> 'f fedge list \<Rightarrow> nat \<Rightarrow> 'f list \<Rightarrow> 'f list" where
  "powerIteration F p outWeight fedges 0 r = r"
| "powerIteration F p outWeight fedges (Suc iters) r =
     (let next1 = nextRank F p outWeight fedges r
      in if Less F (rankDelta F next1 r) (Const F pagerankTolerance) then next1
         else powerIteration F p outWeight fedges iters next1)"

definition Reputation ::
  "Env \<Rightarrow> 'f floats \<Rightarrow> Vouch list \<Rightarrow> JobEdge list \<Rightarrow> string list \<Rightarrow> (string \<times> 'f) list" where
  "Reputation env F vouches jobs anchors =
     (let edges = vouchEdges F vouches @ jobEdges F jobs;
          ns = nodeSet edges anchors
      in if ns = [] then []
         else
           (let nodes = sort (RangeKeys env ns);
                outWeight = outWeights F nodes edges;
                fedges = fedgesOf F nodes outWeight edges;
                p = personalization F (length nodes) (anchorIdx nodes anchors)
            in zip nodes (powerIteration F p outWeight fedges pagerankMaxIter p)))"

definition PageRank :: "Env \<Rightarrow> 'f floats \<Rightarrow> Vouch list \<Rightarrow> (string \<times> 'f) list" where
  "PageRank env F vouches = Reputation env F vouches [] []"

text \<open>\<^verbatim>\<open>scores[address]\<close>: 0 for an address outside the graph.\<close>

definition scoreOf :: "'f floats \<Rightarrow> (string \<times> 'f) list \<Rightarrow> string \<Rightarrow> 'f" where
  "scoreOf F scores a = (case map_of scores a of None \<Rightarrow> Zero F | Some x \<Rightarrow> x)"

section \<open>Nodes\<close>

definition endpoints :: "'f repEdge list \<Rightarrow> string set" where
  "endpoints edges = fromNode ` set edges \<union> toNode ` set edges"

lemma set_fold_insert: "set (fold List.insert xs ns) = set xs \<union> set ns"
  by (induction xs arbitrary: ns) auto

lemma set_edge_nodes:
  "set (fold (\<lambda>e ns. List.insert (toNode e) (List.insert (fromNode e) ns)) edges ns)
     = endpoints edges \<union> set ns"
  by (induction edges arbitrary: ns) (auto simp: endpoints_def)

lemma set_nodeSet: "set (nodeSet edges anchors) = endpoints edges \<union> {a \<in> set anchors. a \<noteq> []}"
  by (auto simp: nodeSet_def set_fold_insert set_edge_nodes)

lemma distinct_fold_insert: "distinct ns \<Longrightarrow> distinct (fold List.insert xs ns)"
  by (induction xs arbitrary: ns) auto

lemma distinct_nodeSet: "distinct (nodeSet edges anchors)"
proof -
  have "distinct ns \<Longrightarrow> distinct (fold (\<lambda>e ns. List.insert (toNode e) (List.insert (fromNode e) ns)) edges ns)" for ns
    by (induction edges arbitrary: ns) auto
  then show ?thesis by (simp add: nodeSet_def distinct_fold_insert)
qed

lemma indexOf_nth: "distinct nodes \<Longrightarrow> i < length nodes \<Longrightarrow> indexOf nodes (nodes ! i) = Some i"
  using map_of_zip_nth [of nodes "[0 ..< length nodes]" i] by (simp add: indexOf_def)

lemma indexOf_Some: "distinct nodes \<Longrightarrow> indexOf nodes a = Some i \<longleftrightarrow> i < length nodes \<and> nodes ! i = a"
  using indexOf_nth [of nodes i]
  by (auto simp: indexOf_def dest!: map_of_SomeD simp: in_set_zip)

lemma indexOf_None: "indexOf nodes a = None \<longleftrightarrow> a \<notin> set nodes"
  by (simp add: indexOf_def map_of_zip_is_None)

lemma idx_node:
  assumes "distinct nodes" and "a \<in> set nodes"
  shows "idx nodes a < length nodes" and "nodes ! idx nodes a = a"
proof -
  from assms(2) obtain i where "i < length nodes" "nodes ! i = a" by (auto simp: in_set_conv_nth)
  then have "idx nodes a = i" using indexOf_nth [OF assms(1), of i] by (simp add: idx_def)
  then show "idx nodes a < length nodes" "nodes ! idx nodes a = a"
    using \<open>i < length nodes\<close> \<open>nodes ! i = a\<close> by simp_all
qed


text \<open>The nodes come out sorted, whatever the order in which the map was visited.\<close>

lemma sorted_nodes:
  assumes perm: "\<And>ks. mset (RangeKeys env ks) = mset ks"
    and nodes: "nodes = sort (RangeKeys env (nodeSet edges anchors))"
  shows "set nodes = endpoints edges \<union> {a \<in> set anchors. a \<noteq> []}" and "distinct nodes"
    and "nodes = sort (nodeSet edges anchors)"
proof -
  show eq: "nodes = sort (nodeSet edges anchors)"
    unfolding nodes by (rule properties_for_sort) (simp_all add: perm)
  show "distinct nodes" by (simp add: eq distinct_nodeSet)
  show "set nodes = endpoints edges \<union> {a \<in> set anchors. a \<noteq> []}" by (simp add: eq set_nodeSet)
qed

section \<open>The edges of the graph\<close>

definition trustEdges :: "Vouch list \<Rightarrow> JobEdge list \<Rightarrow> (string \<times> string) set" where
  "trustEdges vouches jobs =
     {(Vouch.FromAddr v, Vouch.ToAddr v) | v. v \<in> set vouches \<and> Vouch.FromAddr v \<noteq> Vouch.ToAddr v \<and> Vouch.Stake v \<noteq> 0}
   \<union> {(JobEdge.Payer j, JobEdge.Payee j) | j. j \<in> set jobs \<and> JobEdge.Payer j \<noteq> JobEdge.Payee j \<and> JobEdge.Amount j \<noteq> 0}"

definition ends :: "'f repEdge \<Rightarrow> string \<times> string" where
  "ends e = (fromNode e, toNode e)"

lemma ends_vouchEdges:
  "ends ` set (vouchEdges F vs) =
     {(Vouch.FromAddr v, Vouch.ToAddr v) | v. v \<in> set vs \<and> Vouch.FromAddr v \<noteq> Vouch.ToAddr v \<and> Vouch.Stake v \<noteq> 0}"
  by (induction F vs rule: vouchEdges.induct) (auto simp: ends_def)

lemma ends_jobEdges:
  "ends ` set (jobEdges F js) =
     {(JobEdge.Payer j, JobEdge.Payee j) | j. j \<in> set js \<and> JobEdge.Payer j \<noteq> JobEdge.Payee j \<and> JobEdge.Amount j \<noteq> 0}"
  by (induction F js rule: jobEdges.induct) (auto simp: ends_def)

lemma ends_trustEdges: "ends ` set (vouchEdges F vs @ jobEdges F js) = trustEdges vs js"
  by (simp add: image_Un ends_vouchEdges ends_jobEdges trustEdges_def)

lemma fedgesOf_ends:
  assumes "g \<in> set (fedgesOf F nodes ow es)"
  shows "\<exists>e \<in> set es. fsrc g = idx nodes (fromNode e) \<and> fdst g = idx nodes (toNode e)"
  using assms by (induction F nodes ow es rule: fedgesOf.induct) (auto simp: Let_def split: if_splits)

section \<open>Lengths\<close>

lemma length_edgeTerms [simp]: "length (edgeTerms F fedges r base) = length base"
  unfolding edgeTerms_def by (induction fedges arbitrary: base) auto

lemma length_nextRank [simp]: "length (nextRank F p ow fedges r) = length p"
  by (simp add: nextRank_def baseTerm_def)

lemma length_personalization [simp]: "length (personalization F n ais) = n"
proof -
  have "length (foldl (\<lambda>p i. p[i := x]) p ais) = length p" for x :: 'a and p
    by (induction ais arbitrary: p) auto
  then show ?thesis by (simp add: personalization_def)
qed

lemma length_powerIteration: "length r = length p \<Longrightarrow> length (powerIteration F p ow fedges k r) = length p"
  by (induction k arbitrary: r) (simp_all add: Let_def)

section \<open>Nothing from nothing\<close>

lemma anchorIdx_set:
  assumes "distinct nodes"
  shows "set (anchorIdx nodes anchors) = {i. i < length nodes \<and> nodes ! i \<in> set anchors}"
proof -
  have "set (anchorIdx nodes anchors) = {i. \<exists>a \<in> set anchors. indexOf nodes a = Some i}"
    unfolding anchorIdx_def by (induction anchors) (auto simp: map_filter_simps split: option.splits)
  then show ?thesis using indexOf_Some [OF assms] by auto
qed

lemma anchorIdx_distinct:
  "distinct nodes \<Longrightarrow> distinct anchors \<Longrightarrow> distinct (anchorIdx nodes anchors)"
proof (induction anchors)
  case (Cons a anchors)
  then show ?case
    using indexOf_Some [OF Cons.prems(1)] anchorIdx_set [OF Cons.prems(1), of anchors]
    by (auto simp: map_filter_simps anchorIdx_def split: option.splits)
qed (simp add: anchorIdx_def map_filter_simps)

lemma personalization_off_anchor:
  assumes "ais \<noteq> []" and "i < n" and "i \<notin> set ais"
  shows "personalization F n ais ! i = Zero F"
proof -
  have "i \<notin> set ais \<Longrightarrow> i < length p \<Longrightarrow> foldl (\<lambda>p i. p[i := x]) p ais ! i = p ! i" for p :: "'a list" and x
    by (induction ais arbitrary: p) auto
  then show ?thesis using assms by (simp add: personalization_def)
qed

text \<open>A set of indices the edges do not enter and the vector does not touch.\<close>

definition quiet :: "'f floats \<Rightarrow> nat set \<Rightarrow> 'f list \<Rightarrow> bool" where
  "quiet F Z r \<longleftrightarrow> (\<forall>i \<in> Z. i < length r \<longrightarrow> r ! i = Zero F)"

definition no_inflow :: "nat set \<Rightarrow> 'f fedge list \<Rightarrow> bool" where
  "no_inflow Z fedges \<longleftrightarrow> (\<forall>e \<in> set fedges. fdst e \<in> Z \<longrightarrow> fsrc e \<in> Z)"

context float_laws
begin

lemma quiet_edgeTerms:
  assumes "no_inflow Z fedges" and "\<forall>e \<in> set fedges. fsrc e < length r"
    and "quiet F Z r" and "quiet F Z base"
  shows "quiet F Z (edgeTerms F fedges r base)"
  using assms unfolding edgeTerms_def
proof (induction fedges arbitrary: base)
  case (Cons e es)
  let ?b = "base[fdst e := MulAdd F (Mul F (Const F pagerankDamping) (share e)) (r ! fsrc e) (base ! fdst e)]"
  have "quiet F Z ?b"
    unfolding quiet_def
  proof (intro ballI impI)
    fix i assume i: "i \<in> Z" "i < length ?b"
    show "?b ! i = Zero F"
    proof (cases "i = fdst e")
      case True
      with Cons.prems i have "r ! fsrc e = Zero F" "base ! i = Zero F"
        by (auto simp: no_inflow_def quiet_def)
      with True i show ?thesis by (simp add: mul_add_zero)
    next
      case False
      with Cons.prems i show ?thesis by (simp add: quiet_def)
    qed
  qed
  with Cons.IH [of ?b] Cons.prems show ?case by (simp add: no_inflow_def)
qed simp

lemma quiet_baseTerm: "quiet F Z p \<Longrightarrow> quiet F Z (baseTerm F p m)"
  by (auto simp: quiet_def baseTerm_def products_zero)

lemma quiet_powerIteration:
  assumes "no_inflow Z fedges" and "\<forall>e \<in> set fedges. fsrc e < length p"
    and "quiet F Z p" and "quiet F Z r" and "length r = length p"
  shows "quiet F Z (powerIteration F p ow fedges k r)"
  using assms(4,5)
proof (induction k arbitrary: r)
  case (Suc k)
  have "quiet F Z (nextRank F p ow fedges r)"
    unfolding nextRank_def
    using assms Suc.prems by (intro quiet_edgeTerms quiet_baseTerm) auto
  with Suc.IH [of "nextRank F p ow fedges r"] show ?case by (simp add: Let_def)
qed simp

text \<open>An address no path of trust leads to, from any anchor, has no reputation at all.\<close>

lemma unreachable_scores_zero:
  assumes perm: "\<And>ks. mset (RangeKeys env ks) = mset ks"
    and anchor: "a0 \<in> set anchors" "a0 \<noteq> []"
    and far: "\<And>a. a \<in> set anchors \<Longrightarrow> (a, x) \<notin> (trustEdges vouches jobs)\<^sup>*"
  shows "scoreOf F (Reputation env F vouches jobs anchors) x = Zero F"
proof -
  define edges where "edges = vouchEdges F vouches @ jobEdges F jobs"
  define nodes where "nodes = sort (RangeKeys env (nodeSet edges anchors))"
  define ow where "ow = outWeights F nodes edges"
  define fe where "fe = fedgesOf F nodes ow edges"
  define p where "p = personalization F (length nodes) (anchorIdx nodes anchors)"
  define Z where "Z = {i. i < length nodes \<and> (\<forall>a \<in> set anchors. (a, nodes ! i) \<notin> (trustEdges vouches jobs)\<^sup>*)}"
  note nodes = sorted_nodes [OF perm nodes_def]
  have eps: "fromNode e \<in> set nodes" "toNode e \<in> set nodes" if "e \<in> set edges" for e
    using that nodes(1) by (auto simp: endpoints_def)
  have inflow: "no_inflow Z fe"
    unfolding no_inflow_def
  proof (intro ballI impI)
    fix g assume "g \<in> set fe" and dst: "fdst g \<in> Z"
    then obtain e where e: "e \<in> set edges" "fsrc g = idx nodes (fromNode e)" "fdst g = idx nodes (toNode e)"
      using fedgesOf_ends [of g F nodes ow edges] by (auto simp: fe_def)
    have "ends e \<in> trustEdges vouches jobs"
      unfolding ends_trustEdges [of F, symmetric] using e(1) by (auto simp: edges_def)
    then show "fsrc g \<in> Z"
      using dst idx_node [OF nodes(2) eps(1) [OF e(1)]] idx_node [OF nodes(2) eps(2) [OF e(1)]]
      by (auto simp: Z_def e(2,3) ends_def dest: rtrancl_into_rtrancl)
  qed
  have srcs: "\<forall>g \<in> set fe. fsrc g < length p"
    using fedgesOf_ends [of _ F nodes ow edges] eps idx_node(1) [OF nodes(2)]
    by (fastforce simp: fe_def p_def)
  have "a0 \<in> set nodes" using anchor nodes(1) by auto
  then have some: "anchorIdx nodes anchors \<noteq> []"
    using anchor anchorIdx_set [OF nodes(2), of anchors] by (force simp: in_set_conv_nth)
  have quiet_p: "quiet F Z p"
    unfolding quiet_def
  proof (intro ballI impI)
    fix i assume i: "i \<in> Z" "i < length p"
    then have "i < length nodes" "nodes ! i \<notin> set anchors" by (auto simp: Z_def)
    then show "p ! i = Zero F"
      unfolding p_def using anchorIdx_set [OF nodes(2), of anchors]
      by (intro personalization_off_anchor [OF some]) auto
  qed
  have "quiet F Z (powerIteration F p ow fe pagerankMaxIter p)"
    using inflow srcs quiet_p by (rule quiet_powerIteration) (simp_all add: quiet_p)
  moreover have "Reputation env F vouches jobs anchors = zip nodes (powerIteration F p ow fe pagerankMaxIter p)"
  proof -
    have "nodeSet edges anchors \<noteq> []"
      using anchor set_nodeSet [of edges anchors] by auto
    then show ?thesis
      unfolding Reputation_def Let_def edges_def [symmetric] nodes_def [symmetric] ow_def [symmetric]
        fe_def [symmetric] p_def [symmetric] by simp
  qed
  ultimately show ?thesis
    using far by (auto simp: scoreOf_def quiet_def Z_def in_set_zip length_powerIteration p_def
        split: option.splits dest!: map_of_SomeD)
qed

end


section \<open>The total mass\<close>

lemma exact_eval:
  "Const exact c = c" "FromLen exact n = of_nat n" "Add exact x y = x + y" "Div exact x y = x / y"
  by (simp_all add: exact_def)

lemma sum_list_upd:
  fixes xs :: "rat list"
  shows "i < length xs \<Longrightarrow> sum_list (xs[i := x]) = sum_list xs + x - xs ! i"
  by (induction xs arbitrary: i) (auto split: nat.splits)

lemma sum_list_index: "sum_list xs = (\<Sum>i < length xs. xs ! i)" for xs :: "rat list"
  by (simp add: sum_list_sum_nth atLeast0LessThan)

lemma foldl_index_sum: "foldl (\<lambda>m i. m + f i) a is1 = a + (\<Sum>i \<leftarrow> is1. f i)" for f :: "nat \<Rightarrow> rat"
  by (induction is1 arbitrary: a) simp_all

lemma sum_by_source:
  fixes f :: "'e \<Rightarrow> rat" and g :: "'e \<Rightarrow> nat"
  assumes "\<And>e. e \<in> set es \<Longrightarrow> g e < n"
  shows "(\<Sum>e \<leftarrow> es. f e) = (\<Sum>i < n. \<Sum>e \<leftarrow> es. if g e = i then f e else 0)"
  using assms
proof (induction es)
  case (Cons e es)
  have "g e < n" using Cons.prems by simp
  then have "(\<Sum>i < n. if g e = i then f e else 0) = f e" by (simp add: sum.delta')
  with Cons show ?case by (simp add: sum.distrib)
qed simp

lemma exact_personalization_sum:
  assumes "distinct ais" and "\<And>i. i \<in> set ais \<Longrightarrow> i < n" and "0 < n"
  shows "sum_list (personalization exact n ais) = 1"
proof (cases "ais = []")
  case True
  with \<open>0 < n\<close> show ?thesis by (simp add: personalization_def exact_def sum_list_replicate)
next
  case False
  have step: "sum_list (foldl (\<lambda>p i. p[i := x]) p ais) = sum_list p + x * of_nat (length ais)"
    if "distinct ais" "\<forall>i \<in> set ais. i < length p \<and> p ! i = 0" for ais p and x :: rat
    using that
  proof (induction ais arbitrary: p)
    case (Cons i ais)
    have "\<forall>j \<in> set ais. j < length (p[i := x]) \<and> p[i := x] ! j = 0"
      using Cons.prems by (auto simp: nth_list_update)
    with Cons.IH [of "p[i := x]"] Cons.prems show ?case
      by (simp add: sum_list_upd algebra_simps)
  qed simp
  show ?thesis
    using False assms by (simp add: personalization_def exact_def step sum_list_replicate)
qed

lemma exact_outWeights:
  assumes "distinct nodes" and "\<And>e. e \<in> set es \<Longrightarrow> fromNode e \<in> set nodes" and "i < length nodes"
  shows "outWeights exact nodes es ! i = (\<Sum>e \<leftarrow> es. if idx nodes (fromNode e) = i then weight e else 0)"
proof -
  have "foldl (\<lambda>w e. w[idx nodes (fromNode e) := w ! idx nodes (fromNode e) + weight e]) w es ! i
      = w ! i + (\<Sum>e \<leftarrow> es. if idx nodes (fromNode e) = i then weight e else 0)"
    if "i < length w" for w :: "rat list"
    using that by (induction es arbitrary: w) (auto simp: nth_list_update)
  then show ?thesis using assms(3) by (simp add: outWeights_def exact_def)
qed

lemma exact_edgeTerms_sum:
  assumes "\<And>e. e \<in> set fe \<Longrightarrow> fdst e < length base"
  shows "sum_list (edgeTerms exact fe r base) =
    sum_list base + pagerankDamping * (\<Sum>e \<leftarrow> fe. share e * r ! fsrc e)"
  using assms unfolding edgeTerms_def
  by (induction fe arbitrary: base) (simp_all add: exact_def sum_list_upd algebra_simps)

lemma exact_fedges_flow:
  "(\<Sum>g \<leftarrow> fedgesOf exact nodes ow es. share g * r ! fsrc g) =
     (\<Sum>e \<leftarrow> es. if ow ! idx nodes (fromNode e) = 0 then 0
        else weight e / ow ! idx nodes (fromNode e) * r ! idx nodes (fromNode e))"
  by (induction "exact" nodes ow es rule: fedgesOf.induct) (auto simp: Let_def exact_def)

text \<open>What leaves a node along its edges is all the rank it holds.\<close>

lemma exact_flow_total:
  assumes "distinct nodes" and "\<And>e. e \<in> set es \<Longrightarrow> fromNode e \<in> set nodes"
    and ow: "ow = outWeights exact nodes es"
  shows "(\<Sum>g \<leftarrow> fedgesOf exact nodes ow es. share g * r ! fsrc g)
    = (\<Sum>i < length nodes. if ow ! i = 0 then 0 else r ! i)"
proof -
  let ?i = "\<lambda>e. idx nodes (fromNode e)"
  let ?f = "\<lambda>e. if ow ! ?i e = 0 then 0 else weight e / ow ! ?i e * r ! ?i e"
  have "(\<Sum>g \<leftarrow> fedgesOf exact nodes ow es. share g * r ! fsrc g)
      = (\<Sum>i < length nodes. \<Sum>e \<leftarrow> es. if ?i e = i then ?f e else 0)"
    unfolding exact_fedges_flow using assms idx_node(1) by (intro sum_by_source) blast
  also have "\<dots> = (\<Sum>i < length nodes. if ow ! i = 0 then 0 else r ! i)"
  proof (rule sum.cong [OF refl])
    fix i assume "i \<in> {..<length nodes}"
    then have own: "ow ! i = (\<Sum>e \<leftarrow> es. if ?i e = i then weight e else 0)"
      using assms by (simp add: exact_outWeights)
    have "(\<Sum>e \<leftarrow> es. if ?i e = i then ?f e else 0)
        = (if ow ! i = 0 then 0 else (\<Sum>e \<leftarrow> es. if ?i e = i then weight e else 0) * (r ! i / ow ! i))"
      by (induction es) (auto simp: algebra_simps)
    also have "\<dots> = (if ow ! i = 0 then 0 else r ! i)"
      by (simp flip: own)
    finally show "(\<Sum>e \<leftarrow> es. if ?i e = i then ?f e else 0) = (if ow ! i = 0 then 0 else r ! i)" .
  qed
  finally show ?thesis .
qed

lemma exact_danglingMass:
  "danglingMass exact ow r = (\<Sum>i < length r. if ow ! i = 0 then r ! i else 0)"
proof -
  have eq: "danglingMass exact ow r = foldl (\<lambda>m i. m + (if ow ! i = 0 then r ! i else 0)) 0 [0 ..< length r]"
    unfolding danglingMass_def by (rule foldl_cong) (simp_all add: exact_def)
  show ?thesis
    unfolding eq foldl_index_sum by (simp add: interv_sum_list_conv_sum_set_nat atLeast0LessThan)
qed

lemma exact_nextRank_sum:
  assumes "distinct nodes" and "\<And>e. e \<in> set es \<Longrightarrow> fromNode e \<in> set nodes \<and> toNode e \<in> set nodes"
    and "ow = outWeights exact nodes es" and "fe = fedgesOf exact nodes ow es"
    and "length p = length nodes" and "length r = length nodes"
    and "sum_list p = 1" and "sum_list r = 1"
  shows "sum_list (nextRank exact p ow fe r) = 1"
proof -
  let ?m = "danglingMass exact ow r"
  have base: "sum_list (baseTerm exact p m) = (1 - pagerankDamping) + pagerankDamping * m" for m
  proof -
    have "sum_list (baseTerm exact p m) = ((1 - pagerankDamping) + pagerankDamping * m) * sum_list p"
      unfolding baseTerm_def by (induction p) (simp_all add: exact_def algebra_simps)
    then show ?thesis using assms by simp
  qed
  have "sum_list (nextRank exact p ow fe r) = sum_list (baseTerm exact p ?m)
      + pagerankDamping * (\<Sum>g \<leftarrow> fe. share g * r ! fsrc g)"
    unfolding nextRank_def
  proof (rule exact_edgeTerms_sum)
    fix g assume "g \<in> set fe"
    then show "fdst g < length (baseTerm exact p ?m)"
      using fedgesOf_ends [of g exact nodes ow es] assms idx_node(1) [OF assms(1)]
      by (auto simp: baseTerm_def)
  qed
  also have "\<dots> = (1 - pagerankDamping) + pagerankDamping * (\<Sum>i < length nodes. r ! i)"
  proof -
    have "?m + (\<Sum>g \<leftarrow> fe. share g * r ! fsrc g) = (\<Sum>i < length nodes. r ! i)"
      unfolding assms(4) exact_danglingMass
      by (subst exact_flow_total [OF assms(1) _ assms(3)])
        (use assms in \<open>auto simp: sum.distrib [symmetric] intro!: sum.cong\<close>)
    then show ?thesis by (simp add: base algebra_simps flip: distrib_left)
  qed
  finally show ?thesis using assms by (simp add: sum_list_index)
qed

lemma exact_powerIteration_sum:
  assumes "\<And>r. length r = length p \<Longrightarrow> sum_list r = 1 \<Longrightarrow> sum_list (nextRank exact p ow fe r) = 1"
  shows "length r = length p \<Longrightarrow> sum_list r = 1 \<Longrightarrow> sum_list (powerIteration exact p ow fe k r) = 1"
  by (induction k arbitrary: r) (simp_all add: Let_def assms)


lemma Reputation_nonempty:
  assumes "\<And>ks. mset (RangeKeys env ks) = mset ks" and "a \<in> set anchors" and "a \<noteq> []"
  shows "Reputation env F vouches jobs anchors \<noteq> []"
proof -
  let ?edges = "vouchEdges F vouches @ jobEdges F jobs"
  have "nodeSet ?edges anchors \<noteq> []" using assms(2,3) set_nodeSet [of ?edges anchors] by auto
  then show ?thesis
    using sorted_nodes(3) [OF assms(1) refl, of ?edges anchors]
    by (simp add: Reputation_def Let_def length_powerIteration flip: length_greater_0_conv)
qed

lemma exact_scores_total:
  assumes perm: "\<And>ks. mset (RangeKeys env ks) = mset ks"
    and "distinct anchors" and "Reputation env exact vouches jobs anchors \<noteq> []"
  shows "sum_list (map snd (Reputation env exact vouches jobs anchors)) = 1"
proof -
  define edges where "edges = vouchEdges exact vouches @ jobEdges exact jobs"
  define nodes where "nodes = sort (RangeKeys env (nodeSet edges anchors))"
  define ow where "ow = outWeights exact nodes edges"
  define fe where "fe = fedgesOf exact nodes ow edges"
  define p where "p = personalization exact (length nodes) (anchorIdx nodes anchors)"
  note nodes = sorted_nodes [OF perm nodes_def]
  have eps: "fromNode e \<in> set nodes \<and> toNode e \<in> set nodes" if "e \<in> set edges" for e
    using that nodes(1) by (auto simp: endpoints_def)
  have eq: "Reputation env exact vouches jobs anchors = zip nodes (powerIteration exact p ow fe pagerankMaxIter p)"
    and ne: "nodes \<noteq> []"
    using assms(3) nodes(3)
    unfolding Reputation_def Let_def edges_def [symmetric] nodes_def [symmetric] ow_def [symmetric]
      fe_def [symmetric] p_def [symmetric] by (auto split: if_splits)
  have len: "length p = length nodes" by (simp add: p_def)
  have p1: "sum_list p = 1"
    unfolding p_def using ne anchorIdx_distinct [OF nodes(2) \<open>distinct anchors\<close>] by (intro exact_personalization_sum) (auto simp: anchorIdx_set [OF nodes(2)])
  have "sum_list (powerIteration exact p ow fe pagerankMaxIter p) = 1"
    using p1 len exact_nextRank_sum [OF nodes(2) eps ow_def fe_def len _ p1]
    by (intro exact_powerIteration_sum) simp_all
  then show ?thesis
    by (simp add: eq length_powerIteration len)
qed

text \<open>Scores are never negative, however the operations round.\<close>

context float_laws
begin

lemma nonneg_foldl:
  assumes "nonneg a" and "\<And>a x. nonneg a \<Longrightarrow> x \<in> set xs \<Longrightarrow> nonneg (f a x)"
  shows "nonneg (foldl f a xs)"
  using assms by (induction xs arbitrary: a) auto

lemma nonneg_foldl_update:
  assumes "list_all nonneg v" and "\<And>v x. list_all nonneg v \<Longrightarrow> x \<in> set xs \<Longrightarrow> ix x < length v \<Longrightarrow> nonneg (f v x)"
  shows "list_all nonneg (foldl (\<lambda>v x. v[ix x := f v x]) v xs)"
  using assms
proof (induction xs arbitrary: v)
  case (Cons x xs)
  have "list_all nonneg (v[ix x := f v x])"
    using Cons.prems by (cases "ix x < length v") (auto simp: list_all_length nth_list_update list_update_beyond not_less)
  with Cons show ?case by simp
qed simp

lemma nonneg_edgeTerms:
  assumes "list_all nonneg r" and "\<And>e. e \<in> set fe \<Longrightarrow> fsrc e < length r \<and> nonneg (share e)" and "list_all nonneg base"
  shows "list_all nonneg (edgeTerms F fe r base)"
  unfolding edgeTerms_def
  using assms pagerankDamping_def
  by (intro nonneg_foldl_update nonneg_rules) (auto simp: list_all_length)

lemma nonneg_nextRank:
  assumes "list_all nonneg r" and "\<And>e. e \<in> set fe \<Longrightarrow> fsrc e < length r \<and> nonneg (share e)" and "list_all nonneg p"
  shows "list_all nonneg (nextRank F p ow fe r)"
proof -
  have "nonneg (danglingMass F ow r)"
    unfolding danglingMass_def using assms(1)
    by (intro nonneg_foldl nonneg_rules) (auto simp: list_all_length intro: nonneg_rules)
  then have "list_all nonneg (baseTerm F p (danglingMass F ow r))"
    using assms(3) by (auto simp: baseTerm_def list_all_iff pagerankDamping_def intro!: nonneg_rules)
  with assms show ?thesis unfolding nextRank_def by (intro nonneg_edgeTerms) auto
qed

lemma nonneg_powerIteration:
  assumes "\<And>e. e \<in> set fe \<Longrightarrow> fsrc e < length p \<and> nonneg (share e)" and "list_all nonneg p"
  shows "list_all nonneg r \<Longrightarrow> length r = length p \<Longrightarrow> list_all nonneg (powerIteration F p ow fe k r)"
  by (induction k arbitrary: r) (use assms in \<open>simp_all add: Let_def nonneg_nextRank\<close>)

lemma nonneg_outWeights:
  assumes "\<And>e. e \<in> set es \<Longrightarrow> nonneg (weight e)"
  shows "list_all nonneg (outWeights F nodes es)"
  unfolding outWeights_def using assms
  by (intro nonneg_foldl_update nonneg_rules) (auto simp: list_all_length intro: nonneg_rules)

lemma length_outWeights: "length (outWeights F nodes es) = length nodes"
proof -
  have "length (foldl (\<lambda>w e. w[i e := g w e]) w es) = length w" for i g and w :: "'f list"
    by (induction es arbitrary: w) auto
  then show ?thesis by (simp add: outWeights_def)
qed

lemma nonneg_shares:
  assumes "list_all nonneg ow" and "\<And>e. e \<in> set es \<Longrightarrow> nonneg (weight e) \<and> idx nodes (fromNode e) < length ow"
  shows "g \<in> set (fedgesOf F nodes ow es) \<Longrightarrow> fsrc g < length ow \<and> nonneg (share g)"
  using assms
proof (induction es)
  case (Cons e es)
  have "nonneg (Div F (weight e) (ow ! idx nodes (fromNode e)))"
    using Cons.prems by (intro nonneg_div) (auto simp: list_all_length)
  with Cons show ?case by (auto simp: Let_def split: if_splits)
qed simp

lemma nonneg_personalization: "list_all nonneg (personalization F n ais)"
proof -
  have x: "nonneg (Div F (Const F 1) (FromLen F k))" for k by (intro nonneg_rules) simp
  have z: "list_all nonneg (replicate n (Zero F))" by (simp add: list_all_length nonneg_rules)
  have "list_all nonneg (foldl (\<lambda>p i. p[i := Div F (Const F 1) (FromLen F k)]) (replicate n (Zero F)) ais)" for k
    using nonneg_foldl_update [of "replicate n (Zero F)" ais "\<lambda>i. i" "\<lambda>_ _. Div F (Const F 1) (FromLen F k)"] x z
    by simp
  then show ?thesis using x by (simp add: personalization_def list_all_length)
qed

lemma nonneg_edges: "e \<in> set (vouchEdges F vs @ jobEdges F js) \<Longrightarrow> nonneg (weight e)"
proof -
  have "e \<in> set (vouchEdges F vs) \<Longrightarrow> nonneg (weight e)"
    by (induction vs) (auto split: if_splits intro: nonneg_rules)
  moreover have "e \<in> set (jobEdges F js) \<Longrightarrow> nonneg (weight e)"
    by (induction js) (auto split: if_splits intro: nonneg_rules)
  ultimately show "e \<in> set (vouchEdges F vs @ jobEdges F js) \<Longrightarrow> nonneg (weight e)" by auto
qed

lemma nonneg_scores:
  assumes perm: "\<And>ks. mset (RangeKeys env ks) = mset ks"
  shows "list_all nonneg (map snd (Reputation env F vouches jobs anchors))"
proof -
  define edges where "edges = vouchEdges F vouches @ jobEdges F jobs"
  define nodes where "nodes = sort (RangeKeys env (nodeSet edges anchors))"
  define ow where "ow = outWeights F nodes edges"
  define fe where "fe = fedgesOf F nodes ow edges"
  define p where "p = personalization F (length nodes) (anchorIdx nodes anchors)"
  note nodes = sorted_nodes [OF perm nodes_def]
  have src: "idx nodes (fromNode e) < length nodes" if "e \<in> set edges" for e
    using that nodes(1) by (intro idx_node(1) [OF nodes(2)]) (auto simp: endpoints_def)
  have w: "nonneg (weight e)" if "e \<in> set edges" for e
    using that unfolding edges_def by (rule nonneg_edges)
  have len: "length ow = length nodes" "length p = length nodes"
    by (simp_all add: ow_def p_def length_outWeights)
  have "list_all nonneg ow" unfolding ow_def by (intro nonneg_outWeights w)
  then have fe: "fsrc g < length p \<and> nonneg (share g)" if "g \<in> set fe" for g
    using nonneg_shares [of ow edges nodes g] that src w len by (simp add: fe_def)
  have p: "list_all nonneg p"
    unfolding p_def by (rule nonneg_personalization)
  have "list_all nonneg (powerIteration F p ow fe pagerankMaxIter p)"
    using nonneg_powerIteration [OF fe p p refl] by simp
  then show ?thesis
    unfolding Reputation_def Let_def edges_def [symmetric] nodes_def [symmetric] ow_def [symmetric]
      fe_def [symmetric] p_def [symmetric]
    by (auto simp: length_powerIteration len)
qed

end

section \<open>Properties\<close>

text \<open>
  C32: The ranking cannot be farmed from outside. On the rounding arithmetic of the machine,
  fused or not, an address that no chain of vouches and paid jobs connects to an anchor
  scores exactly 0, however many addresses vouch for it and whatever they staked.
\<close>
theorem sybil_ring_scores_zero:
  assumes "\<And>ks. mset (RangeKeys env ks) = mset ks"
    and "a0 \<in> set anchors" and "a0 \<noteq> []"
    and "\<And>a. a \<in> set anchors \<Longrightarrow> (a, x) \<notin> (trustEdges vouches jobs)\<^sup>*"
  shows "scoreOf (ieee fused) (Reputation env (ieee fused) vouches jobs anchors) x = 0"
  using ieee.unreachable_scores_zero [OF assms, of fused] by (simp add: ieee_def)

definition ringVouch :: "u64 \<Rightarrow> string \<Rightarrow> string \<Rightarrow> Vouch" where
  "ringVouch i a b = \<lparr>Vouch.Id = i, Vouch.FromAddr = a, Vouch.ToAddr = b, Vouch.Weight = 100, Vouch.Stake = 1000000\<rparr>"

lemma sybil_ring_scores_zero_witness:
  "scoreOf (ieee True) (Reputation (sampleEnv 0) (ieee True)
      [ringVouch 0 ''mallory'' ''sybil'', ringVouch 1 ''sybil'' ''mallory'']
      [\<lparr>JobEdge.Payer = ''anchor'', JobEdge.Payee = ''worker'', JobEdge.Amount = 7\<rparr>] [''anchor'']) ''sybil'' = 0"
proof (rule sybil_ring_scores_zero [where ?a0.0 = "''anchor''"])
  fix a assume "a \<in> set [''anchor'']"
  let ?E = "trustEdges [ringVouch 0 ''mallory'' ''sybil'', ringVouch 1 ''sybil'' ''mallory'']
      [\<lparr>JobEdge.Payer = ''anchor'', JobEdge.Payee = ''worker'', JobEdge.Amount = 7\<rparr>]"
  have edges: "?E \<subseteq> {(''mallory'', ''sybil''), (''sybil'', ''mallory''), (''anchor'', ''worker'')}"
    by (auto simp: trustEdges_def ringVouch_def)
  have "(''anchor'', y) \<in> ?E\<^sup>* \<Longrightarrow> y \<in> {''anchor'', ''worker''}" for y
  proof (induction rule: rtrancl_induct)
    case (step y z)
    with edges show ?case by auto
  qed simp
  with \<open>a \<in> set [''anchor'']\<close> show "(a, ''sybil'') \<notin> ?E\<^sup>*" by fastforce
qed simp_all

text \<open>
  Rank is neither made nor lost: in exact arithmetic the scores of a non-empty graph sum
  to 1, provided that no anchor is listed twice, and none of them is negative.
\<close>

lemma scores_distribution:
  assumes "\<And>ks. mset (RangeKeys env ks) = mset ks" and "distinct anchors"
    and "Reputation env exact vouches jobs anchors \<noteq> []"
  shows "sum_list (map snd (Reputation env exact vouches jobs anchors)) = 1
    \<and> 0 \<le> scoreOf exact (Reputation env exact vouches jobs anchors) x"
proof
  show "sum_list (map snd (Reputation env exact vouches jobs anchors)) = 1"
    using assms by (rule exact_scores_total)
  show "0 \<le> scoreOf exact (Reputation env exact vouches jobs anchors) x"
    using exact.nonneg_scores [OF assms(1), of vouches jobs anchors]
    by (auto simp: scoreOf_def list_all_iff exact_eval split: option.splits dest!: map_of_SomeD)
qed

text \<open>
  The scores do not depend on the order in which Go visits the map of nodes, so two
  validators that compute with the same arithmetic get the same scores.
\<close>
lemma ranking_ignores_map_order:
  assumes "\<And>ks. mset (RangeKeys env ks) = mset ks" and "\<And>ks. mset (RangeKeys env' ks) = mset ks"
  shows "Reputation env F vouches jobs anchors = Reputation env' F vouches jobs anchors"
proof -
  have "sort (RangeKeys env ns) = sort (RangeKeys env' ns)" for ns
    by (rule properties_for_sort) (simp_all add: assms)
  then show ?thesis by (simp add: Reputation_def Let_def)
qed

lemma ranking_ignores_map_order_witness:
  "Reputation (sampleEnv 0) (ieee False) [ringVouch 0 ''a'' ''b''] [] [''c'']
     = Reputation ((sampleEnv 0)\<lparr>RangeKeys := rev\<rparr>) (ieee False) [ringVouch 0 ''a'' ''b''] [] [''c'']"
  by (rule ranking_ignores_map_order) simp_all

text \<open>An anchor that is listed twice loses half of the rank it starts with, for good.\<close>

lemma repeated_anchor_loses_rank:
  assumes perm: "\<And>ks. mset (RangeKeys env ks) = mset ks" and "a \<noteq> []"
  shows "scoreOf exact (Reputation env exact [] [] [a]) a = 1
    \<and> scoreOf exact (Reputation env exact [] [] [a, a]) a \<le> 1 / 2"
proof -
  have sort: "RangeKeys env [a] = [a]" using perm [of "[a]"] by simp
  have next1: "nextRank exact [x] [0] [] [r] = [(1 - pagerankDamping) * x + pagerankDamping * r * x]" for x r
    by (simp add: nextRank_def edgeTerms_def baseTerm_def danglingMass_def exact_def)
  have half: "r \<le> 1 / 2 \<Longrightarrow> \<exists>r'. powerIteration exact [1 / 2] [0] [] k [r] = [r'] \<and> r' \<le> 1 / 2" for r k
    by (induction k arbitrary: r) (auto simp: Let_def next1 pagerankDamping_def)
  have one: "powerIteration exact [1] [0] [] k [1] = [1]" for k
    by (induction k) (auto simp: Let_def next1)
  obtain r' where "powerIteration exact [1 / 2] [0] [] pagerankMaxIter [1 / 2] = [r']" "r' \<le> 1 / 2"
    using half [of "1 / 2"] by blast
  then show ?thesis
    using \<open>a \<noteq> []\<close> one
    by (simp add: Reputation_def Let_def nodeSet_def sort outWeights_def personalization_def anchorIdx_def
        indexOf_def map_filter_simps scoreOf_def exact_eval)
qed

end
