(* ===== verification/Convergence.thy ===== *)
theory Convergence
  imports PageRank
begin

text \<open>
  How far the power iteration of \<^verbatim>\<open>keeper/pagerank.go\<close> gets in its rounds, in exact arithmetic: a
  round is a contraction with the damping factor, so the change of a round shrinks
  geometrically and what all later rounds could still change is bounded.
\<close>

section \<open>One round\<close>

text \<open>The round of the graph of these vouches and jobs, as a function on the vector of scores.\<close>

definition rankRound ::
  "Env \<Rightarrow> 'f floats \<Rightarrow> Vouch list \<Rightarrow> JobEdge list \<Rightarrow> string list \<Rightarrow> 'f list \<Rightarrow> 'f list" where
  "rankRound env F vouches jobs anchors =
     (let edges = vouchEdges F vouches @ jobEdges F jobs;
          nodes = sort (RangeKeys env (nodeSet edges anchors));
          outWeight = outWeights F nodes edges
      in nextRank F (personalization F (length nodes) (anchorIdx nodes anchors)) outWeight
           (fedgesOf F nodes outWeight edges))"

lemma exact_ops:
  "Mul exact x y = x * y" "Sub exact x y = x - y" "Abs exact x = \<bar>x\<bar>" "MulAdd exact x y z = x * y + z"
  "MulAddMul exact x y z w = x * y + z * w" "Less exact x y \<longleftrightarrow> x < y"
  by (simp_all add: exact_def)

lemma exact_rankDelta: "rankDelta exact x r = (\<Sum>i < length r. \<bar>x ! i - r ! i\<bar>)"
  unfolding rankDelta_def
  using foldl_index_sum [of "\<lambda>i. \<bar>x ! i - r ! i\<bar>" 0 "[0 ..< length r]"]
  by (simp add: exact_def interv_sum_list_conv_sum_set_nat atLeast0LessThan)

lemma exact_edgeTerms_nth:
  "j < length base \<Longrightarrow>
     edgeTerms exact fe r base ! j =
       base ! j + pagerankDamping * (\<Sum>e \<leftarrow> fe. if fdst e = j then share e * r ! fsrc e else 0)"
  unfolding edgeTerms_def
  by (induction fe arbitrary: base) (auto simp: exact_def nth_list_update algebra_simps)

lemma exact_nextRank_nth:
  "j < length p \<Longrightarrow>
     nextRank exact p ow fe r ! j =
       (1 - pagerankDamping) * p ! j + pagerankDamping * (danglingMass exact ow r * p ! j
         + (\<Sum>e \<leftarrow> fe. if fdst e = j then share e * r ! fsrc e else 0))"
  by (simp add: nextRank_def exact_edgeTerms_nth baseTerm_def exact_eval exact_ops algebra_simps)

lemma abs_sum_list_le: "(\<And>x. x \<in> set xs \<Longrightarrow> \<bar>f x\<bar> \<le> g x) \<Longrightarrow> \<bar>\<Sum>x \<leftarrow> xs. f x\<bar> \<le> (\<Sum>x \<leftarrow> xs. g x)"
  for f :: "'a \<Rightarrow> rat"
  by (induction xs) (auto intro: abs_triangle_ineq [THEN order_trans] add_mono)

text \<open>
  A graph as the ranking uses it: a weighted graph over its nodes with non-negative shares
  and a teleport vector of total 1.
\<close>

definition rankGraph :: "string list \<Rightarrow> rat repEdge list \<Rightarrow> rat list \<Rightarrow> rat fedge list \<Rightarrow> rat list \<Rightarrow> bool" where
  "rankGraph nodes es ow fe p \<longleftrightarrow>
     distinct nodes \<and> (\<forall>e \<in> set es. fromNode e \<in> set nodes \<and> toNode e \<in> set nodes)
   \<and> ow = outWeights exact nodes es \<and> fe = fedgesOf exact nodes ow es
   \<and> (\<forall>e \<in> set fe. 0 \<le> share e) \<and> length p = length nodes \<and> (\<forall>x \<in> set p. 0 \<le> x) \<and> sum_list p = 1"

lemma rankGraph_edge:
  assumes "rankGraph nodes es ow fe p" and "e \<in> set fe"
  shows "fdst e < length nodes" "fsrc e < length nodes"
  using assms fedgesOf_ends [of e exact nodes ow es] idx_node(1) [of nodes]
  by (auto simp: rankGraph_def)

text \<open>The difference of two vectors after a round, against the round of the difference.\<close>

lemma round_difference:
  assumes g: "rankGraph nodes es ow fe p" and len: "length x = length nodes" "length y = length nodes" and "j < length nodes"
  defines "d \<equiv> map (\<lambda>i. \<bar>x ! i - y ! i\<bar>) [0 ..< length nodes]"
  shows "\<bar>nextRank exact p ow fe x ! j - nextRank exact p ow fe y ! j\<bar>
    \<le> pagerankDamping * (danglingMass exact ow d * p ! j + (\<Sum>e \<leftarrow> fe. if fdst e = j then share e * d ! fsrc e else 0))"
proof -
  have p: "length p = length nodes" "0 \<le> p ! j" using g \<open>j < length nodes\<close> by (auto simp: rankGraph_def)
  have d: "length d = length nodes" "\<And>i. i < length nodes \<Longrightarrow> d ! i = \<bar>x ! i - y ! i\<bar>" by (simp_all add: d_def)
  let ?m = "danglingMass exact ow x - danglingMass exact ow y"
  let ?f = "\<Sum>e \<leftarrow> fe. if fdst e = j then share e * (x ! fsrc e - y ! fsrc e) else 0"
  have diff: "nextRank exact p ow fe x ! j - nextRank exact p ow fe y ! j = pagerankDamping * (?m * p ! j + ?f)"
  proof -
    have "(\<Sum>e \<leftarrow> fe. if fdst e = j then share e * x ! fsrc e else 0)
        = ?f + (\<Sum>e \<leftarrow> fe. if fdst e = j then share e * y ! fsrc e else 0)"
      unfolding sum_list_addf [symmetric]
      by (rule arg_cong [where f = sum_list], rule map_cong) (auto simp: algebra_simps)
    then show ?thesis using p \<open>j < length nodes\<close> by (simp add: exact_nextRank_nth algebra_simps)
  qed
  have "\<bar>?m\<bar> \<le> danglingMass exact ow d"
    unfolding exact_danglingMass len d(1) sum_subtractf [symmetric]
    by (rule order_trans [OF sum_abs]) (auto simp: d(2) intro!: sum_mono)
  moreover have "\<bar>?f\<bar> \<le> (\<Sum>e \<leftarrow> fe. if fdst e = j then share e * d ! fsrc e else 0)"
    using g rankGraph_edge(2) [OF g]
    by (intro abs_sum_list_le) (auto simp: d(2) abs_mult rankGraph_def)
  ultimately have "\<bar>?m * p ! j + ?f\<bar> \<le> danglingMass exact ow d * p ! j + (\<Sum>e \<leftarrow> fe. if fdst e = j then share e * d ! fsrc e else 0)"
    using p(2) by (intro order_trans [OF abs_triangle_ineq] add_mono) (auto simp: abs_mult intro: mult_right_mono)
  then show ?thesis unfolding diff abs_mult
    by (intro mult_mono) (simp_all add: pagerankDamping_def)
qed

text \<open>A round brings two vectors closer by the damping factor, in the measure the code uses itself.\<close>

lemma round_contracts:
  assumes g: "rankGraph nodes es ow fe p" and len: "length x = length nodes" "length y = length nodes"
  shows "rankDelta exact (nextRank exact p ow fe x) (nextRank exact p ow fe y) \<le> pagerankDamping * rankDelta exact x y"
proof -
  define d where "d = map (\<lambda>i. \<bar>x ! i - y ! i\<bar>) [0 ..< length nodes]"
  let ?in = "\<lambda>j. \<Sum>e \<leftarrow> fe. if fdst e = j then share e * d ! fsrc e else 0"
  have d: "length d = length nodes" "\<And>i. i < length nodes \<Longrightarrow> d ! i = \<bar>x ! i - y ! i\<bar>" by (simp_all add: d_def)
  have p: "length p = length nodes" "sum_list p = 1" using g by (simp_all add: rankGraph_def)
  have "rankDelta exact (nextRank exact p ow fe x) (nextRank exact p ow fe y)
      \<le> (\<Sum>j < length nodes. pagerankDamping * (danglingMass exact ow d * p ! j + ?in j))"
    unfolding exact_rankDelta d_def using round_difference [OF g len] p by (auto intro: sum_mono)
  also have "\<dots> = pagerankDamping * (danglingMass exact ow d * (\<Sum>j < length nodes. p ! j) + (\<Sum>j < length nodes. ?in j))"
    by (simp add: sum_distrib_left sum.distrib algebra_simps)
  also have "(\<Sum>j < length nodes. ?in j) = (\<Sum>e \<leftarrow> fe. share e * d ! fsrc e)"
    using rankGraph_edge(1) [OF g] by (simp add: sum_by_source [of fe fdst "length nodes"])
  also have "\<dots> = (\<Sum>i < length nodes. if ow ! i = 0 then 0 else d ! i)"
    using g by (simp add: rankGraph_def exact_flow_total)
  also have "danglingMass exact ow d * (\<Sum>j < length nodes. p ! j) + \<dots> = (\<Sum>i < length nodes. d ! i)"
    using p by (auto simp: exact_danglingMass d(1) sum.distrib [symmetric] sum_list_index intro!: sum.cong)
  also have "\<dots> = rankDelta exact x y"
    by (simp add: exact_rankDelta len d(2))
  finally show ?thesis .
qed

section \<open>All further rounds\<close>

lemma delta_triangle:
  "length y = length z \<Longrightarrow> rankDelta exact x z \<le> rankDelta exact x y + rankDelta exact y z"
  by (simp add: exact_rankDelta sum.distrib [symmetric]) (rule sum_mono, simp)

lemma delta_nonneg: "0 \<le> rankDelta exact x y"
  by (simp add: exact_rankDelta sum_nonneg)

text \<open>The early stop and the last round both leave only a small change for the next round.\<close>

lemma powerIteration_residual:
  assumes g: "rankGraph nodes es ow fe p"
  defines "R \<equiv> nextRank exact p ow fe"
  shows "length r = length nodes \<Longrightarrow>
    rankDelta exact (R (powerIteration exact p ow fe k r)) (powerIteration exact p ow fe k r)
      \<le> max (pagerankDamping * pagerankTolerance) (pagerankDamping ^ k * rankDelta exact (R r) r)"
proof (induction k arbitrary: r)
  case (Suc k)
  have len: "length (R r) = length nodes" using g by (simp add: R_def rankGraph_def)
  have step: "rankDelta exact (R (R r)) (R r) \<le> pagerankDamping * rankDelta exact (R r) r"
    unfolding R_def by (rule round_contracts [OF g]) (use len Suc.prems in \<open>simp_all add: R_def\<close>)
  have d: "0 < pagerankDamping" by (simp add: pagerankDamping_def)
  show ?case
  proof (cases "rankDelta exact (R r) r < pagerankTolerance")
    case True
    then have "pagerankDamping * rankDelta exact (R r) r \<le> pagerankDamping * pagerankTolerance" using d by simp
    with True step show ?thesis by (simp add: R_def Let_def exact_ops exact_eval max.coboundedI1)
  next
    case False
    have "pagerankDamping ^ k * rankDelta exact (R (R r)) (R r) \<le> pagerankDamping ^ Suc k * rankDelta exact (R r) r"
      using mult_left_mono [OF step, of "pagerankDamping ^ k"] d by (simp add: algebra_simps)
    with Suc.IH [OF len] False show ?thesis by (auto simp: R_def Let_def exact_ops exact_eval)
  qed
qed simp

text \<open>A vector a round changes by little is close to everything later rounds can reach.\<close>

lemma later_rounds_near:
  assumes g: "rankGraph nodes es ow fe p" and len: "length r = length nodes"
  defines "R \<equiv> nextRank exact p ow fe"
  shows "rankDelta exact ((R ^^ m) r) r \<le> rankDelta exact (R r) r / (1 - pagerankDamping)"
proof (induction m)
  case 0
  then show ?case using delta_nonneg [of "R r" r] by (simp add: exact_rankDelta pagerankDamping_def)
next
  case (Suc m)
  let ?c = "rankDelta exact (R r) r"
  have lens: "length ((R ^^ m) r) = length nodes" for m
    using g len by (induction m) (simp_all add: R_def rankGraph_def)
  have "rankDelta exact ((R ^^ Suc m) r) r \<le> rankDelta exact (R ((R ^^ m) r)) (R r) + ?c"
    using delta_triangle [of "R r" r] lens [of 1] len by simp
  also have "\<dots> \<le> pagerankDamping * rankDelta exact ((R ^^ m) r) r + ?c"
    unfolding R_def using round_contracts [OF g, of "(nextRank exact p ow fe ^^ m) r" r] lens [of m] len by (simp add: R_def)
  also have "\<dots> \<le> pagerankDamping * (?c / (1 - pagerankDamping)) + ?c"
    using Suc.IH by (simp add: pagerankDamping_def)
  also have "\<dots> = ?c / (1 - pagerankDamping)" by (simp add: pagerankDamping_def)
  finally show ?case .
qed

section \<open>The rounds of the ranking\<close>

text \<open>Two vectors of total 1 are at most 2 apart.\<close>

lemma delta_le_two:
  assumes "length x = length y" and "list_all (\<lambda>v. 0 \<le> v) x" "list_all (\<lambda>v. 0 \<le> v) y" and "sum_list x = 1" "sum_list y = 1"
  shows "rankDelta exact x y \<le> 2"
proof -
  have "rankDelta exact x y \<le> (\<Sum>i < length y. x ! i + y ! i)"
    unfolding exact_rankDelta using assms(1-3) by (intro sum_mono order_trans [OF abs_triangle_ineq4]) (auto simp: list_all_length)
  also have "\<dots> = 2"
    using assms(1,4,5) by (simp add: sum.distrib flip: sum_list_index) (metis sum_list_index)
  finally show ?thesis .
qed

text \<open>
  The vectors of \<^verbatim>\<open>Reputation\<close> form such a graph, and a round of it is \<open>rankRound\<close>.
\<close>

lemma Reputation_rounds:
  assumes perm: "\<And>ks. mset (RangeKeys env ks) = mset ks" and "distinct anchors"
    and ne: "Reputation env exact vouches jobs anchors \<noteq> []"
  shows "\<exists>nodes es ow fe p. rankGraph nodes es ow fe p
    \<and> rankRound env exact vouches jobs anchors = nextRank exact p ow fe
    \<and> map snd (Reputation env exact vouches jobs anchors) = powerIteration exact p ow fe pagerankMaxIter p"
proof -
  define edges where "edges = vouchEdges exact vouches @ jobEdges exact jobs"
  define nodes where "nodes = sort (RangeKeys env (nodeSet edges anchors))"
  define ow where "ow = outWeights exact nodes edges"
  define fe where "fe = fedgesOf exact nodes ow edges"
  define p where "p = personalization exact (length nodes) (anchorIdx nodes anchors)"
  note nodes = sorted_nodes [OF perm nodes_def]
  note folded = edges_def [symmetric] nodes_def [symmetric] ow_def [symmetric] fe_def [symmetric] p_def [symmetric]
  have eps: "fromNode e \<in> set nodes \<and> toNode e \<in> set nodes" if "e \<in> set edges" for e
    using that nodes(1) by (auto simp: endpoints_def)
  have eq: "Reputation env exact vouches jobs anchors = zip nodes (powerIteration exact p ow fe pagerankMaxIter p)"
    and "nodes \<noteq> []"
    using ne nodes(3) unfolding Reputation_def Let_def folded by (auto split: if_splits)
  have w: "0 \<le> weight e \<and> idx nodes (fromNode e) < length ow" if "e \<in> set edges" for e
    using that exact.nonneg_edges [of e vouches jobs] eps [OF that] idx_node(1) [OF nodes(2)]
    by (simp add: edges_def ow_def exact.length_outWeights)
  have shares: "0 \<le> share g" if "g \<in> set fe" for g
    using exact.nonneg_shares [of ow edges nodes g] w that exact.nonneg_outWeights [of edges nodes]
    by (simp add: fe_def ow_def)
  have p: "length p = length nodes" "list_all (\<lambda>v. 0 \<le> v) p" "sum_list p = 1"
    using exact_personalization_sum [OF anchorIdx_distinct [OF nodes(2) \<open>distinct anchors\<close>], of "length nodes"]
      \<open>nodes \<noteq> []\<close>
    by (simp_all add: p_def exact.nonneg_personalization anchorIdx_set [OF nodes(2)])
  have "rankGraph nodes edges ow fe p"
    unfolding rankGraph_def using nodes(2) eps shares p by (auto simp: ow_def fe_def list_all_iff)
  moreover have "rankRound env exact vouches jobs anchors = nextRank exact p ow fe"
    unfolding rankRound_def Let_def folded ..
  moreover have "map snd (Reputation env exact vouches jobs anchors) = powerIteration exact p ow fe pagerankMaxIter p"
    by (simp add: eq length_powerIteration p(1))
  ultimately show ?thesis by blast
qed

lemma first_round_change:
  assumes g: "rankGraph nodes es ow fe p"
  shows "rankDelta exact (nextRank exact p ow fe p) p \<le> 2"
proof (rule delta_le_two)
  have p: "list_all (\<lambda>v. 0 \<le> v) p" "length p = length nodes" "sum_list p = 1"
    using g by (simp_all add: rankGraph_def list_all_iff)
  show "list_all (\<lambda>v. 0 \<le> v) p" "sum_list p = 1" by fact+
  show "list_all (\<lambda>v. 0 \<le> v) (nextRank exact p ow fe p)"
    using g p rankGraph_edge(2) [OF g] by (intro exact.nonneg_nextRank) (auto simp: rankGraph_def)
  show "sum_list (nextRank exact p ow fe p) = 1"
    using g p by (intro exact_nextRank_sum [of nodes es ow fe]) (auto simp: rankGraph_def)
qed simp

lemma further_rounds_change_little:
  assumes "\<And>ks. mset (RangeKeys env ks) = mset ks" and "distinct anchors"
    and "Reputation env exact vouches jobs anchors \<noteq> []"
  shows "rankDelta exact
      ((rankRound env exact vouches jobs anchors ^^ m) (map snd (Reputation env exact vouches jobs anchors)))
      (map snd (Reputation env exact vouches jobs anchors)) < 2 / 10 ^ 6"
proof -
  obtain nodes es ow fe p where g: "rankGraph nodes es ow fe p"
    and round: "rankRound env exact vouches jobs anchors = nextRank exact p ow fe"
    and scores: "map snd (Reputation env exact vouches jobs anchors) = powerIteration exact p ow fe pagerankMaxIter p"
    using Reputation_rounds [OF assms] by blast
  let ?r = "powerIteration exact p ow fe pagerankMaxIter p"
  have len: "length p = length nodes" "length ?r = length nodes"
    using g by (simp_all add: rankGraph_def length_powerIteration)
  have "rankDelta exact (nextRank exact p ow fe ?r) ?r
      \<le> max (pagerankDamping * pagerankTolerance) (pagerankDamping ^ 100 * rankDelta exact (nextRank exact p ow fe p) p)"
    using powerIteration_residual [OF g len(1), of pagerankMaxIter] by (simp add: pagerankMaxIter_def)
  also have "\<dots> \<le> max (pagerankDamping * pagerankTolerance) (pagerankDamping ^ 100 * 2)"
    using first_round_change [OF g] by (intro max.mono mult_left_mono) (simp_all add: pagerankDamping_def)
  also have "\<dots> < 2 / 10 ^ 6 * (1 - pagerankDamping)"
    by (simp add: pagerankDamping_def pagerankTolerance_def power_divide)
  finally have "rankDelta exact (nextRank exact p ow fe ?r) ?r / (1 - pagerankDamping) < 2 / 10 ^ 6"
    by (simp add: pagerankDamping_def)
  then show ?thesis
    unfolding round scores using later_rounds_near [OF g len(2), of m] by linarith
qed

text \<open>
  The bound is not slack: two accounts that vouch for each other, one of them the anchor, use up
  all rounds without reaching the tolerance of \<open>10 ^ -9\<close>.
\<close>

lemma mutual_vouch_exhausts_rounds:
  assumes "u \<noteq> 0"
  defines "R \<equiv> nextRank exact [1, 0] [u, u] [\<lparr>fsrc = 0, fdst = 1, share = 1\<rparr>, \<lparr>fsrc = 1, fdst = 0, share = 1\<rparr>]"
    and "it \<equiv> powerIteration exact [1, 0] [u, u] [\<lparr>fsrc = 0, fdst = 1, share = 1\<rparr>, \<lparr>fsrc = 1, fdst = 0, share = 1\<rparr>]"
  shows "it pagerankMaxIter [1, 0] = (R ^^ pagerankMaxIter) [1, 0]"
    and "1 / 10 ^ 7 < rankDelta exact (R (it pagerankMaxIter [1, 0])) (it pagerankMaxIter [1, 0])"
proof -
  let ?d = pagerankDamping
  let ?e = "\<lambda>x :: rat. 1 - (1 + ?d) * x"
  have R: "R [x, 1 - x] = [1 - ?d * x, 1 - (1 - ?d * x)]" for x
    using \<open>u \<noteq> 0\<close> by (simp add: R_def nextRank_def edgeTerms_def baseTerm_def danglingMass_def exact_def algebra_simps)
  have delta: "rankDelta exact (R [x, 1 - x]) [x, 1 - x] = 2 * \<bar>?e x\<bar>" for x
    unfolding R by (simp add: rankDelta_def exact_ops exact_eval algebra_simps abs_if)
  have shrink: "\<bar>?e (1 - ?d * x)\<bar> = ?d * \<bar>?e x\<bar>" for x
  proof -
    have "?e (1 - ?d * x) = - ?d * ?e x" by (simp add: algebra_simps)
    then show ?thesis by (simp only: abs_mult) (simp add: pagerankDamping_def)
  qed
  have it_Suc: "it (Suc k) r = (let next1 = R r
      in if Less exact (rankDelta exact next1 r) (Const exact pagerankTolerance) then next1 else it k next1)" for k r
    unfolding it_def R_def by (rule powerIteration.simps(2))
  have run: "it k [x, 1 - x] = (R ^^ k) [x, 1 - x]
      \<and> (\<exists>y. (R ^^ k) [x, 1 - x] = [y, 1 - y] \<and> \<bar>?e y\<bar> = ?d ^ k * \<bar>?e x\<bar>)"
    if "pagerankTolerance \<le> 2 * (?d ^ k * \<bar>?e x\<bar>)" for k x
    using that
  proof (induction k arbitrary: x)
    case (Suc k)
    let ?x = "1 - ?d * x"
    have "?d ^ Suc k * \<bar>?e x\<bar> \<le> 1 * \<bar>?e x\<bar>"
      by (intro mult_right_mono power_le_one) (simp_all add: pagerankDamping_def)
    with Suc.prems have "\<not> rankDelta exact (R [x, 1 - x]) [x, 1 - x] < pagerankTolerance"
      unfolding delta by simp
    then have it: "it (Suc k) [x, 1 - x] = it k [?x, 1 - ?x]"
      by (simp add: it_Suc R Let_def exact_ops exact_eval)
    have pow: "?d ^ Suc k * \<bar>?e x\<bar> = ?d ^ k * \<bar>?e ?x\<bar>" unfolding shrink by simp
    have "(R ^^ Suc k) [x, 1 - x] = (R ^^ k) [?x, 1 - ?x]"
      unfolding funpow_Suc_right o_apply R ..
    then show ?case using Suc.IH [of ?x] Suc.prems unfolding pow it by simp
  qed (simp add: it_def)
  have far: "pagerankTolerance \<le> 2 * (?d ^ pagerankMaxIter * \<bar>?e 1\<bar>)"
    by (simp add: pagerankDamping_def pagerankTolerance_def pagerankMaxIter_def power_divide)
  show eq: "it pagerankMaxIter [1, 0] = (R ^^ pagerankMaxIter) [1, 0]"
    using run [OF far] by simp
  obtain y where "(R ^^ pagerankMaxIter) [1, 0] = [y, 1 - y]" "\<bar>?e y\<bar> = ?d ^ pagerankMaxIter * \<bar>?e 1\<bar>"
    using run [OF far] by auto
  then show "1 / 10 ^ 7 < rankDelta exact (R (it pagerankMaxIter [1, 0])) (it pagerankMaxIter [1, 0])"
    unfolding eq using delta [of y]
    by (simp add: pagerankDamping_def pagerankMaxIter_def power_divide)
qed

section \<open>Properties\<close>

text \<open>
  C33: The ranking is a settled distribution. In exact arithmetic the scores of a non-empty graph
  sum to 1, provided that no anchor is listed twice, none of them is negative, and the hundred
  rounds are enough: no number of further rounds moves the scores, all together, by two
  millionths of the total.
\<close>
theorem ranking_is_settled_distribution:
  assumes "\<And>ks. mset (RangeKeys env ks) = mset ks" and "distinct anchors"
    and "Reputation env exact vouches jobs anchors \<noteq> []"
  shows "sum_list (map snd (Reputation env exact vouches jobs anchors)) = 1
    \<and> 0 \<le> scoreOf exact (Reputation env exact vouches jobs anchors) x
    \<and> rankDelta exact
        ((rankRound env exact vouches jobs anchors ^^ m) (map snd (Reputation env exact vouches jobs anchors)))
        (map snd (Reputation env exact vouches jobs anchors)) < 2 / 10 ^ 6"
  using scores_distribution [OF assms] further_rounds_change_little [OF assms] by blast

lemma ranking_is_settled_distribution_witness:
  "sum_list (map snd (Reputation (sampleEnv 0) exact [ringVouch 0 ''a'' ''b''] [] [''a''])) = 1
    \<and> 0 \<le> scoreOf exact (Reputation (sampleEnv 0) exact [ringVouch 0 ''a'' ''b''] [] [''a'']) ''b''
    \<and> rankDelta exact
     ((rankRound (sampleEnv 0) exact [ringVouch 0 ''a'' ''b''] [] [''a''] ^^ 3)
        (map snd (Reputation (sampleEnv 0) exact [ringVouch 0 ''a'' ''b''] [] [''a''])))
     (map snd (Reputation (sampleEnv 0) exact [ringVouch 0 ''a'' ''b''] [] [''a''])) < 2 / 10 ^ 6"
  by (rule ranking_is_settled_distribution) (simp_all add: Reputation_nonempty [of _ "''a''"])

end
