(* ===== verification/ReputationScore.thy ===== *)
theory ReputationScore
  imports PageRank
begin

text \<open>
  Reputation over the stored state (\<^verbatim>\<open>reputation_score.go\<close> and the query of
  \<^verbatim>\<open>query_reputation.go\<close>): the edges are the vouches, the released escrows, and one edge from
  every juror who voted to accept a delivery that a jury accepted; the roots are the anchors.
\<close>

section \<open>Edges of the state\<close>

definition releasedJobs :: "Escrow list \<Rightarrow> JobEdge list" where
  "releasedJobs es =
     map (\<lambda>e. \<lparr>JobEdge.Payer = Escrow.Payer e, JobEdge.Payee = Escrow.Payee e, JobEdge.Amount = Escrow.Amount e\<rparr>)
       (filter (\<lambda>e. Escrow.Status e = EscrowStatusReleased) es)"

fun juryJobs :: "Keeper \<Rightarrow> Dispute list \<Rightarrow> JobEdge list" where
  "juryJobs s [] = []"
| "juryJobs s (d # ds) =
     (if Dispute.Resolution d \<noteq> DisputeResolutionAccept then juryJobs s ds
      else case kv_get (Keeper.Escrow s) (Dispute.EscrowId d) of
          None \<Rightarrow> juryJobs s ds
        | Some e \<Rightarrow>
            map (\<lambda>v. \<lparr>JobEdge.Payer = Vote.Juror v, JobEdge.Payee = Escrow.Payee e, JobEdge.Amount = Escrow.Amount e\<rparr>)
              (filter Vote.Accept (Dispute.Votes d)) @ juryJobs s ds)"

definition jobsOf :: "Keeper \<Rightarrow> JobEdge list" where
  "jobsOf s = releasedJobs (kv_values (Keeper.Escrow s)) @ juryJobs s (kv_values (Keeper.Dispute s))"

section \<open>Scores\<close>

definition reputationScores :: "Env \<Rightarrow> 'f floats \<Rightarrow> Keeper \<Rightarrow> go_error + (string \<times> 'f) list" where
  "reputationScores env F s =
     (let vouches = kv_values (Keeper.Vouch s);
          jobs = jobsOf s
      in case Keeper.Params s of
           None \<Rightarrow> Inl (ErrIO ''collections: not found'')
         | Some params \<Rightarrow> Inr (PageRank.Reputation env F vouches jobs (resolveAnchors env (Params.Anchors params))))"

definition reputationScore :: "Env \<Rightarrow> 'f floats \<Rightarrow> Keeper \<Rightarrow> string \<Rightarrow> go_error + 'f" where
  "reputationScore env F s address =
     (case reputationScores env F s of
        Inl err \<Rightarrow> Inl err
      | Inr scores \<Rightarrow> Inr (scoreOf F scores address))"

text \<open>
  The query; a request is \<open>None\<close> for a nil pointer. An address outside the graph scores 0 if
  it has an account.
\<close>

definition QueryReputation :: "Env \<Rightarrow> 'f floats \<Rightarrow> Keeper \<Rightarrow> string option \<Rightarrow> go_error + string" where
  "QueryReputation env F s req =
    (case req of
       None \<Rightarrow> Inl (StatusInvalidArgument ''invalid request'')
     | Some address \<Rightarrow>
    (case StringToBytes env address of
       None \<Rightarrow> Inl (ErrAddress ''invalid address'')
     | Some _ \<Rightarrow>
    (let vouches = kv_values (Keeper.Vouch s);
         jobs = releasedJobs (kv_values (Keeper.Escrow s)) @ juryJobs s (kv_values (Keeper.Dispute s))
     in case Keeper.Params s of
       None \<Rightarrow> Inl (ErrIO ''collections: not found'')
     | Some params \<Rightarrow>
    (let scores = PageRank.Reputation env F vouches jobs (resolveAnchors env (Params.Anchors params))
     in case map_of scores address of
       Some score \<Rightarrow> Inr (FormatShortest F score)
     | None \<Rightarrow>
         (case kv_get (Keeper.Account s) address of
            None \<Rightarrow> Inl (StatusNotFound ''address not in graph and not registered'')
          | Some _ \<Rightarrow> Inr (FormatShortest F (Zero F)))))))"

text \<open>The query reports the very score the handlers compare.\<close>

lemma query_reports_score:
  assumes "QueryReputation env F s (Some a) = Inr txt"
  shows "\<exists>x. reputationScore env F s a = Inr x \<and> txt = FormatShortest F x"
  using assms
  by (auto simp: QueryReputation_def reputationScore_def reputationScores_def jobsOf_def scoreOf_def Let_def
      split: option.splits)

section \<open>Standing\<close>

text \<open>The trust graph of a state, and who an anchor reaches in it.\<close>

definition trustGraph :: "Keeper \<Rightarrow> (string \<times> string) set" where
  "trustGraph s = trustEdges (kv_values (Keeper.Vouch s)) (jobsOf s)"

definition anchorsOf :: "Env \<Rightarrow> Keeper \<Rightarrow> string list" where
  "anchorsOf env s = (case Keeper.Params s of None \<Rightarrow> [] | Some params \<Rightarrow> resolveAnchors env (Params.Anchors params))"

lemma outsider_score_zero:
  assumes "\<And>ks. mset (RangeKeys env ks) = mset ks"
    and "a0 \<in> set (anchorsOf env s)" and "a0 \<noteq> []"
    and "\<And>a. a \<in> set (anchorsOf env s) \<Longrightarrow> (a, x) \<notin> (trustGraph s)\<^sup>*"
  shows "reputationScore env (ieee fused) s x = Inr 0"
proof -
  obtain params where p: "Keeper.Params s = Some params"
    using assms(2) by (cases "Keeper.Params s") (auto simp: anchorsOf_def)
  have "scoreOf (ieee fused) (PageRank.Reputation env (ieee fused) (kv_values (Keeper.Vouch s)) (jobsOf s)
      (resolveAnchors env (Params.Anchors params))) x = Zero (ieee fused)"
    using assms p
    by (intro ieee.unreachable_scores_zero [where ?a0.0 = a0]) (auto simp: anchorsOf_def trustGraph_def)
  then show ?thesis by (simp add: reputationScore_def reputationScores_def p ieee_def)
qed

text \<open>The edges of the graph are facts of the ledger: stakes, releases and verdicts.\<close>

lemma juryJobs_mem:
  "j \<in> set (juryJobs s ds) \<Longrightarrow> \<exists>d \<in> set ds. \<exists>e v. Dispute.Resolution d = DisputeResolutionAccept
     \<and> kv_get (Keeper.Escrow s) (Dispute.EscrowId d) = Some e \<and> v \<in> set (Dispute.Votes d) \<and> Vote.Accept v
     \<and> j = \<lparr>JobEdge.Payer = Vote.Juror v, JobEdge.Payee = Escrow.Payee e, JobEdge.Amount = Escrow.Amount e\<rparr>"
  by (induction s ds rule: juryJobs.induct) (auto split: if_splits option.splits)

lemma trustGraph_edge:
  assumes "(x, y) \<in> trustGraph s"
  shows "(\<exists>i v. kv_get (Keeper.Vouch s) i = Some v \<and> Vouch.FromAddr v = x \<and> Vouch.ToAddr v = y \<and> Vouch.Stake v \<noteq> 0)
    \<or> (\<exists>i e. kv_get (Keeper.Escrow s) i = Some e \<and> Escrow.Status e = EscrowStatusReleased
         \<and> Escrow.Payer e = x \<and> Escrow.Payee e = y)
    \<or> (\<exists>i d e v. kv_get (Keeper.Dispute s) i = Some d \<and> Dispute.Resolution d = DisputeResolutionAccept
         \<and> kv_get (Keeper.Escrow s) (Dispute.EscrowId d) = Some e \<and> v \<in> set (Dispute.Votes d) \<and> Vote.Accept v
         \<and> Vote.Juror v = x \<and> Escrow.Payee e = y)"
proof -
  consider v where "v \<in> set (kv_values (Keeper.Vouch s))" "Vouch.FromAddr v = x" "Vouch.ToAddr v = y" "Vouch.Stake v \<noteq> 0"
    | j where "j \<in> set (jobsOf s)" "JobEdge.Payer j = x" "JobEdge.Payee j = y"
    using assms unfolding trustGraph_def trustEdges_def by blast
  then show ?thesis
  proof cases
    case 1
    then show ?thesis unfolding in_kv_values by blast
  next
    case 2
    then consider e where "e \<in> set (kv_values (Keeper.Escrow s))" "Escrow.Status e = EscrowStatusReleased"
        "Escrow.Payer e = x" "Escrow.Payee e = y"
      | "j \<in> set (juryJobs s (kv_values (Keeper.Dispute s)))"
      unfolding jobsOf_def releasedJobs_def by auto
    then show ?thesis
    proof cases
      case 1
      then show ?thesis unfolding in_kv_values by blast
    next
      case jury: 2
      obtain d e v where "d \<in> set (kv_values (Keeper.Dispute s))" "Dispute.Resolution d = DisputeResolutionAccept"
        "kv_get (Keeper.Escrow s) (Dispute.EscrowId d) = Some e" "v \<in> set (Dispute.Votes d)" "Vote.Accept v"
        "j = \<lparr>JobEdge.Payer = Vote.Juror v, JobEdge.Payee = Escrow.Payee e, JobEdge.Amount = Escrow.Amount e\<rparr>"
        using juryJobs_mem [OF jury] by blast
      then show ?thesis using 2 unfolding in_kv_values by fastforce
    qed
  qed
qed

end
