(* ===== verification/Contribution.thy ===== *)
theory Contribution
  imports ReputationScore Schedule
begin

text \<open>
  Two records of useful work (\<^verbatim>\<open>msg_server_award_contribution.go\<close>,
  \<^verbatim>\<open>msg_server_cast_scoped_evidence_vouch.go\<close>) and the governed parameters
  (\<^verbatim>\<open>msg_update_params.go\<close>, \<^verbatim>\<open>types/params.go\<close>): an anchor mints a capped award for an artifact
  that has not been awarded before, a reputable issuer records evidence for a recipient, and
  the authority replaces the anchors.
\<close>

section \<open>Awards\<close>

record MsgAwardContribution =
  Creator :: string
  Recipient :: string
  RepoUrl :: string
  PrUrl :: string
  CommitSha :: string
  ArtifactUri :: string
  ArtifactSha256 :: string
  EvidenceSha256 :: string
  Scope :: string
  RationaleHash :: string
  Amount :: u64
  Contributor :: string
  FounderAuthored :: bool
  ReviewEvidenceUri :: string

definition awardRecord :: "u64 \<Rightarrow> MsgAwardContribution \<Rightarrow> ContributionAward" where
  "awardRecord i msg =
    \<lparr>ContributionAward.Id = i,
     ContributionAward.Anchor = MsgAwardContribution.Creator msg,
     ContributionAward.Recipient = MsgAwardContribution.Recipient msg,
     ContributionAward.RepoUrl = MsgAwardContribution.RepoUrl msg,
     ContributionAward.PrUrl = MsgAwardContribution.PrUrl msg,
     ContributionAward.CommitSha = MsgAwardContribution.CommitSha msg,
     ContributionAward.ArtifactUri = MsgAwardContribution.ArtifactUri msg,
     ContributionAward.ArtifactSha256 = MsgAwardContribution.ArtifactSha256 msg,
     ContributionAward.EvidenceSha256 = MsgAwardContribution.EvidenceSha256 msg,
     ContributionAward.Scope = MsgAwardContribution.Scope msg,
     ContributionAward.RationaleHash = MsgAwardContribution.RationaleHash msg,
     ContributionAward.Amount = MsgAwardContribution.Amount msg,
     ContributionAward.Contributor = MsgAwardContribution.Contributor msg,
     ContributionAward.FounderAuthored = MsgAwardContribution.FounderAuthored msg,
     ContributionAward.ReviewEvidenceUri = MsgAwardContribution.ReviewEvidenceUri msg\<rparr>"

definition setAward :: "u64 \<Rightarrow> ContributionAward \<Rightarrow> Keeper \<Rightarrow> Keeper" where
  "setAward i a s = s\<lparr>Keeper.ContributionAward := kv_set (Keeper.ContributionAward s) i a\<rparr>"

definition nextAwardID :: "Keeper \<Rightarrow> u64 \<times> Keeper" where
  "nextAwardID s = (case seq_next (Keeper.ContributionAwardSeq s) of
      (i, n) \<Rightarrow> (i, s\<lparr>Keeper.ContributionAwardSeq := n\<rparr>))"

lemma awardRecord_artifact [simp]:
  "ContributionAward.ArtifactSha256 (awardRecord i msg) = MsgAwardContribution.ArtifactSha256 msg"
  by (simp add: awardRecord_def)

text \<open>The checks on the award itself, in the order of the code.\<close>

definition awardDenied :: "string list \<Rightarrow> MsgAwardContribution \<Rightarrow> go_error option" where
  "awardDenied anchors msg =
    (if \<not> isJuror (MsgAwardContribution.Creator msg) anchors then
       Some (ErrUnauthorized ''only an anchor may award protocol contribution mint in beta'')
     else if MsgAwardContribution.Amount msg = 0 \<or> MsgAwardContribution.Amount msg > MaxContributionAward then
       Some (ErrInvalidRequest (''amount must be 1..'' @ FormatUint MaxContributionAward))
     else if MsgAwardContribution.Recipient msg \<noteq> MsgAwardContribution.Contributor msg then
       Some (ErrInvalidRequest ''recipient must match contributor'')
     else if MsgAwardContribution.FounderAuthored msg
           \<and> MsgAwardContribution.Recipient msg \<noteq> MsgAwardContribution.Creator msg then
       Some (ErrInvalidRequest ''founder_authored requires recipient to match anchor'')
     else if MsgAwardContribution.Recipient msg = MsgAwardContribution.Creator msg
           \<and> \<not> MsgAwardContribution.FounderAuthored msg then
       Some (ErrInvalidRequest ''anchor self-awards require founder_authored=true'')
     else if MsgAwardContribution.FounderAuthored msg
           \<and> TrimSpace (MsgAwardContribution.ReviewEvidenceUri msg) = [] then
       Some (ErrInvalidRequest ''founder-authored awards require review_evidence_uri'')
     else if TrimSpace (MsgAwardContribution.RepoUrl msg) = [] then
       Some (ErrInvalidRequest ''repo_url is required'')
     else if TrimSpace (MsgAwardContribution.CommitSha msg) = [] then
       Some (ErrInvalidRequest ''commit_sha is required'')
     else if TrimSpace (MsgAwardContribution.ArtifactUri msg) = [] then
       Some (ErrInvalidRequest ''artifact_uri is required'')
     else if TrimSpace (MsgAwardContribution.Scope msg) = [] then
       Some (ErrInvalidRequest ''scope is required'')
     else if \<not> isHexSHA256 (MsgAwardContribution.ArtifactSha256 msg) then
       Some (ErrInvalidRequest ''artifact_sha256 must be a hex sha256'')
     else if \<not> isHexSHA256 (MsgAwardContribution.EvidenceSha256 msg) then
       Some (ErrInvalidRequest ''evidence_sha256 must be a hex sha256'')
     else if MsgAwardContribution.RationaleHash msg \<noteq> []
           \<and> \<not> isHexSHA256 (MsgAwardContribution.RationaleHash msg) then
       Some (ErrInvalidRequest ''rationale_hash must be a hex sha256 when provided'')
     else None)"

definition AwardContribution :: "Env \<Rightarrow> MsgAwardContribution \<Rightarrow> Keeper \<Rightarrow> u64 result" where
  "AwardContribution env msg s =
    (case StringToBytes env (MsgAwardContribution.Creator msg) of
       None \<Rightarrow> fail (ErrAddress ''invalid creator address'') s
     | Some _ \<Rightarrow>
    (case StringToBytes env (MsgAwardContribution.Recipient msg) of
       None \<Rightarrow> fail (ErrAddress ''invalid recipient address'') s
     | Some recipientBytes \<Rightarrow>
    (case StringToBytes env (MsgAwardContribution.Contributor msg) of
       None \<Rightarrow> fail (ErrAddress ''invalid contributor address'') s
     | Some _ \<Rightarrow>
    (case Keeper.Params s of
       None \<Rightarrow> fail (ErrIO ''collections: not found'') s
     | Some params \<Rightarrow>
    (case awardDenied (resolveAnchors env (Params.Anchors params)) msg of
       Some err \<Rightarrow> fail err s
     | None \<Rightarrow>
    (case kv_find (\<lambda>a. EqualFold (FoldUnicode env) (ContributionAward.ArtifactSha256 a)
                        (MsgAwardContribution.ArtifactSha256 msg)) (Keeper.ContributionAward s) of
       Some _ \<Rightarrow> fail (ErrInvalidRequest ''artifact_sha256 has already been awarded'') s
     | None \<Rightarrow>
    (case checkNewAccountCredit s (MsgAwardContribution.Recipient msg) (MsgAwardContribution.Amount msg) of
       Some err \<Rightarrow> fail err s
     | None \<Rightarrow>
    (let (i, s1) = nextAwardID s;
         s2 = setAward i (awardRecord i msg) s1
     in case mintProtocolReward env (MsgAwardContribution.Recipient msg) recipientBytes
               (MsgAwardContribution.Amount msg) ''contribution_award'' s2 of
       (Inl err, s3) \<Rightarrow> fail err s3
     | (Inr _, s3) \<Rightarrow>
         respond i (emit ''agntcoin_contribution_awarded''
          [(''id'', FormatUint i),
           (''anchor'', MsgAwardContribution.Creator msg),
           (''recipient'', MsgAwardContribution.Recipient msg),
           (''contributor'', MsgAwardContribution.Contributor msg),
           (''founder_authored'', FormatBool (MsgAwardContribution.FounderAuthored msg)),
           (''repo_url'', MsgAwardContribution.RepoUrl msg),
           (''commit_sha'', MsgAwardContribution.CommitSha msg),
           (''artifact_sha256'', MsgAwardContribution.ArtifactSha256 msg),
           (''evidence_sha256'', MsgAwardContribution.EvidenceSha256 msg),
           (''review_evidence_uri'', MsgAwardContribution.ReviewEvidenceUri msg),
           (''scope'', MsgAwardContribution.Scope msg),
           (''amount'', FormatUint (MsgAwardContribution.Amount msg))] s3)))))))))"

section \<open>Scoped evidence\<close>

definition MinScopedEvidenceReputation :: rat where
  "MinScopedEvidenceReputation = 1 / 100"

record MsgCastScopedEvidenceVouch =
  Creator :: string
  Recipient :: string
  Scope :: string
  Weight :: u64
  ArtifactUri :: string
  ArtifactSha256 :: string
  EvidenceUri :: string
  EvidenceSha256 :: string
  RationaleHash :: string
  ExpiresAt :: i64

definition setEvidence :: "u64 \<Rightarrow> ScopedEvidenceVouch \<Rightarrow> Keeper \<Rightarrow> Keeper" where
  "setEvidence i v s = s\<lparr>Keeper.ScopedEvidenceVouch := kv_set (Keeper.ScopedEvidenceVouch s) i v\<rparr>"

definition nextEvidenceID :: "Keeper \<Rightarrow> u64 \<times> Keeper" where
  "nextEvidenceID s = (case seq_next (Keeper.ScopedEvidenceVouchSeq s) of
      (i, n) \<Rightarrow> (i, s\<lparr>Keeper.ScopedEvidenceVouchSeq := n\<rparr>))"

definition evidenceRecord :: "u64 \<Rightarrow> MsgCastScopedEvidenceVouch \<Rightarrow> ScopedEvidenceVouch" where
  "evidenceRecord i msg =
    \<lparr>ScopedEvidenceVouch.Id = i,
     ScopedEvidenceVouch.Issuer = MsgCastScopedEvidenceVouch.Creator msg,
     ScopedEvidenceVouch.Recipient = MsgCastScopedEvidenceVouch.Recipient msg,
     ScopedEvidenceVouch.Scope = TrimSpace (MsgCastScopedEvidenceVouch.Scope msg),
     ScopedEvidenceVouch.Weight = MsgCastScopedEvidenceVouch.Weight msg,
     ScopedEvidenceVouch.ArtifactUri = TrimSpace (MsgCastScopedEvidenceVouch.ArtifactUri msg),
     ScopedEvidenceVouch.ArtifactSha256 = MsgCastScopedEvidenceVouch.ArtifactSha256 msg,
     ScopedEvidenceVouch.EvidenceUri = TrimSpace (MsgCastScopedEvidenceVouch.EvidenceUri msg),
     ScopedEvidenceVouch.EvidenceSha256 = MsgCastScopedEvidenceVouch.EvidenceSha256 msg,
     ScopedEvidenceVouch.RationaleHash = MsgCastScopedEvidenceVouch.RationaleHash msg,
     ScopedEvidenceVouch.ExpiresAt = MsgCastScopedEvidenceVouch.ExpiresAt msg\<rparr>"

text \<open>The issuer is an anchor, or its reputation reaches the threshold.\<close>

definition issuerDenied ::
  "Env \<Rightarrow> 'f floats \<Rightarrow> string list \<Rightarrow> string \<Rightarrow> Keeper \<Rightarrow> go_error option" where
  "issuerDenied env F anchors issuer s =
    (if isJuror issuer anchors then None
     else case reputationScore env F s issuer of
         Inl err \<Rightarrow> Some err
       | Inr score \<Rightarrow>
           (if Less F score (Const F MinScopedEvidenceReputation) then
              Some (ErrUnauthorized (''issuer reputation '' @ Format8 F score
                      @ '' below scoped evidence threshold '' @ Format8 F (Const F MinScopedEvidenceReputation)))
            else None))"

definition evidenceDenied :: "MsgCastScopedEvidenceVouch \<Rightarrow> go_error option" where
  "evidenceDenied msg =
    (let scope = TrimSpace (MsgCastScopedEvidenceVouch.Scope msg);
         artifactURI = TrimSpace (MsgCastScopedEvidenceVouch.ArtifactUri msg);
         evidenceURI = TrimSpace (MsgCastScopedEvidenceVouch.EvidenceUri msg)
     in if scope = [] then Some (ErrInvalidRequest ''scope is required'')
     else if MsgCastScopedEvidenceVouch.Weight msg = 0 \<or> MsgCastScopedEvidenceVouch.Weight msg > MaxVouchWeight then
       Some (ErrInvalidRequest (''weight must be 1..'' @ FormatUint MaxVouchWeight))
     else if artifactURI = [] then Some (ErrInvalidRequest ''artifact_uri is required'')
     else if evidenceURI = [] then Some (ErrInvalidRequest ''evidence_uri is required'')
     else if \<not> isHexSHA256 (MsgCastScopedEvidenceVouch.ArtifactSha256 msg) then
       Some (ErrInvalidRequest ''artifact_sha256 must be a hex sha256'')
     else if \<not> isHexSHA256 (MsgCastScopedEvidenceVouch.EvidenceSha256 msg) then
       Some (ErrInvalidRequest ''evidence_sha256 must be a hex sha256'')
     else if MsgCastScopedEvidenceVouch.RationaleHash msg \<noteq> []
           \<and> \<not> isHexSHA256 (MsgCastScopedEvidenceVouch.RationaleHash msg) then
       Some (ErrInvalidRequest ''rationale_hash must be a hex sha256 when provided'')
     else None)"

definition sameEvidence :: "Env \<Rightarrow> MsgCastScopedEvidenceVouch \<Rightarrow> ScopedEvidenceVouch \<Rightarrow> bool" where
  "sameEvidence env msg v \<longleftrightarrow>
     ScopedEvidenceVouch.Issuer v = MsgCastScopedEvidenceVouch.Creator msg
   \<and> ScopedEvidenceVouch.Recipient v = MsgCastScopedEvidenceVouch.Recipient msg
   \<and> TrimSpace (ScopedEvidenceVouch.Scope v) = TrimSpace (MsgCastScopedEvidenceVouch.Scope msg)
   \<and> EqualFold (FoldUnicode env) (ScopedEvidenceVouch.ArtifactSha256 v) (MsgCastScopedEvidenceVouch.ArtifactSha256 msg)
   \<and> EqualFold (FoldUnicode env) (ScopedEvidenceVouch.EvidenceSha256 v) (MsgCastScopedEvidenceVouch.EvidenceSha256 msg)"

definition CastScopedEvidenceVouch ::
  "'f floats \<Rightarrow> Env \<Rightarrow> MsgCastScopedEvidenceVouch \<Rightarrow> Keeper \<Rightarrow> u64 result" where
  "CastScopedEvidenceVouch F env msg s =
    (case StringToBytes env (MsgCastScopedEvidenceVouch.Creator msg) of
       None \<Rightarrow> fail (ErrAddress ''invalid creator address'') s
     | Some _ \<Rightarrow>
    (case StringToBytes env (MsgCastScopedEvidenceVouch.Recipient msg) of
       None \<Rightarrow> fail (ErrAddress ''invalid recipient address'') s
     | Some _ \<Rightarrow>
    (case Keeper.Params s of
       None \<Rightarrow> fail (ErrIO ''collections: not found'') s
     | Some params \<Rightarrow>
    (case issuerDenied env F (resolveAnchors env (Params.Anchors params)) (MsgCastScopedEvidenceVouch.Creator msg) s of
       Some err \<Rightarrow> fail err s
     | None \<Rightarrow>
    (case evidenceDenied msg of
       Some err \<Rightarrow> fail err s
     | None \<Rightarrow>
    (case kv_find (sameEvidence env msg) (Keeper.ScopedEvidenceVouch s) of
       Some _ \<Rightarrow> fail (ErrInvalidRequest
                   ''duplicate scoped evidence vouch for issuer/recipient/scope/artifact/evidence'') s
     | None \<Rightarrow>
    (let (i, s1) = nextEvidenceID s;
         s2 = setEvidence i (evidenceRecord i msg) s1
     in respond i (emit ''agntcoin_scoped_evidence_vouch_cast''
          [(''id'', FormatUint i),
           (''issuer'', MsgCastScopedEvidenceVouch.Creator msg),
           (''recipient'', MsgCastScopedEvidenceVouch.Recipient msg),
           (''scope'', TrimSpace (MsgCastScopedEvidenceVouch.Scope msg)),
           (''weight'', FormatUint (MsgCastScopedEvidenceVouch.Weight msg)),
           (''artifact_sha256'', MsgCastScopedEvidenceVouch.ArtifactSha256 msg),
           (''evidence_sha256'', MsgCastScopedEvidenceVouch.EvidenceSha256 msg)] s2))))))))"

section \<open>Parameters\<close>

definition NewParams :: "string list \<Rightarrow> Params" where
  "NewParams anchors = \<lparr>Params.Anchors = anchors\<rparr>"

definition DefaultParams :: Params where
  "DefaultParams = NewParams []"

fun validateAnchors :: "string list \<Rightarrow> string list \<Rightarrow> go_error option" where
  "validateAnchors seen [] = None"
| "validateAnchors seen (a # as1) =
     (if a = [] then Some (ErrPlain ''anchor address must not be empty'')
      else if a \<in> set seen then Some (ErrPlain (''duplicate anchor address: '' @ a))
      else validateAnchors (a # seen) as1)"

definition validateParams :: "Params \<Rightarrow> go_error option" where
  "validateParams p = validateAnchors [] (Params.Anchors p)"

record MsgUpdateParams =
  Authority :: string
  NewParamValues :: Params

definition UpdateParams :: "Env \<Rightarrow> MsgUpdateParams \<Rightarrow> Keeper \<Rightarrow> unit result" where
  "UpdateParams env req s =
    (case StringToBytes env (MsgUpdateParams.Authority req) of
       None \<Rightarrow> fail (ErrAddress ''invalid authority address'') s
     | Some authority \<Rightarrow>
    (if Env.Authority env \<noteq> authority then
       fail (ErrInvalidSigner (''invalid authority; expected '' @ BytesToString env (Env.Authority env)
               @ '', got '' @ MsgUpdateParams.Authority req)) s
     else case validateParams (NewParamValues req) of
       Some err \<Rightarrow> fail err s
     | None \<Rightarrow> respond () (s\<lparr>Keeper.Params := Some (NewParamValues req)\<rparr>)))"

lemma validateAnchors_None:
  "validateAnchors seen as1 = None \<longleftrightarrow> distinct as1 \<and> set as1 \<inter> set seen = {} \<and> [] \<notin> set as1"
  by (induction seen as1 rule: validateAnchors.induct) auto

lemma validateParams_None: "validateParams p = None \<longleftrightarrow> distinct (Params.Anchors p) \<and> [] \<notin> set (Params.Anchors p)"
  by (simp add: validateParams_def validateAnchors_None)


section \<open>Frames\<close>

lemma award_frame [simp]:
  "nextAwardID s = (Keeper.ContributionAwardSeq s, s\<lparr>Keeper.ContributionAwardSeq := Keeper.ContributionAwardSeq s + 1\<rparr>)"
  "nextEvidenceID s = (Keeper.ScopedEvidenceVouchSeq s,
      s\<lparr>Keeper.ScopedEvidenceVouchSeq := Keeper.ScopedEvidenceVouchSeq s + 1\<rparr>)"
  "core_inv (setAward i a s) = core_inv s" "core_inv (setEvidence i v s) = core_inv s"
  "total_supply (setAward i a s) = total_supply s" "total_supply (setEvidence i v s) = total_supply s"
  "Keeper.EmissionState (setAward i a s) = Keeper.EmissionState s"
  "Keeper.EmissionState (setEvidence i v s) = Keeper.EmissionState s"
  "Keeper.Account (setAward i a s) = Keeper.Account s"
  "Keeper.ContributionAward (setAward i a s) = kv_set (Keeper.ContributionAward s) i a"
  "Keeper.ContributionAwardSeq (setAward i a s) = Keeper.ContributionAwardSeq s"
  "Keeper.ScopedEvidenceVouch (setEvidence i v s) = kv_set (Keeper.ScopedEvidenceVouch s) i v"
  "Keeper.ScopedEvidenceVouchSeq (setEvidence i v s) = Keeper.ScopedEvidenceVouchSeq s"
  by (simp_all add: nextAwardID_def nextEvidenceID_def setAward_def setEvidence_def)

text \<open>The state between the bookkeeping of an award and its mint.\<close>

definition awardBooked :: "MsgAwardContribution \<Rightarrow> Keeper \<Rightarrow> Keeper" where
  "awardBooked msg s =
     setAward (Keeper.ContributionAwardSeq s) (awardRecord (Keeper.ContributionAwardSeq s) msg)
       (s\<lparr>Keeper.ContributionAwardSeq := Keeper.ContributionAwardSeq s + 1\<rparr>)"

lemma awardBooked_frame [simp]:
  "core_inv (awardBooked msg s) = core_inv s" "total_supply (awardBooked msg s) = total_supply s"
  "Keeper.EmissionState (awardBooked msg s) = Keeper.EmissionState s"
  "Keeper.Account (awardBooked msg s) = Keeper.Account s"
  "emission_inv (awardBooked msg s) = emission_inv s" "minedTotal (awardBooked msg s) = minedTotal s"
  "mintable (awardBooked msg s) = mintable s"
  "balance (awardBooked msg s) c = balance s c"
  by (simp_all add: awardBooked_def emission_inv_def minedTotal_def mintable_def balance_def)

lemma AwardContribution_success:
  assumes "AwardContribution env msg s = (Inr i, s')"
  shows "\<exists>params rb s3 n ats. Keeper.Params s = Some params
    \<and> awardDenied (resolveAnchors env (Params.Anchors params)) msg = None
    \<and> kv_find (\<lambda>a. EqualFold (FoldUnicode env) (ContributionAward.ArtifactSha256 a)
                        (MsgAwardContribution.ArtifactSha256 msg)) (Keeper.ContributionAward s) = None
    \<and> i = Keeper.ContributionAwardSeq s
    \<and> mintProtocolReward env (MsgAwardContribution.Recipient msg) rb
               (MsgAwardContribution.Amount msg) ''contribution_award'' (awardBooked msg s) = (Inr (), s3)
    \<and> s' = emit n ats s3"
  using assms
  by (auto simp: AwardContribution_def Let_def awardBooked_def split: option.splits if_splits sum.splits prod.splits)

lemma AwardContribution_ledger:
  assumes run: "AwardContribution env msg s = (Inr i, s')" and inv: "ledger_inv s"
  shows "\<exists>s3 n ats. s' = emit n ats s3 \<and> core_inv s3 \<and> emission_inv s3 \<and> same_tables (awardBooked msg s) s3
    \<and> total_supply s3 = total_supply s + unat (MsgAwardContribution.Amount msg)
    \<and> minedTotal s3 = minedTotal s + unat (MsgAwardContribution.Amount msg)
    \<and> unat (MsgAwardContribution.Amount msg) + mintable s3 \<le> mintable s
    \<and> (\<forall>c. balance s3 c = (if c = MsgAwardContribution.Recipient msg
              then balance s c + unat (MsgAwardContribution.Amount msg) else balance s c))"
proof -
  obtain rb s3 n ats where mint: "mintProtocolReward env (MsgAwardContribution.Recipient msg) rb
        (MsgAwardContribution.Amount msg) ''contribution_award'' (awardBooked msg s) = (Inr (), s3)"
    and s': "s' = emit n ats s3"
    using AwardContribution_success [OF run] by blast
  have pre: "core_inv (awardBooked msg s)" "emission_inv (awardBooked msg s)"
      "total_supply (awardBooked msg s) + mintable (awardBooked msg s) < 2 ^ 64"
    using inv by (simp_all add: ledger_inv_def)
  note ok = mintProtocolReward_ok [OF mint pre]
  show ?thesis
    using s' ok mintProtocolReward_frame [OF mint] by (intro exI [of _ s3] exI [of _ n] exI [of _ ats]) simp
qed

lemma awardBooked_tables [simp]:
  "Keeper.Escrow (awardBooked msg s) = Keeper.Escrow s" "Keeper.Bond (awardBooked msg s) = Keeper.Bond s"
  "Keeper.Dispute (awardBooked msg s) = Keeper.Dispute s" "Keeper.Gate (awardBooked msg s) = Keeper.Gate s"
  "Keeper.VouchSeq (awardBooked msg s) = Keeper.VouchSeq s" "Keeper.EscrowSeq (awardBooked msg s) = Keeper.EscrowSeq s"
  "Keeper.DisputeSeq (awardBooked msg s) = Keeper.DisputeSeq s" "Keeper.BondSeq (awardBooked msg s) = Keeper.BondSeq s"
  "Keeper.GateSeq (awardBooked msg s) = Keeper.GateSeq s"
  by (simp_all add: awardBooked_def setAward_def)

interpretation award_contribution: conserving_handler AwardContribution
proof unfold_locales
  fix env m s r s'
  assume run: "AwardContribution env m s = (Inr r, s')" and inv: "ledger_inv s"
  obtain s3 n ats where s': "s' = emit n ats s3" and tabs: "same_tables (awardBooked m s) s3"
    and ok: "core_inv s3" "emission_inv s3"
      "total_supply s3 = total_supply s + unat (MsgAwardContribution.Amount m)"
      "minedTotal s3 = minedTotal s + unat (MsgAwardContribution.Amount m)"
      "unat (MsgAwardContribution.Amount m) + mintable s3 \<le> mintable s"
    using AwardContribution_ledger [OF run inv] by blast
  have em: "Keeper.EmissionState s' = Keeper.EmissionState s3" by (simp add: s')
  show "core_inv s'" using ok by (simp add: s')
  show "emission_inv s'" "total_supply s' + minedTotal s \<le> total_supply s + minedTotal s'"
    "minedTotal s \<le> minedTotal s' \<and> minedTotal s' + mintable s' \<le> minedTotal s + mintable s"
    "total_supply s + minedTotal s' \<le> total_supply s' + minedTotal s"
    using emission_unchanged [OF em] ok by (simp_all add: s')
  show "lifecycle s s'" using tabs by (simp add: s') (simp add: same_tables_def lifecycle_same)
  show "seqs_step s s'" using tabs by (simp add: s' seqs_step_def same_tables_def)
qed

lemma CastScopedEvidenceVouch_success:
  assumes "CastScopedEvidenceVouch F env msg s = (Inr i, s')"
  shows "\<exists>params n ats. Keeper.Params s = Some params
    \<and> issuerDenied env F (resolveAnchors env (Params.Anchors params)) (MsgCastScopedEvidenceVouch.Creator msg) s = None
    \<and> evidenceDenied msg = None \<and> kv_find (sameEvidence env msg) (Keeper.ScopedEvidenceVouch s) = None
    \<and> i = Keeper.ScopedEvidenceVouchSeq s
    \<and> s' = emit n ats (setEvidence i (evidenceRecord i msg)
              (s\<lparr>Keeper.ScopedEvidenceVouchSeq := Keeper.ScopedEvidenceVouchSeq s + 1\<rparr>))"
  using assms
  by (auto simp: CastScopedEvidenceVouch_def Let_def split: option.splits if_splits)

interpretation cast_scoped_evidence_vouch: moving_handler "CastScopedEvidenceVouch F" for F :: "'f floats"
proof unfold_locales
  fix env m s r s'
  assume run: "CastScopedEvidenceVouch F env m s = (Inr r, s')" and inv: "core_inv s"
  obtain n ats where s': "s' = emit n ats (setEvidence r (evidenceRecord r m)
              (s\<lparr>Keeper.ScopedEvidenceVouchSeq := Keeper.ScopedEvidenceVouchSeq s + 1\<rparr>))"
    using CastScopedEvidenceVouch_success [OF run] by blast
  show "core_inv s' \<and> total_supply s' = total_supply s \<and> Keeper.EmissionState s' = Keeper.EmissionState s"
    using inv by (simp add: s')
  show "lifecycle s s' \<and> seqs_step s s'"
    by (simp add: s') (simp add: setEvidence_def lifecycle_same seqs_step_def)
qed

lemma UpdateParams_success:
  "UpdateParams env msg s = (Inr r, s') \<longleftrightarrow> StringToBytes env (MsgUpdateParams.Authority msg) = Some (Env.Authority env)
     \<and> validateParams (NewParamValues msg) = None \<and> s' = s\<lparr>Keeper.Params := Some (NewParamValues msg)\<rparr>"
  by (auto simp: UpdateParams_def split: option.splits if_splits)

interpretation update_params: moving_handler UpdateParams
proof unfold_locales
  fix env m s r s'
  assume run: "UpdateParams env m s = (Inr r, s')" and inv: "core_inv s"
  then have s': "s' = s\<lparr>Keeper.Params := Some (NewParamValues m)\<rparr>" by (simp add: UpdateParams_success)
  show "core_inv s' \<and> total_supply s' = total_supply s \<and> Keeper.EmissionState s' = Keeper.EmissionState s"
    using inv by (simp add: s')
  show "lifecycle s s' \<and> seqs_step s s'" by (simp add: s' lifecycle_same seqs_step_def)
qed


section \<open>Trimming twice\<close>

lemma trim_left_stops: "[] \<notin> set ps \<Longrightarrow> trim_left ps s = [] \<or> space_prefix ps (trim_left ps s) = None"
proof (induction ps s rule: trim_left.induct)
  case (1 ps s)
  show ?case
  proof (cases "space_prefix ps s")
    case (Some p)
    then have "p \<in> set ps" by (auto simp: space_prefix_def find_Some_iff)
    with 1 Some show ?thesis by (subst (1 2) trim_left.simps) auto
  qed (simp add: trim_left.simps [of ps s])
qed

lemma trim_left_suffix: "\<exists>p. s = p @ trim_left ps s"
proof (induction ps s rule: trim_left.induct)
  case (1 ps s)
  show ?case
  proof (cases "space_prefix ps s")
    case (Some p)
    then have "take (length p) s = p"
      by (auto simp: space_prefix_def find_Some_iff strip_prefix_def split: if_splits)
    then have s: "s = p @ drop (length p) s" by (metis append_take_drop_id)
    show ?thesis
    proof (cases "p = [] \<or> s = []")
      case True
      with Some show ?thesis by (auto simp: trim_left.simps [of ps s])
    next
      case False
      then obtain q where "drop (length p) s = q @ trim_left ps (drop (length p) s)" using 1 Some by auto
      with s have "s = (p @ q) @ trim_left ps (drop (length p) s)" by simp
      moreover have "trim_left ps s = trim_left ps (drop (length p) s)"
        using Some False by (simp add: trim_left.simps [of ps s])
      ultimately show ?thesis by metis
    qed
  qed (simp add: trim_left.simps [of ps s])
qed

lemma space_prefix_prefix:
  assumes "space_prefix ps (u @ v) = None"
  shows "space_prefix ps u = None"
proof -
  have "strip_prefix p u = None" if "p \<in> set ps" for p
  proof -
    have "strip_prefix p (u @ v) = None" using assms that by (auto simp: space_prefix_def find_None_iff)
    then show ?thesis
      by (cases "length p \<le> length u") (auto simp: strip_prefix_def split: if_splits)
  qed
  then show ?thesis by (auto simp: space_prefix_def find_None_iff)
qed

lemma trim_left_done: "s = [] \<or> space_prefix ps s = None \<Longrightarrow> trim_left ps s = s"
  by (auto simp: trim_left.simps [of ps s] split: option.splits)

lemma TrimSpace_idem [simp]: "TrimSpace (TrimSpace s) = TrimSpace s"
proof -
  let ?t = "trim_left utf8_spaces s" and ?r = "trim_left (map rev utf8_spaces) (rev (trim_left utf8_spaces s))"
  have ne: "[] \<notin> set utf8_spaces" "[] \<notin> set (map rev utf8_spaces)" by (auto simp: utf8_spaces_def)
  obtain p where "rev ?t = p @ ?r" using trim_left_suffix by blast
  then have t: "?t = rev ?r @ rev p" by (metis rev_append rev_rev_ident)
  have "rev ?r = [] \<or> space_prefix utf8_spaces (rev ?r) = None"
    using trim_left_stops [OF ne(1), of s] t space_prefix_prefix [of utf8_spaces "rev ?r" "rev p"] by auto
  then have left: "trim_left utf8_spaces (rev ?r) = rev ?r" by (rule trim_left_done)
  have "trim_left (map rev utf8_spaces) ?r = ?r"
    by (rule trim_left_done) (rule trim_left_stops [OF ne(2)])
  then show ?thesis by (simp add: TrimSpace_def left)
qed

text \<open>Visible ASCII characters are never trimmed.\<close>

definition graphic :: "char \<Rightarrow> bool" where
  "graphic c \<longleftrightarrow> 33 \<le> (of_char c :: nat) \<and> of_char c \<le> (126 :: nat)"

lemma TrimSpace_graphic:
  assumes "list_all graphic s"
  shows "TrimSpace s = s"
proof -
  have none: "space_prefix ps s = None" if "\<forall>p \<in> set ps. p \<noteq> [] \<and> \<not> graphic (hd p)" "list_all graphic s" for ps s
  proof -
    have "strip_prefix p s = None" if "p \<noteq> []" "\<not> graphic (hd p)" for p
      using that \<open>list_all graphic s\<close> by (cases p; cases s) (auto simp: strip_prefix_def)
    with that show ?thesis by (auto simp: space_prefix_def find_None_iff)
  qed
  have "\<forall>p \<in> set utf8_spaces. p \<noteq> [] \<and> \<not> graphic (hd p)" "\<forall>p \<in> set (map rev utf8_spaces). p \<noteq> [] \<and> \<not> graphic (hd p)"
    by code_simp+
  then have "trim_left utf8_spaces s = s" "trim_left (map rev utf8_spaces) (rev s) = rev s"
    using assms by (intro trim_left_done disjI2 none; simp add: list_all_rev)+
  then show ?thesis by (simp add: TrimSpace_def)
qed

section \<open>The table of awards\<close>

definition awards_inv :: "Keeper \<Rightarrow> bool" where
  "awards_inv s \<longleftrightarrow> ids_in_order ContributionAward.Id (Keeper.ContributionAward s) (Keeper.ContributionAwardSeq s)
   \<and> (\<forall>i a. kv_get (Keeper.ContributionAward s) i = Some a \<longrightarrow> isHexSHA256 (ContributionAward.ArtifactSha256 a))
   \<and> (\<forall>i j a b. kv_get (Keeper.ContributionAward s) i = Some a \<longrightarrow> kv_get (Keeper.ContributionAward s) j = Some b \<longrightarrow>
        map to_lower (ContributionAward.ArtifactSha256 a) = map to_lower (ContributionAward.ArtifactSha256 b) \<longrightarrow> i = j)"

lemma awardDenied_None:
  "awardDenied anchors msg = None \<Longrightarrow>
     MsgAwardContribution.Creator msg \<in> set anchors \<and> 0 < MsgAwardContribution.Amount msg
   \<and> MsgAwardContribution.Amount msg \<le> MaxContributionAward
   \<and> MsgAwardContribution.Recipient msg = MsgAwardContribution.Contributor msg
   \<and> (MsgAwardContribution.FounderAuthored msg \<longleftrightarrow> MsgAwardContribution.Recipient msg = MsgAwardContribution.Creator msg)
   \<and> isHexSHA256 (MsgAwardContribution.ArtifactSha256 msg) \<and> isHexSHA256 (MsgAwardContribution.EvidenceSha256 msg)"
  by (auto simp: awardDenied_def word_gt_0 not_less split: if_splits)

lemma EqualFold_hex:
  "isHexSHA256 a \<Longrightarrow> isHexSHA256 b \<Longrightarrow> EqualFold uni a b \<longleftrightarrow> map to_lower a = map to_lower b"
  by (intro EqualFold_ascii isHexSHA256_ascii)

lemma AwardContribution_table:
  assumes run: "AwardContribution env msg s = (Inr i, s')"
  shows "i = Keeper.ContributionAwardSeq s" "Keeper.ContributionAwardSeq s' = Keeper.ContributionAwardSeq s + 1"
    "Keeper.ContributionAward s' = kv_set (Keeper.ContributionAward s) i (awardRecord i msg)"
    "isHexSHA256 (MsgAwardContribution.ArtifactSha256 msg)"
    "\<And>j a. awards_inv s \<Longrightarrow> kv_get (Keeper.ContributionAward s) j = Some a \<Longrightarrow>
        map to_lower (ContributionAward.ArtifactSha256 a) \<noteq> map to_lower (MsgAwardContribution.ArtifactSha256 msg)"
proof -
  obtain params rb s3 n ats where "Keeper.Params s = Some params"
    and ok: "awardDenied (resolveAnchors env (Params.Anchors params)) msg = None"
      "kv_find (\<lambda>a. EqualFold (FoldUnicode env) (ContributionAward.ArtifactSha256 a)
                        (MsgAwardContribution.ArtifactSha256 msg)) (Keeper.ContributionAward s) = None"
    and i: "i = Keeper.ContributionAwardSeq s"
    and mint: "mintProtocolReward env (MsgAwardContribution.Recipient msg) rb
               (MsgAwardContribution.Amount msg) ''contribution_award'' (awardBooked msg s) = (Inr (), s3)"
    and s': "s' = emit n ats s3"
    using AwardContribution_success [OF run] by blast
  note tabs = mintProtocolReward_frame [OF mint]
  show "i = Keeper.ContributionAwardSeq s" by (rule i)
  show "Keeper.ContributionAwardSeq s' = Keeper.ContributionAwardSeq s + 1"
    "Keeper.ContributionAward s' = kv_set (Keeper.ContributionAward s) i (awardRecord i msg)"
    using tabs by (simp_all add: s' same_tables_def i awardBooked_def)
  show hex: "isHexSHA256 (MsgAwardContribution.ArtifactSha256 msg)" using awardDenied_None [OF ok(1)] by simp
  show "map to_lower (ContributionAward.ArtifactSha256 a) \<noteq> map to_lower (MsgAwardContribution.ArtifactSha256 msg)"
    if "awards_inv s" "kv_get (Keeper.ContributionAward s) j = Some a" for j a
  proof -
    have "isHexSHA256 (ContributionAward.ArtifactSha256 a)"
      using that by (simp add: awards_inv_def)
    moreover have "\<not> EqualFold (FoldUnicode env) (ContributionAward.ArtifactSha256 a) (MsgAwardContribution.ArtifactSha256 msg)"
      using ok(2) that(2) unfolding kv_find_None_iff by blast
    ultimately show ?thesis using hex by (simp add: EqualFold_hex)
  qed
qed

lemma AwardContribution_inv:
  assumes run: "AwardContribution env msg s = (Inr i, s')" and inv: "awards_inv s"
    and seq: "Keeper.ContributionAwardSeq s \<noteq> - 1"
  shows "awards_inv s'"
proof -
  note tab = AwardContribution_table [OF run]
  have "ids_in_order ContributionAward.Id (Keeper.ContributionAward s') (Keeper.ContributionAwardSeq s')"
    using inv seq unfolding tab(1-3) awards_inv_def
    by (intro ids_in_order_put ids_in_order_Suc) (simp_all add: awardRecord_def u64_less_self_Suc)
  moreover have "ContributionAward.ArtifactSha256 (awardRecord i msg) = MsgAwardContribution.ArtifactSha256 msg"
    by (simp add: awardRecord_def)
  ultimately show ?thesis
    using inv tab(4) tab(5) [OF inv] unfolding awards_inv_def tab(3) by (auto split: if_splits dest: sym)
qed

lemma awarded_denied:
  assumes "kv_get (Keeper.ContributionAward s) j = Some a" and "isHexSHA256 (ContributionAward.ArtifactSha256 a)"
    and "map to_lower (MsgAwardContribution.ArtifactSha256 msg) = map to_lower (ContributionAward.ArtifactSha256 a)"
  shows "\<exists>err s'. AwardContribution env msg s = (Inl err, s')"
proof (cases "AwardContribution env msg s")
  case (Pair r s')
  show ?thesis
  proof (cases r)
    case (Inr i)
    with Pair have run: "AwardContribution env msg s = (Inr i, s')" by simp
    obtain params where "Keeper.Params s = Some params" "awardDenied (resolveAnchors env (Params.Anchors params)) msg = None"
        and none: "kv_find (\<lambda>a. EqualFold (FoldUnicode env) (ContributionAward.ArtifactSha256 a)
                        (MsgAwardContribution.ArtifactSha256 msg)) (Keeper.ContributionAward s) = None"
      using AwardContribution_success [OF run] by blast
    then have "EqualFold (FoldUnicode env) (ContributionAward.ArtifactSha256 a) (MsgAwardContribution.ArtifactSha256 msg)"
      using assms(2,3) awardDenied_None by (simp add: EqualFold_hex)
    then show ?thesis using none assms(1) unfolding kv_find_None_iff by blast
  qed (use Pair in auto)
qed


section \<open>Properties\<close>

text \<open>The checks an award has passed, each one.\<close>

lemma awardDenied_checks:
  "awardDenied anchors msg = None \<Longrightarrow>
     (MsgAwardContribution.FounderAuthored msg \<longrightarrow> TrimSpace (MsgAwardContribution.ReviewEvidenceUri msg) \<noteq> [])
   \<and> TrimSpace (MsgAwardContribution.RepoUrl msg) \<noteq> [] \<and> TrimSpace (MsgAwardContribution.CommitSha msg) \<noteq> []
   \<and> TrimSpace (MsgAwardContribution.ArtifactUri msg) \<noteq> [] \<and> TrimSpace (MsgAwardContribution.Scope msg) \<noteq> []
   \<and> (MsgAwardContribution.RationaleHash msg = [] \<or> isHexSHA256 (MsgAwardContribution.RationaleHash msg))"
  by (auto simp: awardDenied_def split: if_splits)

lemma AwardContribution_codec:
  "AwardContribution env msg s = (Inr i, s') \<Longrightarrow>
     StringToBytes env (MsgAwardContribution.Creator msg) \<noteq> None
   \<and> StringToBytes env (MsgAwardContribution.Recipient msg) \<noteq> None"
  by (auto simp: AwardContribution_def split: option.splits)

text \<open>
  C34: What an award checks, stores and mints. A successful award is given by an anchor, for 1 to 500 coins,
  to the contributor it names, and to the anchor itself exactly when it says so, and then with the
  address of a review; repository, commit, address of the artifact and scope are not blank; the hashes of the artifact and of the
  evidence are well-formed, that of the rationale too unless it is absent; no award was given
  before for the same artifact, in any spelling of its hash. One record is stored under the next
  number, with every field as the message has it, and the other awards stay. Exactly the amount is minted, to
  the recipient and to nobody else, and counted as mined.
\<close>
theorem award_mints_to_contributor:
  assumes "AwardContribution env msg s = (Inr i, s')" and "ledger_inv s"
  shows "MsgAwardContribution.Creator msg \<in> set (anchorsOf env s)
    \<and> StringToBytes env (MsgAwardContribution.Creator msg) \<noteq> None
    \<and> StringToBytes env (MsgAwardContribution.Recipient msg) \<noteq> None
    \<and> 0 < MsgAwardContribution.Amount msg \<and> MsgAwardContribution.Amount msg \<le> 500
    \<and> MsgAwardContribution.Recipient msg = MsgAwardContribution.Contributor msg
    \<and> (MsgAwardContribution.FounderAuthored msg \<longleftrightarrow> MsgAwardContribution.Recipient msg = MsgAwardContribution.Creator msg)
    \<and> (MsgAwardContribution.FounderAuthored msg \<longrightarrow> TrimSpace (MsgAwardContribution.ReviewEvidenceUri msg) \<noteq> [])
    \<and> TrimSpace (MsgAwardContribution.RepoUrl msg) \<noteq> [] \<and> TrimSpace (MsgAwardContribution.CommitSha msg) \<noteq> []
    \<and> TrimSpace (MsgAwardContribution.ArtifactUri msg) \<noteq> [] \<and> TrimSpace (MsgAwardContribution.Scope msg) \<noteq> []
    \<and> isHexSHA256 (MsgAwardContribution.ArtifactSha256 msg) \<and> isHexSHA256 (MsgAwardContribution.EvidenceSha256 msg)
    \<and> (MsgAwardContribution.RationaleHash msg = [] \<or> isHexSHA256 (MsgAwardContribution.RationaleHash msg))
    \<and> (\<forall>j a. kv_get (Keeper.ContributionAward s) j = Some a \<longrightarrow>
         \<not> EqualFold (FoldUnicode env) (ContributionAward.ArtifactSha256 a) (MsgAwardContribution.ArtifactSha256 msg))
    \<and> i = Keeper.ContributionAwardSeq s \<and> Keeper.ContributionAwardSeq s' = Keeper.ContributionAwardSeq s + 1
    \<and> Keeper.ContributionAward s' = kv_set (Keeper.ContributionAward s) i
         \<lparr>ContributionAward.Id = i, ContributionAward.Anchor = MsgAwardContribution.Creator msg,
          ContributionAward.Recipient = MsgAwardContribution.Recipient msg,
          ContributionAward.RepoUrl = MsgAwardContribution.RepoUrl msg,
          ContributionAward.PrUrl = MsgAwardContribution.PrUrl msg,
          ContributionAward.CommitSha = MsgAwardContribution.CommitSha msg,
          ContributionAward.ArtifactUri = MsgAwardContribution.ArtifactUri msg,
          ContributionAward.ArtifactSha256 = MsgAwardContribution.ArtifactSha256 msg,
          ContributionAward.EvidenceSha256 = MsgAwardContribution.EvidenceSha256 msg,
          ContributionAward.Scope = MsgAwardContribution.Scope msg,
          ContributionAward.RationaleHash = MsgAwardContribution.RationaleHash msg,
          ContributionAward.Amount = MsgAwardContribution.Amount msg,
          ContributionAward.Contributor = MsgAwardContribution.Contributor msg,
          ContributionAward.FounderAuthored = MsgAwardContribution.FounderAuthored msg,
          ContributionAward.ReviewEvidenceUri = MsgAwardContribution.ReviewEvidenceUri msg\<rparr>
    \<and> total_supply s' = total_supply s + unat (MsgAwardContribution.Amount msg)
    \<and> minedTotal s' = minedTotal s + unat (MsgAwardContribution.Amount msg)
    \<and> (\<forall>c. balance s' c = (if c = MsgAwardContribution.Recipient msg
         then balance s c + unat (MsgAwardContribution.Amount msg) else balance s c))"
proof -
  obtain params where params: "Keeper.Params s = Some params"
    and ok: "awardDenied (resolveAnchors env (Params.Anchors params)) msg = None"
    and first: "kv_find (\<lambda>a. EqualFold (FoldUnicode env) (ContributionAward.ArtifactSha256 a)
                        (MsgAwardContribution.ArtifactSha256 msg)) (Keeper.ContributionAward s) = None"
    using AwardContribution_success [OF assms(1)] by blast
  obtain s3 n ats where s': "s' = emit n ats s3"
    and money: "total_supply s3 = total_supply s + unat (MsgAwardContribution.Amount msg)"
      "minedTotal s3 = minedTotal s + unat (MsgAwardContribution.Amount msg)"
      "\<forall>c. balance s3 c = (if c = MsgAwardContribution.Recipient msg
              then balance s c + unat (MsgAwardContribution.Amount msg) else balance s c)"
    using AwardContribution_ledger [OF assms] by blast
  have mined: "minedTotal s' = minedTotal s3" by (simp add: s' minedTotal_def)
  show ?thesis
    using awardDenied_None [OF ok] awardDenied_checks [OF ok] AwardContribution_codec [OF assms(1)] first money
      AwardContribution_table(1-3) [OF assms(1)]
    unfolding kv_find_None_iff awardRecord_def
    by (simp add: anchorsOf_def params MaxContributionAward_def mined) (simp add: s')
qed

definition patchAward :: MsgAwardContribution where
  "patchAward =
    \<lparr>MsgAwardContribution.Creator = ''dave'', Recipient = ''alice'', RepoUrl = ''repo'', PrUrl = ''pr'',
     CommitSha = ''c0ffee'', ArtifactUri = ''artifact'', ArtifactSha256 = replicate 64 (CHR ''a''),
     EvidenceSha256 = replicate 64 (CHR ''b''), Scope = ''docs'', RationaleHash = [], Amount = 100,
     Contributor = ''alice'', FounderAuthored = False, ReviewEvidenceUri = []\<rparr>"

lemma TrimSpace_words:
  "TrimSpace ''repo'' = ''repo''" "TrimSpace ''c0ffee'' = ''c0ffee''" "TrimSpace ''artifact'' = ''artifact''"
  "TrimSpace ''docs'' = ''docs''" "TrimSpace ''evidence'' = ''evidence''"
  by (rule TrimSpace_graphic; code_simp)+

lemma TrimSpace_blank: "TrimSpace '' docs'' = ''docs''"
proof -
  have "space_prefix utf8_spaces '' docs'' = Some '' ''" by code_simp
  then have "trim_left utf8_spaces '' docs'' = trim_left utf8_spaces ''docs''"
    by (simp add: trim_left.simps [of utf8_spaces "'' docs''"])
  then show ?thesis using TrimSpace_words(4) by (simp add: TrimSpace_def)
qed

lemma patchAward_hex: "isHexSHA256 (replicate 64 (CHR ''a''))" "isHexSHA256 (replicate 64 (CHR ''b''))"
  by code_simp+

lemma patchAward_allowed: "awardDenied [''dave'', ''erin'', ''frank''] patchAward = None"
  by (simp add: awardDenied_def patchAward_def TrimSpace_words patchAward_hex MaxContributionAward_def)

lemma sampleSchedule_more [simp]:
  "Keeper.Params sampleSchedule = Keeper.Params sampleState"
  "Keeper.ContributionAward sampleSchedule = kv_empty" "Keeper.ContributionAwardSeq sampleSchedule = 0"
  "Keeper.ScopedEvidenceVouch sampleSchedule = kv_empty" "Keeper.ScopedEvidenceVouchSeq sampleSchedule = 0"
  "Keeper.Vouch sampleSchedule = kv_empty" "Keeper.Escrow sampleSchedule = kv_empty" "Keeper.Dispute sampleSchedule = kv_empty"
  by (simp_all add: sampleSchedule_def sampleState_def NewKeeper_def)

lemma sampleSchedule_ledger [simp]: "ledger_inv sampleSchedule"
proof -
  have "core_inv sampleSchedule" "total_supply sampleSchedule = 6000" by (simp_all add: sampleSchedule_def)
  moreover have "mintable sampleSchedule \<le> 21000000"
    by (simp add: mintable_def unat_RemainingScheduled)
      (simp add: DefaultEmissionState_def Constants.MaxSupply_def)
  ultimately show ?thesis by (simp add: ledger_inv_def)
qed

lemma kv_find_empty [simp]: "kv_find P kv_empty = None"
  by (simp add: kv_find_None_iff)

lemma resolveAnchors_params [simp]: "ps \<noteq> [] \<Longrightarrow> resolveAnchors env ps = ps"
  by (simp add: resolveAnchors_def)

lemma patchAward_runs: "\<exists>s'. AwardContribution (sampleEnv 2000) patchAward sampleSchedule = (Inr 0, s')"
proof -
  let ?b = "awardBooked patchAward sampleSchedule"
  have em: "epochBudget (sampleEnv 2000) ?b = 21000" "clock_ok (sampleEnv 2000) ?b" "emission_inv ?b"
    using epochBudget_cong [of ?b sampleSchedule "sampleEnv 2000"] sampleSchedule_clock
    by (simp_all add: clock_ok_def epochLen_def)
  obtain s3 where "mintProtocolReward (sampleEnv 2000) ''alice'' ''alice'' 100 ''contribution_award'' ?b = (Inr (), s3)"
    using mint_exactly(1) [OF _ _ em(3,2), of "''alice''" 100 "''alice''" "''contribution_award''"] em(1) by auto
  then show ?thesis
    using patchAward_allowed
    by (auto simp: AwardContribution_def patchAward_def checkNewAccountCredit_def Let_def awardBooked_def)
qed

lemma award_mints_to_contributor_witness:
  "\<exists>s'. AwardContribution (sampleEnv 2000) patchAward sampleSchedule = (Inr 0, s') \<and> total_supply s' = 6100"
proof -
  obtain s' where run: "AwardContribution (sampleEnv 2000) patchAward sampleSchedule = (Inr 0, s')"
    using patchAward_runs by blast
  have "total_supply sampleSchedule = 6000" by (simp add: sampleSchedule_def)
  with award_mints_to_contributor [OF run] run show ?thesis by (simp add: patchAward_def)
qed

text \<open>
  An artifact is awarded once. While the sequence of awards is not exhausted, a successful
  award keeps the table of awards in order, with pairwise different artifacts, and every
  later message for the same hash is refused, whoever sends it and however it spells the
  hexadecimal digits.
\<close>
lemma artifact_awarded_once:
  assumes "AwardContribution env msg s = (Inr i, s')" and "awards_inv s"
    and "Keeper.ContributionAwardSeq s \<noteq> - 1"
    and "map to_lower (MsgAwardContribution.ArtifactSha256 msg') = map to_lower (MsgAwardContribution.ArtifactSha256 msg)"
  shows "awards_inv s' \<and> (\<exists>err s''. AwardContribution env' msg' s' = (Inl err, s''))"
proof
  show "awards_inv s'" using assms(1-3) by (rule AwardContribution_inv)
  note tab = AwardContribution_table [OF assms(1)]
  have rec: "kv_get (Keeper.ContributionAward s') i = Some (awardRecord i msg)" by (simp add: tab(3))
  show "\<exists>err s''. AwardContribution env' msg' s' = (Inl err, s'')"
    using tab(4) assms(4) by (intro awarded_denied [OF rec]) simp_all
qed

lemma artifact_awarded_once_witness:
  "\<exists>s' err s''. AwardContribution (sampleEnv 2000) patchAward sampleSchedule = (Inr 0, s')
     \<and> AwardContribution (sampleEnv 2000) (patchAward\<lparr>MsgAwardContribution.ArtifactSha256 := replicate 64 (CHR ''A'')\<rparr>) s' = (Inl err, s'')"
proof -
  obtain s' where run: "AwardContribution (sampleEnv 2000) patchAward sampleSchedule = (Inr 0, s')"
    using patchAward_runs by blast
  have "to_lower (CHR ''A'') = to_lower (CHR ''a'')" by code_simp
  then have "map to_lower (MsgAwardContribution.ArtifactSha256 (patchAward\<lparr>MsgAwardContribution.ArtifactSha256 := replicate 64 (CHR ''A'')\<rparr>))
      = map to_lower (MsgAwardContribution.ArtifactSha256 patchAward)"
    unfolding patchAward_def by (simp only: MsgAwardContribution.simps map_replicate)
  with artifact_awarded_once [OF run] run show ?thesis by (auto simp: awards_inv_def)
qed

text \<open>
  C36: Evidence cannot be recorded from outside. Whoever no chain of vouches, paid jobs and jury
  verdicts connects to an anchor has reputation 0 and is refused, with the state unchanged,
  on the rounding arithmetic of the machine.
\<close>
theorem outsider_evidence_refused:
  assumes "\<And>ks. mset (RangeKeys env ks) = mset ks"
    and "a0 \<in> set (anchorsOf env s)" and "a0 \<noteq> []"
    and "\<And>a. a \<in> set (anchorsOf env s) \<Longrightarrow> (a, MsgCastScopedEvidenceVouch.Creator msg) \<notin> (trustGraph s)\<^sup>*"
  shows "\<exists>err. CastScopedEvidenceVouch (ieee fused) env msg s = (Inl err, s)"
proof -
  let ?x = "MsgCastScopedEvidenceVouch.Creator msg"
  obtain params where p: "Keeper.Params s = Some params" and anchors: "anchorsOf env s = resolveAnchors env (Params.Anchors params)"
    using assms(2) by (cases "Keeper.Params s") (auto simp: anchorsOf_def)
  have score: "reputationScore env (ieee fused) s ?x = Inr 0"
    using assms by (rule outsider_score_zero)
  have "?x \<notin> set (anchorsOf env s)" using assms(4) by blast
  moreover have "round64 (1 / 100) > 0" by code_simp
  then have "Less (ieee fused) 0 (Const (ieee fused) MinScopedEvidenceReputation)"
    by (simp add: ieee_def MinScopedEvidenceReputation_def)
  ultimately have "\<exists>err. issuerDenied env (ieee fused) (resolveAnchors env (Params.Anchors params)) ?x s = Some err"
    using score by (simp add: issuerDenied_def anchors)
  then show ?thesis
    by (auto simp: CastScopedEvidenceVouch_def p split: option.splits)
qed

definition docsEvidence :: MsgCastScopedEvidenceVouch where
  "docsEvidence =
    \<lparr>MsgCastScopedEvidenceVouch.Creator = ''alice'', Recipient = ''bob'', Scope = ''docs'', Weight = 25,
     ArtifactUri = ''artifact'', ArtifactSha256 = replicate 64 (CHR ''a''), EvidenceUri = ''evidence'',
     EvidenceSha256 = replicate 64 (CHR ''b''), RationaleHash = [], ExpiresAt = 0\<rparr>"

lemma outsider_evidence_refused_witness:
  "\<exists>err. CastScopedEvidenceVouch (ieee True) (sampleEnv 2000) docsEvidence sampleSchedule = (Inl err, sampleSchedule)"
proof (rule outsider_evidence_refused [where ?a0.0 = "''dave''"])
  have "trustGraph sampleSchedule = {}"
    by (simp add: trustGraph_def trustEdges_def jobsOf_def releasedJobs_def kv_values_def kv_empty.rep_eq)
  then show "(a, MsgCastScopedEvidenceVouch.Creator docsEvidence) \<notin> (trustGraph sampleSchedule)\<^sup>*"
    if "a \<in> set (anchorsOf (sampleEnv 2000) sampleSchedule)" for a
    using that by (auto simp: anchorsOf_def docsEvidence_def)
qed (simp_all add: anchorsOf_def)

text \<open>
  The same evidence is recorded once. A recorded vouch is stored with its scope trimmed, its
  weight within 1 to 100, and the same issuer repeating it for the same recipient is refused,
  even with blanks around the scope.
\<close>
lemma evidence_recorded_once:
  assumes "CastScopedEvidenceVouch F env msg s = (Inr i, s')"
    and "TrimSpace sc = TrimSpace (MsgCastScopedEvidenceVouch.Scope msg)"
  shows "kv_get (Keeper.ScopedEvidenceVouch s') i = Some (evidenceRecord i msg)
    \<and> 0 < MsgCastScopedEvidenceVouch.Weight msg \<and> MsgCastScopedEvidenceVouch.Weight msg \<le> 100
    \<and> (\<exists>err. CastScopedEvidenceVouch F env (msg\<lparr>MsgCastScopedEvidenceVouch.Scope := sc\<rparr>) s' = (Inl err, s'))"
proof -
  obtain n ats where "evidenceDenied msg = None" and s': "s' = emit n ats (setEvidence i (evidenceRecord i msg)
              (s\<lparr>Keeper.ScopedEvidenceVouchSeq := Keeper.ScopedEvidenceVouchSeq s + 1\<rparr>))"
    using CastScopedEvidenceVouch_success [OF assms(1)] by blast
  then have msg: "0 < MsgCastScopedEvidenceVouch.Weight msg" "MsgCastScopedEvidenceVouch.Weight msg \<le> 100"
      "isHexSHA256 (MsgCastScopedEvidenceVouch.ArtifactSha256 msg)" "isHexSHA256 (MsgCastScopedEvidenceVouch.EvidenceSha256 msg)"
    by (auto simp: evidenceDenied_def MaxVouchWeight_def Let_def word_gt_0 not_less split: if_splits)
  have rec: "kv_get (Keeper.ScopedEvidenceVouch s') i = Some (evidenceRecord i msg)" by (simp add: s')
  have same: "sameEvidence env (msg\<lparr>MsgCastScopedEvidenceVouch.Scope := sc\<rparr>) (evidenceRecord i msg)"
    using msg assms(2) by (simp add: sameEvidence_def evidenceRecord_def)
  obtain p where "kv_find (sameEvidence env (msg\<lparr>MsgCastScopedEvidenceVouch.Scope := sc\<rparr>)) (Keeper.ScopedEvidenceVouch s') = Some p"
    using rec same kv_find_None_iff [of "sameEvidence env (msg\<lparr>MsgCastScopedEvidenceVouch.Scope := sc\<rparr>)" "Keeper.ScopedEvidenceVouch s'"]
    by (cases "kv_find (sameEvidence env (msg\<lparr>MsgCastScopedEvidenceVouch.Scope := sc\<rparr>)) (Keeper.ScopedEvidenceVouch s')") auto
  then have "\<exists>err. CastScopedEvidenceVouch F env (msg\<lparr>MsgCastScopedEvidenceVouch.Scope := sc\<rparr>) s' = (Inl err, s')"
    by (auto simp: CastScopedEvidenceVouch_def split: option.splits)
  with rec msg show ?thesis by simp
qed

lemma evidence_recorded_once_witness:
  "\<exists>s' err. CastScopedEvidenceVouch exact (sampleEnv 2000) (docsEvidence\<lparr>MsgCastScopedEvidenceVouch.Creator := ''dave''\<rparr>) sampleSchedule = (Inr 0, s')
     \<and> CastScopedEvidenceVouch exact (sampleEnv 2000) (docsEvidence\<lparr>MsgCastScopedEvidenceVouch.Creator := ''dave'', MsgCastScopedEvidenceVouch.Scope := '' docs''\<rparr>) s' = (Inl err, s')"
proof -
  let ?m = "docsEvidence\<lparr>MsgCastScopedEvidenceVouch.Creator := ''dave''\<rparr>"
  obtain s' where run: "CastScopedEvidenceVouch exact (sampleEnv 2000) ?m sampleSchedule = (Inr 0, s')"
    by (simp add: CastScopedEvidenceVouch_def docsEvidence_def issuerDenied_def evidenceDenied_def
        TrimSpace_words patchAward_hex MaxVouchWeight_def)
  show ?thesis
    using evidence_recorded_once [OF run, of "'' docs''"] run
    by (auto simp: docsEvidence_def TrimSpace_words TrimSpace_blank)
qed

end
