(* ===== verification/Genesis.thy ===== *)
theory Genesis
  imports Contribution Bonds
begin

text \<open>
  Import and export of the module's state (\<^verbatim>\<open>keeper/genesis.go\<close>) and the validation of a
  genesis file (\<^verbatim>\<open>types/genesis.go\<close>).
\<close>

section \<open>The genesis file\<close>

definition DefaultGenesis :: GenesisState where
  "DefaultGenesis =
    \<lparr>GenesisState.Params = DefaultParams,
     GenesisState.AccountMap = [],
     GenesisState.VouchList = [], GenesisState.VouchCount = 0,
     GenesisState.EscrowList = [], GenesisState.EscrowCount = 0,
     GenesisState.ContributionAwardList = [], GenesisState.ContributionAwardCount = 0,
     GenesisState.ScopedEvidenceVouchList = [], GenesisState.ScopedEvidenceVouchCount = 0,
     GenesisState.EmissionState = DefaultEmissionState 0\<rparr>"

fun validateAddresses :: "string list \<Rightarrow> Account list \<Rightarrow> go_error option" where
  "validateAddresses seen [] = None"
| "validateAddresses seen (a # as1) =
     (if Account.Address a \<in> set seen then Some (ErrPlain ''duplicated index for account'')
      else validateAddresses (Account.Address a # seen) as1)"

text \<open>The four loops over numbered lists differ in the name they report.\<close>

fun validateIds :: "string \<Rightarrow> ('v \<Rightarrow> u64) \<Rightarrow> u64 \<Rightarrow> u64 list \<Rightarrow> 'v list \<Rightarrow> go_error option" where
  "validateIds name idOf cnt seen [] = None"
| "validateIds name idOf cnt seen (v # vs) =
     (if idOf v \<in> set seen then Some (ErrPlain (''duplicated id for '' @ name))
      else if idOf v \<ge> cnt then Some (ErrPlain (name @ '' id should be lower or equal than the last id''))
      else validateIds name idOf cnt (idOf v # seen) vs)"

definition validateEmission :: "EmissionState \<Rightarrow> go_error option" where
  "validateEmission e =
     (if EmissionState.MaxSupply e = 0 then Some (ErrPlain ''emission max_supply is required'')
      else if EmissionState.EpochLengthSeconds e = 0 then Some (ErrPlain ''emission epoch_length_seconds is required'')
      else if EmissionState.EpochRewardDivisor e = 0 then Some (ErrPlain ''emission epoch_reward_divisor is required'')
      else if EmissionState.CurrentEpoch e = 0 then Some (ErrPlain ''emission current_epoch must be >= 1'')
      else if RemainingScheduled e = 0
            \<and> (EmissionState.TotalMined e > EmissionState.MaxSupply e
               \<or> EmissionState.TotalBurnedUnclaimed e > EmissionState.MaxSupply e - EmissionState.TotalMined e)
        then Some (ErrPlain ''emission mined+burned exceeds max_supply'')
      else if EmissionState.EpochMined e > EmissionState.EpochScheduled e
        then Some (ErrPlain ''emission epoch_mined exceeds epoch_scheduled'')
      else None)"

definition validateGenesis :: "GenesisState \<Rightarrow> go_error option" where
  "validateGenesis gs =
    (case validateAddresses [] (GenesisState.AccountMap gs) of
       Some err \<Rightarrow> Some err
     | None \<Rightarrow>
    (case validateIds ''vouch'' Vouch.Id (GenesisState.VouchCount gs) [] (GenesisState.VouchList gs) of
       Some err \<Rightarrow> Some err
     | None \<Rightarrow>
    (case validateIds ''escrow'' Escrow.Id (GenesisState.EscrowCount gs) [] (GenesisState.EscrowList gs) of
       Some err \<Rightarrow> Some err
     | None \<Rightarrow>
    (case validateIds ''contribution award'' ContributionAward.Id (GenesisState.ContributionAwardCount gs) []
            (GenesisState.ContributionAwardList gs) of
       Some err \<Rightarrow> Some err
     | None \<Rightarrow>
    (case validateIds ''scoped evidence vouch'' ScopedEvidenceVouch.Id (GenesisState.ScopedEvidenceVouchCount gs) []
            (GenesisState.ScopedEvidenceVouchList gs) of
       Some err \<Rightarrow> Some err
     | None \<Rightarrow>
    (case validateEmission (GenesisState.EmissionState gs) of
       Some err \<Rightarrow> Some err
     | None \<Rightarrow> validateParams (GenesisState.Params gs)))))))"

section \<open>Import\<close>

definition genesisEmission :: "Env \<Rightarrow> EmissionState \<Rightarrow> EmissionState" where
  "genesisEmission env e0 =
     (let e1 = (if EmissionState.MaxSupply e0 = 0 then DefaultEmissionState 0 else e0);
          now = BlockTime env
      in if EmissionState.GenesisTime e1 = 0
         then e1\<lparr>EmissionState.GenesisTime := now, EmissionState.EpochStartedAt := now\<rparr>
         else e1)"

definition InitGenesis :: "Env \<Rightarrow> GenesisState \<Rightarrow> Keeper \<Rightarrow> unit result" where
  "InitGenesis env gs s =
    (let s1 = s\<lparr>Keeper.EmissionState := Some (genesisEmission env (GenesisState.EmissionState gs))\<rparr>;
         s2 = s1\<lparr>Keeper.Account := kv_fill Account.Address (GenesisState.AccountMap gs) (Keeper.Account s1)\<rparr>;
         s3 = s2\<lparr>Keeper.Vouch := kv_fill Vouch.Id (GenesisState.VouchList gs) (Keeper.Vouch s2)\<rparr>;
         s4 = s3\<lparr>Keeper.VouchSeq := GenesisState.VouchCount gs\<rparr>;
         s5 = s4\<lparr>Keeper.Escrow := kv_fill Escrow.Id (GenesisState.EscrowList gs) (Keeper.Escrow s4)\<rparr>;
         s6 = s5\<lparr>Keeper.EscrowSeq := GenesisState.EscrowCount gs\<rparr>;
         s7 = s6\<lparr>Keeper.ContributionAward :=
                kv_fill ContributionAward.Id (GenesisState.ContributionAwardList gs) (Keeper.ContributionAward s6)\<rparr>;
         s8 = s7\<lparr>Keeper.ContributionAwardSeq := GenesisState.ContributionAwardCount gs\<rparr>;
         s9 = s8\<lparr>Keeper.ScopedEvidenceVouch :=
                kv_fill ScopedEvidenceVouch.Id (GenesisState.ScopedEvidenceVouchList gs) (Keeper.ScopedEvidenceVouch s8)\<rparr>;
         s10 = s9\<lparr>Keeper.ScopedEvidenceVouchSeq := GenesisState.ScopedEvidenceVouchCount gs\<rparr>
     in respond () (s10\<lparr>Keeper.Params := Some (GenesisState.Params gs)\<rparr>))"

section \<open>Export\<close>

definition ExportGenesis :: "Env \<Rightarrow> Keeper \<Rightarrow> GenesisState result" where
  "ExportGenesis env s =
    (case Keeper.Params s of
       None \<Rightarrow> fail (ErrPlain ''collections: not found'') s
     | Some params \<Rightarrow>
    (let (e, s1) = getEmissionState env s;
         g = DefaultGenesis\<lparr>GenesisState.Params := params, GenesisState.EmissionState := e\<rparr>
     in respond
          (g\<lparr>GenesisState.AccountMap := GenesisState.AccountMap g @ kv_values (Keeper.Account s1),
             GenesisState.VouchList := GenesisState.VouchList g @ kv_values (Keeper.Vouch s1),
             GenesisState.VouchCount := Keeper.VouchSeq s1,
             GenesisState.EscrowList := GenesisState.EscrowList g @ kv_values (Keeper.Escrow s1),
             GenesisState.EscrowCount := Keeper.EscrowSeq s1,
             GenesisState.ContributionAwardList :=
               GenesisState.ContributionAwardList g @ kv_values (Keeper.ContributionAward s1),
             GenesisState.ContributionAwardCount := Keeper.ContributionAwardSeq s1,
             GenesisState.ScopedEvidenceVouchList :=
               GenesisState.ScopedEvidenceVouchList g @ kv_values (Keeper.ScopedEvidenceVouch s1),
             GenesisState.ScopedEvidenceVouchCount := Keeper.ScopedEvidenceVouchSeq s1\<rparr>) s1))"

section \<open>What validation guarantees\<close>

lemma validateAddresses_None:
  "validateAddresses seen as1 = None \<longleftrightarrow>
     distinct (map Account.Address as1) \<and> Account.Address ` set as1 \<inter> set seen = {}"
  by (induction seen as1 rule: validateAddresses.induct) auto

lemma validateIds_None:
  "validateIds name idOf cnt seen vs = None \<longleftrightarrow>
     distinct (map idOf vs) \<and> idOf ` set vs \<inter> set seen = {} \<and> (\<forall>v \<in> set vs. idOf v < cnt)"
  by (induction name idOf cnt seen vs rule: validateIds.induct) auto

lemma validateEmission_None:
  assumes "validateEmission e = None"
  shows "EmissionState.MaxSupply e \<noteq> 0"
    "unat (EmissionState.TotalMined e) + unat (EmissionState.TotalBurnedUnclaimed e) \<le> unat (EmissionState.MaxSupply e)"
    "unat (EmissionState.EpochMined e) \<le> unat (EmissionState.EpochScheduled e)"
proof -
  show "EmissionState.MaxSupply e \<noteq> 0" "unat (EmissionState.EpochMined e) \<le> unat (EmissionState.EpochScheduled e)"
    using assms by (auto simp: validateEmission_def u64_le_iff not_less split: if_splits)
  show "unat (EmissionState.TotalMined e) + unat (EmissionState.TotalBurnedUnclaimed e) \<le> unat (EmissionState.MaxSupply e)"
  proof (cases "RemainingScheduled e = 0")
    case True
    then have "EmissionState.TotalMined e \<le> EmissionState.MaxSupply e"
      "EmissionState.TotalBurnedUnclaimed e \<le> EmissionState.MaxSupply e - EmissionState.TotalMined e"
      using assms by (auto simp: validateEmission_def not_less split: if_splits)
    then show ?thesis by (auto simp: u64_le_iff unat_sub_no_wrap)
  next
    case False
    then have "unat (RemainingScheduled e) \<noteq> 0" by (simp add: unat_eq_zero)
    then show ?thesis by (simp add: unat_RemainingScheduled)
  qed
qed

text \<open>The tables a list fills.\<close>

lemma kv_fill_get:
  assumes "distinct (map key vs)"
  shows "kv_get (kv_fill key vs kv_empty) k = Some v \<longleftrightarrow> v \<in> set vs \<and> key v = k"
proof -
  have "List.find (\<lambda>v. key v = k) vs = Some v \<longleftrightarrow> v \<in> set vs \<and> key v = k"
    using assms by (induction vs) (auto simp: image_iff)
  then show ?thesis
    by (cases "List.find (\<lambda>v. key v = k) vs") (auto simp: kv_get_fill [OF assms])
qed

lemma ids_in_order_fill:
  "distinct (map key vs) \<Longrightarrow> \<forall>v \<in> set vs. key v < n \<Longrightarrow> ids_in_order key (kv_fill key vs kv_empty) n"
  by (auto simp: ids_in_order_def kv_fill_get)

lemma kv_total_fill:
  "distinct (map key vs) \<Longrightarrow> kv_total f (kv_fill key vs kv_empty) = sum_list (map f vs)"
proof -
  have "distinct (map key vs) \<Longrightarrow> \<forall>v \<in> set vs. kv_get m (key v) = None \<Longrightarrow>
      kv_total f (kv_fill key vs m) = kv_total f m + sum_list (map f vs)" for m
  proof (induction vs arbitrary: m)
    case (Cons v vs)
    have "\<forall>w \<in> set vs. kv_get (kv_set m (key v) v) (key w) = None"
      using Cons.prems by (auto simp: image_iff)
    with Cons.IH [of "kv_set m (key v) v"] Cons.prems show ?case
      by (simp add: kv_fill_def kv_total_set_new)
  qed (simp add: kv_fill_def)
  then show "distinct (map key vs) \<Longrightarrow> kv_total f (kv_fill key vs kv_empty) = sum_list (map f vs)" by simp
qed


section \<open>The round trip\<close>

text \<open>The tables the module numbers or keys itself are stored under their own keys.\<close>

definition self_keyed :: "Keeper \<Rightarrow> bool" where
  "self_keyed s \<longleftrightarrow> keyed_by Account.Address (Keeper.Account s) \<and> keyed_by Vouch.Id (Keeper.Vouch s)
   \<and> keyed_by Escrow.Id (Keeper.Escrow s) \<and> keyed_by ContributionAward.Id (Keeper.ContributionAward s)
   \<and> keyed_by ScopedEvidenceVouch.Id (Keeper.ScopedEvidenceVouch s)"

text \<open>What the file has no field for.\<close>

definition forgotten :: "Keeper \<Rightarrow> Keeper" where
  "forgotten s = s\<lparr>Keeper.DisputeSeq := 0, Keeper.Dispute := kv_empty, Keeper.BondSeq := 0, Keeper.Bond := kv_empty,
     Keeper.GateSeq := 0, Keeper.Gate := kv_empty, Keeper.AuthAccounts := {}, Keeper.Events := []\<rparr>"

lemma export_fields:
  assumes "ExportGenesis env s = (Inr g, s1)"
    and "Keeper.EmissionState s = Some e" and "EmissionState.MaxSupply e \<noteq> 0"
  shows "s1 = s" "Keeper.Params s = Some (GenesisState.Params g)" "GenesisState.EmissionState g = e"
    "GenesisState.AccountMap g = kv_values (Keeper.Account s)"
    "GenesisState.VouchList g = kv_values (Keeper.Vouch s)" "GenesisState.VouchCount g = Keeper.VouchSeq s"
    "GenesisState.EscrowList g = kv_values (Keeper.Escrow s)" "GenesisState.EscrowCount g = Keeper.EscrowSeq s"
    "GenesisState.ContributionAwardList g = kv_values (Keeper.ContributionAward s)"
    "GenesisState.ContributionAwardCount g = Keeper.ContributionAwardSeq s"
    "GenesisState.ScopedEvidenceVouchList g = kv_values (Keeper.ScopedEvidenceVouch s)"
    "GenesisState.ScopedEvidenceVouchCount g = Keeper.ScopedEvidenceVouchSeq s"
proof -
  have get: "getEmissionState env s = (e, s)" using assms by (simp add: getEmissionState_def)
  obtain params where p: "Keeper.Params s = Some params"
    using assms(1) by (auto simp: ExportGenesis_def split: option.splits)
  show "s1 = s" "Keeper.Params s = Some (GenesisState.Params g)" "GenesisState.EmissionState g = e"
    "GenesisState.AccountMap g = kv_values (Keeper.Account s)"
    "GenesisState.VouchList g = kv_values (Keeper.Vouch s)" "GenesisState.VouchCount g = Keeper.VouchSeq s"
    "GenesisState.EscrowList g = kv_values (Keeper.Escrow s)" "GenesisState.EscrowCount g = Keeper.EscrowSeq s"
    "GenesisState.ContributionAwardList g = kv_values (Keeper.ContributionAward s)"
    "GenesisState.ContributionAwardCount g = Keeper.ContributionAwardSeq s"
    "GenesisState.ScopedEvidenceVouchList g = kv_values (Keeper.ScopedEvidenceVouch s)"
    "GenesisState.ScopedEvidenceVouchCount g = Keeper.ScopedEvidenceVouchSeq s"
    using assms(1) p get by (auto simp: ExportGenesis_def DefaultGenesis_def)
qed

lemma import_export:
  assumes "ExportGenesis env s = (Inr g, s1)" and "self_keyed s"
    and "Keeper.EmissionState s = Some e" and "EmissionState.MaxSupply e \<noteq> 0" and "EmissionState.GenesisTime e \<noteq> 0"
  shows "InitGenesis env' g NewKeeper = (Inr (), forgotten s)" and "s1 = s"
proof -
  note g = export_fields [OF assms(1,3,4)]
  show "s1 = s" by (rule g(1))
  have fills: "kv_fill Account.Address (kv_values (Keeper.Account s)) kv_empty = Keeper.Account s"
      "kv_fill Vouch.Id (kv_values (Keeper.Vouch s)) kv_empty = Keeper.Vouch s"
      "kv_fill Escrow.Id (kv_values (Keeper.Escrow s)) kv_empty = Keeper.Escrow s"
      "kv_fill ContributionAward.Id (kv_values (Keeper.ContributionAward s)) kv_empty = Keeper.ContributionAward s"
      "kv_fill ScopedEvidenceVouch.Id (kv_values (Keeper.ScopedEvidenceVouch s)) kv_empty = Keeper.ScopedEvidenceVouch s"
    using assms(2) unfolding self_keyed_def by (auto intro!: kv_fill_values dest: keyed_by_get)
  have "genesisEmission env' e = e" using assms(4,5) by (simp add: genesisEmission_def)
  then show "InitGenesis env' g NewKeeper = (Inr (), forgotten s)"
    using g(2) assms(3) by (simp add: InitGenesis_def Let_def g(3-) fills NewKeeper_def forgotten_def)
qed

lemma export_succeeds: "Keeper.Params s = Some params \<Longrightarrow> \<exists>g s1. ExportGenesis env s = (Inr g, s1)"
  by (cases "getEmissionState env s") (simp add: ExportGenesis_def)

lemma forgotten_supply: "total_supply (forgotten s) + kv_total heldBond (Keeper.Bond s) = total_supply s"
  by (simp add: total_supply_def forgotten_def)

section \<open>A genesis to start from\<close>

definition genesisSupply :: "GenesisState \<Rightarrow> nat" where
  "genesisSupply gs = sum_list (map balanceOf (GenesisState.AccountMap gs))
     + sum_list (map stakeOf (GenesisState.VouchList gs)) + sum_list (map heldEscrow (GenesisState.EscrowList gs))"

lemma genesisEmission_ok:
  assumes "validateEmission e = None" and "RemainingEpoch e \<le> RemainingScheduled e"
  shows "EmissionState.MaxSupply (genesisEmission env e) \<noteq> 0 \<and> emission_ok (genesisEmission env e)
     \<and> RemainingScheduled (genesisEmission env e) = RemainingScheduled e
     \<and> EmissionState.TotalMined (genesisEmission env e) = EmissionState.TotalMined e"
proof -
  note ok = validateEmission_None [OF assms(1)]
  have "emission_ok e" using ok assms(2) by (simp add: emission_ok_def u64_le_iff)
  moreover have frame: "RemainingScheduled (e\<lparr>EmissionState.GenesisTime := t, EmissionState.EpochStartedAt := t\<rparr>) = RemainingScheduled e"
      "RemainingEpoch (e\<lparr>EmissionState.GenesisTime := t, EmissionState.EpochStartedAt := t\<rparr>) = RemainingEpoch e" for t
    by (simp_all add: RemainingScheduled_def RemainingEpoch_def Let_def)
  ultimately show ?thesis
    using ok(1) by (simp add: genesisEmission_def Let_def emission_ok_def frame)
qed

text \<open>
  A file that validation accepts, with all accounts marked as registered, an epoch that promises
  no more than the schedule has left, and coins and remaining schedule within 64 bits.
\<close>

definition sound_genesis :: "GenesisState \<Rightarrow> bool" where
  "sound_genesis gs \<longleftrightarrow> validateGenesis gs = None \<and> (\<forall>a \<in> set (GenesisState.AccountMap gs). Account.Registered a)
     \<and> RemainingEpoch (GenesisState.EmissionState gs) \<le> RemainingScheduled (GenesisState.EmissionState gs)
     \<and> genesisSupply gs + unat (RemainingScheduled (GenesisState.EmissionState gs)) < 2 ^ 64"

lemma keyed_by_fill: "keyed_by f m \<Longrightarrow> keyed_by f (kv_fill f vs m)"
  by (induction vs arbitrary: m) (simp_all add: kv_fill_def keyed_by_put)

text \<open>An import keys every record by itself and starts the clock of the schedule.\<close>

lemma init_genesis_keyed:
  assumes "InitGenesis env gs NewKeeper = (Inr (), s)"
  shows "self_keyed s" and "BlockTime env \<noteq> 0 \<Longrightarrow> started s"
proof -
  have empty: "keyed_by f kv_empty" for f :: "'v \<Rightarrow> 'k::linorder" by (simp add: keyed_by_def)
  have s: "s = snd (InitGenesis env gs NewKeeper)" using assms by simp
  show "self_keyed s"
    by (simp add: s self_keyed_def InitGenesis_def NewKeeper_def Let_def keyed_by_fill empty)
  show "started s" if "BlockTime env \<noteq> 0"
    using that by (simp add: s started_def InitGenesis_def NewKeeper_def genesisEmission_def Let_def)
qed

lemma init_genesis_ledger:
  assumes "sound_genesis gs"
  shows "\<exists>s. InitGenesis env gs NewKeeper = (Inr (), s) \<and> ledger_inv s \<and> total_supply s = genesisSupply gs
    \<and> mintable s = unat (RemainingScheduled (GenesisState.EmissionState gs))"
proof -
  have v: "validateGenesis gs = None" and reg: "\<forall>a \<in> set (GenesisState.AccountMap gs). Account.Registered a"
    and em: "RemainingEpoch (GenesisState.EmissionState gs) \<le> RemainingScheduled (GenesisState.EmissionState gs)"
    and fits: "genesisSupply gs + unat (RemainingScheduled (GenesisState.EmissionState gs)) < 2 ^ 64"
    using assms by (simp_all add: sound_genesis_def)
  obtain s where run: "InitGenesis env gs NewKeeper = (Inr (), s)" by (simp add: InitGenesis_def Let_def)
  then have s: "s = snd (InitGenesis env gs NewKeeper)" by simp
  have dist: "distinct (map Account.Address (GenesisState.AccountMap gs))"
      "distinct (map Vouch.Id (GenesisState.VouchList gs))" "\<forall>v \<in> set (GenesisState.VouchList gs). Vouch.Id v < GenesisState.VouchCount gs"
      "distinct (map Escrow.Id (GenesisState.EscrowList gs))" "\<forall>e \<in> set (GenesisState.EscrowList gs). Escrow.Id e < GenesisState.EscrowCount gs"
      "validateEmission (GenesisState.EmissionState gs) = None"
    using v by (auto simp: validateGenesis_def validateAddresses_None validateIds_None split: option.splits)
  have tabs: "Keeper.Account s = kv_fill Account.Address (GenesisState.AccountMap gs) kv_empty"
      "Keeper.Vouch s = kv_fill Vouch.Id (GenesisState.VouchList gs) kv_empty" "Keeper.VouchSeq s = GenesisState.VouchCount gs"
      "Keeper.Escrow s = kv_fill Escrow.Id (GenesisState.EscrowList gs) kv_empty" "Keeper.EscrowSeq s = GenesisState.EscrowCount gs"
      "Keeper.Bond s = kv_empty" "Keeper.Dispute s = kv_empty" "Keeper.Gate s = kv_empty"
      "Keeper.EmissionState s = Some (genesisEmission env (GenesisState.EmissionState gs))"
    by (simp_all add: s InitGenesis_def Let_def NewKeeper_def)
  have "core_inv s"
    using reg ids_in_order_fill [OF dist(2,3)] ids_in_order_fill [OF dist(4,5)]
    by (auto simp: core_inv_def accounts_registered_def tabs kv_fill_get [OF dist(1)])
  moreover have "total_supply s = genesisSupply gs"
    by (simp add: total_supply_def genesisSupply_def tabs kv_total_fill dist)
  moreover have "emission_inv s" "mintable s = unat (RemainingScheduled (GenesisState.EmissionState gs))"
    using genesisEmission_ok [OF dist(6) em, of env] by (simp_all add: emission_inv_def mintable_def tabs)
  ultimately show ?thesis using run fits by (auto simp: ledger_inv_def)
qed

section \<open>Properties\<close>

text \<open>A genesis with two accounts.\<close>

definition launchGenesis :: GenesisState where
  "launchGenesis = DefaultGenesis\<lparr>GenesisState.Params := NewParams [''dave''],
     GenesisState.AccountMap := [funded ''dave'' 10, funded ''alice'' 500]\<rparr>"

lemma launchGenesis_valid: "validateGenesis launchGenesis = None"
proof -
  have "validateEmission (DefaultEmissionState 0) = None"
    by (simp add: validateEmission_def DefaultEmissionState_def RemainingScheduled_def Constants.MaxSupply_def
        Constants.EpochRewardDivisor_def Constants.EpochLengthSeconds_def)
  then show ?thesis
    by (simp add: validateGenesis_def launchGenesis_def DefaultGenesis_def validateParams_def NewParams_def)
qed

lemma default_remaining: "unat (RemainingScheduled (DefaultEmissionState t)) = 21000000"
    "RemainingEpoch (DefaultEmissionState t) \<le> RemainingScheduled (DefaultEmissionState t)"
proof -
  show r: "unat (RemainingScheduled (DefaultEmissionState t)) = 21000000"
    by (simp add: unat_RemainingScheduled) (simp add: DefaultEmissionState_def Constants.MaxSupply_def)
  have "unat (RemainingEpoch (DefaultEmissionState t)) = 21000"
    by (simp add: unat_RemainingEpoch)
      (simp add: DefaultEmissionState_def Constants.MaxSupply_def Constants.EpochRewardDivisor_def)
  then show "RemainingEpoch (DefaultEmissionState t) \<le> RemainingScheduled (DefaultEmissionState t)"
    by (simp add: u64_le_iff r)
qed

lemma launchGenesis_sound: "sound_genesis launchGenesis"
proof -
  have "GenesisState.EmissionState launchGenesis = DefaultEmissionState 0" "genesisSupply launchGenesis = 510"
    "\<forall>a \<in> set (GenesisState.AccountMap launchGenesis). Account.Registered a"
    by (simp_all add: launchGenesis_def DefaultGenesis_def genesisSupply_def balanceOf_def)
  then show ?thesis
    using launchGenesis_valid default_remaining [of 0] by (simp add: sound_genesis_def)
qed

lemma sampleSchedule_keyed: "self_keyed sampleSchedule"
  by (auto simp: self_keyed_def keyed_by_def split: if_splits)

lemma sampleSchedule_export: "\<exists>g. ExportGenesis env sampleSchedule = (Inr g, sampleSchedule)"
  by (simp add: ExportGenesis_def getEmissionState_def DefaultEmissionState_def Constants.MaxSupply_def)

text \<open>
  The upgrade by export and import burns all collateral. The supply after the import is short
  of the supply before by exactly the coins locked in active bonds, and no message can release a
  bond of the old chain any more: its number is unknown.
\<close>
lemma export_burns_collateral:
  assumes "ExportGenesis env s = (Inr g, s1)" and "self_keyed s"
    and "Keeper.EmissionState s = Some e" and "EmissionState.MaxSupply e \<noteq> 0" and "EmissionState.GenesisTime e \<noteq> 0"
    and "InitGenesis env' g NewKeeper = (Inr (), s')"
  shows "total_supply s' + kv_total heldBond (Keeper.Bond s) = total_supply s
    \<and> (\<exists>err. ReleaseBond env3 msg s' = (Inl err, s')) \<and> (\<exists>err. SlashBond env3 msg2 s' = (Inl err, s'))"
proof -
  have s': "s' = forgotten s" using import_export(1) [OF assms(1-5), of env'] assms(6) by simp
  have "kv_get (Keeper.Bond s') i = None" for i by (simp add: s' forgotten_def)
  then have "\<exists>err. ReleaseBond env3 msg s' = (Inl err, s')" "\<exists>err. SlashBond env3 msg2 s' = (Inl err, s')"
    by (auto simp: ReleaseBond_def SlashBond_def split: option.splits)
  then show ?thesis using forgotten_supply [of s] by (simp add: s')
qed

definition bondedSchedule :: Keeper where
  "bondedSchedule = setBond 0 \<lparr>Bond.Id = 0, Bond.Poster = ''alice'', Bond.Amount = 400, Bond.Purpose = ''uptime'',
     Bond.Slasher = ''bob'', Bond.Status = BondStatusActive, Bond.Ref = []\<rparr> sampleSchedule"

lemma export_burns_collateral_witness:
  "\<exists>g s'. ExportGenesis (sampleEnv 0) bondedSchedule = (Inr g, bondedSchedule)
     \<and> InitGenesis (sampleEnv 9) g NewKeeper = (Inr (), s')
     \<and> total_supply s' + 400 = total_supply bondedSchedule"
proof -
  obtain g where g: "ExportGenesis (sampleEnv 0) bondedSchedule = (Inr g, bondedSchedule)"
    by (simp add: ExportGenesis_def getEmissionState_def DefaultEmissionState_def Constants.MaxSupply_def bondedSchedule_def)
  have keyed: "self_keyed bondedSchedule" using sampleSchedule_keyed by (simp add: self_keyed_def bondedSchedule_def)
  have em: "Keeper.EmissionState bondedSchedule = Some (DefaultEmissionState 1000)" by (simp add: bondedSchedule_def)
  have e: "EmissionState.MaxSupply (DefaultEmissionState 1000) \<noteq> 0" "EmissionState.GenesisTime (DefaultEmissionState 1000) \<noteq> 0"
    by (simp_all add: DefaultEmissionState_def Constants.MaxSupply_def)
  note run = import_export(1) [OF g keyed em e, of "sampleEnv 9"]
  have "kv_total heldBond (Keeper.Bond bondedSchedule) = 400"
    by (simp add: bondedSchedule_def kv_total_set_new heldBond_def sampleSchedule_def)
  then show ?thesis
    using export_burns_collateral [OF g keyed em e run] g run by (intro exI [of _ g] exI [of _ "forgotten bondedSchedule"]) simp
qed

end
