(* ===== verification/AppModule.thy ===== *)
theory AppModule
  imports Genesis StoreKeys
begin

text \<open>
  The module as the application sees it (\<^verbatim>\<open>module/module.go\<close>, \<^verbatim>\<open>module/depinject.go\<close>,
  \<^verbatim>\<open>module/simulation.go\<close> and the four files of \<^verbatim>\<open>simulation/\<close>). A genesis file is the JSON text of a \<^verbatim>\<open>GenesisState\<close>; the codec of the SDK
  that writes and reads it is an argument. A panic of the code is a \<open>RuntimePanic\<close>; of the
  message of a panic the part that wraps an error of the keeper is left out.
\<close>

section \<open>Genesis files\<close>

record json_codec =
  MarshalJSON :: "GenesisState \<Rightarrow> string + string"
  UnmarshalJSON :: "string \<Rightarrow> string + GenesisState"

definition moduleDefaultGenesis :: "json_codec \<Rightarrow> go_error + string" where
  "moduleDefaultGenesis cdc =
     (case MarshalJSON cdc DefaultGenesis of
        Inl err \<Rightarrow> Inl (RuntimePanic err)
      | Inr bz \<Rightarrow> Inr bz)"

definition moduleValidateGenesis :: "json_codec \<Rightarrow> string \<Rightarrow> go_error option" where
  "moduleValidateGenesis cdc bz =
     (case UnmarshalJSON cdc bz of
        Inl err \<Rightarrow> Some (ErrPlain (''failed to unmarshal '' @ ModuleName @ '' genesis state: '' @ err))
      | Inr genState \<Rightarrow> validateGenesis genState)"

definition moduleInitGenesis :: "json_codec \<Rightarrow> Env \<Rightarrow> string \<Rightarrow> Keeper \<Rightarrow> unit result" where
  "moduleInitGenesis cdc env gs s =
     (case UnmarshalJSON cdc gs of
        Inl err \<Rightarrow> fail (RuntimePanic (''failed to unmarshal '' @ ModuleName @ '' genesis state: '' @ err)) s
      | Inr genState \<Rightarrow>
     (case InitGenesis env genState s of
        (Inl _, s1) \<Rightarrow> fail (RuntimePanic (''failed to initialize '' @ ModuleName @ '' genesis state'')) s1
      | (Inr _, s1) \<Rightarrow> respond () s1))"

definition moduleExportGenesis :: "json_codec \<Rightarrow> Env \<Rightarrow> Keeper \<Rightarrow> string result" where
  "moduleExportGenesis cdc env s =
     (case ExportGenesis env s of
        (Inl _, s1) \<Rightarrow> fail (RuntimePanic (''failed to export '' @ ModuleName @ '' genesis state'')) s1
      | (Inr genState, s1) \<Rightarrow>
     (case MarshalJSON cdc genState of
        Inl err \<Rightarrow> fail (RuntimePanic (''failed to marshal '' @ ModuleName @ '' genesis state: '' @ err)) s1
      | Inr bz \<Rightarrow> respond bz s1))"

text \<open>What a JSON codec promises: reading gives back what was written.\<close>

definition lossless :: "json_codec \<Rightarrow> bool" where
  "lossless cdc \<longleftrightarrow> (\<forall>gs bz. MarshalJSON cdc gs = Inr bz \<longrightarrow> UnmarshalJSON cdc bz = Inr gs)"

lemma moduleExport_file:
  "moduleExportGenesis cdc env s = (Inr bz, s1) \<longleftrightarrow>
     (\<exists>gs. ExportGenesis env s = (Inr gs, s1) \<and> MarshalJSON cdc gs = Inr bz)"
  by (auto simp: moduleExportGenesis_def split: prod.splits sum.splits)

lemma moduleInit_file:
  "UnmarshalJSON cdc bz = Inr gs \<Longrightarrow>
     moduleInitGenesis cdc env bz s = (Inr (), s') \<longleftrightarrow> InitGenesis env gs s = (Inr (), s')"
  by (auto simp: moduleInitGenesis_def split: prod.splits sum.splits)

text \<open>A file that validation accepts is never the reason for a panic at the start.\<close>

lemma valid_file_starts:
  assumes "moduleValidateGenesis cdc bz = None"
  shows "\<exists>s'. moduleInitGenesis cdc env bz s = (Inr (), s')"
  using assms
  by (auto simp: moduleValidateGenesis_def moduleInitGenesis_def InitGenesis_def Let_def split: sum.splits)

section \<open>The authority\<close>

text \<open>
  The authority the keeper is built with: the governance account, unless the configuration names
  another. The addresses of module accounts are computed by the SDK.
\<close>

definition ProvideModule ::
  "(string \<Rightarrow> string) \<Rightarrow> (string \<Rightarrow> string) \<Rightarrow> string \<Rightarrow> Env \<Rightarrow> Env" where
  "ProvideModule NewModuleAddress NewModuleAddressOrBech32Address configAuthority env =
     env\<lparr>Env.Authority :=
       (if configAuthority \<noteq> [] then NewModuleAddressOrBech32Address configAuthority
        else NewModuleAddress GovModuleName)\<rparr>"

lemma only_governance_updates:
  "UpdateParams (ProvideModule addr addrOr [] env) msg s = (Inr r, s') \<Longrightarrow>
     StringToBytes env (MsgUpdateParams.Authority msg) = Some (addr ''gov'')"
  by (simp add: UpdateParams_success ProvideModule_def GovModuleName_def)

section \<open>The genesis of simulations\<close>

definition GenerateGenesisState :: "json_codec \<Rightarrow> go_error + string" where
  "GenerateGenesisState cdc =
     (case MarshalJSON cdc
         \<lparr>GenesisState.Params = DefaultParams, GenesisState.AccountMap = [],
          GenesisState.VouchList = [], GenesisState.VouchCount = 0,
          GenesisState.EscrowList = [], GenesisState.EscrowCount = 0,
          GenesisState.ContributionAwardList = [], GenesisState.ContributionAwardCount = 0,
          GenesisState.ScopedEvidenceVouchList = [], GenesisState.ScopedEvidenceVouchCount = 0,
          GenesisState.EmissionState =
            \<lparr>EmissionState.MaxSupply = 0, EmissionState.EpochLengthSeconds = 0, EmissionState.EpochRewardDivisor = 0,
             EmissionState.GenesisTime = 0, EmissionState.CurrentEpoch = 0, EmissionState.EpochStartedAt = 0,
             EmissionState.EpochScheduled = 0, EmissionState.EpochMined = 0, EmissionState.TotalMined = 0,
             EmissionState.TotalBurnedUnclaimed = 0\<rparr>\<rparr> of
        Inl err \<Rightarrow> Inl (RuntimePanic err)
      | Inr bz \<Rightarrow> Inr bz)"

text \<open>
  The simulated genesis is one the module itself does not accept: its schedule is empty. The
  import does not notice, since it fills in the default schedule.
\<close>

lemma simulated_genesis_rejected:
  assumes "lossless cdc" and "GenerateGenesisState cdc = Inr bz"
  shows "moduleValidateGenesis cdc bz = Some (ErrPlain ''emission max_supply is required'')"
  using assms
  by (auto simp: GenerateGenesisState_def lossless_def moduleValidateGenesis_def validateGenesis_def validateEmission_def
      split: sum.splits)

lemma simulated_genesis_starts:
  assumes "lossless cdc" and "GenerateGenesisState cdc = Inr bz" and "moduleDefaultGenesis cdc = Inr bz'"
  shows "moduleInitGenesis cdc env bz s = moduleInitGenesis cdc env bz' s"
  using assms
  by (auto simp: GenerateGenesisState_def moduleDefaultGenesis_def lossless_def moduleInitGenesis_def InitGenesis_def
      DefaultGenesis_def genesisEmission_def Let_def split: sum.splits)

section \<open>Blocks\<close>

text \<open>Nothing happens at the ends of a block: only messages change the state.\<close>

definition ConsensusVersion :: u64 where
  "ConsensusVersion = 1"

definition BeginBlock :: "Env \<Rightarrow> Keeper \<Rightarrow> unit result" where
  "BeginBlock env s = respond () s"

definition EndBlock :: "Env \<Rightarrow> Keeper \<Rightarrow> unit result" where
  "EndBlock env s = respond () s"

section \<open>Simulated messages\<close>

text \<open>
  An operation of the simulator: the report it returns in place of a message. \<open>TypeURL\<close> names the
  type of a message whose creator is the given account.
\<close>

record NoOpMsg =
  Route :: string
  OpName :: string
  Comment :: string

definition SimulateMsgRegister :: "(string \<Rightarrow> string \<Rightarrow> string) \<Rightarrow> string \<Rightarrow> NoOpMsg" where
  "SimulateMsgRegister TypeURL simAccount =
     \<lparr>Route = ModuleName, OpName = TypeURL ''MsgRegister'' simAccount, Comment = ''Register simulation not implemented''\<rparr>"

definition SimulateMsgFaucet :: "(string \<Rightarrow> string \<Rightarrow> string) \<Rightarrow> string \<Rightarrow> NoOpMsg" where
  "SimulateMsgFaucet TypeURL simAccount =
     \<lparr>Route = ModuleName, OpName = TypeURL ''MsgFaucet'' simAccount, Comment = ''Faucet simulation not implemented''\<rparr>"

definition SimulateMsgTransfer :: "(string \<Rightarrow> string \<Rightarrow> string) \<Rightarrow> string \<Rightarrow> NoOpMsg" where
  "SimulateMsgTransfer TypeURL simAccount =
     \<lparr>Route = ModuleName, OpName = TypeURL ''MsgTransfer'' simAccount, Comment = ''Transfer simulation not implemented''\<rparr>"

definition SimulateMsgCastvouch :: "(string \<Rightarrow> string \<Rightarrow> string) \<Rightarrow> string \<Rightarrow> NoOpMsg" where
  "SimulateMsgCastvouch TypeURL simAccount =
     \<lparr>Route = ModuleName, OpName = TypeURL ''MsgCastvouch'' simAccount, Comment = ''Castvouch simulation not implemented''\<rparr>"

text \<open>A weight is looked up among the parameters of the simulation and has a default.\<close>

definition GetOrGenerate :: "(string \<rightharpoonup> int) \<Rightarrow> string \<Rightarrow> int \<Rightarrow> int" where
  "GetOrGenerate appParams key default_weight = (case appParams key of Some w \<Rightarrow> w | None \<Rightarrow> default_weight)"

definition WeightedOperations ::
  "(string \<Rightarrow> string \<Rightarrow> string) \<Rightarrow> (string \<rightharpoonup> int) \<Rightarrow> (int \<times> (string \<Rightarrow> NoOpMsg)) list" where
  "WeightedOperations TypeURL appParams =
     (let weightMsgRegister = GetOrGenerate appParams ''op_weight_msg_agntcoin'' 100;
          weightMsgFaucet = GetOrGenerate appParams ''op_weight_msg_agntcoin'' 100;
          weightMsgTransfer = GetOrGenerate appParams ''op_weight_msg_agntcoin'' 100;
          weightMsgCastvouch = GetOrGenerate appParams ''op_weight_msg_agntcoin'' 100
      in [(weightMsgRegister, SimulateMsgRegister TypeURL),
          (weightMsgFaucet, SimulateMsgFaucet TypeURL),
          (weightMsgTransfer, SimulateMsgTransfer TypeURL),
          (weightMsgCastvouch, SimulateMsgCastvouch TypeURL)])"

text \<open>The four weights are read under one key, so no parameters tell the messages apart.\<close>

lemma weights_are_equal:
  "(w, op) \<in> set (WeightedOperations TypeURL appParams) \<Longrightarrow> (w', op') \<in> set (WeightedOperations TypeURL appParams) \<Longrightarrow> w = w'"
  by (auto simp: WeightedOperations_def)

end
