(* ===== verification/Queries.thy ===== *)
theory Queries
  imports ReputationScore Emission
begin

text \<open>
  The read side (\<^verbatim>\<open>query_*.go\<close>). A request is \<open>None\<close> for a nil pointer. The lists go through
  \<^verbatim>\<open>query.CollectionPaginate\<close> of the SDK, which is the argument \<open>paginate\<close>: it takes the entries of
  a table in key order and a page request, and returns the values of the page with a page response,
  or an error text. Errors of the store other than not-found do not occur in the model.
\<close>

type_synonym ('k, 'v, 'p, 'q) paginator = "('k \<times> 'v) list \<Rightarrow> 'p \<Rightarrow> string + ('v list \<times> 'q)"

section \<open>Lists\<close>

definition ListAccount :: "(string, Account, 'p, 'q) paginator \<Rightarrow> Keeper \<Rightarrow> 'p option \<Rightarrow> go_error + (Account list \<times> 'q)" where
  "ListAccount paginate s req =
    (case req of
       None \<Rightarrow> Inl (StatusInvalidArgument ''invalid request'')
     | Some pagination \<Rightarrow>
    (case paginate (kv_entries (Keeper.Account s)) pagination of
       Inl err \<Rightarrow> Inl (StatusInternal err)
     | Inr (values, pageRes) \<Rightarrow> Inr (values, pageRes)))"

definition ListVouch :: "(u64, Vouch, 'p, 'q) paginator \<Rightarrow> Keeper \<Rightarrow> 'p option \<Rightarrow> go_error + (Vouch list \<times> 'q)" where
  "ListVouch paginate s req =
    (case req of
       None \<Rightarrow> Inl (StatusInvalidArgument ''invalid request'')
     | Some pagination \<Rightarrow>
    (case paginate (kv_entries (Keeper.Vouch s)) pagination of
       Inl err \<Rightarrow> Inl (StatusInternal err)
     | Inr (values, pageRes) \<Rightarrow> Inr (values, pageRes)))"

definition ListEscrow :: "(u64, Escrow, 'p, 'q) paginator \<Rightarrow> Keeper \<Rightarrow> 'p option \<Rightarrow> go_error + (Escrow list \<times> 'q)" where
  "ListEscrow paginate s req =
    (case req of
       None \<Rightarrow> Inl (StatusInvalidArgument ''invalid request'')
     | Some pagination \<Rightarrow>
    (case paginate (kv_entries (Keeper.Escrow s)) pagination of
       Inl err \<Rightarrow> Inl (StatusInternal err)
     | Inr (values, pageRes) \<Rightarrow> Inr (values, pageRes)))"

definition ListDispute :: "(u64, Dispute, 'p, 'q) paginator \<Rightarrow> Keeper \<Rightarrow> 'p option \<Rightarrow> go_error + (Dispute list \<times> 'q)" where
  "ListDispute paginate s req =
    (case req of
       None \<Rightarrow> Inl (StatusInvalidArgument ''invalid request'')
     | Some pagination \<Rightarrow>
    (case paginate (kv_entries (Keeper.Dispute s)) pagination of
       Inl err \<Rightarrow> Inl (StatusInternal err)
     | Inr (values, pageRes) \<Rightarrow> Inr (values, pageRes)))"

definition ListBond :: "(u64, Bond, 'p, 'q) paginator \<Rightarrow> Keeper \<Rightarrow> 'p option \<Rightarrow> go_error + (Bond list \<times> 'q)" where
  "ListBond paginate s req =
    (case req of
       None \<Rightarrow> Inl (StatusInvalidArgument ''invalid request'')
     | Some pagination \<Rightarrow>
    (case paginate (kv_entries (Keeper.Bond s)) pagination of
       Inl err \<Rightarrow> Inl (StatusInternal err)
     | Inr (values, pageRes) \<Rightarrow> Inr (values, pageRes)))"

definition ListGate :: "(u64, Gate, 'p, 'q) paginator \<Rightarrow> Keeper \<Rightarrow> 'p option \<Rightarrow> go_error + (Gate list \<times> 'q)" where
  "ListGate paginate s req =
    (case req of
       None \<Rightarrow> Inl (StatusInvalidArgument ''invalid request'')
     | Some pagination \<Rightarrow>
    (case paginate (kv_entries (Keeper.Gate s)) pagination of
       Inl err \<Rightarrow> Inl (StatusInternal err)
     | Inr (values, pageRes) \<Rightarrow> Inr (values, pageRes)))"

definition ListContributionAward :: "(u64, ContributionAward, 'p, 'q) paginator \<Rightarrow> Keeper \<Rightarrow> 'p option \<Rightarrow> go_error + (ContributionAward list \<times> 'q)" where
  "ListContributionAward paginate s req =
    (case req of
       None \<Rightarrow> Inl (StatusInvalidArgument ''invalid request'')
     | Some pagination \<Rightarrow>
    (case paginate (kv_entries (Keeper.ContributionAward s)) pagination of
       Inl err \<Rightarrow> Inl (StatusInternal err)
     | Inr (values, pageRes) \<Rightarrow> Inr (values, pageRes)))"

definition ListScopedEvidenceVouch :: "(u64, ScopedEvidenceVouch, 'p, 'q) paginator \<Rightarrow> Keeper \<Rightarrow> 'p option \<Rightarrow> go_error + (ScopedEvidenceVouch list \<times> 'q)" where
  "ListScopedEvidenceVouch paginate s req =
    (case req of
       None \<Rightarrow> Inl (StatusInvalidArgument ''invalid request'')
     | Some pagination \<Rightarrow>
    (case paginate (kv_entries (Keeper.ScopedEvidenceVouch s)) pagination of
       Inl err \<Rightarrow> Inl (StatusInternal err)
     | Inr (values, pageRes) \<Rightarrow> Inr (values, pageRes)))"

section \<open>Single records\<close>

definition GetAccount :: "Keeper \<Rightarrow> string option \<Rightarrow> go_error + Account" where
  "GetAccount s req =
    (case req of
       None \<Rightarrow> Inl (StatusInvalidArgument ''invalid request'')
     | Some key \<Rightarrow>
    (case kv_get (Keeper.Account s) key of
       None \<Rightarrow> Inl (StatusNotFound ''not found'')
     | Some val \<Rightarrow> Inr val))"

definition GetVouch :: "Keeper \<Rightarrow> u64 option \<Rightarrow> go_error + Vouch" where
  "GetVouch s req =
    (case req of
       None \<Rightarrow> Inl (StatusInvalidArgument ''invalid request'')
     | Some key \<Rightarrow>
    (case kv_get (Keeper.Vouch s) key of
       None \<Rightarrow> Inl (ErrKeyNotFound [])
     | Some val \<Rightarrow> Inr val))"

definition GetEscrow :: "Keeper \<Rightarrow> u64 option \<Rightarrow> go_error + Escrow" where
  "GetEscrow s req =
    (case req of
       None \<Rightarrow> Inl (StatusInvalidArgument ''invalid request'')
     | Some key \<Rightarrow>
    (case kv_get (Keeper.Escrow s) key of
       None \<Rightarrow> Inl (ErrKeyNotFound [])
     | Some val \<Rightarrow> Inr val))"

definition GetDispute :: "Keeper \<Rightarrow> u64 option \<Rightarrow> go_error + Dispute" where
  "GetDispute s req =
    (case req of
       None \<Rightarrow> Inl (StatusInvalidArgument ''invalid request'')
     | Some key \<Rightarrow>
    (case kv_get (Keeper.Dispute s) key of
       None \<Rightarrow> Inl (ErrKeyNotFound [])
     | Some val \<Rightarrow> Inr val))"

definition GetBond :: "Keeper \<Rightarrow> u64 option \<Rightarrow> go_error + Bond" where
  "GetBond s req =
    (case req of
       None \<Rightarrow> Inl (StatusInvalidArgument ''invalid request'')
     | Some key \<Rightarrow>
    (case kv_get (Keeper.Bond s) key of
       None \<Rightarrow> Inl (ErrKeyNotFound [])
     | Some val \<Rightarrow> Inr val))"

definition GetGate :: "Keeper \<Rightarrow> u64 option \<Rightarrow> go_error + Gate" where
  "GetGate s req =
    (case req of
       None \<Rightarrow> Inl (StatusInvalidArgument ''invalid request'')
     | Some key \<Rightarrow>
    (case kv_get (Keeper.Gate s) key of
       None \<Rightarrow> Inl (ErrKeyNotFound [])
     | Some val \<Rightarrow> Inr val))"

definition GetContributionAward :: "Keeper \<Rightarrow> u64 option \<Rightarrow> go_error + ContributionAward" where
  "GetContributionAward s req =
    (case req of
       None \<Rightarrow> Inl (StatusInvalidArgument ''invalid request'')
     | Some key \<Rightarrow>
    (case kv_get (Keeper.ContributionAward s) key of
       None \<Rightarrow> Inl (ErrKeyNotFound [])
     | Some val \<Rightarrow> Inr val))"

definition GetScopedEvidenceVouch :: "Keeper \<Rightarrow> u64 option \<Rightarrow> go_error + ScopedEvidenceVouch" where
  "GetScopedEvidenceVouch s req =
    (case req of
       None \<Rightarrow> Inl (StatusInvalidArgument ''invalid request'')
     | Some key \<Rightarrow>
    (case kv_get (Keeper.ScopedEvidenceVouch s) key of
       None \<Rightarrow> Inl (ErrKeyNotFound [])
     | Some val \<Rightarrow> Inr val))"

section \<open>Parameters and emission\<close>

text \<open>Parameters that were never set read as the zero value.\<close>

definition QueryParams :: "Keeper \<Rightarrow> unit option \<Rightarrow> go_error + Params" where
  "QueryParams s req =
    (case req of
       None \<Rightarrow> Inl (StatusInvalidArgument ''invalid request'')
     | Some _ \<Rightarrow>
    (case Keeper.Params s of
       None \<Rightarrow> Inr \<lparr>Params.Anchors = []\<rparr>
     | Some params \<Rightarrow> Inr params))"

definition QueryEmission :: "Env \<Rightarrow> Keeper \<Rightarrow> unit option \<Rightarrow> go_error + (EmissionState \<times> u64 \<times> u64)" where
  "QueryEmission env s req =
    (case req of
       None \<Rightarrow> Inl (StatusInvalidArgument ''invalid request'')
     | Some _ \<Rightarrow>
         (let emission = peekEmissionState env s
          in Inr (emission, RemainingScheduled emission, RemainingEpoch emission)))"

section \<open>Reading what the handlers use\<close>

text \<open>The peek of the query is the read of the handlers without the write.\<close>

lemma peek_is_get: "peekEmissionState env s = fst (getEmissionState env s)"
  by (simp add: peekEmissionState_def getEmissionState_def Let_def split: option.splits)

section \<open>Paging through a table\<close>

text \<open>
  Paging by key, as the SDK documents it: a page starts at a key (or at the front), holds at
  most the requested number of entries, and names the key at which the next page starts, if
  there is one.
\<close>

definition pagesByKey :: "('k::linorder, 'v, 'k option \<times> nat, 'k option) paginator \<Rightarrow> bool" where
  "pagesByKey paginate \<longleftrightarrow> (\<forall>es start n. sorted_wrt (<) (map fst es) \<longrightarrow> 0 < n \<longrightarrow>
      paginate es (start, n) =
        (let rest = (case start of None \<Rightarrow> es | Some k \<Rightarrow> filter (\<lambda>p. k \<le> fst p) es)
         in Inr (map snd (take n rest), if n < length rest then Some (fst (rest ! n)) else None)))"

text \<open>A client that follows the next keys, with a bound on the number of pages it asks for.\<close>

fun followPages :: "nat \<Rightarrow> ('k option \<Rightarrow> go_error + ('v list \<times> 'k option)) \<Rightarrow> 'k option \<Rightarrow> 'v list option" where
  "followPages 0 list start = None"
| "followPages (Suc pages) list start =
     (case list start of
        Inl err \<Rightarrow> None
      | Inr (vs, None) \<Rightarrow> Some vs
      | Inr (vs, Some k) \<Rightarrow> map_option (\<lambda>ws. vs @ ws) (followPages pages list (Some k)))"

lemma filter_from:
  assumes "sorted_wrt (<) (map fst (xs @ ys))" and "ys \<noteq> []"
  shows "filter (\<lambda>p. fst (hd ys) \<le> fst p) (xs @ ys) = (ys :: ('k::linorder \<times> 'v) list)"
proof -
  have "filter (\<lambda>p. fst (hd ys) \<le> fst p) xs = []"
    using assms by (cases ys) (auto simp: sorted_wrt_append filter_empty_conv not_le)
  moreover have "filter (\<lambda>p. fst (hd ys) \<le> fst p) ys = ys"
    using assms by (cases ys) (auto simp: sorted_wrt_append filter_id_conv intro: less_imp_le)
  ultimately show ?thesis by simp
qed

text \<open>The answers of one list query, for a fixed page size.\<close>

definition lists_table :: "('k::linorder \<times> 'v) list \<Rightarrow> nat \<Rightarrow> ('k option \<Rightarrow> go_error + ('v list \<times> 'k option)) \<Rightarrow> bool" where
  "lists_table es n list \<longleftrightarrow> (\<forall>start. list start =
     (let rest = (case start of None \<Rightarrow> es | Some k \<Rightarrow> filter (\<lambda>p. k \<le> fst p) es)
      in Inr (map snd (take n rest), if n < length rest then Some (fst (rest ! n)) else None)))"

lemma follow_rest:
  assumes "sorted_wrt (<) (map fst es)" and "0 < n" and "lists_table es n list"
    and "es = pre @ rest" and "rest \<noteq> []" and "length rest < pages"
  shows "followPages pages list (Some (fst (hd rest))) = Some (map snd rest)"
  using assms
proof (induction pages arbitrary: pre rest)
  case (Suc pages)
  have flt: "filter (\<lambda>p. fst (hd rest) \<le> fst p) es = rest"
    using filter_from [of pre rest] Suc.prems by simp
  note page = Suc.prems(3) [unfolded lists_table_def, rule_format, of "Some (fst (hd rest))"]
  show ?case
  proof (cases "n < length rest")
    case True
    let ?more = "drop n rest"
    have more: "?more \<noteq> []" "hd ?more = rest ! n" "length ?more < pages"
      using True Suc.prems by (auto simp: hd_drop_conv_nth)
    have "followPages pages list (Some (fst (hd ?more))) = Some (map snd ?more)"
      using Suc.prems more by (intro Suc.IH [of "pre @ take n rest"]) auto
    then show ?thesis
      using True page more by (simp add: flt Let_def) (metis append_take_drop_id map_append)
  next
    case False
    then show ?thesis using page by (simp add: flt Let_def)
  qed
qed simp

lemma follow_collects:
  assumes "sorted_wrt (<) (map fst es)" and "0 < n" and "lists_table es n list" and "length es < pages"
  shows "followPages pages list None = Some (map snd es)"
proof (cases pages)
  case (Suc pages')
  note page = assms(3) [unfolded lists_table_def, rule_format, of None]
  show ?thesis
  proof (cases "n < length es")
    case True
    have "followPages pages' list (Some (fst (hd (drop n es)))) = Some (map snd (drop n es))"
      using assms True Suc by (intro follow_rest [of es n list "take n es"]) auto
    then show ?thesis
      using True page Suc by (simp add: Let_def hd_drop_conv_nth) (metis append_take_drop_id map_append)
  qed (use page Suc in \<open>simp add: Let_def\<close>)
qed (use assms in simp)

lemma ListDispute_pages:
  "pagesByKey paginate \<Longrightarrow> 0 < n \<Longrightarrow>
     lists_table (kv_entries (Keeper.Dispute s)) n (\<lambda>start. ListDispute paginate s (Some (start, n)))"
  using kv.walk_ascending [of "Keeper.Dispute s"]
  by (simp add: lists_table_def ListDispute_def pagesByKey_def Let_def)

section \<open>Properties\<close>

text \<open>
  The jury is legible from the chain. Whoever lists the disputes and follows the next keys
  gets every stored case exactly once, in the order of their numbers, after at most one
  request per case and one more, whatever the page size.
\<close>
lemma listing_collects_disputes:
  assumes "pagesByKey paginate" and "0 < n" and "size (Keeper.Dispute s) < pages"
  shows "followPages pages (\<lambda>start. ListDispute paginate s (Some (start, n))) None = Some (kv_values (Keeper.Dispute s))"
  using follow_collects [OF kv.walk_ascending assms(2) ListDispute_pages [OF assms(1,2)], where pages = pages] assms(3)
  by (simp add: kv_values_def size_kvmap_def)

text \<open>Paging by key as a function.\<close>

definition keyPage :: "('k::linorder, 'v, 'k option \<times> nat, 'k option) paginator" where
  "keyPage es req =
     (let (start, n) = req; rest = (case start of None \<Rightarrow> es | Some k \<Rightarrow> filter (\<lambda>p. k \<le> fst p) es)
      in Inr (map snd (take n rest), if n < length rest then Some (fst (rest ! n)) else None))"

definition openCase :: "u64 \<Rightarrow> Dispute" where
  "openCase i = \<lparr>Dispute.Id = i, Dispute.EscrowId = i, Dispute.Opener = ''alice'', Dispute.Reason = ''late'',
     Dispute.Status = DisputeStatusOpen, Dispute.Resolution = [], Dispute.Votes = [], Dispute.BondId = i\<rparr>"

lemma listing_collects_disputes_witness:
  "followPages 4 (\<lambda>start. ListDispute keyPage (setDispute 2 (openCase 2) (setDispute 0 (openCase 0)
       (setDispute 1 (openCase 1) NewKeeper))) (Some (start, 2))) None = Some [openCase 0, openCase 1, openCase 2]"
proof -
  have "pagesByKey (keyPage :: (u64, Dispute, u64 option \<times> nat, u64 option) paginator)"
    by (simp add: pagesByKey_def keyPage_def)
  then show ?thesis
    by (subst listing_collects_disputes) (simp_all add: size_kvmap_def kv_values_def kv_walk_eval setDispute_def NewKeeper_def)
qed

end
