(* ===== verification/Gateway.thy ===== *)
theory Gateway
  imports Queries
begin

text \<open>
  The REST gateway of the queries (\<^verbatim>\<open>types/query.pb.gw.go\<close>): which URL reaches which query, and what
  becomes of the words of the URL on the way. A request is of a type \<open>'r\<close>, the page request of
  a list of a type \<open>'p\<close> and the page response of a type \<open>'q\<close>. The library of the gateway (reading
  path and form values, matching a pattern, choosing among the handlers of a multiplexer) is
  not part of the repository and is an argument. Contexts, marshallers, headers and trailers are left out.
\<close>

section \<open>The query service\<close>

text \<open>
  The interface \<^verbatim>\<open>QueryServer\<close>, which a \<^verbatim>\<open>QueryClient\<close> offers as well; the arguments are the fields
  of the request messages.
\<close>

record ('p, 'q) QueryServer =
  serveParams :: "unit \<Rightarrow> go_error + Params"
  serveGetAccount :: "string \<Rightarrow> go_error + Account"
  serveListAccount :: "'p \<Rightarrow> go_error + (Account list \<times> 'q)"
  serveGetVouch :: "u64 \<Rightarrow> go_error + Vouch"
  serveListVouch :: "'p \<Rightarrow> go_error + (Vouch list \<times> 'q)"
  serveReputation :: "string \<Rightarrow> go_error + string"
  serveGetEscrow :: "u64 \<Rightarrow> go_error + Escrow"
  serveListEscrow :: "'p \<Rightarrow> go_error + (Escrow list \<times> 'q)"
  serveGetDispute :: "u64 \<Rightarrow> go_error + Dispute"
  serveListDispute :: "'p \<Rightarrow> go_error + (Dispute list \<times> 'q)"
  serveGetBond :: "u64 \<Rightarrow> go_error + Bond"
  serveListBond :: "'p \<Rightarrow> go_error + (Bond list \<times> 'q)"
  serveGetContributionAward :: "u64 \<Rightarrow> go_error + ContributionAward"
  serveListContributionAward :: "'p \<Rightarrow> go_error + (ContributionAward list \<times> 'q)"
  serveGetGate :: "u64 \<Rightarrow> go_error + Gate"
  serveListGate :: "'p \<Rightarrow> go_error + (Gate list \<times> 'q)"
  serveGetScopedEvidenceVouch :: "u64 \<Rightarrow> go_error + ScopedEvidenceVouch"
  serveListScopedEvidenceVouch :: "'p \<Rightarrow> go_error + (ScopedEvidenceVouch list \<times> 'q)"
  serveEmission :: "unit \<Rightarrow> go_error + (EmissionState \<times> u64 \<times> u64)"

datatype 'q QueryResponse =
    ParamsResponse Params
  | AccountResponse Account
  | AccountsResponse "Account list" 'q
  | VouchResponse Vouch
  | VouchesResponse "Vouch list" 'q
  | ReputationResponse string
  | EscrowResponse Escrow
  | EscrowsResponse "Escrow list" 'q
  | DisputeResponse Dispute
  | DisputesResponse "Dispute list" 'q
  | BondResponse Bond
  | BondsResponse "Bond list" 'q
  | ContributionAwardResponse ContributionAward
  | ContributionAwardsResponse "ContributionAward list" 'q
  | GateResponse Gate
  | GatesResponse "Gate list" 'q
  | ScopedEvidenceVouchResponse ScopedEvidenceVouch
  | ScopedEvidenceVouchesResponse "ScopedEvidenceVouch list" 'q
  | EmissionResponse EmissionState u64 u64

section \<open>From the request to the call\<close>

type_synonym path_params = "string \<rightharpoonup> string"

text \<open>
  What the generated code calls of the library. All list queries pass the empty
  filter to \<open>PopulateQueryParameters\<close>.
\<close>

record ('r, 'f, 'p) gateway =
  AnnotateContext :: "'r \<Rightarrow> go_error option"
  AnnotateIncomingContext :: "'r \<Rightarrow> go_error option"
  ParseForm :: "'r \<Rightarrow> string + 'f"
  PopulateQueryParameters :: "'f \<Rightarrow> string list \<Rightarrow> string + 'p"
  runtimeString :: "string \<Rightarrow> string + string"
  runtimeUint64 :: "string \<Rightarrow> string + u64"

text \<open>A value out of the path, and the page request out of the form; then the call.\<close>

definition withPath ::
  "path_params \<Rightarrow> string \<Rightarrow> (string \<Rightarrow> string + 'v) \<Rightarrow> ('v \<Rightarrow> go_error + 'm) \<Rightarrow> go_error + 'm" where
  "withPath pathParams name convert call =
     (case pathParams name of
        None \<Rightarrow> Inl (StatusInvalidArgument (''missing parameter '' @ name))
      | Some val \<Rightarrow>
     (case convert val of
        Inl err \<Rightarrow> Inl (StatusInvalidArgument (''type mismatch, parameter: '' @ name @ '', error: '' @ err))
      | Inr v \<Rightarrow> call v))"

definition withForm ::
  "('r, 'f, 'p) gateway \<Rightarrow> 'r \<Rightarrow> string list \<Rightarrow> ('p \<Rightarrow> go_error + 'm) \<Rightarrow> go_error + 'm" where
  "withForm rt req flt call =
     (case ParseForm rt req of
        Inl err \<Rightarrow> Inl (StatusInvalidArgument err)
      | Inr form \<Rightarrow>
     (case PopulateQueryParameters rt form flt of
        Inl err \<Rightarrow> Inl (StatusInvalidArgument err)
      | Inr pagination \<Rightarrow> call pagination))"

text \<open>
  The functions of the client side and of the local side; each calls its query with what it has read.
\<close>

definition request_Query_Params_0 ::
  "('r, 'f, 'p) gateway \<Rightarrow> ('p, 'q) QueryServer \<Rightarrow> 'r \<Rightarrow> path_params \<Rightarrow> go_error + 'q QueryResponse" where
  "request_Query_Params_0 rt client req pathParams = map_sum id ParamsResponse (serveParams client ())"

definition local_request_Query_Params_0 ::
  "('r, 'f, 'p) gateway \<Rightarrow> ('p, 'q) QueryServer \<Rightarrow> 'r \<Rightarrow> path_params \<Rightarrow> go_error + 'q QueryResponse" where
  "local_request_Query_Params_0 rt server req pathParams = map_sum id ParamsResponse (serveParams server ())"

definition request_Query_GetAccount_0 ::
  "('r, 'f, 'p) gateway \<Rightarrow> ('p, 'q) QueryServer \<Rightarrow> 'r \<Rightarrow> path_params \<Rightarrow> go_error + 'q QueryResponse" where
  "request_Query_GetAccount_0 rt client req pathParams = withPath pathParams ''address'' (runtimeString rt) (\<lambda>v. map_sum id AccountResponse (serveGetAccount client v))"

definition local_request_Query_GetAccount_0 ::
  "('r, 'f, 'p) gateway \<Rightarrow> ('p, 'q) QueryServer \<Rightarrow> 'r \<Rightarrow> path_params \<Rightarrow> go_error + 'q QueryResponse" where
  "local_request_Query_GetAccount_0 rt server req pathParams = withPath pathParams ''address'' (runtimeString rt) (\<lambda>v. map_sum id AccountResponse (serveGetAccount server v))"

definition request_Query_ListAccount_0 ::
  "('r, 'f, 'p) gateway \<Rightarrow> ('p, 'q) QueryServer \<Rightarrow> 'r \<Rightarrow> path_params \<Rightarrow> go_error + 'q QueryResponse" where
  "request_Query_ListAccount_0 rt client req pathParams = withForm rt req [] (\<lambda>pagination. map_sum id (\<lambda>(vs, page). AccountsResponse vs page) (serveListAccount client pagination))"

definition local_request_Query_ListAccount_0 ::
  "('r, 'f, 'p) gateway \<Rightarrow> ('p, 'q) QueryServer \<Rightarrow> 'r \<Rightarrow> path_params \<Rightarrow> go_error + 'q QueryResponse" where
  "local_request_Query_ListAccount_0 rt server req pathParams = withForm rt req [] (\<lambda>pagination. map_sum id (\<lambda>(vs, page). AccountsResponse vs page) (serveListAccount server pagination))"

definition request_Query_GetVouch_0 ::
  "('r, 'f, 'p) gateway \<Rightarrow> ('p, 'q) QueryServer \<Rightarrow> 'r \<Rightarrow> path_params \<Rightarrow> go_error + 'q QueryResponse" where
  "request_Query_GetVouch_0 rt client req pathParams = withPath pathParams ''id'' (runtimeUint64 rt) (\<lambda>v. map_sum id VouchResponse (serveGetVouch client v))"

definition local_request_Query_GetVouch_0 ::
  "('r, 'f, 'p) gateway \<Rightarrow> ('p, 'q) QueryServer \<Rightarrow> 'r \<Rightarrow> path_params \<Rightarrow> go_error + 'q QueryResponse" where
  "local_request_Query_GetVouch_0 rt server req pathParams = withPath pathParams ''id'' (runtimeUint64 rt) (\<lambda>v. map_sum id VouchResponse (serveGetVouch server v))"

definition request_Query_ListVouch_0 ::
  "('r, 'f, 'p) gateway \<Rightarrow> ('p, 'q) QueryServer \<Rightarrow> 'r \<Rightarrow> path_params \<Rightarrow> go_error + 'q QueryResponse" where
  "request_Query_ListVouch_0 rt client req pathParams = withForm rt req [] (\<lambda>pagination. map_sum id (\<lambda>(vs, page). VouchesResponse vs page) (serveListVouch client pagination))"

definition local_request_Query_ListVouch_0 ::
  "('r, 'f, 'p) gateway \<Rightarrow> ('p, 'q) QueryServer \<Rightarrow> 'r \<Rightarrow> path_params \<Rightarrow> go_error + 'q QueryResponse" where
  "local_request_Query_ListVouch_0 rt server req pathParams = withForm rt req [] (\<lambda>pagination. map_sum id (\<lambda>(vs, page). VouchesResponse vs page) (serveListVouch server pagination))"

definition request_Query_Reputation_0 ::
  "('r, 'f, 'p) gateway \<Rightarrow> ('p, 'q) QueryServer \<Rightarrow> 'r \<Rightarrow> path_params \<Rightarrow> go_error + 'q QueryResponse" where
  "request_Query_Reputation_0 rt client req pathParams = withPath pathParams ''address'' (runtimeString rt) (\<lambda>v. map_sum id ReputationResponse (serveReputation client v))"

definition local_request_Query_Reputation_0 ::
  "('r, 'f, 'p) gateway \<Rightarrow> ('p, 'q) QueryServer \<Rightarrow> 'r \<Rightarrow> path_params \<Rightarrow> go_error + 'q QueryResponse" where
  "local_request_Query_Reputation_0 rt server req pathParams = withPath pathParams ''address'' (runtimeString rt) (\<lambda>v. map_sum id ReputationResponse (serveReputation server v))"

definition request_Query_GetEscrow_0 ::
  "('r, 'f, 'p) gateway \<Rightarrow> ('p, 'q) QueryServer \<Rightarrow> 'r \<Rightarrow> path_params \<Rightarrow> go_error + 'q QueryResponse" where
  "request_Query_GetEscrow_0 rt client req pathParams = withPath pathParams ''id'' (runtimeUint64 rt) (\<lambda>v. map_sum id EscrowResponse (serveGetEscrow client v))"

definition local_request_Query_GetEscrow_0 ::
  "('r, 'f, 'p) gateway \<Rightarrow> ('p, 'q) QueryServer \<Rightarrow> 'r \<Rightarrow> path_params \<Rightarrow> go_error + 'q QueryResponse" where
  "local_request_Query_GetEscrow_0 rt server req pathParams = withPath pathParams ''id'' (runtimeUint64 rt) (\<lambda>v. map_sum id EscrowResponse (serveGetEscrow server v))"

definition request_Query_ListEscrow_0 ::
  "('r, 'f, 'p) gateway \<Rightarrow> ('p, 'q) QueryServer \<Rightarrow> 'r \<Rightarrow> path_params \<Rightarrow> go_error + 'q QueryResponse" where
  "request_Query_ListEscrow_0 rt client req pathParams = withForm rt req [] (\<lambda>pagination. map_sum id (\<lambda>(vs, page). EscrowsResponse vs page) (serveListEscrow client pagination))"

definition local_request_Query_ListEscrow_0 ::
  "('r, 'f, 'p) gateway \<Rightarrow> ('p, 'q) QueryServer \<Rightarrow> 'r \<Rightarrow> path_params \<Rightarrow> go_error + 'q QueryResponse" where
  "local_request_Query_ListEscrow_0 rt server req pathParams = withForm rt req [] (\<lambda>pagination. map_sum id (\<lambda>(vs, page). EscrowsResponse vs page) (serveListEscrow server pagination))"

definition request_Query_GetDispute_0 ::
  "('r, 'f, 'p) gateway \<Rightarrow> ('p, 'q) QueryServer \<Rightarrow> 'r \<Rightarrow> path_params \<Rightarrow> go_error + 'q QueryResponse" where
  "request_Query_GetDispute_0 rt client req pathParams = withPath pathParams ''id'' (runtimeUint64 rt) (\<lambda>v. map_sum id DisputeResponse (serveGetDispute client v))"

definition local_request_Query_GetDispute_0 ::
  "('r, 'f, 'p) gateway \<Rightarrow> ('p, 'q) QueryServer \<Rightarrow> 'r \<Rightarrow> path_params \<Rightarrow> go_error + 'q QueryResponse" where
  "local_request_Query_GetDispute_0 rt server req pathParams = withPath pathParams ''id'' (runtimeUint64 rt) (\<lambda>v. map_sum id DisputeResponse (serveGetDispute server v))"

definition request_Query_ListDispute_0 ::
  "('r, 'f, 'p) gateway \<Rightarrow> ('p, 'q) QueryServer \<Rightarrow> 'r \<Rightarrow> path_params \<Rightarrow> go_error + 'q QueryResponse" where
  "request_Query_ListDispute_0 rt client req pathParams = withForm rt req [] (\<lambda>pagination. map_sum id (\<lambda>(vs, page). DisputesResponse vs page) (serveListDispute client pagination))"

definition local_request_Query_ListDispute_0 ::
  "('r, 'f, 'p) gateway \<Rightarrow> ('p, 'q) QueryServer \<Rightarrow> 'r \<Rightarrow> path_params \<Rightarrow> go_error + 'q QueryResponse" where
  "local_request_Query_ListDispute_0 rt server req pathParams = withForm rt req [] (\<lambda>pagination. map_sum id (\<lambda>(vs, page). DisputesResponse vs page) (serveListDispute server pagination))"

definition request_Query_GetBond_0 ::
  "('r, 'f, 'p) gateway \<Rightarrow> ('p, 'q) QueryServer \<Rightarrow> 'r \<Rightarrow> path_params \<Rightarrow> go_error + 'q QueryResponse" where
  "request_Query_GetBond_0 rt client req pathParams = withPath pathParams ''id'' (runtimeUint64 rt) (\<lambda>v. map_sum id BondResponse (serveGetBond client v))"

definition local_request_Query_GetBond_0 ::
  "('r, 'f, 'p) gateway \<Rightarrow> ('p, 'q) QueryServer \<Rightarrow> 'r \<Rightarrow> path_params \<Rightarrow> go_error + 'q QueryResponse" where
  "local_request_Query_GetBond_0 rt server req pathParams = withPath pathParams ''id'' (runtimeUint64 rt) (\<lambda>v. map_sum id BondResponse (serveGetBond server v))"

definition request_Query_ListBond_0 ::
  "('r, 'f, 'p) gateway \<Rightarrow> ('p, 'q) QueryServer \<Rightarrow> 'r \<Rightarrow> path_params \<Rightarrow> go_error + 'q QueryResponse" where
  "request_Query_ListBond_0 rt client req pathParams = withForm rt req [] (\<lambda>pagination. map_sum id (\<lambda>(vs, page). BondsResponse vs page) (serveListBond client pagination))"

definition local_request_Query_ListBond_0 ::
  "('r, 'f, 'p) gateway \<Rightarrow> ('p, 'q) QueryServer \<Rightarrow> 'r \<Rightarrow> path_params \<Rightarrow> go_error + 'q QueryResponse" where
  "local_request_Query_ListBond_0 rt server req pathParams = withForm rt req [] (\<lambda>pagination. map_sum id (\<lambda>(vs, page). BondsResponse vs page) (serveListBond server pagination))"

definition request_Query_GetContributionAward_0 ::
  "('r, 'f, 'p) gateway \<Rightarrow> ('p, 'q) QueryServer \<Rightarrow> 'r \<Rightarrow> path_params \<Rightarrow> go_error + 'q QueryResponse" where
  "request_Query_GetContributionAward_0 rt client req pathParams = withPath pathParams ''id'' (runtimeUint64 rt) (\<lambda>v. map_sum id ContributionAwardResponse (serveGetContributionAward client v))"

definition local_request_Query_GetContributionAward_0 ::
  "('r, 'f, 'p) gateway \<Rightarrow> ('p, 'q) QueryServer \<Rightarrow> 'r \<Rightarrow> path_params \<Rightarrow> go_error + 'q QueryResponse" where
  "local_request_Query_GetContributionAward_0 rt server req pathParams = withPath pathParams ''id'' (runtimeUint64 rt) (\<lambda>v. map_sum id ContributionAwardResponse (serveGetContributionAward server v))"

definition request_Query_ListContributionAward_0 ::
  "('r, 'f, 'p) gateway \<Rightarrow> ('p, 'q) QueryServer \<Rightarrow> 'r \<Rightarrow> path_params \<Rightarrow> go_error + 'q QueryResponse" where
  "request_Query_ListContributionAward_0 rt client req pathParams = withForm rt req [] (\<lambda>pagination. map_sum id (\<lambda>(vs, page). ContributionAwardsResponse vs page) (serveListContributionAward client pagination))"

definition local_request_Query_ListContributionAward_0 ::
  "('r, 'f, 'p) gateway \<Rightarrow> ('p, 'q) QueryServer \<Rightarrow> 'r \<Rightarrow> path_params \<Rightarrow> go_error + 'q QueryResponse" where
  "local_request_Query_ListContributionAward_0 rt server req pathParams = withForm rt req [] (\<lambda>pagination. map_sum id (\<lambda>(vs, page). ContributionAwardsResponse vs page) (serveListContributionAward server pagination))"

definition request_Query_GetGate_0 ::
  "('r, 'f, 'p) gateway \<Rightarrow> ('p, 'q) QueryServer \<Rightarrow> 'r \<Rightarrow> path_params \<Rightarrow> go_error + 'q QueryResponse" where
  "request_Query_GetGate_0 rt client req pathParams = withPath pathParams ''id'' (runtimeUint64 rt) (\<lambda>v. map_sum id GateResponse (serveGetGate client v))"

definition local_request_Query_GetGate_0 ::
  "('r, 'f, 'p) gateway \<Rightarrow> ('p, 'q) QueryServer \<Rightarrow> 'r \<Rightarrow> path_params \<Rightarrow> go_error + 'q QueryResponse" where
  "local_request_Query_GetGate_0 rt server req pathParams = withPath pathParams ''id'' (runtimeUint64 rt) (\<lambda>v. map_sum id GateResponse (serveGetGate server v))"

definition request_Query_ListGate_0 ::
  "('r, 'f, 'p) gateway \<Rightarrow> ('p, 'q) QueryServer \<Rightarrow> 'r \<Rightarrow> path_params \<Rightarrow> go_error + 'q QueryResponse" where
  "request_Query_ListGate_0 rt client req pathParams = withForm rt req [] (\<lambda>pagination. map_sum id (\<lambda>(vs, page). GatesResponse vs page) (serveListGate client pagination))"

definition local_request_Query_ListGate_0 ::
  "('r, 'f, 'p) gateway \<Rightarrow> ('p, 'q) QueryServer \<Rightarrow> 'r \<Rightarrow> path_params \<Rightarrow> go_error + 'q QueryResponse" where
  "local_request_Query_ListGate_0 rt server req pathParams = withForm rt req [] (\<lambda>pagination. map_sum id (\<lambda>(vs, page). GatesResponse vs page) (serveListGate server pagination))"

definition request_Query_GetScopedEvidenceVouch_0 ::
  "('r, 'f, 'p) gateway \<Rightarrow> ('p, 'q) QueryServer \<Rightarrow> 'r \<Rightarrow> path_params \<Rightarrow> go_error + 'q QueryResponse" where
  "request_Query_GetScopedEvidenceVouch_0 rt client req pathParams = withPath pathParams ''id'' (runtimeUint64 rt) (\<lambda>v. map_sum id ScopedEvidenceVouchResponse (serveGetScopedEvidenceVouch client v))"

definition local_request_Query_GetScopedEvidenceVouch_0 ::
  "('r, 'f, 'p) gateway \<Rightarrow> ('p, 'q) QueryServer \<Rightarrow> 'r \<Rightarrow> path_params \<Rightarrow> go_error + 'q QueryResponse" where
  "local_request_Query_GetScopedEvidenceVouch_0 rt server req pathParams = withPath pathParams ''id'' (runtimeUint64 rt) (\<lambda>v. map_sum id ScopedEvidenceVouchResponse (serveGetScopedEvidenceVouch server v))"

definition request_Query_ListScopedEvidenceVouch_0 ::
  "('r, 'f, 'p) gateway \<Rightarrow> ('p, 'q) QueryServer \<Rightarrow> 'r \<Rightarrow> path_params \<Rightarrow> go_error + 'q QueryResponse" where
  "request_Query_ListScopedEvidenceVouch_0 rt client req pathParams = withForm rt req [] (\<lambda>pagination. map_sum id (\<lambda>(vs, page). ScopedEvidenceVouchesResponse vs page) (serveListScopedEvidenceVouch client pagination))"

definition local_request_Query_ListScopedEvidenceVouch_0 ::
  "('r, 'f, 'p) gateway \<Rightarrow> ('p, 'q) QueryServer \<Rightarrow> 'r \<Rightarrow> path_params \<Rightarrow> go_error + 'q QueryResponse" where
  "local_request_Query_ListScopedEvidenceVouch_0 rt server req pathParams = withForm rt req [] (\<lambda>pagination. map_sum id (\<lambda>(vs, page). ScopedEvidenceVouchesResponse vs page) (serveListScopedEvidenceVouch server pagination))"

definition request_Query_Emission_0 ::
  "('r, 'f, 'p) gateway \<Rightarrow> ('p, 'q) QueryServer \<Rightarrow> 'r \<Rightarrow> path_params \<Rightarrow> go_error + 'q QueryResponse" where
  "request_Query_Emission_0 rt client req pathParams = map_sum id (\<lambda>(e, s, r). EmissionResponse e s r) (serveEmission client ())"

definition local_request_Query_Emission_0 ::
  "('r, 'f, 'p) gateway \<Rightarrow> ('p, 'q) QueryServer \<Rightarrow> 'r \<Rightarrow> path_params \<Rightarrow> go_error + 'q QueryResponse" where
  "local_request_Query_Emission_0 rt server req pathParams = map_sum id (\<lambda>(e, s, r). EmissionResponse e s r) (serveEmission server ())"

section \<open>Patterns\<close>

text \<open>
  A compiled URL template: operations (pairs of a code and an operand) and the pool of words they
  refer to.
\<close>

record Pattern =
  Version :: int
  Ops :: "int list"
  Pool :: "string list"
  Verb :: string

definition NewPattern :: "int \<Rightarrow> int list \<Rightarrow> string list \<Rightarrow> string \<Rightarrow> Pattern" where
  "NewPattern version ops pool verb = \<lparr>Version = version, Ops = ops, Pool = pool, Verb = verb\<rparr>"

definition pattern_Query_Params_0 :: Pattern where
  "pattern_Query_Params_0 = NewPattern 1 [2, 0, 2, 1, 2, 1, 2, 2, 2, 3] [''zoltankiss'', ''agntcoin'', ''v1'', ''params''] ''''"

definition pattern_Query_GetAccount_0 :: Pattern where
  "pattern_Query_GetAccount_0 = NewPattern 1 [2, 0, 2, 1, 2, 1, 2, 2, 2, 3, 1, 0, 4, 1, 5, 4] [''zoltankiss'', ''agntcoin'', ''v1'', ''account'', ''address''] ''''"

definition pattern_Query_ListAccount_0 :: Pattern where
  "pattern_Query_ListAccount_0 = NewPattern 1 [2, 0, 2, 1, 2, 1, 2, 2, 2, 3] [''zoltankiss'', ''agntcoin'', ''v1'', ''account''] ''''"

definition pattern_Query_GetVouch_0 :: Pattern where
  "pattern_Query_GetVouch_0 = NewPattern 1 [2, 0, 2, 1, 2, 1, 2, 2, 2, 3, 1, 0, 4, 1, 5, 4] [''zoltankiss'', ''agntcoin'', ''v1'', ''vouch'', ''id''] ''''"

definition pattern_Query_ListVouch_0 :: Pattern where
  "pattern_Query_ListVouch_0 = NewPattern 1 [2, 0, 2, 1, 2, 1, 2, 2, 2, 3] [''zoltankiss'', ''agntcoin'', ''v1'', ''vouch''] ''''"

definition pattern_Query_Reputation_0 :: Pattern where
  "pattern_Query_Reputation_0 = NewPattern 1 [2, 0, 2, 1, 2, 1, 2, 2, 2, 3, 1, 0, 4, 1, 5, 4] [''zoltankiss'', ''agntcoin'', ''v1'', ''reputation'', ''address''] ''''"

definition pattern_Query_GetEscrow_0 :: Pattern where
  "pattern_Query_GetEscrow_0 = NewPattern 1 [2, 0, 2, 1, 2, 1, 2, 2, 2, 3, 1, 0, 4, 1, 5, 4] [''zoltankiss'', ''agntcoin'', ''v1'', ''escrow'', ''id''] ''''"

definition pattern_Query_ListEscrow_0 :: Pattern where
  "pattern_Query_ListEscrow_0 = NewPattern 1 [2, 0, 2, 1, 2, 1, 2, 2, 2, 3] [''zoltankiss'', ''agntcoin'', ''v1'', ''escrow''] ''''"

definition pattern_Query_GetDispute_0 :: Pattern where
  "pattern_Query_GetDispute_0 = NewPattern 1 [2, 0, 2, 1, 2, 1, 2, 2, 2, 3, 1, 0, 4, 1, 5, 4] [''zoltankiss'', ''agntcoin'', ''v1'', ''dispute'', ''id''] ''''"

definition pattern_Query_ListDispute_0 :: Pattern where
  "pattern_Query_ListDispute_0 = NewPattern 1 [2, 0, 2, 1, 2, 1, 2, 2, 2, 3] [''zoltankiss'', ''agntcoin'', ''v1'', ''dispute''] ''''"

definition pattern_Query_GetBond_0 :: Pattern where
  "pattern_Query_GetBond_0 = NewPattern 1 [2, 0, 2, 1, 2, 1, 2, 2, 2, 3, 1, 0, 4, 1, 5, 4] [''zoltankiss'', ''agntcoin'', ''v1'', ''bond'', ''id''] ''''"

definition pattern_Query_ListBond_0 :: Pattern where
  "pattern_Query_ListBond_0 = NewPattern 1 [2, 0, 2, 1, 2, 1, 2, 2, 2, 3] [''zoltankiss'', ''agntcoin'', ''v1'', ''bond''] ''''"

definition pattern_Query_GetContributionAward_0 :: Pattern where
  "pattern_Query_GetContributionAward_0 = NewPattern 1 [2, 0, 2, 1, 2, 1, 2, 2, 2, 3, 1, 0, 4, 1, 5, 4] [''zoltankiss'', ''agntcoin'', ''v1'', ''contribution-award'', ''id''] ''''"

definition pattern_Query_ListContributionAward_0 :: Pattern where
  "pattern_Query_ListContributionAward_0 = NewPattern 1 [2, 0, 2, 1, 2, 1, 2, 2, 2, 3] [''zoltankiss'', ''agntcoin'', ''v1'', ''contribution-award''] ''''"

definition pattern_Query_GetGate_0 :: Pattern where
  "pattern_Query_GetGate_0 = NewPattern 1 [2, 0, 2, 1, 2, 1, 2, 2, 2, 3, 1, 0, 4, 1, 5, 4] [''zoltankiss'', ''agntcoin'', ''v1'', ''gate'', ''id''] ''''"

definition pattern_Query_ListGate_0 :: Pattern where
  "pattern_Query_ListGate_0 = NewPattern 1 [2, 0, 2, 1, 2, 1, 2, 2, 2, 3] [''zoltankiss'', ''agntcoin'', ''v1'', ''gate''] ''''"

definition pattern_Query_GetScopedEvidenceVouch_0 :: Pattern where
  "pattern_Query_GetScopedEvidenceVouch_0 = NewPattern 1 [2, 0, 2, 1, 2, 1, 2, 2, 2, 3, 1, 0, 4, 1, 5, 4] [''zoltankiss'', ''agntcoin'', ''v1'', ''scoped-evidence-vouch'', ''id''] ''''"

definition pattern_Query_ListScopedEvidenceVouch_0 :: Pattern where
  "pattern_Query_ListScopedEvidenceVouch_0 = NewPattern 1 [2, 0, 2, 1, 2, 1, 2, 2, 2, 3] [''zoltankiss'', ''agntcoin'', ''v1'', ''scoped-evidence-vouch''] ''''"

definition pattern_Query_Emission_0 :: Pattern where
  "pattern_Query_Emission_0 = NewPattern 1 [2, 0, 2, 1, 2, 1, 2, 2, 2, 3] [''zoltankiss'', ''agntcoin'', ''v1'', ''emission''] ''''"

section \<open>Registration\<close>

text \<open>
  A multiplexer is the list of its registrations, in the order in which they were made: method,
  pattern and handler. A handler answers with an HTTP error or forwards the response of the query.
\<close>

datatype 'q reply = HTTPError go_error | ForwardResponseMessage "'q QueryResponse"

type_synonym ('r, 'q) mux = "(string \<times> Pattern \<times> ('r \<Rightarrow> path_params \<Rightarrow> 'q reply)) list"

definition Handle ::
  "string \<Rightarrow> Pattern \<Rightarrow> ('r \<Rightarrow> path_params \<Rightarrow> 'q reply) \<Rightarrow> ('r, 'q) mux \<Rightarrow> ('r, 'q) mux" where
  "Handle meth pat h mux = mux @ [(meth, pat, h)]"

definition serverHandler ::
  "('r, 'f, 'p) gateway \<Rightarrow> ('r \<Rightarrow> path_params \<Rightarrow> go_error + 'q QueryResponse) \<Rightarrow> 'r \<Rightarrow> path_params \<Rightarrow> 'q reply" where
  "serverHandler rt local_request req pathParams =
     (case AnnotateIncomingContext rt req of
        Some err \<Rightarrow> HTTPError err
      | None \<Rightarrow>
     (case local_request req pathParams of
        Inl err \<Rightarrow> HTTPError err
      | Inr resp \<Rightarrow> ForwardResponseMessage resp))"

definition clientHandler ::
  "('r, 'f, 'p) gateway \<Rightarrow> ('r \<Rightarrow> path_params \<Rightarrow> go_error + 'q QueryResponse) \<Rightarrow> 'r \<Rightarrow> path_params \<Rightarrow> 'q reply" where
  "clientHandler rt request req pathParams =
     (case AnnotateContext rt req of
        Some err \<Rightarrow> HTTPError err
      | None \<Rightarrow>
     (case request req pathParams of
        Inl err \<Rightarrow> HTTPError err
      | Inr resp \<Rightarrow> ForwardResponseMessage resp))"

text \<open>One registration each, first those of the local side.\<close>

definition handle_server_Params ::
  "('r, 'f, 'p) gateway \<Rightarrow> ('p, 'q) QueryServer \<Rightarrow> ('r, 'q) mux \<Rightarrow> ('r, 'q) mux" where
  "handle_server_Params rt server = Handle ''GET'' pattern_Query_Params_0 (serverHandler rt (local_request_Query_Params_0 rt server))"

definition handle_server_GetAccount ::
  "('r, 'f, 'p) gateway \<Rightarrow> ('p, 'q) QueryServer \<Rightarrow> ('r, 'q) mux \<Rightarrow> ('r, 'q) mux" where
  "handle_server_GetAccount rt server = Handle ''GET'' pattern_Query_GetAccount_0 (serverHandler rt (local_request_Query_GetAccount_0 rt server))"

definition handle_server_ListAccount ::
  "('r, 'f, 'p) gateway \<Rightarrow> ('p, 'q) QueryServer \<Rightarrow> ('r, 'q) mux \<Rightarrow> ('r, 'q) mux" where
  "handle_server_ListAccount rt server = Handle ''GET'' pattern_Query_ListAccount_0 (serverHandler rt (local_request_Query_ListAccount_0 rt server))"

definition handle_server_GetVouch ::
  "('r, 'f, 'p) gateway \<Rightarrow> ('p, 'q) QueryServer \<Rightarrow> ('r, 'q) mux \<Rightarrow> ('r, 'q) mux" where
  "handle_server_GetVouch rt server = Handle ''GET'' pattern_Query_GetVouch_0 (serverHandler rt (local_request_Query_GetVouch_0 rt server))"

definition handle_server_ListVouch ::
  "('r, 'f, 'p) gateway \<Rightarrow> ('p, 'q) QueryServer \<Rightarrow> ('r, 'q) mux \<Rightarrow> ('r, 'q) mux" where
  "handle_server_ListVouch rt server = Handle ''GET'' pattern_Query_ListVouch_0 (serverHandler rt (local_request_Query_ListVouch_0 rt server))"

definition handle_server_Reputation ::
  "('r, 'f, 'p) gateway \<Rightarrow> ('p, 'q) QueryServer \<Rightarrow> ('r, 'q) mux \<Rightarrow> ('r, 'q) mux" where
  "handle_server_Reputation rt server = Handle ''GET'' pattern_Query_Reputation_0 (serverHandler rt (local_request_Query_Reputation_0 rt server))"

definition handle_server_GetEscrow ::
  "('r, 'f, 'p) gateway \<Rightarrow> ('p, 'q) QueryServer \<Rightarrow> ('r, 'q) mux \<Rightarrow> ('r, 'q) mux" where
  "handle_server_GetEscrow rt server = Handle ''GET'' pattern_Query_GetEscrow_0 (serverHandler rt (local_request_Query_GetEscrow_0 rt server))"

definition handle_server_ListEscrow ::
  "('r, 'f, 'p) gateway \<Rightarrow> ('p, 'q) QueryServer \<Rightarrow> ('r, 'q) mux \<Rightarrow> ('r, 'q) mux" where
  "handle_server_ListEscrow rt server = Handle ''GET'' pattern_Query_ListEscrow_0 (serverHandler rt (local_request_Query_ListEscrow_0 rt server))"

definition handle_server_GetDispute ::
  "('r, 'f, 'p) gateway \<Rightarrow> ('p, 'q) QueryServer \<Rightarrow> ('r, 'q) mux \<Rightarrow> ('r, 'q) mux" where
  "handle_server_GetDispute rt server = Handle ''GET'' pattern_Query_GetDispute_0 (serverHandler rt (local_request_Query_GetDispute_0 rt server))"

definition handle_server_ListDispute ::
  "('r, 'f, 'p) gateway \<Rightarrow> ('p, 'q) QueryServer \<Rightarrow> ('r, 'q) mux \<Rightarrow> ('r, 'q) mux" where
  "handle_server_ListDispute rt server = Handle ''GET'' pattern_Query_ListDispute_0 (serverHandler rt (local_request_Query_ListDispute_0 rt server))"

definition handle_server_GetBond ::
  "('r, 'f, 'p) gateway \<Rightarrow> ('p, 'q) QueryServer \<Rightarrow> ('r, 'q) mux \<Rightarrow> ('r, 'q) mux" where
  "handle_server_GetBond rt server = Handle ''GET'' pattern_Query_GetBond_0 (serverHandler rt (local_request_Query_GetBond_0 rt server))"

definition handle_server_ListBond ::
  "('r, 'f, 'p) gateway \<Rightarrow> ('p, 'q) QueryServer \<Rightarrow> ('r, 'q) mux \<Rightarrow> ('r, 'q) mux" where
  "handle_server_ListBond rt server = Handle ''GET'' pattern_Query_ListBond_0 (serverHandler rt (local_request_Query_ListBond_0 rt server))"

definition handle_server_GetContributionAward ::
  "('r, 'f, 'p) gateway \<Rightarrow> ('p, 'q) QueryServer \<Rightarrow> ('r, 'q) mux \<Rightarrow> ('r, 'q) mux" where
  "handle_server_GetContributionAward rt server = Handle ''GET'' pattern_Query_GetContributionAward_0 (serverHandler rt (local_request_Query_GetContributionAward_0 rt server))"

definition handle_server_ListContributionAward ::
  "('r, 'f, 'p) gateway \<Rightarrow> ('p, 'q) QueryServer \<Rightarrow> ('r, 'q) mux \<Rightarrow> ('r, 'q) mux" where
  "handle_server_ListContributionAward rt server = Handle ''GET'' pattern_Query_ListContributionAward_0 (serverHandler rt (local_request_Query_ListContributionAward_0 rt server))"

definition handle_server_GetGate ::
  "('r, 'f, 'p) gateway \<Rightarrow> ('p, 'q) QueryServer \<Rightarrow> ('r, 'q) mux \<Rightarrow> ('r, 'q) mux" where
  "handle_server_GetGate rt server = Handle ''GET'' pattern_Query_GetGate_0 (serverHandler rt (local_request_Query_GetGate_0 rt server))"

definition handle_server_ListGate ::
  "('r, 'f, 'p) gateway \<Rightarrow> ('p, 'q) QueryServer \<Rightarrow> ('r, 'q) mux \<Rightarrow> ('r, 'q) mux" where
  "handle_server_ListGate rt server = Handle ''GET'' pattern_Query_ListGate_0 (serverHandler rt (local_request_Query_ListGate_0 rt server))"

definition handle_server_GetScopedEvidenceVouch ::
  "('r, 'f, 'p) gateway \<Rightarrow> ('p, 'q) QueryServer \<Rightarrow> ('r, 'q) mux \<Rightarrow> ('r, 'q) mux" where
  "handle_server_GetScopedEvidenceVouch rt server = Handle ''GET'' pattern_Query_GetScopedEvidenceVouch_0 (serverHandler rt (local_request_Query_GetScopedEvidenceVouch_0 rt server))"

definition handle_server_ListScopedEvidenceVouch ::
  "('r, 'f, 'p) gateway \<Rightarrow> ('p, 'q) QueryServer \<Rightarrow> ('r, 'q) mux \<Rightarrow> ('r, 'q) mux" where
  "handle_server_ListScopedEvidenceVouch rt server = Handle ''GET'' pattern_Query_ListScopedEvidenceVouch_0 (serverHandler rt (local_request_Query_ListScopedEvidenceVouch_0 rt server))"

definition handle_server_Emission ::
  "('r, 'f, 'p) gateway \<Rightarrow> ('p, 'q) QueryServer \<Rightarrow> ('r, 'q) mux \<Rightarrow> ('r, 'q) mux" where
  "handle_server_Emission rt server = Handle ''GET'' pattern_Query_Emission_0 (serverHandler rt (local_request_Query_Emission_0 rt server))"

definition handle_client_Params ::
  "('r, 'f, 'p) gateway \<Rightarrow> ('p, 'q) QueryServer \<Rightarrow> ('r, 'q) mux \<Rightarrow> ('r, 'q) mux" where
  "handle_client_Params rt client = Handle ''GET'' pattern_Query_Params_0 (clientHandler rt (request_Query_Params_0 rt client))"

definition handle_client_GetAccount ::
  "('r, 'f, 'p) gateway \<Rightarrow> ('p, 'q) QueryServer \<Rightarrow> ('r, 'q) mux \<Rightarrow> ('r, 'q) mux" where
  "handle_client_GetAccount rt client = Handle ''GET'' pattern_Query_GetAccount_0 (clientHandler rt (request_Query_GetAccount_0 rt client))"

definition handle_client_ListAccount ::
  "('r, 'f, 'p) gateway \<Rightarrow> ('p, 'q) QueryServer \<Rightarrow> ('r, 'q) mux \<Rightarrow> ('r, 'q) mux" where
  "handle_client_ListAccount rt client = Handle ''GET'' pattern_Query_ListAccount_0 (clientHandler rt (request_Query_ListAccount_0 rt client))"

definition handle_client_GetVouch ::
  "('r, 'f, 'p) gateway \<Rightarrow> ('p, 'q) QueryServer \<Rightarrow> ('r, 'q) mux \<Rightarrow> ('r, 'q) mux" where
  "handle_client_GetVouch rt client = Handle ''GET'' pattern_Query_GetVouch_0 (clientHandler rt (request_Query_GetVouch_0 rt client))"

definition handle_client_ListVouch ::
  "('r, 'f, 'p) gateway \<Rightarrow> ('p, 'q) QueryServer \<Rightarrow> ('r, 'q) mux \<Rightarrow> ('r, 'q) mux" where
  "handle_client_ListVouch rt client = Handle ''GET'' pattern_Query_ListVouch_0 (clientHandler rt (request_Query_ListVouch_0 rt client))"

definition handle_client_Reputation ::
  "('r, 'f, 'p) gateway \<Rightarrow> ('p, 'q) QueryServer \<Rightarrow> ('r, 'q) mux \<Rightarrow> ('r, 'q) mux" where
  "handle_client_Reputation rt client = Handle ''GET'' pattern_Query_Reputation_0 (clientHandler rt (request_Query_Reputation_0 rt client))"

definition handle_client_GetEscrow ::
  "('r, 'f, 'p) gateway \<Rightarrow> ('p, 'q) QueryServer \<Rightarrow> ('r, 'q) mux \<Rightarrow> ('r, 'q) mux" where
  "handle_client_GetEscrow rt client = Handle ''GET'' pattern_Query_GetEscrow_0 (clientHandler rt (request_Query_GetEscrow_0 rt client))"

definition handle_client_ListEscrow ::
  "('r, 'f, 'p) gateway \<Rightarrow> ('p, 'q) QueryServer \<Rightarrow> ('r, 'q) mux \<Rightarrow> ('r, 'q) mux" where
  "handle_client_ListEscrow rt client = Handle ''GET'' pattern_Query_ListEscrow_0 (clientHandler rt (request_Query_ListEscrow_0 rt client))"

definition handle_client_GetDispute ::
  "('r, 'f, 'p) gateway \<Rightarrow> ('p, 'q) QueryServer \<Rightarrow> ('r, 'q) mux \<Rightarrow> ('r, 'q) mux" where
  "handle_client_GetDispute rt client = Handle ''GET'' pattern_Query_GetDispute_0 (clientHandler rt (request_Query_GetDispute_0 rt client))"

definition handle_client_ListDispute ::
  "('r, 'f, 'p) gateway \<Rightarrow> ('p, 'q) QueryServer \<Rightarrow> ('r, 'q) mux \<Rightarrow> ('r, 'q) mux" where
  "handle_client_ListDispute rt client = Handle ''GET'' pattern_Query_ListDispute_0 (clientHandler rt (request_Query_ListDispute_0 rt client))"

definition handle_client_GetBond ::
  "('r, 'f, 'p) gateway \<Rightarrow> ('p, 'q) QueryServer \<Rightarrow> ('r, 'q) mux \<Rightarrow> ('r, 'q) mux" where
  "handle_client_GetBond rt client = Handle ''GET'' pattern_Query_GetBond_0 (clientHandler rt (request_Query_GetBond_0 rt client))"

definition handle_client_ListBond ::
  "('r, 'f, 'p) gateway \<Rightarrow> ('p, 'q) QueryServer \<Rightarrow> ('r, 'q) mux \<Rightarrow> ('r, 'q) mux" where
  "handle_client_ListBond rt client = Handle ''GET'' pattern_Query_ListBond_0 (clientHandler rt (request_Query_ListBond_0 rt client))"

definition handle_client_GetContributionAward ::
  "('r, 'f, 'p) gateway \<Rightarrow> ('p, 'q) QueryServer \<Rightarrow> ('r, 'q) mux \<Rightarrow> ('r, 'q) mux" where
  "handle_client_GetContributionAward rt client = Handle ''GET'' pattern_Query_GetContributionAward_0 (clientHandler rt (request_Query_GetContributionAward_0 rt client))"

definition handle_client_ListContributionAward ::
  "('r, 'f, 'p) gateway \<Rightarrow> ('p, 'q) QueryServer \<Rightarrow> ('r, 'q) mux \<Rightarrow> ('r, 'q) mux" where
  "handle_client_ListContributionAward rt client = Handle ''GET'' pattern_Query_ListContributionAward_0 (clientHandler rt (request_Query_ListContributionAward_0 rt client))"

definition handle_client_GetGate ::
  "('r, 'f, 'p) gateway \<Rightarrow> ('p, 'q) QueryServer \<Rightarrow> ('r, 'q) mux \<Rightarrow> ('r, 'q) mux" where
  "handle_client_GetGate rt client = Handle ''GET'' pattern_Query_GetGate_0 (clientHandler rt (request_Query_GetGate_0 rt client))"

definition handle_client_ListGate ::
  "('r, 'f, 'p) gateway \<Rightarrow> ('p, 'q) QueryServer \<Rightarrow> ('r, 'q) mux \<Rightarrow> ('r, 'q) mux" where
  "handle_client_ListGate rt client = Handle ''GET'' pattern_Query_ListGate_0 (clientHandler rt (request_Query_ListGate_0 rt client))"

definition handle_client_GetScopedEvidenceVouch ::
  "('r, 'f, 'p) gateway \<Rightarrow> ('p, 'q) QueryServer \<Rightarrow> ('r, 'q) mux \<Rightarrow> ('r, 'q) mux" where
  "handle_client_GetScopedEvidenceVouch rt client = Handle ''GET'' pattern_Query_GetScopedEvidenceVouch_0 (clientHandler rt (request_Query_GetScopedEvidenceVouch_0 rt client))"

definition handle_client_ListScopedEvidenceVouch ::
  "('r, 'f, 'p) gateway \<Rightarrow> ('p, 'q) QueryServer \<Rightarrow> ('r, 'q) mux \<Rightarrow> ('r, 'q) mux" where
  "handle_client_ListScopedEvidenceVouch rt client = Handle ''GET'' pattern_Query_ListScopedEvidenceVouch_0 (clientHandler rt (request_Query_ListScopedEvidenceVouch_0 rt client))"

definition handle_client_Emission ::
  "('r, 'f, 'p) gateway \<Rightarrow> ('p, 'q) QueryServer \<Rightarrow> ('r, 'q) mux \<Rightarrow> ('r, 'q) mux" where
  "handle_client_Emission rt client = Handle ''GET'' pattern_Query_Emission_0 (clientHandler rt (request_Query_Emission_0 rt client))"

definition RegisterQueryHandlerServer ::
  "('r, 'f, 'p) gateway \<Rightarrow> ('p, 'q) QueryServer \<Rightarrow> ('r, 'q) mux \<Rightarrow> ('r, 'q) mux" where
  "RegisterQueryHandlerServer rt server mux =
    (let mux = handle_server_Params rt server mux;
         mux = handle_server_GetAccount rt server mux;
         mux = handle_server_ListAccount rt server mux;
         mux = handle_server_GetVouch rt server mux;
         mux = handle_server_ListVouch rt server mux;
         mux = handle_server_Reputation rt server mux;
         mux = handle_server_GetEscrow rt server mux;
         mux = handle_server_ListEscrow rt server mux;
         mux = handle_server_GetDispute rt server mux;
         mux = handle_server_ListDispute rt server mux;
         mux = handle_server_GetBond rt server mux;
         mux = handle_server_ListBond rt server mux;
         mux = handle_server_GetContributionAward rt server mux;
         mux = handle_server_ListContributionAward rt server mux;
         mux = handle_server_GetGate rt server mux;
         mux = handle_server_ListGate rt server mux;
         mux = handle_server_GetScopedEvidenceVouch rt server mux;
         mux = handle_server_ListScopedEvidenceVouch rt server mux;
         mux = handle_server_Emission rt server mux
     in mux)"

definition RegisterQueryHandlerClient ::
  "('r, 'f, 'p) gateway \<Rightarrow> ('p, 'q) QueryServer \<Rightarrow> ('r, 'q) mux \<Rightarrow> ('r, 'q) mux" where
  "RegisterQueryHandlerClient rt client mux =
    (let mux = handle_client_Params rt client mux;
         mux = handle_client_GetAccount rt client mux;
         mux = handle_client_ListAccount rt client mux;
         mux = handle_client_GetVouch rt client mux;
         mux = handle_client_ListVouch rt client mux;
         mux = handle_client_Reputation rt client mux;
         mux = handle_client_GetEscrow rt client mux;
         mux = handle_client_ListEscrow rt client mux;
         mux = handle_client_GetDispute rt client mux;
         mux = handle_client_ListDispute rt client mux;
         mux = handle_client_GetBond rt client mux;
         mux = handle_client_ListBond rt client mux;
         mux = handle_client_GetContributionAward rt client mux;
         mux = handle_client_ListContributionAward rt client mux;
         mux = handle_client_GetGate rt client mux;
         mux = handle_client_ListGate rt client mux;
         mux = handle_client_GetScopedEvidenceVouch rt client mux;
         mux = handle_client_ListScopedEvidenceVouch rt client mux;
         mux = handle_client_Emission rt client mux
     in mux)"

lemmas handle_server_defs =
  handle_server_Params_def
  handle_server_GetAccount_def
  handle_server_ListAccount_def
  handle_server_GetVouch_def
  handle_server_ListVouch_def
  handle_server_Reputation_def
  handle_server_GetEscrow_def
  handle_server_ListEscrow_def
  handle_server_GetDispute_def
  handle_server_ListDispute_def
  handle_server_GetBond_def
  handle_server_ListBond_def
  handle_server_GetContributionAward_def
  handle_server_ListContributionAward_def
  handle_server_GetGate_def
  handle_server_ListGate_def
  handle_server_GetScopedEvidenceVouch_def
  handle_server_ListScopedEvidenceVouch_def
  handle_server_Emission_def

lemmas handle_client_defs =
  handle_client_Params_def
  handle_client_GetAccount_def
  handle_client_ListAccount_def
  handle_client_GetVouch_def
  handle_client_ListVouch_def
  handle_client_Reputation_def
  handle_client_GetEscrow_def
  handle_client_ListEscrow_def
  handle_client_GetDispute_def
  handle_client_ListDispute_def
  handle_client_GetBond_def
  handle_client_ListBond_def
  handle_client_GetContributionAward_def
  handle_client_ListContributionAward_def
  handle_client_GetGate_def
  handle_client_ListGate_def
  handle_client_GetScopedEvidenceVouch_def
  handle_client_ListScopedEvidenceVouch_def
  handle_client_Emission_def

text \<open>Registration over a connection, and over an endpoint that is dialled first.\<close>

definition RegisterQueryHandler ::
  "('c \<Rightarrow> ('p, 'q) QueryServer) \<Rightarrow> ('r, 'f, 'p) gateway \<Rightarrow> 'c \<Rightarrow> ('r, 'q) mux \<Rightarrow> ('r, 'q) mux" where
  "RegisterQueryHandler newQueryClient rt conn mux = RegisterQueryHandlerClient rt (newQueryClient conn) mux"

definition RegisterQueryHandlerFromEndpoint ::
  "(string \<Rightarrow> go_error + 'c) \<Rightarrow> ('c \<Rightarrow> ('p, 'q) QueryServer) \<Rightarrow> ('r, 'f, 'p) gateway \<Rightarrow> string \<Rightarrow> ('r, 'q) mux
     \<Rightarrow> go_error + ('r, 'q) mux" where
  "RegisterQueryHandlerFromEndpoint dial newQueryClient rt endpoint mux =
     (case dial endpoint of
        Inl err \<Rightarrow> Inl err
      | Inr conn \<Rightarrow> Inr (RegisterQueryHandler newQueryClient rt conn mux))"

text \<open>The module registers over the connection of the client context.\<close>

definition RegisterGRPCGatewayRoutes ::
  "('c \<Rightarrow> ('p, 'q) QueryServer) \<Rightarrow> ('r, 'f, 'p) gateway \<Rightarrow> 'c \<Rightarrow> ('r, 'q) mux \<Rightarrow> ('r, 'q) mux" where
  "RegisterGRPCGatewayRoutes newQueryClient rt clientCtx mux = RegisterQueryHandlerClient rt (newQueryClient clientCtx) mux"

section \<open>The service over the store\<close>

text \<open>\<^verbatim>\<open>NewQueryServerImpl\<close>: the queries of the keeper; the pagination of the SDK once per table.\<close>

record ('p, 'q) paginators =
  pageAccount :: "(string, Account, 'p, 'q) paginator"
  pageVouch :: "(u64, Vouch, 'p, 'q) paginator"
  pageEscrow :: "(u64, Escrow, 'p, 'q) paginator"
  pageDispute :: "(u64, Dispute, 'p, 'q) paginator"
  pageBond :: "(u64, Bond, 'p, 'q) paginator"
  pageContributionAward :: "(u64, ContributionAward, 'p, 'q) paginator"
  pageGate :: "(u64, Gate, 'p, 'q) paginator"
  pageScopedEvidenceVouch :: "(u64, ScopedEvidenceVouch, 'p, 'q) paginator"

definition NewQueryServerImpl :: "Env \<Rightarrow> 'f floats \<Rightarrow> ('p, 'q) paginators \<Rightarrow> Keeper \<Rightarrow> ('p, 'q) QueryServer" where
  "NewQueryServerImpl env F pg k =
    \<lparr>serveParams = (\<lambda>req. QueryParams k (Some req)),
     serveGetAccount = (\<lambda>req. GetAccount k (Some req)),
     serveListAccount = (\<lambda>req. ListAccount (pageAccount pg) k (Some req)),
     serveGetVouch = (\<lambda>req. GetVouch k (Some req)),
     serveListVouch = (\<lambda>req. ListVouch (pageVouch pg) k (Some req)),
     serveReputation = (\<lambda>req. QueryReputation env F k (Some req)),
     serveGetEscrow = (\<lambda>req. GetEscrow k (Some req)),
     serveListEscrow = (\<lambda>req. ListEscrow (pageEscrow pg) k (Some req)),
     serveGetDispute = (\<lambda>req. GetDispute k (Some req)),
     serveListDispute = (\<lambda>req. ListDispute (pageDispute pg) k (Some req)),
     serveGetBond = (\<lambda>req. GetBond k (Some req)),
     serveListBond = (\<lambda>req. ListBond (pageBond pg) k (Some req)),
     serveGetContributionAward = (\<lambda>req. GetContributionAward k (Some req)),
     serveListContributionAward = (\<lambda>req. ListContributionAward (pageContributionAward pg) k (Some req)),
     serveGetGate = (\<lambda>req. GetGate k (Some req)),
     serveListGate = (\<lambda>req. ListGate (pageGate pg) k (Some req)),
     serveGetScopedEvidenceVouch = (\<lambda>req. GetScopedEvidenceVouch k (Some req)),
     serveListScopedEvidenceVouch = (\<lambda>req. ListScopedEvidenceVouch (pageScopedEvidenceVouch pg) k (Some req)),
     serveEmission = (\<lambda>req. QueryEmission env k (Some req))\<rparr>"

end
