(* ===== verification/Routing.thy ===== *)
theory Routing
  imports Gateway
begin

text \<open>
  The gateway serves the URLs that \<^verbatim>\<open>query.proto\<close> declares. The declared routes are the
  specification; the patterns and handlers of the theory Gateway implement it, given what
  the library documents of pattern matching and of its multiplexer.
\<close>

section \<open>The declared routes\<close>

text \<open>
  The URLs the service declares in \<^verbatim>\<open>query.proto\<close>: for each query the last fixed word of its URL
  and, if it takes one, the variable that follows.
\<close>

datatype rpc =
    RpcParams
  | RpcGetAccount
  | RpcListAccount
  | RpcGetVouch
  | RpcListVouch
  | RpcReputation
  | RpcGetEscrow
  | RpcListEscrow
  | RpcGetDispute
  | RpcListDispute
  | RpcGetBond
  | RpcListBond
  | RpcGetContributionAward
  | RpcListContributionAward
  | RpcGetGate
  | RpcListGate
  | RpcGetScopedEvidenceVouch
  | RpcListScopedEvidenceVouch
  | RpcEmission

fun template :: "rpc \<Rightarrow> string \<times> string option" where
  "template RpcParams = (''params'', None)"
| "template RpcGetAccount = (''account'', Some ''address'')"
| "template RpcListAccount = (''account'', None)"
| "template RpcGetVouch = (''vouch'', Some ''id'')"
| "template RpcListVouch = (''vouch'', None)"
| "template RpcReputation = (''reputation'', Some ''address'')"
| "template RpcGetEscrow = (''escrow'', Some ''id'')"
| "template RpcListEscrow = (''escrow'', None)"
| "template RpcGetDispute = (''dispute'', Some ''id'')"
| "template RpcListDispute = (''dispute'', None)"
| "template RpcGetBond = (''bond'', Some ''id'')"
| "template RpcListBond = (''bond'', None)"
| "template RpcGetContributionAward = (''contribution-award'', Some ''id'')"
| "template RpcListContributionAward = (''contribution-award'', None)"
| "template RpcGetGate = (''gate'', Some ''id'')"
| "template RpcListGate = (''gate'', None)"
| "template RpcGetScopedEvidenceVouch = (''scoped-evidence-vouch'', Some ''id'')"
| "template RpcListScopedEvidenceVouch = (''scoped-evidence-vouch'', None)"
| "template RpcEmission = (''emission'', None)"

definition url :: "rpc \<Rightarrow> string \<Rightarrow> string list" where
  "url r x = [''zoltankiss'', ''agntcoin'', ''agntcoin'', ''v1'', fst (template r)]
     @ (case snd (template r) of None \<Rightarrow> [] | Some _ \<Rightarrow> [x])"

text \<open>What a client that asks for a URL is owed: the answer of that query, to the word in the URL.\<close>

definition wordArg :: "string \<Rightarrow> (string \<Rightarrow> string + 'v) \<Rightarrow> string \<Rightarrow> ('v \<Rightarrow> go_error + 'm) \<Rightarrow> go_error + 'm" where
  "wordArg name convert x call =
     (case convert x of
        Inl err \<Rightarrow> Inl (StatusInvalidArgument (''type mismatch, parameter: '' @ name @ '', error: '' @ err))
      | Inr v \<Rightarrow> call v)"

fun answer :: "('r, 'f, 'p) gateway \<Rightarrow> ('p, 'q) QueryServer \<Rightarrow> 'r \<Rightarrow> string \<Rightarrow> rpc \<Rightarrow> go_error + 'q QueryResponse" where
  "answer rt svc req x RpcParams = map_sum id ParamsResponse (serveParams svc ())"
| "answer rt svc req x RpcGetAccount = wordArg ''address'' (runtimeString rt) x (\<lambda>v. map_sum id AccountResponse (serveGetAccount svc v))"
| "answer rt svc req x RpcListAccount = withForm rt req [] (\<lambda>page. map_sum id (\<lambda>(vs, next_page). AccountsResponse vs next_page) (serveListAccount svc page))"
| "answer rt svc req x RpcGetVouch = wordArg ''id'' (runtimeUint64 rt) x (\<lambda>v. map_sum id VouchResponse (serveGetVouch svc v))"
| "answer rt svc req x RpcListVouch = withForm rt req [] (\<lambda>page. map_sum id (\<lambda>(vs, next_page). VouchesResponse vs next_page) (serveListVouch svc page))"
| "answer rt svc req x RpcReputation = wordArg ''address'' (runtimeString rt) x (\<lambda>v. map_sum id ReputationResponse (serveReputation svc v))"
| "answer rt svc req x RpcGetEscrow = wordArg ''id'' (runtimeUint64 rt) x (\<lambda>v. map_sum id EscrowResponse (serveGetEscrow svc v))"
| "answer rt svc req x RpcListEscrow = withForm rt req [] (\<lambda>page. map_sum id (\<lambda>(vs, next_page). EscrowsResponse vs next_page) (serveListEscrow svc page))"
| "answer rt svc req x RpcGetDispute = wordArg ''id'' (runtimeUint64 rt) x (\<lambda>v. map_sum id DisputeResponse (serveGetDispute svc v))"
| "answer rt svc req x RpcListDispute = withForm rt req [] (\<lambda>page. map_sum id (\<lambda>(vs, next_page). DisputesResponse vs next_page) (serveListDispute svc page))"
| "answer rt svc req x RpcGetBond = wordArg ''id'' (runtimeUint64 rt) x (\<lambda>v. map_sum id BondResponse (serveGetBond svc v))"
| "answer rt svc req x RpcListBond = withForm rt req [] (\<lambda>page. map_sum id (\<lambda>(vs, next_page). BondsResponse vs next_page) (serveListBond svc page))"
| "answer rt svc req x RpcGetContributionAward = wordArg ''id'' (runtimeUint64 rt) x (\<lambda>v. map_sum id ContributionAwardResponse (serveGetContributionAward svc v))"
| "answer rt svc req x RpcListContributionAward = withForm rt req [] (\<lambda>page. map_sum id (\<lambda>(vs, next_page). ContributionAwardsResponse vs next_page) (serveListContributionAward svc page))"
| "answer rt svc req x RpcGetGate = wordArg ''id'' (runtimeUint64 rt) x (\<lambda>v. map_sum id GateResponse (serveGetGate svc v))"
| "answer rt svc req x RpcListGate = withForm rt req [] (\<lambda>page. map_sum id (\<lambda>(vs, next_page). GatesResponse vs next_page) (serveListGate svc page))"
| "answer rt svc req x RpcGetScopedEvidenceVouch = wordArg ''id'' (runtimeUint64 rt) x (\<lambda>v. map_sum id ScopedEvidenceVouchResponse (serveGetScopedEvidenceVouch svc v))"
| "answer rt svc req x RpcListScopedEvidenceVouch = withForm rt req [] (\<lambda>page. map_sum id (\<lambda>(vs, next_page). ScopedEvidenceVouchesResponse vs next_page) (serveListScopedEvidenceVouch svc page))"
| "answer rt svc req x RpcEmission = map_sum id (\<lambda>(e, s, r). EmissionResponse e s r) (serveEmission svc ())"

definition served :: "go_error option \<Rightarrow> go_error + 'q QueryResponse \<Rightarrow> 'q reply" where
  "served annotated res =
     (case annotated of
        Some err \<Rightarrow> HTTPError err
      | None \<Rightarrow> (case res of Inl err \<Rightarrow> HTTPError err | Inr resp \<Rightarrow> ForwardResponseMessage resp))"

section \<open>What the library promises\<close>

text \<open>
  A compiled template of five fixed words, of which the second comes twice, matches exactly this
  path, and one with a variable behind them binds the variable to the word that follows.
\<close>

definition url_patterns :: "(Pattern \<Rightarrow> string list \<Rightarrow> path_params option) \<Rightarrow> bool" where
  "url_patterns mtch \<longleftrightarrow>
     (\<forall>a b c d words ps. mtch (NewPattern 1 [2, 0, 2, 1, 2, 1, 2, 2, 2, 3] [a, b, c, d] []) words = Some ps \<longleftrightarrow>
        words = [a, b, b, c, d] \<and> ps = Map.empty)
   \<and> (\<forall>a b c d var words ps.
        mtch (NewPattern 1 [2, 0, 2, 1, 2, 1, 2, 2, 2, 3, 1, 0, 4, 1, 5, 4] [a, b, c, d, var] []) words = Some ps \<longleftrightarrow>
          (\<exists>x. words = [a, b, b, c, d, x] \<and> ps = [var \<mapsto> x]))"

text \<open>A multiplexer calls the handler whose pattern matches, if there is only one.\<close>

definition candidates ::
  "(Pattern \<Rightarrow> string list \<Rightarrow> path_params option) \<Rightarrow> string \<Rightarrow> string list \<Rightarrow> ('r, 'q) mux
     \<Rightarrow> (('r \<Rightarrow> path_params \<Rightarrow> 'q reply) \<times> path_params) list" where
  "candidates mtch meth words mux =
     List.map_filter (\<lambda>(m, pat, h). if m = meth then map_option (\<lambda>ps. (h, ps)) (mtch pat words) else None) mux"

definition serves_match ::
  "(Pattern \<Rightarrow> string list \<Rightarrow> path_params option) \<Rightarrow> (('r, 'q) mux \<Rightarrow> string \<Rightarrow> string list \<Rightarrow> 'r \<Rightarrow> 'q reply) \<Rightarrow> bool" where
  "serves_match mtch serve \<longleftrightarrow>
     (\<forall>mux meth words req h ps. candidates mtch meth words mux = [(h, ps)] \<longrightarrow> serve mux meth words req = h req ps)"

section \<open>Routing\<close>

definition all_rpcs :: "rpc list" where
  "all_rpcs =
    [
RpcParams,
     RpcGetAccount,
     RpcListAccount,
     RpcGetVouch,
     RpcListVouch,
     RpcReputation,
     RpcGetEscrow,
     RpcListEscrow,
     RpcGetDispute,
     RpcListDispute,
     RpcGetBond,
     RpcListBond,
     RpcGetContributionAward,
     RpcListContributionAward,
     RpcGetGate,
     RpcListGate,
     RpcGetScopedEvidenceVouch,
     RpcListScopedEvidenceVouch,
     RpcEmission]"

lemma all_rpcs: "distinct all_rpcs" "set all_rpcs = UNIV"
proof -
  show "distinct all_rpcs" by (simp add: all_rpcs_def)
  have "r \<in> set all_rpcs" for r by (cases r) (simp_all add: all_rpcs_def)
  then show "set all_rpcs = UNIV" by blast
qed

text \<open>The pattern and the functions of each query.\<close>

fun patternOf :: "rpc \<Rightarrow> Pattern" where
  "patternOf RpcParams = pattern_Query_Params_0"
| "patternOf RpcGetAccount = pattern_Query_GetAccount_0"
| "patternOf RpcListAccount = pattern_Query_ListAccount_0"
| "patternOf RpcGetVouch = pattern_Query_GetVouch_0"
| "patternOf RpcListVouch = pattern_Query_ListVouch_0"
| "patternOf RpcReputation = pattern_Query_Reputation_0"
| "patternOf RpcGetEscrow = pattern_Query_GetEscrow_0"
| "patternOf RpcListEscrow = pattern_Query_ListEscrow_0"
| "patternOf RpcGetDispute = pattern_Query_GetDispute_0"
| "patternOf RpcListDispute = pattern_Query_ListDispute_0"
| "patternOf RpcGetBond = pattern_Query_GetBond_0"
| "patternOf RpcListBond = pattern_Query_ListBond_0"
| "patternOf RpcGetContributionAward = pattern_Query_GetContributionAward_0"
| "patternOf RpcListContributionAward = pattern_Query_ListContributionAward_0"
| "patternOf RpcGetGate = pattern_Query_GetGate_0"
| "patternOf RpcListGate = pattern_Query_ListGate_0"
| "patternOf RpcGetScopedEvidenceVouch = pattern_Query_GetScopedEvidenceVouch_0"
| "patternOf RpcListScopedEvidenceVouch = pattern_Query_ListScopedEvidenceVouch_0"
| "patternOf RpcEmission = pattern_Query_Emission_0"

fun clientRequest :: "rpc \<Rightarrow> ('r, 'f, 'p) gateway \<Rightarrow> ('p, 'q) QueryServer \<Rightarrow> 'r \<Rightarrow> path_params \<Rightarrow> go_error + 'q QueryResponse" where
  "clientRequest RpcParams = request_Query_Params_0"
| "clientRequest RpcGetAccount = request_Query_GetAccount_0"
| "clientRequest RpcListAccount = request_Query_ListAccount_0"
| "clientRequest RpcGetVouch = request_Query_GetVouch_0"
| "clientRequest RpcListVouch = request_Query_ListVouch_0"
| "clientRequest RpcReputation = request_Query_Reputation_0"
| "clientRequest RpcGetEscrow = request_Query_GetEscrow_0"
| "clientRequest RpcListEscrow = request_Query_ListEscrow_0"
| "clientRequest RpcGetDispute = request_Query_GetDispute_0"
| "clientRequest RpcListDispute = request_Query_ListDispute_0"
| "clientRequest RpcGetBond = request_Query_GetBond_0"
| "clientRequest RpcListBond = request_Query_ListBond_0"
| "clientRequest RpcGetContributionAward = request_Query_GetContributionAward_0"
| "clientRequest RpcListContributionAward = request_Query_ListContributionAward_0"
| "clientRequest RpcGetGate = request_Query_GetGate_0"
| "clientRequest RpcListGate = request_Query_ListGate_0"
| "clientRequest RpcGetScopedEvidenceVouch = request_Query_GetScopedEvidenceVouch_0"
| "clientRequest RpcListScopedEvidenceVouch = request_Query_ListScopedEvidenceVouch_0"
| "clientRequest RpcEmission = request_Query_Emission_0"

fun serverRequest :: "rpc \<Rightarrow> ('r, 'f, 'p) gateway \<Rightarrow> ('p, 'q) QueryServer \<Rightarrow> 'r \<Rightarrow> path_params \<Rightarrow> go_error + 'q QueryResponse" where
  "serverRequest RpcParams = local_request_Query_Params_0"
| "serverRequest RpcGetAccount = local_request_Query_GetAccount_0"
| "serverRequest RpcListAccount = local_request_Query_ListAccount_0"
| "serverRequest RpcGetVouch = local_request_Query_GetVouch_0"
| "serverRequest RpcListVouch = local_request_Query_ListVouch_0"
| "serverRequest RpcReputation = local_request_Query_Reputation_0"
| "serverRequest RpcGetEscrow = local_request_Query_GetEscrow_0"
| "serverRequest RpcListEscrow = local_request_Query_ListEscrow_0"
| "serverRequest RpcGetDispute = local_request_Query_GetDispute_0"
| "serverRequest RpcListDispute = local_request_Query_ListDispute_0"
| "serverRequest RpcGetBond = local_request_Query_GetBond_0"
| "serverRequest RpcListBond = local_request_Query_ListBond_0"
| "serverRequest RpcGetContributionAward = local_request_Query_GetContributionAward_0"
| "serverRequest RpcListContributionAward = local_request_Query_ListContributionAward_0"
| "serverRequest RpcGetGate = local_request_Query_GetGate_0"
| "serverRequest RpcListGate = local_request_Query_ListGate_0"
| "serverRequest RpcGetScopedEvidenceVouch = local_request_Query_GetScopedEvidenceVouch_0"
| "serverRequest RpcListScopedEvidenceVouch = local_request_Query_ListScopedEvidenceVouch_0"
| "serverRequest RpcEmission = local_request_Query_Emission_0"

lemmas pattern_defs =
  pattern_Query_Params_0_def
  pattern_Query_GetAccount_0_def
  pattern_Query_ListAccount_0_def
  pattern_Query_GetVouch_0_def
  pattern_Query_ListVouch_0_def
  pattern_Query_Reputation_0_def
  pattern_Query_GetEscrow_0_def
  pattern_Query_ListEscrow_0_def
  pattern_Query_GetDispute_0_def
  pattern_Query_ListDispute_0_def
  pattern_Query_GetBond_0_def
  pattern_Query_ListBond_0_def
  pattern_Query_GetContributionAward_0_def
  pattern_Query_ListContributionAward_0_def
  pattern_Query_GetGate_0_def
  pattern_Query_ListGate_0_def
  pattern_Query_GetScopedEvidenceVouch_0_def
  pattern_Query_ListScopedEvidenceVouch_0_def
  pattern_Query_Emission_0_def

lemmas request_defs = withPath_def
  request_Query_Params_0_def local_request_Query_Params_0_def
  request_Query_GetAccount_0_def local_request_Query_GetAccount_0_def
  request_Query_ListAccount_0_def local_request_Query_ListAccount_0_def
  request_Query_GetVouch_0_def local_request_Query_GetVouch_0_def
  request_Query_ListVouch_0_def local_request_Query_ListVouch_0_def
  request_Query_Reputation_0_def local_request_Query_Reputation_0_def
  request_Query_GetEscrow_0_def local_request_Query_GetEscrow_0_def
  request_Query_ListEscrow_0_def local_request_Query_ListEscrow_0_def
  request_Query_GetDispute_0_def local_request_Query_GetDispute_0_def
  request_Query_ListDispute_0_def local_request_Query_ListDispute_0_def
  request_Query_GetBond_0_def local_request_Query_GetBond_0_def
  request_Query_ListBond_0_def local_request_Query_ListBond_0_def
  request_Query_GetContributionAward_0_def local_request_Query_GetContributionAward_0_def
  request_Query_ListContributionAward_0_def local_request_Query_ListContributionAward_0_def
  request_Query_GetGate_0_def local_request_Query_GetGate_0_def
  request_Query_ListGate_0_def local_request_Query_ListGate_0_def
  request_Query_GetScopedEvidenceVouch_0_def local_request_Query_GetScopedEvidenceVouch_0_def
  request_Query_ListScopedEvidenceVouch_0_def local_request_Query_ListScopedEvidenceVouch_0_def
  request_Query_Emission_0_def local_request_Query_Emission_0_def

lemma fixed_match:
  assumes "url_patterns mtch"
  shows "mtch (NewPattern 1 [2, 0, 2, 1, 2, 1, 2, 2, 2, 3] [a, b, c, d] []) words =
     (if words = [a, b, b, c, d] then Some Map.empty else None)"
proof -
  let ?m = "mtch (NewPattern 1 [2, 0, 2, 1, 2, 1, 2, 2, 2, 3] [a, b, c, d] []) words"
  have "?m = Some ps \<longleftrightarrow> words = [a, b, b, c, d] \<and> ps = Map.empty" for ps
    using assms by (simp add: url_patterns_def)
  then show ?thesis by (cases ?m) auto
qed

lemma variable_match:
  assumes "url_patterns mtch"
  shows "mtch (NewPattern 1 [2, 0, 2, 1, 2, 1, 2, 2, 2, 3, 1, 0, 4, 1, 5, 4] [a, b, c, d, var] []) [u, v, w, x, y, z] =
      (if [u, v, w, x, y] = [a, b, b, c, d] then Some [var \<mapsto> z] else None)"
    and "mtch (NewPattern 1 [2, 0, 2, 1, 2, 1, 2, 2, 2, 3, 1, 0, 4, 1, 5, 4] [a, b, c, d, var] []) [u, v, w, x, y] = None"
proof -
  let ?m = "mtch (NewPattern 1 [2, 0, 2, 1, 2, 1, 2, 2, 2, 3, 1, 0, 4, 1, 5, 4] [a, b, c, d, var] [])"
  have law: "?m words = Some ps \<longleftrightarrow> (\<exists>x. words = [a, b, b, c, d, x] \<and> ps = [var \<mapsto> x])" for words ps
    using assms by (simp add: url_patterns_def)
  show "?m [u, v, w, x, y, z] = (if [u, v, w, x, y] = [a, b, b, c, d] then Some [var \<mapsto> z] else None)"
    using law [of "[u, v, w, x, y, z]"] by (cases "?m [u, v, w, x, y, z]") auto
  show "?m [u, v, w, x, y] = None"
    using law [of "[u, v, w, x, y]"] by (cases "?m [u, v, w, x, y]") auto
qed

text \<open>The pattern of a query is its template.\<close>

lemma patternOf_template:
  "patternOf r = (case snd (template r) of
     None \<Rightarrow> NewPattern 1 [2, 0, 2, 1, 2, 1, 2, 2, 2, 3] [''zoltankiss'', ''agntcoin'', ''v1'', fst (template r)] []
   | Some var \<Rightarrow> NewPattern 1 [2, 0, 2, 1, 2, 1, 2, 2, 2, 3, 1, 0, 4, 1, 5, 4]
        [''zoltankiss'', ''agntcoin'', ''v1'', fst (template r), var] [])"
  by (cases r) (simp_all add: pattern_defs)

lemma template_inj:
  assumes "fst (template r) = fst (template r')" and "snd (template r) = None \<longleftrightarrow> snd (template r') = None"
  shows "r = r'"
proof -
  have "inj_on (\<lambda>r. (fst (template r), snd (template r) = None)) (set all_rpcs)"
    by (simp add: all_rpcs_def)
  then show ?thesis using assms by (simp add: all_rpcs inj_on_def)
qed

text \<open>The values a URL binds.\<close>

definition bound :: "rpc \<Rightarrow> string \<Rightarrow> path_params" where
  "bound r x = (case snd (template r) of None \<Rightarrow> Map.empty | Some var \<Rightarrow> [var \<mapsto> x])"

text \<open>Each declared URL is matched by the pattern of its query and by no other.\<close>

lemma pattern_route:
  assumes "url_patterns mtch"
  shows "mtch (patternOf r') (url r x) = (if r' = r then Some (bound r x) else None)"
proof (cases "snd (template r')")
  case None
  then have "mtch (patternOf r') (url r x) =
      (if url r x = [''zoltankiss'', ''agntcoin'', ''agntcoin'', ''v1'', fst (template r')] then Some Map.empty else None)"
    by (simp add: patternOf_template fixed_match [OF assms])
  then show ?thesis
    using None template_inj [of r' r] by (cases "snd (template r)") (auto simp: url_def bound_def)
next
  case (Some var)
  let ?p = "mtch (NewPattern 1 [2, 0, 2, 1, 2, 1, 2, 2, 2, 3, 1, 0, 4, 1, 5, 4]
        [''zoltankiss'', ''agntcoin'', ''v1'', fst (template r'), var] [])"
  have p: "mtch (patternOf r') (url r x) = ?p (url r x)" using Some by (simp add: patternOf_template)
  show ?thesis
  proof (cases "snd (template r)")
    case None
    then have "?p (url r x) = None" by (simp add: url_def variable_match(2) [OF assms])
    then show ?thesis using p Some None by auto
  next
    case (Some var')
    then have "?p (url r x) = (if fst (template r') = fst (template r) then Some [var \<mapsto> x] else None)"
      by (simp add: url_def variable_match(1) [OF assms])
    then show ?thesis
      using p Some \<open>snd (template r') = Some var\<close> template_inj [of r' r] by (auto simp: bound_def)
  qed
qed

lemma map_filter_one:
  "distinct xs \<Longrightarrow> x \<in> set xs \<Longrightarrow> List.map_filter (\<lambda>y. if y = x then Some (f y) else None) xs = [f x]"
proof (induction xs)
  case (Cons y ys)
  have "x \<notin> set zs \<Longrightarrow> List.map_filter (\<lambda>y. if y = x then Some (f y) else None) zs = []" for zs
    by (induction zs) (auto simp: List.map_filter_simps)
  with Cons show ?case by (auto simp: List.map_filter_simps)
qed simp

lemma candidates_registered:
  "candidates mtch ''GET'' words (fold (\<lambda>r. Handle ''GET'' (patternOf r) (h r)) rs mux) =
     candidates mtch ''GET'' words mux @ List.map_filter (\<lambda>r. map_option (\<lambda>ps. (h r, ps)) (mtch (patternOf r) words)) rs"
  by (induction rs arbitrary: mux)
    (simp_all add: candidates_def Handle_def List.map_filter_def)

lemma registered_route:
  assumes "url_patterns mtch" and "candidates mtch ''GET'' (url r x) mux = []"
  shows "candidates mtch ''GET'' (url r x) (fold (\<lambda>r. Handle ''GET'' (patternOf r) (h r)) all_rpcs mux) = [(h r, bound r x)]"
proof -
  have "List.map_filter (\<lambda>r'. map_option (\<lambda>ps. (h r', ps)) (mtch (patternOf r') (url r x))) all_rpcs = [(h r, bound r x)]"
    using map_filter_one [OF all_rpcs(1), of r "\<lambda>r'. (h r', bound r x)"]
    by (simp add: all_rpcs pattern_route [OF assms(1)] if_distrib [of "map_option _"] cong: if_cong)
  then show ?thesis using assms(2) by (simp add: candidates_registered)
qed

lemma register_all:
  "RegisterQueryHandlerClient rt svc mux =
     fold (\<lambda>r. Handle ''GET'' (patternOf r) (clientHandler rt (clientRequest r rt svc))) all_rpcs mux"
  "RegisterQueryHandlerServer rt svc mux =
     fold (\<lambda>r. Handle ''GET'' (patternOf r) (serverHandler rt (serverRequest r rt svc))) all_rpcs mux"
  by (simp_all add: RegisterQueryHandlerClient_def RegisterQueryHandlerServer_def handle_client_defs handle_server_defs all_rpcs_def)

lemma request_answers:
  "clientRequest r rt svc req (bound r x) = answer rt svc req x r"
  "serverRequest r rt svc req (bound r x) = answer rt svc req x r"
  by (cases r; simp add: bound_def request_defs wordArg_def)+

lemma gateway_serves:
  assumes "url_patterns mtch" and "serves_match mtch serve" and "candidates mtch ''GET'' (url r x) mux = []"
  shows "serve (RegisterQueryHandlerClient rt svc mux) ''GET'' (url r x) req
      = served (AnnotateContext rt req) (answer rt svc req x r)"
    and "serve (RegisterQueryHandlerServer rt svc mux) ''GET'' (url r x) req
      = served (AnnotateIncomingContext rt req) (answer rt svc req x r)"
proof -
  note route = registered_route [OF assms(1,3)] assms(2) [unfolded serves_match_def, rule_format]
  show "serve (RegisterQueryHandlerClient rt svc mux) ''GET'' (url r x) req
      = served (AnnotateContext rt req) (answer rt svc req x r)"
    unfolding register_all by (subst route(2) [OF route(1)]) (unfold clientHandler_def served_def request_answers, rule refl)
  show "serve (RegisterQueryHandlerServer rt svc mux) ''GET'' (url r x) req
      = served (AnnotateIncomingContext rt req) (answer rt svc req x r)"
    unfolding register_all by (subst route(2) [OF route(1)]) (unfold serverHandler_def served_def request_answers, rule refl)
qed

text \<open>Over the store of the module: the record of the number in the URL, or the error of its absence.\<close>

lemma gateway_reads_gate:
  assumes "url_patterns mtch" and "serves_match mtch serve" and "candidates mtch ''GET'' (url RpcGetGate x) mux = []"
    and "AnnotateContext rt req = None" and "runtimeUint64 rt x = Inr i"
  shows "serve (RegisterQueryHandlerClient rt (NewQueryServerImpl env F pg k) mux) ''GET'' (url RpcGetGate x) req
    = (case kv_get (Keeper.Gate k) i of None \<Rightarrow> HTTPError (ErrKeyNotFound []) | Some g \<Rightarrow> ForwardResponseMessage (GateResponse g))"
  using assms(4,5)
  by (simp add: gateway_serves(1) [OF assms(1-3)] served_def wordArg_def NewQueryServerImpl_def GetGate_def split: option.split)

section \<open>Properties\<close>

text \<open>
  C38: The gateway serves exactly what the service declares. A GET on the URL that
  \<^verbatim>\<open>query.proto\<close> declares for a query reaches this query and no other, whether the gateway calls a remote node
  or the local service; the word in the URL is converted to the type of the field and becomes its
  argument, a word that does not convert is an invalid argument, and an error of the query is
  an HTTP error. It holds for all 19 queries, with whatever other handlers the multiplexer has
  that do not match the URL.
\<close>
theorem gateway_serves_declared_urls:
  assumes "url_patterns mtch" and "serves_match mtch serve" and "candidates mtch ''GET'' (url r x) mux = []"
  shows "serve (RegisterQueryHandlerClient rt svc mux) ''GET'' (url r x) req
      = served (AnnotateContext rt req) (answer rt svc req x r)
    \<and> serve (RegisterQueryHandlerServer rt svc mux) ''GET'' (url r x) req
      = served (AnnotateIncomingContext rt req) (answer rt svc req x r)"
  using gateway_serves [OF assms] by blast

text \<open>A library that runs the operations of a pattern on a stack and takes the first match.\<close>

fun joinSlash :: "string list \<Rightarrow> string" where
  "joinSlash [] = []"
| "joinSlash [w] = w"
| "joinSlash (w # ws) = w @ ''/'' @ joinSlash ws"

fun runOps :: "int list \<Rightarrow> string list \<Rightarrow> string list \<Rightarrow> string list \<Rightarrow> path_params \<Rightarrow> path_params option" where
  "runOps (code # arg # ops) pool words stack ps =
     (if code = 1 then (case words of [] \<Rightarrow> None | w # ws \<Rightarrow> runOps ops pool ws (w # stack) ps)
      else if code = 2 then
        (case words of [] \<Rightarrow> None | w # ws \<Rightarrow> if w = pool ! nat arg then runOps ops pool ws (w # stack) ps else None)
      else if code = 4 then runOps ops pool words (joinSlash (rev (take (nat arg) stack)) # drop (nat arg) stack) ps
      else if code = 5 then runOps ops pool words (tl stack) (ps(pool ! nat arg \<mapsto> hd stack))
      else None)"
| "runOps _ pool words stack ps = (if words = [] then Some ps else None)"

definition stackMatch :: "Pattern \<Rightarrow> string list \<Rightarrow> path_params option" where
  "stackMatch pat words = runOps (Ops pat) (Pool pat) words [] Map.empty"

definition firstMatch :: "('r, 'q) mux \<Rightarrow> string \<Rightarrow> string list \<Rightarrow> 'r \<Rightarrow> 'q reply" where
  "firstMatch mux meth words req =
     (case candidates stackMatch meth words mux of
        [] \<Rightarrow> HTTPError (StatusNotFound ''Not Found'')
      | (h, ps) # _ \<Rightarrow> h req ps)"

lemma stackMatch_laws: "url_patterns stackMatch" "serves_match stackMatch firstMatch"
proof -
  show "url_patterns stackMatch"
    by (auto simp: url_patterns_def stackMatch_def NewPattern_def split: list.splits if_splits)
  show "serves_match stackMatch firstMatch" by (simp add: serves_match_def firstMatch_def)
qed

definition plainGateway :: "(unit, unit, unit) gateway" where
  "plainGateway =
     \<lparr>AnnotateContext = (\<lambda>_. None), AnnotateIncomingContext = (\<lambda>_. None), ParseForm = Inr,
      PopulateQueryParameters = (\<lambda>form flt. Inr form), runtimeString = Inr,
      runtimeUint64 = (\<lambda>s. if s = ''0'' then Inr 0 else Inl ''invalid syntax'')\<rparr>"

definition wholeTables :: "(unit, unit) paginators" where
  "wholeTables =
     \<lparr>pageAccount = (\<lambda>es _. Inr (map snd es, ())), pageVouch = (\<lambda>es _. Inr (map snd es, ())),
      pageEscrow = (\<lambda>es _. Inr (map snd es, ())), pageDispute = (\<lambda>es _. Inr (map snd es, ())),
      pageBond = (\<lambda>es _. Inr (map snd es, ())), pageContributionAward = (\<lambda>es _. Inr (map snd es, ())),
      pageGate = (\<lambda>es _. Inr (map snd es, ())), pageScopedEvidenceVouch = (\<lambda>es _. Inr (map snd es, ()))\<rparr>"

lemma gateway_serves_declared_urls_witness:
  "firstMatch (RegisterQueryHandlerClient plainGateway (NewQueryServerImpl (sampleEnv 0) exact wholeTables sampleState) []) ''GET''
     [''zoltankiss'', ''agntcoin'', ''agntcoin'', ''v1'', ''account'', ''alice''] ()
   = ForwardResponseMessage (AccountResponse (funded ''alice'' 1000))"
proof -
  have u: "[''zoltankiss'', ''agntcoin'', ''agntcoin'', ''v1'', ''account'', ''alice''] = url RpcGetAccount ''alice''"
    by (simp add: url_def)
  have "candidates stackMatch ''GET'' (url RpcGetAccount ''alice'') [] = []"
    by (simp add: candidates_def List.map_filter_simps)
  note served = conjunct1 [OF gateway_serves_declared_urls [OF stackMatch_laws this]]
  show ?thesis
    unfolding u served
    by (simp add: served_def plainGateway_def wordArg_def NewQueryServerImpl_def GetAccount_def)
qed

end
