(* ===== verification/CommandLine.thy ===== *)
theory CommandLine
  imports Routing
begin

text \<open>
  The command-line descriptors of the module (\<^verbatim>\<open>module/autocli.go\<close>): the table from which the SDK
  builds the commands \<^verbatim>\<open>agntcoind query agntcoin\<close> and \<^verbatim>\<open>agntcoind tx agntcoin\<close>. They are compared with
  the URLs of \<^verbatim>\<open>query.proto\<close> and the fields of the messages in \<^verbatim>\<open>tx.proto\<close>.
\<close>

record RpcCommandOptions =
  RpcMethod :: string
  Use :: string
  Short :: string
  Alias :: "string list"
  PositionalArgs :: "string list"
  Skip :: bool

definition command :: "string \<Rightarrow> string \<Rightarrow> string \<Rightarrow> string list \<Rightarrow> string list \<Rightarrow> RpcCommandOptions" where
  "command rpc use short alias args =
     \<lparr>RpcMethod = rpc, Use = use, Short = short, Alias = alias, PositionalArgs = args, Skip = False\<rparr>"

definition queryCommands :: "RpcCommandOptions list" where
  "queryCommands =
    [command ''Params'' ''params'' ''Shows the parameters of the module'' [] [],
     command ''Emission'' ''emission'' ''Shows protocol emission accounting'' [] [],
     command ''ListAccount'' ''list-account'' ''List all account'' [] [],
     command ''GetAccount'' ''get-account [id]'' ''Gets a account'' [''show-account''] [''address''],
     command ''ListVouch'' ''list-vouch'' ''List all vouch'' [] [],
     command ''GetVouch'' ''get-vouch [id]'' ''Gets a vouch by id'' [''show-vouch''] [''id''],
     command ''Reputation'' ''reputation [address]'' ''Query reputation'' [] [''address''],
     command ''ListEscrow'' ''list-escrow'' ''List all escrow'' [] [],
     command ''GetEscrow'' ''get-escrow [id]'' ''Gets an escrow by id'' [''show-escrow''] [''id''],
     command ''ListDispute'' ''list-dispute'' ''List all jury disputes'' [] [],
     command ''GetDispute'' ''get-dispute [id]'' ''Gets a jury dispute by id'' [''show-dispute''] [''id''],
     command ''ListBond'' ''list-bond'' ''List all bonds (slashable collateral)'' [] [],
     command ''GetBond'' ''get-bond [id]'' ''Gets a bond by id'' [''show-bond''] [''id''],
     command ''GetContributionAward'' ''get-contribution-award [id]'' ''Gets an accepted protocol contribution award by id'' [''show-contribution-award''] [''id''],
     command ''ListContributionAward'' ''list-contribution-award'' ''List accepted protocol contribution awards'' [] [],
     command ''GetGate'' ''get-gate [id]'' ''Gets a protocol PR-review gate by id'' [''show-gate''] [''id''],
     command ''ListGate'' ''list-gate'' ''List protocol PR-review gates'' [] [],
     command ''GetScopedEvidenceVouch'' ''get-scoped-evidence-vouch [id]'' ''Gets a scoped evidence vouch by id'' [''show-scoped-evidence-vouch''] [''id''],
     command ''ListScopedEvidenceVouch'' ''list-scoped-evidence-vouch'' ''List scoped evidence vouches'' [] []]"

definition txCommands :: "RpcCommandOptions list" where
  "txCommands =
    [\<lparr>RpcMethod = ''UpdateParams'', Use = [], Short = [], Alias = [], PositionalArgs = [], Skip = True\<rparr>,
     command ''Register'' ''register ''
       ''Send a register tx'' []
       [],
     command ''Faucet'' ''faucet ''
       ''Send a faucet tx'' []
       [],
     command ''Transfer'' ''transfer [to-addr] [amount]''
       ''Send a transfer tx'' []
       [''to_addr'', ''amount''],
     command ''Castvouch'' ''castvouch [to-addr] [weight] [stake]''
       ''Send a castvouch tx (locks stake behind the vouch)'' []
       [''to_addr'', ''weight'', ''stake''],
     command ''Unvouch'' ''unvouch [to-addr]''
       ''Remove your vouch for an address and reclaim the locked stake'' []
       [''to_addr''],
     command ''LockEscrow'' ''lock-escrow [payee] [amount] [ref] [dispute-seconds]''
       ''Lock funds into a new escrow'' []
       [''payee'', ''amount'', ''ref'', ''dispute_seconds''],
     command ''ReleaseEscrow'' ''release-escrow [id]''
       ''Release an escrow to the payee'' []
       [''id''],
     command ''RefundEscrow'' ''refund-escrow [id]''
       ''Refund an escrow to the payer'' []
       [''id''],
     command ''SubmitEscrow'' ''submit-escrow [id]''
       ''Payee: mark an escrow delivered (blocks refund)'' []
       [''id''],
     command ''DisputeEscrow'' ''dispute-escrow [id]''
       ''Payer: contest submitted work (freeze, no auto-release)'' []
       [''id''],
     command ''PostBond'' ''post-bond [amount] [purpose] [slasher] [ref]''
       ''Lock slashable collateral behind a claim (only the slasher can release/slash it)'' []
       [''amount'', ''purpose'', ''slasher'', ''ref''],
     command ''ReleaseBond'' ''release-bond [id]''
       ''Slasher: exonerate a bond (refund the poster)'' []
       [''id''],
     command ''SlashBond'' ''slash-bond [id] [beneficiary]''
       ''Slasher: punish a bond (collateral to beneficiary, or burn if empty)'' []
       [''id'', ''beneficiary''],
     command ''PostGate'' ''post-gate [payload-uri] [payload-hash] [gold-commit] [drip] [max-answers]''
       ''Anchor: post a protocol PR-review gate'' []
       [''payload_uri'', ''payload_hash'', ''gold_commit'', ''drip'', ''max_answers''],
     command ''CommitAnswer'' ''commit-answer [gate-id] [commit]''
       ''Commit a hashed gate answer'' []
       [''gate_id'', ''commit''],
     command ''RevealAnswer'' ''reveal-answer [gate-id] [answer] [salt]''
       ''Reveal a committed gate answer'' []
       [''gate_id'', ''answer'', ''salt''],
     command ''SettleGate'' ''settle-gate [gate-id] [gold-answer] [gold-salt]''
       ''Settle a gate and mint drip to coherent answers'' []
       [''gate_id'', ''gold_answer'', ''gold_salt''],
     command ''AwardContribution'' ''award-contribution [recipient] [repo-url] [pr-url] [commit-sha] [artifact-uri] [artifact-sha256] [evidence-sha256] [scope] [rationale-hash] [amount] [contributor] [founder-authored] [review-evidence-uri]''
       ''Anchor: mint capped AGNT to an accepted protocol contribution author; recipient must match contributor'' []
       [''recipient'', ''repo_url'', ''pr_url'', ''commit_sha'', ''artifact_uri'', ''artifact_sha256'', ''evidence_sha256'', ''scope'', ''rationale_hash'', ''amount'', ''contributor'', ''founder_authored'', ''review_evidence_uri''],
     command ''CastScopedEvidenceVouch'' ''cast-scoped-evidence-vouch [recipient] [scope] [weight] [artifact-uri] [artifact-sha256] [evidence-uri] [evidence-sha256] [rationale-hash] [expires-at]''
       ''Anchor/high-rep issuer: record a scoped evidence vouch without coin stake'' []
       [''recipient'', ''scope'', ''weight'', ''artifact_uri'', ''artifact_sha256'', ''evidence_uri'', ''evidence_sha256'', ''rationale_hash'', ''expires_at'']]"

section \<open>Queries\<close>

fun rpcName :: "rpc \<Rightarrow> string" where
  "rpcName RpcParams = ''Params''"
| "rpcName RpcGetAccount = ''GetAccount''"
| "rpcName RpcListAccount = ''ListAccount''"
| "rpcName RpcGetVouch = ''GetVouch''"
| "rpcName RpcListVouch = ''ListVouch''"
| "rpcName RpcReputation = ''Reputation''"
| "rpcName RpcGetEscrow = ''GetEscrow''"
| "rpcName RpcListEscrow = ''ListEscrow''"
| "rpcName RpcGetDispute = ''GetDispute''"
| "rpcName RpcListDispute = ''ListDispute''"
| "rpcName RpcGetBond = ''GetBond''"
| "rpcName RpcListBond = ''ListBond''"
| "rpcName RpcGetContributionAward = ''GetContributionAward''"
| "rpcName RpcListContributionAward = ''ListContributionAward''"
| "rpcName RpcGetGate = ''GetGate''"
| "rpcName RpcListGate = ''ListGate''"
| "rpcName RpcGetScopedEvidenceVouch = ''GetScopedEvidenceVouch''"
| "rpcName RpcListScopedEvidenceVouch = ''ListScopedEvidenceVouch''"
| "rpcName RpcEmission = ''Emission''"

text \<open>
  Each query has one command, and the command takes by position exactly what the URL of the
  query takes as its last word.
\<close>

definition commandOf :: "rpc \<Rightarrow> RpcCommandOptions list" where
  "commandOf r = filter (\<lambda>c. RpcMethod c = rpcName r) queryCommands"

lemma query_commands_match_urls:
  "\<exists>c. commandOf r = [c] \<and> \<not> Skip c
     \<and> PositionalArgs c = (case snd (template r) of None \<Rightarrow> [] | Some var \<Rightarrow> [var])"
  by (cases r) (simp_all add: commandOf_def queryCommands_def command_def)

lemma query_commands_complete: "distinct (map RpcMethod queryCommands)"
    "set (map RpcMethod queryCommands) = rpcName ` UNIV"
proof -
  show "distinct (map RpcMethod queryCommands)"
    by (simp add: queryCommands_def command_def)
  have "set (map RpcMethod queryCommands) = set (map rpcName all_rpcs)"
    by (rule subset_antisym) (simp_all add: queryCommands_def command_def all_rpcs_def)
  then show "set (map RpcMethod queryCommands) = rpcName ` UNIV" by (simp add: all_rpcs)
qed

section \<open>Transactions\<close>

text \<open>The fields of the messages, without the signer, in the order of their declaration.\<close>

definition messageFields :: "(string \<times> string list) list" where
  "messageFields =
    [(''UpdateParams'', [''params'']),
     (''Register'', []),
     (''Faucet'', []),
     (''Transfer'', [''to_addr'', ''amount'', ''memo'']),
     (''Castvouch'', [''to_addr'', ''weight'', ''stake'']),
     (''Unvouch'', [''to_addr'']),
     (''LockEscrow'', [''payee'', ''amount'', ''ref'', ''dispute_seconds'', ''no_auto_release'', ''verifier_addrs'', ''verifier_quorum'', ''acceptance_hash'']),
     (''ReleaseEscrow'', [''id'']),
     (''RefundEscrow'', [''id'']),
     (''SubmitEscrow'', [''id'', ''delivery_hash'', ''key_hash'', ''artifact_uri'']),
     (''DisputeEscrow'', [''id'']),
     (''OpenDispute'', [''escrow_id'', ''reason'', ''bond_amount'']),
     (''CastVote'', [''dispute_id'', ''accept'', ''stake_amount'']),
     (''ResolveDispute'', [''dispute_id'']),
     (''PostBond'', [''amount'', ''purpose'', ''slasher'', ''ref'']),
     (''ReleaseBond'', [''id'']),
     (''SlashBond'', [''id'', ''beneficiary'']),
     (''AttestEscrow'', [''escrow_id'', ''passed'', ''stake_amount'', ''delivery_hash'', ''key_hash'', ''acceptance_hash'']),
     (''VerifiedRelease'', [''escrow_id'', ''key'']),
     (''ReclaimAttestationBonds'', [''escrow_id'']),
     (''PostGate'', [''payload_uri'', ''payload_hash'', ''gold_commit'', ''drip'', ''max_answers'']),
     (''CommitAnswer'', [''gate_id'', ''commit'']),
     (''RevealAnswer'', [''gate_id'', ''answer'', ''salt'']),
     (''SettleGate'', [''gate_id'', ''gold_answer'', ''gold_salt'']),
     (''AwardContribution'', [''recipient'', ''repo_url'', ''pr_url'', ''commit_sha'', ''artifact_uri'', ''artifact_sha256'', ''evidence_sha256'', ''scope'', ''rationale_hash'', ''amount'', ''contributor'', ''founder_authored'', ''review_evidence_uri'']),
     (''CastScopedEvidenceVouch'', [''recipient'', ''scope'', ''weight'', ''artifact_uri'', ''artifact_sha256'', ''evidence_uri'', ''evidence_sha256'', ''rationale_hash'', ''expires_at''])]"

text \<open>
  What a command takes by position are the first fields of its message, in their order; the command
  of the authority is left out of the command line.
\<close>

lemma tx_commands_match_messages:
  "list_all (\<lambda>c. if Skip c then RpcMethod c = ''UpdateParams''
                 else (case map_of messageFields (RpcMethod c) of
                         None \<Rightarrow> False
                       | Some fs \<Rightarrow> take (length (PositionalArgs c)) fs = PositionalArgs c)) txCommands"
  by (simp add: txCommands_def command_def messageFields_def)

text \<open>The messages without a descriptor, for which the SDK builds a command without positional arguments.\<close>

lemma tx_commands_missing:
  "filter (\<lambda>m. m \<notin> set (map RpcMethod txCommands)) (map fst messageFields)
   = [''OpenDispute'', ''CastVote'', ''ResolveDispute'', ''AttestEscrow'', ''VerifiedRelease'', ''ReclaimAttestationBonds'']"
  by (simp add: txCommands_def command_def messageFields_def)

section \<open>Before a command runs\<close>

text \<open>
  The root command (\<^verbatim>\<open>cmd/root.go\<close>, \<^verbatim>\<open>cmd/config.go\<close>): before any command the flags, the client
  configuration and the files of the node are read, with the default settings of the SDK and of
  CometBFT. The context of the client is of a type \<open>'c\<close>.
\<close>

record ('c, 'tmpl, 'app, 'cmt) clientLib =
  WithCmdContext :: "'c \<Rightarrow> 'c"
  WithViper :: "string \<Rightarrow> 'c \<Rightarrow> 'c"
  ReadPersistentCommandFlags :: "'c \<Rightarrow> go_error + 'c"
  ReadFromClientConfig :: "'c \<Rightarrow> go_error + 'c"
  SetCmdClientContextHandler :: "'c \<Rightarrow> go_error + 'c"
  DefaultConfigTemplate :: 'tmpl
  DefaultAppConfig :: 'app
  DefaultCometConfig :: 'cmt
  InterceptConfigsPreRunHandler :: "'tmpl \<Rightarrow> 'app \<Rightarrow> 'cmt \<Rightarrow> 'c \<Rightarrow> go_error + 'c"

definition initCometBFTConfig :: "('c, 'tmpl, 'app, 'cmt) clientLib \<Rightarrow> 'cmt" where
  "initCometBFTConfig k = DefaultCometConfig k"

definition initAppConfig :: "('c, 'tmpl, 'app, 'cmt) clientLib \<Rightarrow> 'tmpl \<times> 'app" where
  "initAppConfig k = (DefaultConfigTemplate k, DefaultAppConfig k)"

definition PersistentPreRunE :: "('c, 'tmpl, 'app, 'cmt) clientLib \<Rightarrow> string \<Rightarrow> 'c \<Rightarrow> go_error + 'c" where
  "PersistentPreRunE k appName clientCtx =
     andThen (ReadPersistentCommandFlags k (WithViper k appName (WithCmdContext k clientCtx))) (\<lambda>ctx1.
     andThen (ReadFromClientConfig k ctx1) (\<lambda>ctx2.
     andThen (SetCmdClientContextHandler k ctx2) (\<lambda>ctx3.
     let (customAppTemplate, customAppConfig) = initAppConfig k;
         customCMTConfig = initCometBFTConfig k
     in InterceptConfigsPreRunHandler k customAppTemplate customAppConfig customCMTConfig ctx3)))"

end
