(* ===== verification/AppConfig.thy ===== *)
theory AppConfig
  imports GoStd
begin

text \<open>
  How the application is put together (\<^verbatim>\<open>app/app_config.go\<close>, \<^verbatim>\<open>app/app.go\<close>, \<^verbatim>\<open>app/ibc.go\<close> and
  \<^verbatim>\<open>app/config.go\<close>): which modules it has, in which order they run, which accounts they own
  and what starting it does. The modules are those of the SDK and of IBC; only their names occur here, as
  constants, and the text behind a name is an argument where it matters.
\<close>

section \<open>Names\<close>

definition Name :: string where
  "Name = ''agntcoin''"

definition AccountAddressPrefix :: string where
  "AccountAddressPrefix = ''agnt''"

definition ChainCoinType :: nat where
  "ChainCoinType = 118"

text \<open>The names the SDK and IBC define: of modules, of accounts and of permissions.\<close>

datatype sdkName =
    Auth | Authz | Bank | Circuit | Consensus | Distr | Epochs | Evidence | Feegrant | Genutil | Gov | Group
  | Mint | Nft | ParamsMod | Runtime | Slashing | Staking | TxConfig | Upgrade | Vesting | Agntcoin
  | Ibc | IbcTransfer | Ica | IcaController | IcaHost | IbcTm | Solomachine
  | FeeCollector | BondedPool | NotBondedPool | Minter | Burner

text \<open>The denomination and the address prefixes, set once before the program starts.\<close>

record sdkConfig =
  DefaultBondDenom :: string
  CoinType :: nat
  AccountPrefix :: "string \<times> string"
  ValidatorPrefix :: "string \<times> string"
  ConsensusPrefix :: "string \<times> string"
  Sealed :: bool

definition initConfig :: "sdkConfig \<Rightarrow> sdkConfig" where
  "initConfig c =
     c\<lparr>DefaultBondDenom := ''stake'', CoinType := ChainCoinType,
       AccountPrefix := (AccountAddressPrefix, AccountAddressPrefix @ ''pub''),
       ValidatorPrefix := (AccountAddressPrefix @ ''valoper'', AccountAddressPrefix @ ''valoperpub''),
       ConsensusPrefix := (AccountAddressPrefix @ ''valcons'', AccountAddressPrefix @ ''valconspub''),
       Sealed := True\<rparr>"

section \<open>Module accounts\<close>

definition moduleAccPerms :: "(sdkName \<times> sdkName list) list" where
  "moduleAccPerms =
    [(FeeCollector, []),
     (Distr, []),
     (Mint, [Minter]),
     (BondedPool, [Burner, Staking]),
     (NotBondedPool, [Burner, Staking]),
     (Gov, [Burner]),
     (Nft, []),
     (IbcTransfer, [Minter, Burner]),
     (Ica, [])]"

definition blockAccAddrs :: "sdkName list" where
  "blockAccAddrs = [FeeCollector, Distr, Mint, BondedPool, NotBondedPool, Nft]"

definition GetMaccPerms :: "(sdkName \<Rightarrow> string) \<Rightarrow> string \<rightharpoonup> string list" where
  "GetMaccPerms str = fold (\<lambda>(acc, perms) dup. dup(str acc \<mapsto> map str perms)) moduleAccPerms Map.empty"

text \<open>The second branch ranges over the keys of a map, in an order that does not matter.\<close>

definition BlockedAddresses :: "(sdkName \<Rightarrow> string) \<Rightarrow> string \<rightharpoonup> bool" where
  "BlockedAddresses str =
     (if length blockAccAddrs > 0 then fold (\<lambda>addr result. result(str addr \<mapsto> True)) blockAccAddrs Map.empty
      else (\<lambda>addr. if GetMaccPerms str addr \<noteq> None then Some True else None))"

section \<open>The modules\<close>

record RuntimeModule =
  AppName :: string
  PreBlockers :: "sdkName list"
  BeginBlockers :: "sdkName list"
  EndBlockers :: "sdkName list"
  OverrideStoreKeys :: "(sdkName \<times> string) list"
  InitGenesisOrder :: "sdkName list"

datatype moduleConfig =
    RuntimeConfig RuntimeModule
  | AuthConfig string "(sdkName \<times> sdkName list) list" bool
  | BankConfig "sdkName list"
  | GroupConfig int nat
  | EmptyConfig

definition runtimeModule :: RuntimeModule where
  "runtimeModule =
    \<lparr>AppName = Name,
     PreBlockers = [Upgrade, Auth],
     BeginBlockers = [Mint, Distr, Slashing, Evidence, Staking, Authz, Epochs, Ibc, Agntcoin],
     EndBlockers = [Gov, Staking, Feegrant, Group, Agntcoin],
     OverrideStoreKeys = [(Auth, ''acc'')],
     InitGenesisOrder =
       [Consensus, Auth, Bank, Distr, Staking, Slashing, Gov, Mint, Genutil, Evidence, Authz, Feegrant, Vesting,
        Nft, Group, Upgrade, Circuit, Epochs, Ibc, IbcTransfer, Ica, Agntcoin]\<rparr>"

text \<open>The longest a proposal of a group may run, in seconds, and the longest metadata.\<close>

definition appConfig :: "(sdkName \<times> moduleConfig) list" where
  "appConfig =
    [(Runtime, RuntimeConfig runtimeModule),
     (Auth, AuthConfig AccountAddressPrefix moduleAccPerms True),
     (Vesting, EmptyConfig),
     (Bank, BankConfig blockAccAddrs),
     (Staking, EmptyConfig),
     (Slashing, EmptyConfig),
     (TxConfig, EmptyConfig),
     (Genutil, EmptyConfig),
     (Authz, EmptyConfig),
     (Upgrade, EmptyConfig),
     (Distr, EmptyConfig),
     (Evidence, EmptyConfig),
     (Mint, EmptyConfig),
     (Group, GroupConfig 1209600 255),
     (Nft, EmptyConfig),
     (Feegrant, EmptyConfig),
     (Gov, EmptyConfig),
     (Consensus, EmptyConfig),
     (Circuit, EmptyConfig),
     (ParamsMod, EmptyConfig),
     (Epochs, EmptyConfig),
     (Agntcoin, EmptyConfig)]"

section \<open>IBC\<close>

text \<open>
  What \<open>registerIBCModules\<close> does to the application \<open>'a\<close>, as a record of functions: stores, tables of
  parameters, keepers and routes. A keeper is built from its store key, its parameters and the address of the
  governance account; the other keepers it gets are those of the application.
\<close>

datatype 'key foundKey = NoKey | KVKey 'key | OtherKey

record ('a, 'key, 'table) ibcLib =
  RegisterStores :: "sdkName list \<Rightarrow> 'a \<Rightarrow> go_error + 'a"
  ParamKeyTable :: "sdkName \<Rightarrow> 'table"
  RegisterConnectionParams :: "'table \<Rightarrow> 'table"
  WithKeyTable :: "sdkName \<Rightarrow> 'table \<Rightarrow> 'a \<Rightarrow> 'a"
  UnsafeFindStoreKey :: "sdkName \<Rightarrow> 'a \<Rightarrow> 'key foundKey"
  ModuleAddressString :: "sdkName \<Rightarrow> 'a \<Rightarrow> go_error + string"
  NewIBCKeeper :: "sdkName \<Rightarrow> 'key option \<Rightarrow> sdkName \<Rightarrow> string \<Rightarrow> 'a \<Rightarrow> 'a"
  SetRouter :: "(sdkName \<times> sdkName) list \<Rightarrow> 'a \<Rightarrow> 'a"
  SetRouterV2 :: "(sdkName \<times> sdkName) list \<Rightarrow> 'a \<Rightarrow> 'a"
  AddClientRoute :: "sdkName \<Rightarrow> 'a \<Rightarrow> 'a"
  RegisterModules :: "sdkName list \<Rightarrow> 'a \<Rightarrow> go_error + 'a"

text \<open>The store of a name, if it is a key-value store.\<close>

definition GetKey :: "('a, 'key, 'table) ibcLib \<Rightarrow> sdkName \<Rightarrow> 'a \<Rightarrow> 'key option" where
  "GetKey k storeKey app = (case UnsafeFindStoreKey k storeKey app of KVKey kvStoreKey \<Rightarrow> Some kvStoreKey | _ \<Rightarrow> None)"

definition ibcStores :: "sdkName list" where
  "ibcStores = [Ibc, IbcTransfer, IcaHost, IcaController]"

definition registerKeyTables :: "('a, 'key, 'table) ibcLib \<Rightarrow> 'a \<Rightarrow> 'a" where
  "registerKeyTables k app =
     (let app1 = WithKeyTable k Ibc (RegisterConnectionParams k (ParamKeyTable k Ibc)) app;
          app2 = WithKeyTable k IbcTransfer (ParamKeyTable k IbcTransfer) app1;
          app3 = WithKeyTable k IcaController (ParamKeyTable k IcaController) app2
      in WithKeyTable k IcaHost (ParamKeyTable k IcaHost) app3)"

text \<open>The four keepers, each with its store, its parameters and the authority.\<close>

definition createKeepers :: "('a, 'key, 'table) ibcLib \<Rightarrow> string \<Rightarrow> 'a \<Rightarrow> 'a" where
  "createKeepers k govModuleAddr app =
     (let app1 = NewIBCKeeper k Ibc (GetKey k Ibc app) Ibc govModuleAddr app;
          app2 = NewIBCKeeper k IbcTransfer (GetKey k IbcTransfer app1) IbcTransfer govModuleAddr app1;
          app3 = NewIBCKeeper k IcaHost (GetKey k IcaHost app2) IcaHost govModuleAddr app2
      in NewIBCKeeper k IcaController (GetKey k IcaController app3) IcaController govModuleAddr app3)"

text \<open>The routes: a port or client type, and the module whose stack serves it.\<close>

definition ibcRoutes :: "(sdkName \<times> sdkName) list" where
  "ibcRoutes = [(IbcTransfer, IbcTransfer), (IcaController, IcaController), (IcaHost, IcaHost)]"

definition ibcRoutesV2 :: "(sdkName \<times> sdkName) list" where
  "ibcRoutesV2 = [(IbcTransfer, IbcTransfer)]"

definition ibcModules :: "sdkName list" where
  "ibcModules = [Ibc, IbcTransfer, Ica, IbcTm, Solomachine]"

definition registerIBCModules :: "('a, 'key, 'table) ibcLib \<Rightarrow> 'a \<Rightarrow> go_error + 'a" where
  "registerIBCModules k app =
     andThen (RegisterStores k ibcStores app) (\<lambda>app1.
     let app2 = registerKeyTables k app1;
         govModuleAddr = (case ModuleAddressString k Gov app2 of Inl _ \<Rightarrow> [] | Inr a \<Rightarrow> a);
         app3 = createKeepers k govModuleAddr app2;
         app4 = SetRouterV2 k ibcRoutesV2 (SetRouter k ibcRoutes app3);
         app5 = AddClientRoute k Solomachine (AddClientRoute k IbcTm app4)
     in RegisterModules k ibcModules app5)"

text \<open>The same modules for the client side, where the interfaces of those that have any are registered.\<close>

definition RegisterIBC :: "(sdkName \<Rightarrow> bool) \<Rightarrow> (sdkName \<Rightarrow> 'r \<Rightarrow> 'r) \<Rightarrow> sdkName list \<Rightarrow> 'r \<Rightarrow> sdkName list \<times> 'r" where
  "RegisterIBC isBasic RegisterInterfaces order registry =
     (let modules = [Ibc, IbcTransfer, Ica, IbcTm, Solomachine]
      in (modules, fold (\<lambda>m r. if isBasic m then RegisterInterfaces m r else r) order registry))"

section \<open>Starting the application\<close>

record ('a, 'opts, 'bopt, 'ctx, 'req, 'resp) appLib =
  Inject :: "'opts \<Rightarrow> go_error + 'a"
  SetOptimisticExecution :: 'bopt
  Build :: "'bopt list \<Rightarrow> 'a \<Rightarrow> 'a"
  NewSimulationManager :: "'a \<Rightarrow> 'a"
  RegisterStoreDecoders :: "'a \<Rightarrow> 'a"
  SetModuleVersionMap :: "'a \<Rightarrow> 'ctx \<Rightarrow> go_error + 'ctx"
  RuntimeInitChainer :: "'a \<Rightarrow> 'ctx \<Rightarrow> 'req \<Rightarrow> go_error + 'resp \<times> 'ctx"
  SetInitChainer :: "('ctx \<Rightarrow> 'req \<Rightarrow> go_error + 'resp \<times> 'ctx) \<Rightarrow> 'a \<Rightarrow> 'a"
  Load :: "bool \<Rightarrow> 'a \<Rightarrow> go_error + 'a"

text \<open>At the start of a chain the versions of the modules are stored first, then every module is initialized.\<close>

definition initChainer :: "('a, 'opts, 'bopt, 'ctx, 'req, 'resp) appLib \<Rightarrow> 'a \<Rightarrow> 'ctx \<Rightarrow> 'req \<Rightarrow> go_error + 'resp \<times> 'ctx" where
  "initChainer k app ctx req =
     andThen (SetModuleVersionMap k app ctx) (\<lambda>ctx1. RuntimeInitChainer k app ctx1 req)"

text \<open>Every error on the way is a panic.\<close>

definition New ::
  "('a, 'opts, 'bopt, 'ctx, 'req, 'resp) appLib \<Rightarrow> ('a, 'key, 'table) ibcLib \<Rightarrow> bool \<Rightarrow> 'opts \<Rightarrow> 'bopt list \<Rightarrow> go_error + 'a" where
  "New k ibc loadLatest appOpts baseAppOptions =
     andThen (Inject k appOpts) (\<lambda>app.
     let app1 = Build k (baseAppOptions @ [SetOptimisticExecution k]) app
     in andThen (registerIBCModules ibc app1) (\<lambda>app2.
     let app3 = RegisterStoreDecoders k (NewSimulationManager k app2);
         app4 = SetInitChainer k (initChainer k app3) app3
     in Load k loadLatest app4))"

definition newApp ::
  "('a, 'opts, 'bopt, 'ctx, 'req, 'resp) appLib \<Rightarrow> ('a, 'key, 'table) ibcLib \<Rightarrow> ('opts \<Rightarrow> 'bopt list) \<Rightarrow> 'opts \<Rightarrow> go_error + 'a" where
  "newApp k ibc DefaultBaseappOptions appOpts = New k ibc True appOpts (DefaultBaseappOptions appOpts)"

section \<open>What the configuration guarantees\<close>

text \<open>One name comes before another.\<close>

definition before :: "'x \<Rightarrow> 'x \<Rightarrow> 'x list \<Rightarrow> bool" where
  "before x y xs \<longleftrightarrow> y \<in> set (tl (dropWhile (\<lambda>z. z \<noteq> x) xs))"

text \<open>
  The orders that the comments of the configuration ask for: the upgrade module is the first of all,
  slashing runs after the distribution of the fees, and the genesis transactions come after the
  accounts they need and after staking. The module of this chain is always the last.
\<close>

lemma required_orders:
  "hd (PreBlockers runtimeModule) = Upgrade"
  "before Distr Slashing (BeginBlockers runtimeModule)"
  "before Staking Genutil (InitGenesisOrder runtimeModule)"
  "before Auth Genutil (InitGenesisOrder runtimeModule)"
  "last (BeginBlockers runtimeModule) = Agntcoin"
  "last (EndBlockers runtimeModule) = Agntcoin"
  "last (InitGenesisOrder runtimeModule) = Agntcoin"
  by (simp_all add: runtimeModule_def before_def)

text \<open>No module occurs twice in an order, and each one is configured or registered by hand.\<close>

lemma orders_are_of_modules:
  assumes "order \<in> {PreBlockers runtimeModule, BeginBlockers runtimeModule, EndBlockers runtimeModule, InitGenesisOrder runtimeModule}"
  shows "distinct order" and "set order \<subseteq> fst ` set appConfig \<union> set ibcModules"
  using assms
  by (elim insertE emptyE; hypsubst; simp add: runtimeModule_def appConfig_def ibcModules_def)+

lemma distinct_modules: "distinct (map fst appConfig @ ibcModules)"
  by (simp add: appConfig_def ibcModules_def)

text \<open>The accounts that must not receive coins, and those that may: three, not one as the comment says.\<close>

lemma maccPerms_accounts:
  assumes "inj str"
  shows "GetMaccPerms str (str acc) = map_option (map str) (map_of moduleAccPerms acc)"
  by (cases acc) (simp_all add: GetMaccPerms_def moduleAccPerms_def inj_eq [OF assms])

lemma blocked_accounts:
  assumes "inj str"
  shows "BlockedAddresses str (str acc) = (if acc \<in> set blockAccAddrs then Some True else None)"
  by (cases acc) (simp_all add: BlockedAddresses_def blockAccAddrs_def inj_eq [OF assms])

lemma accounts_that_receive:
  assumes "inj str"
  shows "{acc. GetMaccPerms str (str acc) \<noteq> None \<and> BlockedAddresses str (str acc) = None} = {Gov, IbcTransfer, Ica}"
proof -
  have "GetMaccPerms str (str acc) \<noteq> None \<and> BlockedAddresses str (str acc) = None \<longleftrightarrow>
      acc \<in> set (map fst moduleAccPerms) \<and> acc \<notin> set blockAccAddrs" for acc
    by (simp add: maccPerms_accounts [OF assms] blocked_accounts [OF assms] map_of_eq_None_iff del: map_of.simps)
  then have "{acc. GetMaccPerms str (str acc) \<noteq> None \<and> BlockedAddresses str (str acc) = None}
      = set (filter (\<lambda>acc. acc \<notin> set blockAccAddrs) (map fst moduleAccPerms))" by auto
  also have "filter (\<lambda>acc. acc \<notin> set blockAccAddrs) (map fst moduleAccPerms) = [Gov, IbcTransfer, Ica]"
    by (simp add: moduleAccPerms_def blockAccAddrs_def)
  finally show ?thesis by simp
qed

text \<open>Only two modules can make coins of the bank, and the module of this chain has no account there at all.\<close>

lemma minters:
  assumes "inj str"
  shows "(\<exists>perms. GetMaccPerms str (str acc) = Some perms \<and> str Minter \<in> set perms) \<longleftrightarrow> acc \<in> {Mint, IbcTransfer}"
  by (cases acc) (simp_all add: maccPerms_accounts [OF assms] moduleAccPerms_def inj_eq [OF assms])

lemma agntcoin_has_no_account: "inj str \<Longrightarrow> GetMaccPerms str (str Agntcoin) = None"
  by (simp add: maccPerms_accounts moduleAccPerms_def)

text \<open>A chain whose versions cannot be stored does not start.\<close>

lemma versions_first: "SetModuleVersionMap k app ctx = Inl err \<Longrightarrow> initChainer k app ctx req = Inl err"
  by (simp add: initChainer_def)

end
