(* ===== verification/AppExport.thy ===== *)
theory AppExport
  imports GoStd
begin

text \<open>
  The export of the whole application (\<^verbatim>\<open>app/export.go\<close>, with the command of
  \<^verbatim>\<open>cmd/commands.go\<close>) and the check of a genesis account (\<^verbatim>\<open>app/genesis_account.go\<close>). The stores of
  the SDK modules are of a type \<open>'s\<close>; the functions of the SDK that the code calls are the fields of the
  record \<open>sdk\<close>, with the block height of the context as an argument where the code changes it.
  A panic, also one inside a callback, is the error of the function; the texts of wrapped errors
  are left out. The validator address codec the application reaches through its registry and
  the one of the staking keeper are one argument, and so are the keys the last loop over validators visits.
\<close>

section \<open>What the export uses of the SDK\<close>

record Validator =
  OperatorAddress :: string
  UnbondingHeight :: i64
  Jailed :: bool

record Delegation =
  DelegatorAddress :: string
  ValidatorAddress :: string

text \<open>A redelegation and an unbonding delegation are lists of entries with a creation height.\<close>

record Entry =
  CreationHeight :: i64

record SigningInfo =
  StartHeight :: i64

type_synonym ('x, 's) each = "('x \<Rightarrow> 's \<Rightarrow> go_error + 's) \<Rightarrow> 's \<Rightarrow> go_error + 's"

record ('s, 'b, 'c, 'p) sdk =
  valBytes :: "string \<Rightarrow> go_error + 'b"
  accBytes :: "string \<Rightarrow> go_error + 'b"
  valString :: "'b \<Rightarrow> go_error + string"
  IterateValidators :: "i64 \<Rightarrow> (Validator, 's) each"
  WithdrawValidatorCommission :: "i64 \<Rightarrow> 'b \<Rightarrow> 's \<Rightarrow> 's"
  GetAllDelegations :: "i64 \<Rightarrow> 's \<Rightarrow> go_error + Delegation list"
  WithdrawDelegationRewards :: "i64 \<Rightarrow> 'b \<Rightarrow> 'b \<Rightarrow> 's \<Rightarrow> 's"
  DeleteAllValidatorSlashEvents :: "i64 \<Rightarrow> 's \<Rightarrow> 's"
  DeleteAllValidatorHistoricalRewards :: "i64 \<Rightarrow> 's \<Rightarrow> 's"
  GetValidatorOutstandingRewardsCoins :: "i64 \<Rightarrow> 'b \<Rightarrow> 's \<Rightarrow> go_error + 'c"
  GetFeePool :: "i64 \<Rightarrow> 's \<Rightarrow> go_error + 'p"
  AddToCommunityPool :: "'p \<Rightarrow> 'c \<Rightarrow> 'p"
  SetFeePool :: "i64 \<Rightarrow> 'p \<Rightarrow> 's \<Rightarrow> go_error + 's"
  AfterValidatorCreated :: "i64 \<Rightarrow> 'b \<Rightarrow> 's \<Rightarrow> go_error + 's"
  BeforeDelegationCreated :: "i64 \<Rightarrow> 'b \<Rightarrow> 'b \<Rightarrow> 's \<Rightarrow> go_error + 's"
  AfterDelegationModified :: "i64 \<Rightarrow> 'b \<Rightarrow> 'b \<Rightarrow> 's \<Rightarrow> go_error + 's"
  IterateRedelegations :: "i64 \<Rightarrow> ('b \<times> Entry list, 's) each"
  SetRedelegation :: "i64 \<Rightarrow> 'b \<times> Entry list \<Rightarrow> 's \<Rightarrow> go_error + 's"
  IterateUnbondingDelegations :: "i64 \<Rightarrow> ('b \<times> Entry list, 's) each"
  SetUnbondingDelegation :: "i64 \<Rightarrow> 'b \<times> Entry list \<Rightarrow> 's \<Rightarrow> go_error + 's"
  ValidatorKeys :: "'s \<Rightarrow> 'b list"
  CloseError :: "'s \<Rightarrow> go_error option"
  GetValidator :: "i64 \<Rightarrow> 'b \<Rightarrow> 's \<Rightarrow> Validator option"
  SetValidator :: "i64 \<Rightarrow> Validator \<Rightarrow> 's \<Rightarrow> go_error + 's"
  ApplyAndReturnValidatorSetUpdates :: "i64 \<Rightarrow> 's \<Rightarrow> go_error + 's"
  IterateValidatorSigningInfos :: "i64 \<Rightarrow> ('b \<times> SigningInfo, 's) each"
  SetValidatorSigningInfo :: "i64 \<Rightarrow> 'b \<times> SigningInfo \<Rightarrow> 's \<Rightarrow> 's"

section \<open>Preparing for height zero\<close>

definition withdrawAll :: "('s, 'b, 'c, 'p) sdk \<Rightarrow> i64 \<Rightarrow> Delegation list \<Rightarrow> 's \<Rightarrow> go_error + 's" where
  "withdrawAll k h dels s =
     forEach (\<lambda>d s. andThen (valBytes k (ValidatorAddress d)) (\<lambda>val.
                    andThen (accBytes k (DelegatorAddress d)) (\<lambda>del.
                    Inr (WithdrawDelegationRewards k h del val s)))) dels s"

definition reinitValidator :: "('s, 'b, 'c, 'p) sdk \<Rightarrow> Validator \<Rightarrow> 's \<Rightarrow> go_error + 's" where
  "reinitValidator k v s =
     andThen (valBytes k (OperatorAddress v)) (\<lambda>val.
     andThen (GetValidatorOutstandingRewardsCoins k 0 val s) (\<lambda>rewards.
     andThen (GetFeePool k 0 s) (\<lambda>pool.
     andThen (SetFeePool k 0 (AddToCommunityPool k pool rewards) s) (\<lambda>s1.
     AfterValidatorCreated k 0 val s1))))"

definition reinitDelegations :: "('s, 'b, 'c, 'p) sdk \<Rightarrow> Delegation list \<Rightarrow> 's \<Rightarrow> go_error + 's" where
  "reinitDelegations k dels s =
     forEach (\<lambda>d s. andThen (valBytes k (ValidatorAddress d)) (\<lambda>val.
                    andThen (accBytes k (DelegatorAddress d)) (\<lambda>del.
                    andThen (BeforeDelegationCreated k 0 del val s) (\<lambda>s1.
                    AfterDelegationModified k 0 del val s1)))) dels s"

definition zeroEntries :: "'b \<times> Entry list \<Rightarrow> 'b \<times> Entry list" where
  "zeroEntries red = (fst red, map (\<lambda>e. e\<lparr>CreationHeight := 0\<rparr>) (snd red))"

text \<open>The loop over the stored validators: heights to zero, and the unlisted into jail.\<close>

definition resetValidator ::
  "('s, 'b, 'c, 'p) sdk \<Rightarrow> i64 \<Rightarrow> string list \<Rightarrow> 'b \<Rightarrow> 's \<Rightarrow> go_error + 's" where
  "resetValidator k h jailAllowedAddrs addr s =
     (case GetValidator k h addr s of
        None \<Rightarrow> Inl (RuntimePanic ''expected validator, not found'')
      | Some validator \<Rightarrow>
     andThen (valString k addr) (\<lambda>valAddr.
       let v1 = validator\<lparr>UnbondingHeight := 0\<rparr>;
           v2 = (if jailAllowedAddrs \<noteq> [] \<and> valAddr \<notin> set jailAllowedAddrs then v1\<lparr>Jailed := True\<rparr> else v1)
       in SetValidator k h v2 s))"

definition prepForZeroHeightGenesis ::
  "('s, 'b, 'c, 'p) sdk \<Rightarrow> i64 \<Rightarrow> string list \<Rightarrow> 's \<Rightarrow> go_error + 's" where
  "prepForZeroHeightGenesis k h jailAllowedAddrs s0 =
     andThen (forEach (\<lambda>addr s. andThen (valBytes k addr) (\<lambda>_. Inr s)) jailAllowedAddrs s0) (\<lambda>s1.
     andThen (IterateValidators k h (\<lambda>v s.
        andThen (valBytes k (OperatorAddress v)) (\<lambda>val. Inr (WithdrawValidatorCommission k h val s))) s1) (\<lambda>s2.
     andThen (GetAllDelegations k h s2) (\<lambda>dels.
     andThen (withdrawAll k h dels s2) (\<lambda>s3.
     let s4 = DeleteAllValidatorSlashEvents k h s3;
         s5 = DeleteAllValidatorHistoricalRewards k h s4
     in andThen (IterateValidators k 0 (reinitValidator k) s5) (\<lambda>s6.
     andThen (reinitDelegations k dels s6) (\<lambda>s7.
     andThen (IterateRedelegations k h (\<lambda>red. SetRedelegation k h (zeroEntries red)) s7) (\<lambda>s8.
     andThen (IterateUnbondingDelegations k h (\<lambda>ubd. SetUnbondingDelegation k h (zeroEntries ubd)) s8) (\<lambda>s9.
     andThen (forEach (resetValidator k h jailAllowedAddrs) (ValidatorKeys k s9) s9) (\<lambda>s10.
     (case CloseError k s10 of
        Some _ \<Rightarrow> Inr s10
      | None \<Rightarrow>
     andThen (ApplyAndReturnValidatorSetUpdates k h s10) (\<lambda>s11.
     IterateValidatorSigningInfos k h (\<lambda>(addr, info) s.
        Inr (SetValidatorSigningInfo k h (addr, info\<lparr>StartHeight := 0\<rparr>) s)) s11)))))))))))"

text \<open>
  What a store of validators promises: each is stored under its operator address, and a write changes
  that entry and no other.
\<close>

definition keeps_validators :: "('s, 'b, 'c, 'p) sdk \<Rightarrow> i64 \<Rightarrow> bool" where
  "keeps_validators k h \<longleftrightarrow>
     (\<forall>a s v. GetValidator k h a s = Some v \<longrightarrow> valBytes k (OperatorAddress v) = Inr a)
   \<and> (\<forall>v a s s'. SetValidator k h v s = Inr s' \<longrightarrow> valBytes k (OperatorAddress v) = Inr a \<longrightarrow>
        GetValidator k h a s' = Some v \<and> (\<forall>b. b \<noteq> a \<longrightarrow> GetValidator k h b s' = GetValidator k h b s))"

definition afterReset :: "string list \<Rightarrow> string \<Rightarrow> Validator \<Rightarrow> Validator" where
  "afterReset jailAllowedAddrs name v =
     v\<lparr>UnbondingHeight := 0, Jailed := Jailed v \<or> (jailAllowedAddrs \<noteq> [] \<and> name \<notin> set jailAllowedAddrs)\<rparr>"

lemma afterReset_if:
  "(if allow \<noteq> [] \<and> name \<notin> set allow then v\<lparr>UnbondingHeight := 0\<rparr>\<lparr>Jailed := True\<rparr> else v\<lparr>UnbondingHeight := 0\<rparr>)
     = afterReset allow name v"
  by (cases v) (simp add: afterReset_def)

lemma resetValidator_get:
  assumes "keeps_validators k h" and "resetValidator k h allow a s = Inr s'"
  shows "\<exists>v name. GetValidator k h a s = Some v \<and> valString k a = Inr name
     \<and> GetValidator k h a s' = Some (afterReset allow name v)"
    and "b \<noteq> a \<Longrightarrow> GetValidator k h b s' = GetValidator k h b s"
proof -
  obtain v name where v: "GetValidator k h a s = Some v" "valString k a = Inr name"
    and stored: "SetValidator k h (afterReset allow name v) s = Inr s'"
    using assms(2) unfolding resetValidator_def Let_def afterReset_if
    by (auto simp: andThen_Inr split: option.splits)
  have own: "valBytes k (OperatorAddress (afterReset allow name v)) = Inr a"
    using assms(1) v(1) by (simp add: keeps_validators_def afterReset_def)
  have law: "GetValidator k h a s' = Some (afterReset allow name v)" "b \<noteq> a \<longrightarrow> GetValidator k h b s' = GetValidator k h b s" for b
    using assms(1) stored own unfolding keeps_validators_def by blast+
  show "\<exists>v name. GetValidator k h a s = Some v \<and> valString k a = Inr name
     \<and> GetValidator k h a s' = Some (afterReset allow name v)" using v law(1) by blast
  show "b \<noteq> a \<Longrightarrow> GetValidator k h b s' = GetValidator k h b s" using law(2) by blast
qed

text \<open>
  Exactly the validators that a non-empty list leaves out are put into jail; with an
  empty list nobody is.
\<close>

lemma reset_jails_unlisted:
  assumes store: "keeps_validators k h" and "distinct keys" and "a \<in> set keys"
    and "forEach (resetValidator k h allow) keys s = Inr s'"
  shows "\<exists>v name. GetValidator k h a s = Some v \<and> valString k a = Inr name
     \<and> GetValidator k h a s' = Some (afterReset allow name v)"
  using assms(2-4)
proof (induction keys arbitrary: s)
  case (Cons key keys)
  obtain s1 where reset: "resetValidator k h allow key s = Inr s1" and rest: "forEach (resetValidator k h allow) keys s1 = Inr s'"
    using Cons.prems(3) by (auto simp: andThen_Inr)
  have away: "GetValidator k h b s' = GetValidator k h b s1" if "b \<notin> set keys" for b
    using rest that
  proof (induction keys arbitrary: s1)
    case (Cons c cs)
    then show ?case using resetValidator_get(2) [OF store, of allow c] by (auto simp: andThen_Inr)
  qed simp
  show ?case
  proof (cases "a = key")
    case True
    then show ?thesis using resetValidator_get(1) [OF store reset] away [of a] Cons.prems(1) by auto
  next
    case False
    then show ?thesis
      using Cons.IH [OF _ _ rest] resetValidator_get(2) [OF store reset, of a] Cons.prems(1,2) by auto
  qed
qed simp

section \<open>The export\<close>

record ('v, 'cp) ExportedApp =
  AppState :: string
  Validators :: 'v
  Height :: i64
  ConsensusParams :: 'cp

text \<open>
  \<open>ExportGenesisForModules\<close> and \<open>MarshalIndent\<close> give the JSON of the state, \<open>WriteValidators\<close> a list of
  validators and possibly an error: the code returns both.
\<close>

definition ExportAppStateAndValidators ::
  "('s, 'b, 'c, 'p) sdk \<Rightarrow> (string list \<Rightarrow> 's \<Rightarrow> go_error + string) \<Rightarrow> ('s \<Rightarrow> 'v \<times> go_error option) \<Rightarrow> ('s \<Rightarrow> 'cp)
     \<Rightarrow> i64 \<Rightarrow> bool \<Rightarrow> string list \<Rightarrow> string list \<Rightarrow> 's \<Rightarrow> go_error + (('v, 'cp) ExportedApp \<times> go_error option)" where
  "ExportAppStateAndValidators k exportJSON writeValidators consensusParams lastHeight forZeroHeight jailAllowedAddrs modules s =
     andThen (if forZeroHeight then prepForZeroHeightGenesis k lastHeight jailAllowedAddrs s else Inr s) (\<lambda>s1.
     andThen (exportJSON modules s1) (\<lambda>appState.
     let (validators, err) = writeValidators s1
     in Inr (\<lparr>AppState = appState, Validators = validators,
              Height = (if forZeroHeight then 0 else lastHeight + 1), ConsensusParams = consensusParams s1\<rparr>, err)))"

text \<open>The command: the home directory, the options, and the height to load.\<close>

definition appExport ::
  "string option \<Rightarrow> bool \<Rightarrow> i64 \<Rightarrow> (bool \<Rightarrow> 'app) \<Rightarrow> (i64 \<Rightarrow> 'app \<Rightarrow> go_error + 'app)
     \<Rightarrow> ('app \<Rightarrow> go_error + 'x) \<Rightarrow> go_error + 'x" where
  "appExport home optionsAreViper height newApp loadHeight export =
     (case home of
        None \<Rightarrow> Inl (ErrPlain ''application home not set'')
      | Some homePath \<Rightarrow>
     (if homePath = [] then Inl (ErrPlain ''application home not set'')
      else if \<not> optionsAreViper then Inl (ErrPlain ''appOpts is not viper.Viper'')
      else if height \<noteq> - 1 then andThen (loadHeight height (newApp False)) export
      else export (newApp True)))"

section \<open>Genesis accounts\<close>

record ('base, 'coins) GenesisAccount =
  BaseAccount :: 'base
  OriginalVesting :: 'coins
  StartTime :: i64
  EndTime :: i64
  ModuleAccountName :: string
  ModulePermissions :: "string list"

definition validateGenesisAccount ::
  "('coins \<Rightarrow> bool) \<Rightarrow> ('base \<Rightarrow> string \<Rightarrow> string list \<Rightarrow> go_error option) \<Rightarrow> ('base \<Rightarrow> go_error option)
     \<Rightarrow> ('base, 'coins) GenesisAccount \<Rightarrow> go_error option" where
  "validateGenesisAccount IsZero validateModuleAccount validateBaseAccount sga =
     (if \<not> IsZero (OriginalVesting sga) \<and> EndTime sga <=s StartTime sga
      then Some (ErrPlain ''vesting start-time cannot be before end-time'')
      else case (if ModuleAccountName sga \<noteq> []
                 then validateModuleAccount (BaseAccount sga) (ModuleAccountName sga) (ModulePermissions sga) else None) of
        Some err \<Rightarrow> Some err
      | None \<Rightarrow> validateBaseAccount (BaseAccount sga))"

end
