(* ===== verification/Testnet.thy ===== *)
theory Testnet
  imports GoStd
begin

text \<open>
  The command that sets up a test network of several nodes (\<^verbatim>\<open>cmd/testnet_multi_node.go\<close>): how its
  flags are read and which address each service of each node is given. The files it writes are
  the subject of the theory MultiNode. A Go \<^verbatim>\<open>int\<close> is an \<open>int\<close> here, since the numbers are far
  from the ends of its range.
\<close>

section \<open>Strings\<close>

text \<open>\<^verbatim>\<open>strings.Split(s, ",")\<close> and \<^verbatim>\<open>strconv.Itoa\<close>.\<close>

fun splitComma :: "string \<Rightarrow> string list" where
  "splitComma [] = [[]]"
| "splitComma (c # cs) =
     (if c = CHR '','' then [] # splitComma cs
      else case splitComma cs of [] \<Rightarrow> [[c]] | w # ws \<Rightarrow> (c # w) # ws)"

definition ItoaInt :: "int \<Rightarrow> string" where
  "ItoaInt i = (if i < 0 then ''-'' @ Itoa (nat (- i)) else Itoa (nat i))"

lemma splitComma_not_Nil [simp]: "splitComma s \<noteq> []"
  by (cases s) (auto split: list.split)

lemma splitComma_plain: "CHR '','' \<notin> set s \<Longrightarrow> splitComma s = [s]"
  by (induction s) auto

lemma splitComma_append: "CHR '','' \<notin> set w \<Longrightarrow> splitComma (w @ '','' @ s) = w # splitComma s"
  by (induction w) (auto split: list.split)

section \<open>The flags of multi-node\<close>

record 'coin initArgs =
  algo :: string
  chainID :: string
  keyringBackend :: string
  minGasPrices :: string
  nodeDirPrefix :: string
  numValidators :: int
  outputDir :: string
  startingIPAddress :: string
  validatorsStakesAmount :: "int \<Rightarrow> 'coin option"
  ports :: "int \<Rightarrow> string option"

text \<open>
  The loop over the stakes. An amount that does not parse is skipped, without taking a number;
  \<open>NewCoin\<close> panics on some amounts.
\<close>

fun stakeLoop ::
  "(string \<Rightarrow> int option) \<Rightarrow> (int \<Rightarrow> go_error + 'coin) \<Rightarrow> string list \<Rightarrow> int \<Rightarrow> (int \<Rightarrow> 'coin option)
     \<Rightarrow> go_error + (int \<Rightarrow> 'coin option)" where
  "stakeLoop NewIntFromString NewCoin [] slot m = Inr m"
| "stakeLoop NewIntFromString NewCoin (amount # amounts) slot m =
     (case NewIntFromString amount of
        None \<Rightarrow> stakeLoop NewIntFromString NewCoin amounts slot m
      | Some a \<Rightarrow>
     (case NewCoin a of
        Inl err \<Rightarrow> Inl err
      | Inr coin \<Rightarrow> stakeLoop NewIntFromString NewCoin amounts (slot + 1) (m(slot \<mapsto> coin))))"

definition readStakes ::
  "(string \<Rightarrow> int option) \<Rightarrow> (int \<Rightarrow> go_error + 'coin) \<Rightarrow> string \<Rightarrow> go_error + (int \<Rightarrow> 'coin option)" where
  "readStakes NewIntFromString NewCoin s = stakeLoop NewIntFromString NewCoin (splitComma s) 0 Map.empty"

fun portLoop :: "string list \<Rightarrow> int \<Rightarrow> (int \<Rightarrow> string option) \<Rightarrow> (int \<Rightarrow> string option)" where
  "portLoop [] slot m = m"
| "portLoop (port # rest) slot m = portLoop rest (slot + 1) (m(slot \<mapsto> port))"

definition defaultPorts :: "int \<Rightarrow> string list" where
  "defaultPorts n = map (\<lambda>i. ItoaInt (26657 - 3 * i)) [0..n - 1]"

definition readPorts :: "int \<Rightarrow> string \<Rightarrow> int \<Rightarrow> string option" where
  "readPorts n s = portLoop (if s = [] then defaultPorts n else splitComma s) 0 Map.empty"

text \<open>Where no amount was read, a node stakes the default.\<close>

definition nodeStake :: "'coin \<Rightarrow> 'coin initArgs \<Rightarrow> int \<Rightarrow> 'coin" where
  "nodeStake defaultStake args i =
     (case validatorsStakesAmount args i of Some coin \<Rightarrow> coin | None \<Rightarrow> defaultStake)"

section \<open>The addresses of the nodes\<close>

text \<open>A key that a Go map does not hold reads as the empty string.\<close>

definition portOf :: "'coin initArgs \<Rightarrow> int \<Rightarrow> string" where
  "portOf args i = (case ports args i of Some p \<Rightarrow> p | None \<Rightarrow> [])"

definition nodeMemo :: "'coin initArgs \<Rightarrow> string \<Rightarrow> int \<Rightarrow> string" where
  "nodeMemo args nodeID i = nodeID @ ''@'' @ startingIPAddress args @ '':'' @ ItoaInt (26656 - 3 * i)"

fun joinPeers :: "string \<Rightarrow> string list \<Rightarrow> string" where
  "joinPeers persistentPeers [] = persistentPeers"
| "joinPeers persistentPeers (memo # memos) =
     joinPeers (if persistentPeers = [] then memo else persistentPeers @ '','' @ memo) memos"

text \<open>
  The settings the command writes: of the node (\<^verbatim>\<open>config.toml\<close>) and of the application
  (\<^verbatim>\<open>app.toml\<close>). The other settings keep their defaults and are left out.
\<close>

record cmtConfig =
  RootDir :: string
  Moniker :: string
  PersistentPeers :: string
  AllowDuplicateIP :: bool
  P2PListenAddress :: string
  RPCListenAddress :: string
  ProxyApp :: string
  PrometheusListenAddr :: string
  Prometheus :: bool

record appConfig =
  MinGasPrices :: string
  APIEnable :: bool
  APIAddress :: string
  GRPCAddress :: string
  EnableHostnameLabel :: bool
  TelemetryEnabled :: bool
  PrometheusRetentionTime :: int

definition appAddresses :: "'coin initArgs \<Rightarrow> int \<Rightarrow> appConfig \<Rightarrow> appConfig" where
  "appAddresses args i c =
     c\<lparr>GRPCAddress := startingIPAddress args @ '':'' @ ItoaInt (9090 - 2 * i),
       APIAddress := ''tcp://localhost:'' @ ItoaInt (1317 - i)\<rparr>"

definition nodeSettings :: "'coin initArgs \<Rightarrow> string \<Rightarrow> int \<Rightarrow> cmtConfig \<Rightarrow> cmtConfig" where
  "nodeSettings args persistentPeers i c =
     c\<lparr>PersistentPeers := persistentPeers,
       AllowDuplicateIP := True,
       P2PListenAddress := ''tcp://0.0.0.0:'' @ ItoaInt (26656 - 3 * i),
       RPCListenAddress := ''tcp://127.0.0.1:'' @ portOf args i,
       ProxyApp := ''tcp://127.0.0.1:'' @ ItoaInt (26658 - 3 * i),
       PrometheusListenAddr := '':'' @ ItoaInt (26660 + i),
       Prometheus := True\<rparr>"

section \<open>What the flags mean\<close>

lemma portLoop_get:
  "portLoop ps slot m i = (if slot \<le> i \<and> i < slot + int (length ps) then Some (ps ! nat (i - slot)) else m i)"
proof (induction ps arbitrary: slot m)
  case (Cons p ps)
  show ?case
  proof (cases "i = slot")
    case False
    then have "nat (i - slot) = Suc (nat (i - (slot + 1)))" if "slot \<le> i" using that by simp
    then show ?thesis using Cons.IH False by auto
  qed (use Cons.IH in simp)
qed auto

text \<open>Without the flag every node has its port; with a list that is too short the rest have none.\<close>

lemma default_port: "0 \<le> i \<Longrightarrow> i < n \<Longrightarrow> readPorts n [] i = Some (ItoaInt (26657 - 3 * i))"
  by (simp add: readPorts_def portLoop_get defaultPorts_def)

lemma listed_port:
  "s \<noteq> [] \<Longrightarrow> 0 \<le> i \<Longrightarrow>
     readPorts n s i = (if nat i < length (splitComma s) then Some (splitComma s ! nat i) else None)"
  by (simp add: readPorts_def portLoop_get nat_less_iff)

lemma short_list_no_port:
  assumes "ports args = readPorts (numValidators args) s" and "s \<noteq> []" and "length (splitComma s) \<le> nat i" and "0 \<le> i"
  shows "RPCListenAddress (nodeSettings args peers i c) = ''tcp://127.0.0.1:''"
  using assms by (simp add: nodeSettings_def portOf_def listed_port)

text \<open>
  A stake that does not parse does not fall back to the default: it is dropped, and the later
  stakes move up to the wrong validators.
\<close>

lemma stakes_move_up:
  "NewIntFromString bad = None \<Longrightarrow>
     stakeLoop NewIntFromString NewCoin (bad # amounts) slot m = stakeLoop NewIntFromString NewCoin amounts slot m"
  by simp

text \<open>The peers each node is told of are the memos of all nodes.\<close>

lemma joinPeers_split:
  assumes "\<forall>w \<in> set ws. CHR '','' \<notin> set w \<and> w \<noteq> []" and "ws \<noteq> []"
  shows "splitComma (joinPeers [] ws) = ws"
proof -
  have join: "joinPeers p vs = p @ concat (map (\<lambda>v. '','' @ v) vs)" if "p \<noteq> []" for p vs
    using that by (induction vs arbitrary: p) auto
  have split: "\<forall>w \<in> set (v # vs). CHR '','' \<notin> set w \<Longrightarrow> splitComma (v @ concat (map (\<lambda>v. '','' @ v) vs)) = v # vs" for v vs
  proof (induction vs arbitrary: v)
    case Nil
    then show ?case by (simp add: splitComma_plain)
  next
    case (Cons u us)
    then show ?case using splitComma_append [of v "u @ concat (map (\<lambda>v. '','' @ v) us)"] by simp
  qed
  obtain v vs where "ws = v # vs" using assms(2) by (cases ws) auto
  then show ?thesis using assms(1) join [of v vs] split [of v vs] by simp
qed

text \<open>
  No two services of the network get the same port, and all ports exist, for up to 1317
  validators: the listeners of all nodes can run on one host.
\<close>

definition portNumbers :: "int \<Rightarrow> int list" where
  "portNumbers i = [9090 - 2 * i, 1317 - i, 26656 - 3 * i, 26657 - 3 * i, 26658 - 3 * i, 26660 + i]"

lemma ports_exist: "0 \<le> i \<Longrightarrow> i < 1317 \<Longrightarrow> p \<in> set (portNumbers i) \<Longrightarrow> 0 < p \<and> p < 65536"
  by (auto simp: portNumbers_def)

lemma ports_apart:
  assumes "0 \<le> i" "i < 1317" "0 \<le> j" "j < 1317" and "a < 6" "b < 6" and "(i, a) \<noteq> (j, b)"
  shows "portNumbers i ! a \<noteq> portNumbers j ! b"
proof -
  have six: "x = 0 \<or> x = 1 \<or> x = 2 \<or> x = 3 \<or> x = 4 \<or> x = 5" if "x < 6" for x :: nat
    using that by arith
  have nths: "portNumbers i ! 0 = 9090 - 2 * i" "portNumbers i ! 1 = 1317 - i" "portNumbers i ! 2 = 26656 - 3 * i"
      "portNumbers i ! 3 = 26657 - 3 * i" "portNumbers i ! 4 = 26658 - 3 * i" "portNumbers i ! 5 = 26660 + i" for i
    by (simp_all add: portNumbers_def)
  show ?thesis
    using six [OF assms(5)] six [OF assms(6)] assms(1-4,7)
    by (elim disjE; hypsubst) (simp only: nths prod.inject simp_thms; presburger)+
qed

lemma settings_ports:
  assumes "ports args = readPorts (numValidators args) []" and "0 \<le> i" and "i < numValidators args"
  shows "GRPCAddress (appAddresses args i a) = startingIPAddress args @ '':'' @ ItoaInt (portNumbers i ! 0)"
    and "APIAddress (appAddresses args i a) = ''tcp://localhost:'' @ ItoaInt (portNumbers i ! 1)"
    and "P2PListenAddress (nodeSettings args peers i c) = ''tcp://0.0.0.0:'' @ ItoaInt (portNumbers i ! 2)"
    and "RPCListenAddress (nodeSettings args peers i c) = ''tcp://127.0.0.1:'' @ ItoaInt (portNumbers i ! 3)"
    and "ProxyApp (nodeSettings args peers i c) = ''tcp://127.0.0.1:'' @ ItoaInt (portNumbers i ! 4)"
    and "PrometheusListenAddr (nodeSettings args peers i c) = '':'' @ ItoaInt (portNumbers i ! 5)"
  using assms by (simp_all add: nodeSettings_def appAddresses_def portNumbers_def portOf_def default_port)

end
