(* ===== verification/MultiNode.thy ===== *)
theory MultiNode
  imports Testnet
begin

text \<open>
  The files of a test network of several nodes (\<^verbatim>\<open>cmd/testnet_multi_node.go\<close>): one directory per
  node with its keys, its creation transaction and its settings, and one genesis for all. The
  file system and the keys live in a world of a type \<open>'w\<close>; what the code calls of the standard
  library and the SDK are the fields of the record \<open>netLib\<close>. A panic is the error of the
  function; the texts of wrapped errors and the messages on the terminal are left out.
\<close>

section \<open>What the command uses\<close>

text \<open>
  The parts of a genesis state the command does not touch are kept as JSON. A directory is made with mode 755. The creation message has a commission of one, which cannot be
  raised, and a minimal self-delegation of one.
\<close>

record 'coin genBalance =
  balAddress :: string
  balCoins :: "'coin list"

record 'acc authGenState =
  Accounts :: "'acc list"
  AuthParams :: string

record 'coin bankGenState =
  Balances :: "'coin genBalance list"
  Supply :: "'coin list"
  BankParams :: string

record genDoc =
  ChainID :: string
  AppState :: string

record ('w, 'h, 'pk, 'kb, 'alg, 'addr, 'coin, 'msg, 'tx, 'acc, 'gen, 'time) netLib =
  Join :: "string list \<Rightarrow> string"
  Base :: "string \<Rightarrow> string"
  AbsPath :: "string \<Rightarrow> go_error + string"
  Rel :: "string \<Rightarrow> string \<Rightarrow> go_error + string"
  IsAbs :: "string \<Rightarrow> bool"
  MkdirAll :: "string \<Rightarrow> 'w \<Rightarrow> (go_error + unit) \<times> 'w"
  RemoveAll :: "string \<Rightarrow> 'w \<Rightarrow> 'w"
  WriteFile :: "string \<Rightarrow> string \<Rightarrow> 'w \<Rightarrow> (go_error + unit) \<times> 'w"
  Open :: "string \<Rightarrow> 'w \<Rightarrow> (go_error + 'h) \<times> 'w"
  Create :: "string \<Rightarrow> 'w \<Rightarrow> (go_error + 'h) \<times> 'w"
  Copy :: "'h \<Rightarrow> 'h \<Rightarrow> 'w \<Rightarrow> (go_error + i64) \<times> 'w"
  Sync :: "'h \<Rightarrow> 'w \<Rightarrow> (go_error + unit) \<times> 'w"
  Intn :: "nat \<Rightarrow> nat"
  BondDenom :: string
  TokensFromConsensusPower :: "int \<Rightarrow> int"
  NewCoin :: "string \<Rightarrow> int \<Rightarrow> 'coin"
  SortCoins :: "'coin list \<Rightarrow> 'coin list"
  AddCoins :: "'coin list \<Rightarrow> 'coin list \<Rightarrow> 'coin list"
  AddrString :: "'addr \<Rightarrow> string"
  ValAddrString :: "'addr \<Rightarrow> string"
  NewBaseAccount :: "'addr \<Rightarrow> 'acc"
  GenesisFile :: "cmtConfig \<Rightarrow> string"
  InitializeNodeValidatorFiles :: "cmtConfig \<Rightarrow> 'w \<Rightarrow> (go_error + string \<times> 'pk) \<times> 'w"
  NewKeyring :: "string \<Rightarrow> string \<Rightarrow> 'w \<Rightarrow> (go_error + 'kb) \<times> 'w"
  NewSigningAlgoFromString :: "string \<Rightarrow> 'kb \<Rightarrow> go_error + 'alg"
  GenerateSaveCoinKey :: "'kb \<Rightarrow> string \<Rightarrow> 'alg \<Rightarrow> 'w \<Rightarrow> (go_error + 'addr \<times> string) \<times> 'w"
  MarshalInfo :: "string \<Rightarrow> go_error + string"
  NewMsgCreateValidator :: "string \<Rightarrow> 'pk \<Rightarrow> 'coin \<Rightarrow> string \<Rightarrow> go_error + 'msg"
  SetMsgs :: "'msg \<Rightarrow> go_error + 'tx"
  SetMemo :: "string \<Rightarrow> 'tx \<Rightarrow> 'tx"
  Sign :: "string \<Rightarrow> string \<Rightarrow> 'kb \<Rightarrow> string \<Rightarrow> 'tx \<Rightarrow> 'w \<Rightarrow> (go_error + 'tx) \<times> 'w"
  EncodeTx :: "'tx \<Rightarrow> go_error + string"
  WriteAppConfig :: "string \<Rightarrow> appConfig \<Rightarrow> 'w \<Rightarrow> (go_error + unit) \<times> 'w"
  WriteNodeConfig :: "string \<Rightarrow> cmtConfig \<Rightarrow> 'w \<Rightarrow> (go_error + unit) \<times> 'w"
  AuthModule :: string
  BankModule :: string
  DefaultGenesis :: "string \<rightharpoonup> string"
  UnmarshalAuth :: "string option \<Rightarrow> go_error + 'acc authGenState"
  MarshalAuth :: "'acc authGenState \<Rightarrow> go_error + string"
  UnmarshalBank :: "string option \<Rightarrow> go_error + 'coin bankGenState"
  MarshalBank :: "'coin bankGenState \<Rightarrow> go_error + string"
  PackAccounts :: "'acc list \<Rightarrow> go_error + 'acc list"
  SanitizeGenesisBalances :: "'coin genBalance list \<Rightarrow> 'coin genBalance list"
  MarshalIndent :: "(string \<rightharpoonup> string) \<Rightarrow> go_error + string"
  SaveAs :: "genDoc \<Rightarrow> string \<Rightarrow> 'w \<Rightarrow> (go_error + unit) \<times> 'w"
  AppGenesisFromFile :: "string \<Rightarrow> 'w \<Rightarrow> (go_error + 'gen) \<times> 'w"
  GenAppStateFromConfig ::
    "cmtConfig \<Rightarrow> string \<times> string \<times> string \<times> 'pk option \<Rightarrow> 'gen \<Rightarrow> 'w \<Rightarrow> (go_error + string option) \<times> 'w"
  ExportGenesisFileWithTime :: "string \<Rightarrow> string \<Rightarrow> string option \<Rightarrow> 'time \<Rightarrow> 'w \<Rightarrow> (go_error + unit) \<times> 'w"

section \<open>Helpers\<close>

definition generateRandomString :: "(nat \<Rightarrow> nat) \<Rightarrow> nat \<Rightarrow> string" where
  "generateRandomString rnd n = map (\<lambda>i. ''abcdefghijklmnopqrstuvwxyz0123456789'' ! rnd i) [0 ..< n]"

definition writeFile ::
  "('w, 'h, 'pk, 'kb, 'alg, 'addr, 'coin, 'msg, 'tx, 'acc, 'gen, 'time) netLib
     \<Rightarrow> string \<Rightarrow> string \<Rightarrow> string \<Rightarrow> 'w \<Rightarrow> (go_error + unit) \<times> 'w" where
  "writeFile k path dir contents w =
     ioThen (MkdirAll k dir w) (\<lambda>_ w1.
     ioThen (WriteFile k path contents w1) (\<lambda>_ w2. (Inr (), w2)))"

definition copyFile ::
  "('w, 'h, 'pk, 'kb, 'alg, 'addr, 'coin, 'msg, 'tx, 'acc, 'gen, 'time) netLib
     \<Rightarrow> string \<Rightarrow> string \<Rightarrow> 'w \<Rightarrow> (go_error + i64) \<times> 'w" where
  "copyFile k src dstDir w =
     (let dst = Join k [dstDir, Base k src]
      in ioThen (Open k src w) (\<lambda>sourceFile w1.
         ioThen (Create k dst w1) (\<lambda>destinationFile w2.
         ioThen (Copy k destinationFile sourceFile w2) (\<lambda>bytesCopied w3.
         ioThen (Sync k destinationFile w3) (\<lambda>_ w4. (Inr bytesCopied, w4))))))"

definition isSubDir ::
  "('w, 'h, 'pk, 'kb, 'alg, 'addr, 'coin, 'msg, 'tx, 'acc, 'gen, 'time) netLib
     \<Rightarrow> string \<Rightarrow> string \<Rightarrow> go_error + bool" where
  "isSubDir k src dstDir =
     andThen (AbsPath k src) (\<lambda>absSrc.
     andThen (AbsPath k dstDir) (\<lambda>absDstDir.
     andThen (Rel k absDstDir absSrc) (\<lambda>relativePath.
     Inr (take 2 relativePath \<noteq> ''..'' \<and> \<not> IsAbs k relativePath))))"

text \<open>An error after which the output directory is removed.\<close>

definition orCleanUp ::
  "('w, 'h, 'pk, 'kb, 'alg, 'addr, 'coin, 'msg, 'tx, 'acc, 'gen, 'time) netLib
     \<Rightarrow> 'coin initArgs \<Rightarrow> (go_error + 'a) \<times> 'w \<Rightarrow> ('a \<Rightarrow> 'w \<Rightarrow> (go_error + 'b) \<times> 'w) \<Rightarrow> (go_error + 'b) \<times> 'w" where
  "orCleanUp k args r f =
     (case r of (Inl err, w) \<Rightarrow> (Inl err, RemoveAll k (outputDir args) w) | (Inr x, w) \<Rightarrow> f x w)"

section \<open>One node\<close>

text \<open>What the loop over the nodes carries along.\<close>

record ('pk, 'coin, 'acc) netState =
  nodeConfig :: cmtConfig
  appConf :: appConfig
  nodeIDs :: "string list"
  valPubKeys :: "'pk option list"
  genAccounts :: "'acc list"
  genBalances :: "'coin genBalance list"
  genFiles :: "string list"
  persistentPeers :: string
  gentxsFiles :: "string list"

text \<open>
  The application settings before the first node. \<open>MinGasPrices\<close> is a field of the embedded base
  settings, so the two assignments of the code write the same field.
\<close>

definition startAppConfig :: "string \<Rightarrow> 'coin initArgs \<Rightarrow> appConfig \<Rightarrow> appConfig" where
  "startAppConfig bondDenom args c =
     (let c1 = c\<lparr>MinGasPrices := minGasPrices args\<rparr>;
          c2 = c1\<lparr>APIEnable := False\<rparr>;
          c3 = c2\<lparr>MinGasPrices := ''0.0001'' @ bondDenom\<rparr>
      in c3\<lparr>EnableHostnameLabel := False, TelemetryEnabled := False, PrometheusRetentionTime := 0\<rparr>)"

definition startState :: "'coin initArgs \<Rightarrow> cmtConfig \<Rightarrow> appConfig \<Rightarrow> ('pk, 'coin, 'acc) netState" where
  "startState args config appConfig =
     \<lparr>nodeConfig = config, appConf = appConfig,
      nodeIDs = replicate (nat (numValidators args)) [],
      valPubKeys = replicate (nat (numValidators args)) None,
      genAccounts = [], genBalances = [], genFiles = [], persistentPeers = [], gentxsFiles = []\<rparr>"

definition nodeDirOf :: "'coin initArgs \<Rightarrow> int \<Rightarrow> string" where
  "nodeDirOf args i = nodeDirPrefix args @ ItoaInt i"

text \<open>The transaction that creates the validator, signed and encoded.\<close>

definition gentx ::
  "('w, 'h, 'pk, 'kb, 'alg, 'addr, 'coin, 'msg, 'tx, 'acc, 'gen, 'time) netLib
     \<Rightarrow> 'coin initArgs \<Rightarrow> int \<Rightarrow> 'kb \<Rightarrow> 'addr \<Rightarrow> 'pk \<Rightarrow> string \<Rightarrow> 'w \<Rightarrow> (go_error + string) \<times> 'w" where
  "gentx k args i kb addr valPubKey memo w =
     (let valTokens = nodeStake (NewCoin k (BondDenom k) (TokensFromConsensusPower k 100)) args i
      in ioThen (NewMsgCreateValidator k (ValAddrString k addr) valPubKey valTokens (nodeDirOf args i), w) (\<lambda>createValMsg w.
         ioThen (SetMsgs k createValMsg, w) (\<lambda>txBuilder w.
         ioThen (Sign k (chainID args) memo kb (nodeDirOf args i) (SetMemo k memo txBuilder) w) (\<lambda>signed w1.
         (EncodeTx k signed, w1)))))"

definition initNode ::
  "('w, 'h, 'pk, 'kb, 'alg, 'addr, 'coin, 'msg, 'tx, 'acc, 'gen, 'time) netLib
     \<Rightarrow> 'coin initArgs \<Rightarrow> int \<Rightarrow> ('pk, 'coin, 'acc) netState \<Rightarrow> 'w \<Rightarrow> (go_error + ('pk, 'coin, 'acc) netState) \<times> 'w" where
  "initNode k args i st w0 =
     (let nodeDirName = nodeDirOf args i;
          nodeDir = Join k [outputDir args, nodeDirName];
          gentxsDir = Join k [outputDir args, nodeDirName, ''config'', ''gentx''];
          config = (nodeConfig st)\<lparr>RootDir := nodeDir, Moniker := nodeDirName,
                      RPCListenAddress := ''tcp://0.0.0.0:'' @ portOf args i\<rparr>
      in orCleanUp k args (MkdirAll k (Join k [nodeDir, ''config'']) w0) (\<lambda>_ w1.
         orCleanUp k args (InitializeNodeValidatorFiles k config w1) (\<lambda>(nodeID, valPubKey) w2.
         let memo = nodeMemo args nodeID i
         in ioThen (NewKeyring k (keyringBackend args) nodeDir w2) (\<lambda>kb w3.
         ioThen (NewSigningAlgoFromString k (algo args) kb, w3) (\<lambda>alg w3.
         orCleanUp k args (GenerateSaveCoinKey k kb nodeDirName alg w3) (\<lambda>(addr, secret) w4.
         ioThen (MarshalInfo k secret, w4) (\<lambda>cliPrint w4.
         ioThen (writeFile k (Join k [nodeDir, ''key_seed.json'']) nodeDir cliPrint w4) (\<lambda>_ w5.
         let coins = [NewCoin k ''testtoken'' (TokensFromConsensusPower k 1000),
                      NewCoin k (BondDenom k) (TokensFromConsensusPower k 500)]
         in ioThen (gentx k args i kb addr valPubKey memo w5) (\<lambda>txBz w6.
         let path = Join k [gentxsDir, ''gentx-'' @ nodeID @ ''.json'']
         in ioThen (writeFile k path gentxsDir txBz w6) (\<lambda>_ w7.
         let appConfig = appAddresses args i (appConf st)
         in ioThen (WriteAppConfig k (Join k [nodeDir, ''config'', ''app.toml'']) appConfig w7) (\<lambda>_ w8.
         (Inr \<lparr>nodeConfig = config, appConf = appConfig,
               nodeIDs = (nodeIDs st)[nat i := nodeID],
               valPubKeys = (valPubKeys st)[nat i := Some valPubKey],
               genAccounts = genAccounts st @ [NewBaseAccount k addr],
               genBalances = genBalances st @ [\<lparr>balAddress = AddrString k addr, balCoins = SortCoins k coins\<rparr>],
               genFiles = genFiles st @ [GenesisFile k config],
               persistentPeers = (if persistentPeers st = [] then memo else persistentPeers st @ '','' @ memo),
               gentxsFiles = gentxsFiles st @ [path]\<rparr>, w8))))))))))))"

section \<open>The genesis\<close>

definition bankWithBalances ::
  "('w, 'h, 'pk, 'kb, 'alg, 'addr, 'coin, 'msg, 'tx, 'acc, 'gen, 'time) netLib
     \<Rightarrow> 'coin genBalance list \<Rightarrow> 'coin bankGenState \<Rightarrow> 'coin bankGenState" where
  "bankWithBalances k balances g =
     (let sane = SanitizeGenesisBalances k balances
      in g\<lparr>Balances := sane, Supply := foldl (\<lambda>supply bal. AddCoins k supply (balCoins bal)) (Supply g) sane\<rparr>)"

definition initGenFiles ::
  "('w, 'h, 'pk, 'kb, 'alg, 'addr, 'coin, 'msg, 'tx, 'acc, 'gen, 'time) netLib
     \<Rightarrow> string \<Rightarrow> 'acc list \<Rightarrow> 'coin genBalance list \<Rightarrow> string list \<Rightarrow> int \<Rightarrow> 'w \<Rightarrow> (go_error + unit) \<times> 'w" where
  "initGenFiles k chain accounts balances files n w =
     (let appGenState = DefaultGenesis k
      in ioThen (UnmarshalAuth k (appGenState (AuthModule k)), w) (\<lambda>authGenState w.
         ioThen (PackAccounts k accounts, w) (\<lambda>packed w.
         ioThen (MarshalAuth k (authGenState\<lparr>Accounts := packed\<rparr>), w) (\<lambda>auth w.
         let appGenState1 = appGenState(AuthModule k \<mapsto> auth)
         in ioThen (UnmarshalBank k (appGenState1 (BankModule k)), w) (\<lambda>bankGenState w.
         ioThen (MarshalBank k (bankWithBalances k balances bankGenState), w) (\<lambda>bank w.
         ioThen (MarshalIndent k (appGenState1(BankModule k \<mapsto> bank)), w) (\<lambda>appGenStateJSON w.
         ioFor (\<lambda>i _. SaveAs k \<lparr>ChainID = chain, AppState = appGenStateJSON\<rparr> (files ! nat i)) [0..n - 1] () w)))))))"

text \<open>
  The second loop over the nodes. The genesis of the first node becomes the genesis of all. The
  application genesis is built by the SDK, which also sets the persistent peers of the settings; they
  are overwritten right after.
\<close>

definition collectNode ::
  "('w, 'h, 'pk, 'kb, 'alg, 'addr, 'coin, 'msg, 'tx, 'acc, 'gen, 'time) netLib
     \<Rightarrow> 'coin initArgs \<Rightarrow> string list \<Rightarrow> 'pk option list \<Rightarrow> string \<Rightarrow> 'time \<Rightarrow> int \<Rightarrow> cmtConfig \<times> string option \<Rightarrow> 'w
     \<Rightarrow> (go_error + cmtConfig \<times> string option) \<times> 'w" where
  "collectNode k args ids keys peers genTime i st w =
     (let (config, appState) = st;
          nodeDirName = nodeDirOf args i;
          nodeDir = Join k [outputDir args, nodeDirName];
          gentxsDir = Join k [nodeDir, ''config'', ''gentx''];
          config1 = config\<lparr>Moniker := nodeDirName, RootDir := nodeDir\<rparr>
      in ioThen (AppGenesisFromFile k (GenesisFile k config1) w) (\<lambda>appGenesis w1.
         ioThen (GenAppStateFromConfig k config1 (chainID args, gentxsDir, ids ! nat i, keys ! nat i) appGenesis w1) (\<lambda>nodeAppState w2.
         let config2 = nodeSettings args peers i config1
         in ioThen (WriteNodeConfig k (Join k [RootDir config2, ''config'', ''config.toml'']) config2 w2) (\<lambda>_ w3.
         let appState1 = (if appState = None then nodeAppState else appState)
         in ioThen (ExportGenesisFileWithTime k (GenesisFile k config2) (chainID args) appState1 genTime w3) (\<lambda>_ w4.
         (Inr (config2, appState1), w4))))))"

definition collectGenFiles ::
  "('w, 'h, 'pk, 'kb, 'alg, 'addr, 'coin, 'msg, 'tx, 'acc, 'gen, 'time) netLib
     \<Rightarrow> 'coin initArgs \<Rightarrow> cmtConfig \<Rightarrow> string list \<Rightarrow> 'pk option list \<Rightarrow> string \<Rightarrow> 'time \<Rightarrow> 'w \<Rightarrow> (go_error + unit) \<times> 'w" where
  "collectGenFiles k args config ids keys peers genTime w =
     ioThen (ioFor (collectNode k args ids keys peers genTime) [0..numValidators args - 1] (config, None) w) (\<lambda>_ w1.
     (Inr (), w1))"

section \<open>The command\<close>

text \<open>Every node gets a copy of the transactions of the others; a path that cannot be compared is skipped.\<close>

definition copyGentx ::
  "('w, 'h, 'pk, 'kb, 'alg, 'addr, 'coin, 'msg, 'tx, 'acc, 'gen, 'time) netLib
     \<Rightarrow> 'coin initArgs \<Rightarrow> int \<Rightarrow> string \<Rightarrow> 'w \<Rightarrow> (go_error + unit) \<times> 'w" where
  "copyGentx k args i path w =
     (let nodeDir = Join k [outputDir args, nodeDirOf args i];
          gentxsDir = Join k [nodeDir, ''config'', ''gentx'']
      in case isSubDir k path gentxsDir of
           Inl _ \<Rightarrow> (Inr (), w)
         | Inr yes \<Rightarrow> (if yes then (Inr (), w)
                      else ioThen (copyFile k path gentxsDir w) (\<lambda>_ w1. (Inr (), w1))))"

definition copyGentxs ::
  "('w, 'h, 'pk, 'kb, 'alg, 'addr, 'coin, 'msg, 'tx, 'acc, 'gen, 'time) netLib
     \<Rightarrow> 'coin initArgs \<Rightarrow> string list \<Rightarrow> 'w \<Rightarrow> (go_error + unit) \<times> 'w" where
  "copyGentxs k args paths w =
     ioFor (\<lambda>i _. ioFor (\<lambda>path _. copyGentx k args i path) paths ()) [0..numValidators args - 1] () w"

definition initTestnetFiles ::
  "('w, 'h, 'pk, 'kb, 'alg, 'addr, 'coin, 'msg, 'tx, 'acc, 'gen, 'time) netLib
     \<Rightarrow> cmtConfig \<Rightarrow> appConfig \<Rightarrow> 'time \<Rightarrow> 'coin initArgs \<Rightarrow> 'w \<Rightarrow> (go_error + unit) \<times> 'w" where
  "initTestnetFiles k config defaults genTime args0 w =
     (let args = (if chainID args0 = [] then args0\<lparr>chainID := ''chain-'' @ generateRandomString (Intn k) 6\<rparr> else args0)
      in if numValidators args < 0 then (Inl (RuntimePanic ''makeslice: len out of range''), w)
         else ioThen (ioFor (initNode k args) [0..numValidators args - 1]
                       (startState args config (startAppConfig (BondDenom k) args defaults)) w) (\<lambda>st w1.
         ioThen (initGenFiles k (chainID args) (genAccounts st) (genBalances st) (genFiles st) (numValidators args) w1) (\<lambda>_ w2.
         ioThen (copyGentxs k args (gentxsFiles st) w2) (\<lambda>_ w3.
         collectGenFiles k args (nodeConfig st) (nodeIDs st) (valPubKeys st) (persistentPeers st) genTime w3))))"

section \<open>What the command does\<close>

text \<open>
  The flag for the minimum gas prices has no effect at all: whatever it says, the command writes the
  same files.
\<close>

lemma gas_price_unused:
  "nodeDirOf (args\<lparr>minGasPrices := g\<rparr>) i = nodeDirOf args i"
  "nodeMemo (args\<lparr>minGasPrices := g\<rparr>) ident i = nodeMemo args ident i"
  "portOf (args\<lparr>minGasPrices := g\<rparr>) i = portOf args i"
  "nodeStake coin (args\<lparr>minGasPrices := g\<rparr>) i = nodeStake coin args i"
  "appAddresses (args\<lparr>minGasPrices := g\<rparr>) i app = appAddresses args i app"
  "nodeSettings (args\<lparr>minGasPrices := g\<rparr>) peers i c = nodeSettings args peers i c"
  "startAppConfig denom (args\<lparr>minGasPrices := g\<rparr>) app = startAppConfig denom args app"
  by (simp_all add: nodeDirOf_def nodeMemo_def portOf_def nodeStake_def appAddresses_def nodeSettings_def startAppConfig_def)

lemma gas_price_steps:
  "orCleanUp k (args\<lparr>minGasPrices := g\<rparr>) r f = orCleanUp k args r f"
  "gentx k (args\<lparr>minGasPrices := g\<rparr>) = gentx k args"
  "collectNode k (args\<lparr>minGasPrices := g\<rparr>) = collectNode k args"
  "copyGentx k (args\<lparr>minGasPrices := g\<rparr>) = copyGentx k args"
  by (simp add: orCleanUp_def split: prod.split sum.split)
    (intro ext; simp add: gentx_def collectNode_def copyGentx_def gas_price_unused)+

lemma gas_price_node: "initNode k (args\<lparr>minGasPrices := g\<rparr>) = initNode k args"
  by (intro ext) (simp add: initNode_def gas_price_unused gas_price_steps)

lemma gas_price_flag_ignored:
  "initTestnetFiles k config defaults genTime (args\<lparr>minGasPrices := g\<rparr>) w
     = initTestnetFiles k config defaults genTime args w"
proof -
  have chain: "(args\<lparr>minGasPrices := g\<rparr>)\<lparr>chainID := c\<rparr> = (args\<lparr>chainID := c\<rparr>)\<lparr>minGasPrices := g\<rparr>" for c by simp
  show ?thesis
    unfolding initTestnetFiles_def Let_def copyGentxs_def collectGenFiles_def startState_def
    by (cases "chainID args = []")
      (simp_all add: chain gas_price_unused gas_price_node gas_price_steps del: initArgs.update_convs)
qed

text \<open>A node that cannot be set up takes the whole output directory with it, the other nodes included.\<close>

lemma failed_directory_removes_all:
  "MkdirAll k (Join k [Join k [outputDir args, nodeDirOf args i], ''config'']) w = (Inl err, w1) \<Longrightarrow>
     initNode k args i st w = (Inl err, RemoveAll k (outputDir args) w1)"
  by (simp add: initNode_def Let_def orCleanUp_def)

text \<open>The peers a node is told of are the addresses of all nodes, in order.\<close>

lemma orCleanUp_Inr: "orCleanUp k args r f = (Inr y, w') \<longleftrightarrow> (\<exists>x w. r = (Inr x, w) \<and> f x w = (Inr y, w'))"
  by (auto simp: orCleanUp_def split: prod.splits sum.splits)

lemma initNode_peers:
  assumes "initNode k args i st w = (Inr st', w')"
  shows "\<exists>ident. persistentPeers st' = (if persistentPeers st = [] then nodeMemo args ident i
           else persistentPeers st @ '','' @ nodeMemo args ident i)"
  using assms unfolding initNode_def Let_def by (auto simp: orCleanUp_Inr ioThen_Inr)

lemma node_loop_peers:
  "ioFor (initNode k args) js st w = (Inr st', w') \<Longrightarrow>
     \<exists>ids. length ids = length js \<and> persistentPeers st' = joinPeers (persistentPeers st) (map2 (nodeMemo args) ids js)"
proof (induction js arbitrary: st w)
  case (Cons i js)
  then obtain st1 w1 where node: "initNode k args i st w = (Inr st1, w1)" and rest: "ioFor (initNode k args) js st1 w1 = (Inr st', w')"
    by (auto simp: ioThen_Inr)
  obtain ident where "persistentPeers st1 = (if persistentPeers st = [] then nodeMemo args ident i
      else persistentPeers st @ '','' @ nodeMemo args ident i)"
    using initNode_peers [OF node] by blast
  moreover obtain ids where "length ids = length js" "persistentPeers st' = joinPeers (persistentPeers st1) (map2 (nodeMemo args) ids js)"
    using Cons.IH [OF rest] by blast
  ultimately show ?case by (intro exI [of _ "ident # ids"]) simp
qed simp

text \<open>From the second node on, each node starts from the genesis of the first.\<close>

lemma collectNode_keeps:
  "collectNode k args ids keys peers genTime i (c, Some a) w = (Inr (c', a'), w') \<Longrightarrow> a' = Some a"
  unfolding collectNode_def Let_def by (auto simp: ioThen_Inr)

lemma nodes_share_genesis:
  assumes "ioFor (collectNode k args ids keys peers genTime) js (c, Some a) w = (Inr (c', a'), w')"
  shows "a' = Some a
    \<and> ioFor (\<lambda>j (c1, _). collectNode k args ids keys peers genTime j (c1, Some a)) js (c, Some a) w = (Inr (c', a'), w')"
  using assms
proof (induction js arbitrary: c w)
  case (Cons j js)
  then obtain c1 a1 w1 where node: "collectNode k args ids keys peers genTime j (c, Some a) w = (Inr (c1, a1), w1)"
    and rest: "ioFor (collectNode k args ids keys peers genTime) js (c1, a1) w1 = (Inr (c', a'), w')"
    by (auto simp: ioThen_Inr)
  have "a1 = Some a" using collectNode_keeps [OF node] .
  with Cons.IH [of c1 w1] rest node show ?case by simp
qed simp

text \<open>
  Every node ends up with the transaction of every node, if paths can be compared, a file that lies in
  the directory is there already, and copying makes the copy and removes nothing.
\<close>

definition keeps :: "('w \<Rightarrow> string \<Rightarrow> string \<Rightarrow> bool) \<Rightarrow> 'w \<Rightarrow> 'w \<Rightarrow> bool" where
  "keeps has w w' \<longleftrightarrow> (\<forall>d f. has w d f \<longrightarrow> has w' d f)"

definition copies_files ::
  "('w, 'h, 'pk, 'kb, 'alg, 'addr, 'coin, 'msg, 'tx, 'acc, 'gen, 'time) netLib
     \<Rightarrow> ('w \<Rightarrow> string \<Rightarrow> string \<Rightarrow> bool) \<Rightarrow> bool" where
  "copies_files k has \<longleftrightarrow>
     (\<forall>src dir w n w'. copyFile k src dir w = (Inr n, w') \<longrightarrow> keeps has w w' \<and> has w' dir src)"

definition gentxDir ::
  "('w, 'h, 'pk, 'kb, 'alg, 'addr, 'coin, 'msg, 'tx, 'acc, 'gen, 'time) netLib \<Rightarrow> 'coin initArgs \<Rightarrow> int \<Rightarrow> string" where
  "gentxDir k args i = Join k [Join k [outputDir args, nodeDirOf args i], ''config'', ''gentx'']"

lemma keeps_trans: "keeps has w w1 \<Longrightarrow> keeps has w1 w2 \<Longrightarrow> keeps has w w2"
  by (simp add: keeps_def)

lemma copyGentx_has:
  assumes "copies_files k has" and "isSubDir k path (gentxDir k args i) = Inr yes"
    and "yes \<Longrightarrow> has w (gentxDir k args i) path" and "copyGentx k args i path w = (Inr u, w')"
  shows "keeps has w w' \<and> has w' (gentxDir k args i) path"
proof (cases yes)
  case True
  then show ?thesis using assms by (simp add: copyGentx_def Let_def gentxDir_def keeps_def)
next
  case False
  then obtain n where "copyFile k path (gentxDir k args i) w = (Inr n, w')"
    using assms(2,4) by (auto simp: copyGentx_def Let_def ioThen_Inr gentxDir_def)
  then show ?thesis using assms(1) unfolding copies_files_def by blast
qed

lemma loop_keeps:
  assumes "\<And>x w w'. x \<in> set xs \<Longrightarrow> keeps has w0 w \<Longrightarrow> f x () w = (Inr (), w') \<Longrightarrow> keeps has w w' \<and> good x w'"
    and "\<And>x w w'. good x w \<Longrightarrow> keeps has w w' \<Longrightarrow> good x w'"
    and "keeps has w0 w" and "ioFor f xs () w = (Inr (), w')"
  shows "keeps has w w' \<and> (\<forall>x \<in> set xs. good x w')"
  using assms(1,3,4)
proof (induction xs arbitrary: w)
  case (Cons x xs)
  obtain w1 where step: "f x () w = (Inr (), w1)" and rest: "ioFor f xs () w1 = (Inr (), w')"
    using Cons.prems(3) by (auto simp: ioThen_Inr)
  have one: "keeps has w w1" "good x w1" using Cons.prems(1) [OF _ Cons.prems(2) step] by simp_all
  have "keeps has w1 w' \<and> (\<forall>x \<in> set xs. good x w')"
    by (rule Cons.IH [OF _ keeps_trans [OF Cons.prems(2) one(1)] rest]) (rule Cons.prems(1); simp)
  then show ?case using one assms(2) keeps_trans by (metis set_ConsD)
qed (simp add: keeps_def)

lemma every_node_has_every_gentx:
  assumes lib: "copies_files k has"
    and own: "\<And>i path. 0 \<le> i \<Longrightarrow> i < numValidators args \<Longrightarrow> path \<in> set paths \<Longrightarrow>
        \<exists>yes. isSubDir k path (gentxDir k args i) = Inr yes \<and> (yes \<longrightarrow> has w (gentxDir k args i) path)"
    and run: "copyGentxs k args paths w = (Inr (), w')"
    and "0 \<le> i" and "i < numValidators args" and "path \<in> set paths"
  shows "has w' (gentxDir k args i) path"
proof -
  have "keeps has w w' \<and> (\<forall>i \<in> set [0..numValidators args - 1]. \<forall>path \<in> set paths. has w' (gentxDir k args i) path)"
  proof (rule loop_keeps [OF _ _ _ run [unfolded copyGentxs_def], where ?w0.0 = w])
    fix i w1 w2
    assume i: "i \<in> set [0..numValidators args - 1]" and "keeps has w w1"
      and inner: "ioFor (\<lambda>path _. copyGentx k args i path) paths () w1 = (Inr (), w2)"
    then show "keeps has w1 w2 \<and> (\<forall>path \<in> set paths. has w2 (gentxDir k args i) path)"
    proof (intro loop_keeps [OF _ _ _ inner, where ?w0.0 = w])
      fix path w3 w4
      assume "path \<in> set paths" and later: "keeps has w w3" and copy: "copyGentx k args i path w3 = (Inr (), w4)"
      then obtain yes where yes: "isSubDir k path (gentxDir k args i) = Inr yes" "yes \<longrightarrow> has w (gentxDir k args i) path"
        using own i by auto
      show "keeps has w3 w4 \<and> has w4 (gentxDir k args i) path"
        by (rule copyGentx_has [OF lib yes(1) _ copy]) (use yes(2) later in \<open>simp add: keeps_def\<close>)
    qed (auto simp: keeps_def)
  qed (auto simp: keeps_def)
  then show ?thesis using assms(4-6) by auto
qed

end
