(* ===== verification/InPlaceTestnet.thy ===== *)
theory InPlaceTestnet
  imports Complex_Main Testnet
begin

text \<open>
  The command that turns a copy of the chain into a test network with one validator
  (\<^verbatim>\<open>cmd/testnet.go\<close>): its options, the rewriting of the stores of staking, distribution and
  slashing, and the funding of accounts. The stores are of a type \<open>'s\<close>; what the code calls of the SDK
  is a record of functions. \<^verbatim>\<open>handleErr\<close> ends the process, which is the error of the function here.
\<close>

section \<open>The options\<close>

record 'o appOpts =
  newValAddr :: "'o option"
  newValPubKey :: "'o option"
  newOperatorAddress :: "string option"
  upgradeToTrigger :: "string option"
  accountsFlag :: string
  homeFlag :: string

record 'o valArgs =
  argValAddr :: 'o
  argValPubKey :: 'o
  argOperatorAddress :: string
  argAccountsToFund :: "string list"
  argUpgradeToTrigger :: string
  argHomeDir :: string

definition getCommandArgs :: "'o appOpts \<Rightarrow> go_error + 'o valArgs" where
  "getCommandArgs opts =
     (case newValAddr opts of
        None \<Rightarrow> Inl (ErrPlain ''newValAddr is not of type bytes.HexBytes'')
      | Some addr \<Rightarrow>
     (case newValPubKey opts of
        None \<Rightarrow> Inl (ErrPlain ''newValPubKey is not of type crypto.PubKey'')
      | Some pubKey \<Rightarrow>
     (case newOperatorAddress opts of
        None \<Rightarrow> Inl (ErrPlain ''newOperatorAddress is not of type string'')
      | Some op \<Rightarrow>
     (case upgradeToTrigger opts of
        None \<Rightarrow> Inl (ErrPlain ''upgradeToTrigger is not of type string'')
      | Some upgrade \<Rightarrow>
     (if homeFlag opts = [] then Inl (ErrPlain ''invalid home dir'')
      else Inr \<lparr>argValAddr = addr, argValPubKey = pubKey, argOperatorAddress = op,
                argAccountsToFund = splitComma (accountsFlag opts), argUpgradeToTrigger = upgrade,
                argHomeDir = homeFlag opts\<rparr>)))))"

section \<open>Funding accounts\<close>

text \<open>
  The loop over the accounts. An error ends the process; the writes made until then are the
  second component, since the context writes through to the store.
\<close>

fun fundAccounts ::
  "('s \<Rightarrow> (go_error + unit) \<times> 's) \<Rightarrow> (string \<Rightarrow> go_error + 'a) \<Rightarrow> ('a \<Rightarrow> 's \<Rightarrow> (go_error + unit) \<times> 's)
     \<Rightarrow> string list \<Rightarrow> 's \<Rightarrow> (go_error + unit) \<times> 's" where
  "fundAccounts MintCoins StringToBytes SendCoins [] bank = (Inr (), bank)"
| "fundAccounts MintCoins StringToBytes SendCoins (account # accounts) bank =
     ioThen (MintCoins bank) (\<lambda>_ bank1.
     ioThen (StringToBytes account, bank1) (\<lambda>addr bank1.
     ioThen (SendCoins addr bank1) (\<lambda>_ bank2.
     fundAccounts MintCoins StringToBytes SendCoins accounts bank2)))"

text \<open>
  Without the flag of accounts to fund, the list of accounts is not empty: it holds the empty
  address. A codec that refuses the empty address ends the process.
\<close>

lemma no_accounts_flag_exits:
  assumes "getCommandArgs opts = Inr args" and "accountsFlag opts = []"
    and "StringToBytes [] = Inl err" and "MintCoins bank = (Inr (), bank1)"
  shows "fundAccounts MintCoins StringToBytes SendCoins (argAccountsToFund args) bank = (Inl err, bank1)"
  using assms by (auto simp: getCommandArgs_def split: option.splits if_splits)

section \<open>The new validator\<close>

text \<open>Tokens, shares and rates are numbers; the status is the bonded one of the SDK.\<close>

record ('any, 'status) TestValidator =
  OperatorAddress :: string
  ConsensusPubkey :: 'any
  Jailed :: bool
  Status :: 'status
  Tokens :: int
  DelegatorShares :: rat
  valMoniker :: string
  Rate :: rat
  MaxRate :: rat
  MaxChangeRate :: rat
  MinSelfDelegation :: int

definition valVotingPower :: int where
  "valVotingPower = 900000000000000"

definition newVal :: "'status \<Rightarrow> string \<Rightarrow> 'any \<Rightarrow> ('any, 'status) TestValidator" where
  "newVal bonded operator pubkeyAny =
     \<lparr>OperatorAddress = operator, ConsensusPubkey = pubkeyAny, Jailed = False, Status = bonded,
      Tokens = valVotingPower, DelegatorShares = 10000000, valMoniker = ''Testnet Validator'',
      Rate = 5 / 100, MaxRate = 1 / 10, MaxChangeRate = 5 / 100, MinSelfDelegation = 1\<rparr>"

record SigningInfo =
  signerAddress :: string
  signingStart :: i64
  Tombstoned :: bool

section \<open>Rewriting the stores\<close>

text \<open>
  The key iterators give the keys that are stored when they are made. The records of the
  distribution module start at period 0 and 1 with one reference and no coins.
\<close>

record ('s, 'o, 'any, 'status, 'b, 'coins) stakingLib =
  NewAnyWithValue :: "'o \<Rightarrow> go_error + 'any"
  Bonded :: 'status
  valToBytes :: "string \<Rightarrow> go_error + 'b"
  accToBytes :: "string \<Rightarrow> go_error + 'b"
  ValidatorsPowerKeys :: "'s \<Rightarrow> go_error + string list"
  LastValidatorsKeys :: "'s \<Rightarrow> go_error + string list"
  PrefixKeys :: "string \<Rightarrow> 's \<Rightarrow> string list"
  ValidatorsKey :: string
  ValidatorQueueKey :: string
  DeleteKey :: "string \<Rightarrow> 's \<Rightarrow> 's"
  SetValidator :: "('any, 'status) TestValidator \<Rightarrow> 's \<Rightarrow> (go_error + unit) \<times> 's"
  SetValidatorByConsAddr :: "('any, 'status) TestValidator \<Rightarrow> 's \<Rightarrow> (go_error + unit) \<times> 's"
  SetValidatorByPowerIndex :: "('any, 'status) TestValidator \<Rightarrow> 's \<Rightarrow> (go_error + unit) \<times> 's"
  SetLastValidatorPower :: "'b \<Rightarrow> int \<Rightarrow> 's \<Rightarrow> (go_error + unit) \<times> 's"
  AfterValidatorCreated :: "'b \<Rightarrow> 's \<Rightarrow> (go_error + unit) \<times> 's"
  SetValidatorHistoricalRewards :: "'b \<Rightarrow> nat \<Rightarrow> nat \<Rightarrow> 's \<Rightarrow> (go_error + unit) \<times> 's"
  SetValidatorCurrentRewards :: "'b \<Rightarrow> nat \<Rightarrow> 's \<Rightarrow> (go_error + unit) \<times> 's"
  SetValidatorAccumulatedCommission :: "'b \<Rightarrow> 's \<Rightarrow> (go_error + unit) \<times> 's"
  SetValidatorOutstandingRewards :: "'b \<Rightarrow> 's \<Rightarrow> (go_error + unit) \<times> 's"
  ConsAddress :: "'o \<Rightarrow> 'b"
  ConsString :: "'b \<Rightarrow> string"
  SetValidatorSigningInfo :: "'b \<Rightarrow> SigningInfo \<Rightarrow> 's \<Rightarrow> (go_error + unit) \<times> 's"
  BondDenom :: "'s \<Rightarrow> go_error + string"
  NewCoins :: "string \<Rightarrow> int \<Rightarrow> 'coins"
  MintCoins :: "'coins \<Rightarrow> 's \<Rightarrow> (go_error + unit) \<times> 's"
  SendCoinsFromModuleToAccount :: "'b \<Rightarrow> 'coins \<Rightarrow> 's \<Rightarrow> (go_error + unit) \<times> 's"

definition deleteKeys ::
  "('s, 'o, 'any, 'status, 'b, 'coins) stakingLib \<Rightarrow> string list \<Rightarrow> 's \<Rightarrow> 's" where
  "deleteKeys k keys s = fold (DeleteKey k) keys s"

definition removeValidators ::
  "('s, 'o, 'any, 'status, 'b, 'coins) stakingLib \<Rightarrow> 's \<Rightarrow> (go_error + unit) \<times> 's" where
  "removeValidators k s =
     ioThen (ValidatorsPowerKeys k s, s) (\<lambda>power s.
     let s1 = deleteKeys k power s
     in ioThen (LastValidatorsKeys k s1, s1) (\<lambda>last s1.
     let s2 = deleteKeys k last s1;
         s3 = deleteKeys k (PrefixKeys k (ValidatorsKey k) s2) s2;
         s4 = deleteKeys k (PrefixKeys k (ValidatorQueueKey k) s3) s3
     in (Inr (), s4)))"

definition addValidator ::
  "('s, 'o, 'any, 'status, 'b, 'coins) stakingLib \<Rightarrow> ('any, 'status) TestValidator \<Rightarrow> 'b \<Rightarrow> 's \<Rightarrow> (go_error + unit) \<times> 's" where
  "addValidator k v validator s =
     ioThen (SetValidator k v s) (\<lambda>_ s.
     ioThen (SetValidatorByConsAddr k v s) (\<lambda>_ s.
     ioThen (SetValidatorByPowerIndex k v s) (\<lambda>_ s.
     ioThen (SetLastValidatorPower k validator 0 s) (\<lambda>_ s.
     ioThen (AfterValidatorCreated k validator s) (\<lambda>_ s.
     ioThen (SetValidatorHistoricalRewards k validator 0 1 s) (\<lambda>_ s.
     ioThen (SetValidatorCurrentRewards k validator 1 s) (\<lambda>_ s.
     ioThen (SetValidatorAccumulatedCommission k validator s) (\<lambda>_ s.
     SetValidatorOutstandingRewards k validator s))))))))"

text \<open>The error of \<open>SetValidatorSigningInfo\<close> is ignored.\<close>

definition initAppForTestnet ::
  "('s, 'o, 'any, 'status, 'b, 'coins) stakingLib \<Rightarrow> i64 \<Rightarrow> 'o valArgs \<Rightarrow> 's \<Rightarrow> (go_error + unit) \<times> 's" where
  "initAppForTestnet k lastBlockHeight args s =
     ioThen (NewAnyWithValue k (argValPubKey args), s) (\<lambda>pubkeyAny s.
     let v = newVal (Bonded k) (argOperatorAddress args) pubkeyAny
     in ioThen (valToBytes k (OperatorAddress v), s) (\<lambda>validator s.
     ioThen (removeValidators k s) (\<lambda>_ s1.
     ioThen (addValidator k v validator s1) (\<lambda>_ s2.
     let newConsAddr = ConsAddress k (argValAddr args);
         info = \<lparr>signerAddress = ConsString k newConsAddr, signingStart = lastBlockHeight - 1, Tombstoned = False\<rparr>;
         s3 = snd (SetValidatorSigningInfo k newConsAddr info s2)
     in ioThen (BondDenom k s3, s3) (\<lambda>bondDenom s3.
     let defaultCoins = NewCoins k bondDenom 1000000000
     in fundAccounts (MintCoins k defaultCoins) (accToBytes k)
          (\<lambda>account. SendCoinsFromModuleToAccount k account defaultCoins) (argAccountsToFund args) s3)))))"

text \<open>\<open>newApp\<close> gives an application, which must be of the type of this chain.\<close>

definition newTestnetApp ::
  "('s, 'o, 'any, 'status, 'b, 'coins) stakingLib \<Rightarrow> i64 \<Rightarrow> 's option \<Rightarrow> 'o appOpts \<Rightarrow> 's \<Rightarrow> (go_error + unit) \<times> 's" where
  "newTestnetApp k lastBlockHeight newApp opts s0 =
     (case newApp of
        None \<Rightarrow> (Inl (RuntimePanic ''app created from newApp is not of type App''), s0)
      | Some s \<Rightarrow>
     (case getCommandArgs opts of
        Inl err \<Rightarrow> (Inl err, s)
      | Inr args \<Rightarrow> initAppForTestnet k lastBlockHeight args s))"

section \<open>The old validators are gone\<close>

text \<open>Deleting a key takes it, and no other, out of what an iterator of keys gives.\<close>

definition deletes_keys :: "('s, 'o, 'any, 'status, 'b, 'coins) stakingLib \<Rightarrow> bool" where
  "deletes_keys k \<longleftrightarrow>
     (\<forall>prefix key s. PrefixKeys k prefix (DeleteKey k key s) = removeAll key (PrefixKeys k prefix s))
   \<and> (\<forall>key s xs. ValidatorsPowerKeys k s = Inr xs \<longrightarrow> ValidatorsPowerKeys k (DeleteKey k key s) = Inr (removeAll key xs))
   \<and> (\<forall>key s xs. LastValidatorsKeys k s = Inr xs \<longrightarrow> LastValidatorsKeys k (DeleteKey k key s) = Inr (removeAll key xs))"

lemma filter_removeAll: "filter (\<lambda>x. x \<notin> set keys) (removeAll key xs) = filter (\<lambda>x. x \<noteq> key \<and> x \<notin> set keys) xs"
  by (auto simp: removeAll_filter_not_eq intro: filter_cong)

lemma deleteKeys_keys:
  assumes "deletes_keys k"
  shows "PrefixKeys k p (deleteKeys k keys s) = filter (\<lambda>x. x \<notin> set keys) (PrefixKeys k p s)"
    and "ValidatorsPowerKeys k s = Inr xs \<Longrightarrow> ValidatorsPowerKeys k (deleteKeys k keys s) = Inr (filter (\<lambda>x. x \<notin> set keys) xs)"
    and "LastValidatorsKeys k s = Inr xs \<Longrightarrow> LastValidatorsKeys k (deleteKeys k keys s) = Inr (filter (\<lambda>x. x \<notin> set keys) xs)"
  using assms unfolding deleteKeys_def deletes_keys_def
  by (induction keys arbitrary: s xs) (simp_all add: filter_removeAll)

lemma removed_validators:
  assumes "deletes_keys k" and "removeValidators k s = (Inr (), s')"
  shows "PrefixKeys k (ValidatorsKey k) s' = []" and "PrefixKeys k (ValidatorQueueKey k) s' = []"
    and "ValidatorsPowerKeys k s' = Inr []" and "LastValidatorsKeys k s' = Inr []"
proof -
  obtain power where power: "ValidatorsPowerKeys k s = Inr power"
    using assms(2) by (cases "ValidatorsPowerKeys k s") (simp_all add: removeValidators_def)
  obtain last where last: "LastValidatorsKeys k (deleteKeys k power s) = Inr last"
    using assms(2) power
    by (cases "LastValidatorsKeys k (deleteKeys k power s)") (simp_all add: removeValidators_def)
  have s': "s' = (let s2 = deleteKeys k last (deleteKeys k power s);
      s3 = deleteKeys k (PrefixKeys k (ValidatorsKey k) s2) s2 in deleteKeys k (PrefixKeys k (ValidatorQueueKey k) s3) s3)"
    using assms(2) power last by (simp add: removeValidators_def Let_def)
  note keys = deleteKeys_keys [OF assms(1)]
  show "PrefixKeys k (ValidatorsKey k) s' = []" "PrefixKeys k (ValidatorQueueKey k) s' = []"
    by (auto simp: s' Let_def keys(1) filter_empty_conv)
  have "ValidatorsPowerKeys k (deleteKeys k power s) = Inr []" by (simp add: keys(2) [OF power])
  from keys(2) [OF this] show "ValidatorsPowerKeys k s' = Inr []" by (simp add: s' Let_def keys(2))
  have "LastValidatorsKeys k (deleteKeys k last (deleteKeys k power s)) = Inr []" by (simp add: keys(3) [OF last])
  from keys(3) [OF this] show "LastValidatorsKeys k s' = Inr []" by (simp add: s' Let_def keys(3))
qed

end
