(* ===== verification/Chain.thy ===== *)
theory Chain
  imports Ledger Verdict Gates Genesis Queries
begin

text \<open>
  The message server as a whole (the interface \<^verbatim>\<open>MsgServer\<close> of \<^verbatim>\<open>types/tx.pb.go\<close>, registered in
  \<^verbatim>\<open>types/codec.go\<close>): the messages, their dispatch to the handlers, and the runs of a chain. A run
  is a sequence of messages the handlers accepted, each in the environment of its block; the
  SDK discards what a message wrote that failed, so a failed message is not a step. Every
  handler meets the contract of \<open>Contract\<close>; the invariants of runs are proved from the
  contract alone.
\<close>

section \<open>Messages\<close>

datatype Msg =
    DoUpdateParams MsgUpdateParams
  | DoRegister MsgRegister
  | DoFaucet MsgFaucet
  | DoTransfer MsgTransfer
  | DoCastvouch MsgCastvouch
  | DoLockEscrow MsgLockEscrow
  | DoReleaseEscrow MsgReleaseEscrow
  | DoRefundEscrow MsgRefundEscrow
  | DoSubmitEscrow MsgSubmitEscrow
  | DoDisputeEscrow MsgDisputeEscrow
  | DoUnvouch MsgUnvouch
  | DoOpenDispute MsgOpenDispute
  | DoCastVote MsgCastVote
  | DoResolveDispute MsgResolveDispute
  | DoPostBond MsgPostBond
  | DoReleaseBond MsgReleaseBond
  | DoSlashBond MsgSlashBond
  | DoAttestEscrow MsgAttestEscrow
  | DoVerifiedRelease MsgVerifiedRelease
  | DoReclaimAttestationBonds MsgReclaimAttestationBonds
  | DoPostGate MsgPostGate
  | DoCommitAnswer MsgCommitAnswer
  | DoRevealAnswer MsgRevealAnswer
  | DoSettleGate MsgSettleGate
  | DoAwardContribution MsgAwardContribution
  | DoCastScopedEvidenceVouch MsgCastScopedEvidenceVouch

text \<open>The state a handler leaves when it succeeds.\<close>

definition committed :: "'r result \<Rightarrow> Keeper option" where
  "committed r = (case r of (Inl err, s') \<Rightarrow> None | (Inr resp, s') \<Rightarrow> Some s')"

lemma committed_Some: "committed r = Some s' \<longleftrightarrow> (\<exists>resp. r = (Inr resp, s'))"
  by (cases r; cases "fst r") (auto simp: committed_def)

fun execMsg :: "'f floats \<Rightarrow> Env \<Rightarrow> Msg \<Rightarrow> Keeper \<Rightarrow> Keeper option" where
  "execMsg F env (DoUpdateParams m) s = committed (UpdateParams env m s)"
| "execMsg F env (DoRegister m) s = committed (Register env m s)"
| "execMsg F env (DoFaucet m) s = committed (Faucet env m s)"
| "execMsg F env (DoTransfer m) s = committed (Transfer env m s)"
| "execMsg F env (DoCastvouch m) s = committed (Castvouch env m s)"
| "execMsg F env (DoLockEscrow m) s = committed (LockEscrow env m s)"
| "execMsg F env (DoReleaseEscrow m) s = committed (ReleaseEscrow env m s)"
| "execMsg F env (DoRefundEscrow m) s = committed (RefundEscrow env m s)"
| "execMsg F env (DoSubmitEscrow m) s = committed (SubmitEscrow env m s)"
| "execMsg F env (DoDisputeEscrow m) s = committed (DisputeEscrow env m s)"
| "execMsg F env (DoUnvouch m) s = committed (Unvouch env m s)"
| "execMsg F env (DoOpenDispute m) s = committed (OpenDispute env m s)"
| "execMsg F env (DoCastVote m) s = committed (CastVote env m s)"
| "execMsg F env (DoResolveDispute m) s = committed (ResolveDispute env m s)"
| "execMsg F env (DoPostBond m) s = committed (PostBond env m s)"
| "execMsg F env (DoReleaseBond m) s = committed (ReleaseBond env m s)"
| "execMsg F env (DoSlashBond m) s = committed (SlashBond env m s)"
| "execMsg F env (DoAttestEscrow m) s = committed (AttestEscrow env m s)"
| "execMsg F env (DoVerifiedRelease m) s = committed (VerifiedRelease env m s)"
| "execMsg F env (DoReclaimAttestationBonds m) s = committed (ReclaimAttestationBonds env m s)"
| "execMsg F env (DoPostGate m) s = committed (PostGate env m s)"
| "execMsg F env (DoCommitAnswer m) s = committed (CommitAnswer env m s)"
| "execMsg F env (DoRevealAnswer m) s = committed (RevealAnswer env m s)"
| "execMsg F env (DoSettleGate m) s = committed (SettleGate env m s)"
| "execMsg F env (DoAwardContribution m) s = committed (AwardContribution env m s)"
| "execMsg F env (DoCastScopedEvidenceVouch m) s = committed (CastScopedEvidenceVouch F env m s)"

section \<open>One message\<close>

text \<open>What the contract promises of one accepted message.\<close>

definition good_step :: "Keeper \<Rightarrow> Keeper \<Rightarrow> bool" where
  "good_step s s' \<longleftrightarrow> ledger_inv s' \<and> lifecycle s s' \<and> seqs_step s s'
     \<and> total_supply s' + mintable s' \<le> total_supply s + mintable s
     \<and> total_supply s' + minedTotal s \<le> total_supply s + minedTotal s'
     \<and> minedTotal s \<le> minedTotal s'"

context handler
begin

lemma committed_good:
  assumes "committed (run env m s) = Some s'" and "ledger_inv s" and "ids_free s"
  shows "good_step s s'"
proof -
  obtain r where r: "run env m s = (Inr r, s')" using assms(1) unfolding committed_Some by blast
  show ?thesis
    unfolding good_step_def
    using keeps_ledger [OF r assms(2,3)] no_gain [OF r assms(2,3)] within_policy [OF r assms(2,3)]
      moves_forward [OF r assms(2,3)] counts_ids [OF r assms(2,3)] by simp
qed

end

context conserving_handler
begin

lemma committed_conserves:
  assumes "committed (run env m s) = Some s'" and "ledger_inv s" and "ids_free s"
  shows "total_supply s' + minedTotal s = total_supply s + minedTotal s'"
  using assms conserves unfolding committed_Some by blast

end

lemmas committed_all =
    update_params.committed_good
    register.committed_good
    faucet.committed_good
    transfer.committed_good
    castvouch.committed_good
    lock_escrow.committed_good
    release_escrow.committed_good
    refund_escrow.committed_good
    submit_escrow.committed_good
    dispute_escrow.committed_good
    unvouch.committed_good
    open_dispute.committed_good
    cast_vote.committed_good
    resolve_dispute.committed_good
    post_bond.committed_good
    release_bond.committed_good
    slash_bond.committed_good
    attest_escrow.committed_good
    verified_release.committed_good
    reclaim.committed_good
    post_gate.committed_good
    commit_answer.committed_good
    reveal_answer.committed_good
    settle_gate.committed_good
    award_contribution.committed_good
    cast_scoped_evidence_vouch.committed_good

lemmas conserves_all =
    update_params.committed_conserves
    register.committed_conserves
    faucet.committed_conserves
    transfer.committed_conserves
    castvouch.committed_conserves
    lock_escrow.committed_conserves
    release_escrow.committed_conserves
    refund_escrow.committed_conserves
    submit_escrow.committed_conserves
    dispute_escrow.committed_conserves
    unvouch.committed_conserves
    open_dispute.committed_conserves
    cast_vote.committed_conserves
    resolve_dispute.committed_conserves
    post_bond.committed_conserves
    release_bond.committed_conserves
    attest_escrow.committed_conserves
    verified_release.committed_conserves
    reclaim.committed_conserves
    post_gate.committed_conserves
    commit_answer.committed_conserves
    reveal_answer.committed_conserves
    settle_gate.committed_conserves
    award_contribution.committed_conserves
    cast_scoped_evidence_vouch.committed_conserves

lemma execMsg_good:
  assumes "execMsg F env msg s = Some s'" and "ledger_inv s" and "ids_free s"
  shows "good_step s s'"
  using assms
  by (cases msg; hypsubst; simp only: execMsg.simps) (erule (2) committed_all)+

text \<open>Only the slashing of a bond destroys coins.\<close>

lemma execMsg_conserves:
  assumes "execMsg F env msg s = Some s'" and "ledger_inv s" and "ids_free s" and "\<And>m. msg \<noteq> DoSlashBond m"
  shows "total_supply s' + minedTotal s = total_supply s + minedTotal s'"
  using assms
  by (cases msg; hypsubst; simp only: execMsg.simps) (blast | erule (2) conserves_all)+


section \<open>Runs\<close>

inductive chain_run :: "'f floats \<Rightarrow> (Env \<times> Msg) list \<Rightarrow> Keeper \<Rightarrow> Keeper \<Rightarrow> bool" where
  idle: "chain_run F [] s s"
| accepted: "execMsg F env msg s = Some s1 \<Longrightarrow> chain_run F ms s1 s' \<Longrightarrow> chain_run F ((env, msg) # ms) s s'"

inductive_cases chain_run_NilE: "chain_run F [] s s'"
inductive_cases chain_run_ConsE: "chain_run F ((env, msg) # ms) s s'"

text \<open>A run as a function: it fails if a message is refused.\<close>

fun execAll :: "'f floats \<Rightarrow> (Env \<times> Msg) list \<Rightarrow> Keeper \<Rightarrow> Keeper option" where
  "execAll F [] s = Some s"
| "execAll F ((env, msg) # ms) s = (case execMsg F env msg s of None \<Rightarrow> None | Some s1 \<Rightarrow> execAll F ms s1)"

lemma chain_run_iff: "chain_run F ms s s' \<longleftrightarrow> execAll F ms s = Some s'"
proof
  assume "chain_run F ms s s'"
  then show "execAll F ms s = Some s'" by (induction rule: chain_run.induct) auto
next
  show "execAll F ms s = Some s' \<Longrightarrow> chain_run F ms s s'"
    by (induction F ms s rule: execAll.induct) (auto intro: chain_run.intros split: option.splits)
qed

text \<open>
  An induction over runs: while the sequences have numbers left, what every accepted message
  keeps is kept by the run. A run of \<open>n\<close> messages takes at most \<open>n\<close> numbers from each sequence;
  the invariant may count them.
\<close>

lemma chain_run_counted [consumes 4, case_names start step]:
  assumes "chain_run F ms s s'" and "ledger_inv s" and "ids_within k s" and "k + length ms < 2 ^ 64 - 1"
    and "P k s"
    and "\<And>env msg n s1 s2. (env, msg) \<in> set ms \<Longrightarrow> execMsg F env msg s1 = Some s2 \<Longrightarrow> ledger_inv s1 \<Longrightarrow> ids_free s1 \<Longrightarrow>
      n < 2 ^ 64 - 1 \<Longrightarrow> good_step s1 s2 \<Longrightarrow> P n s1 \<Longrightarrow> P (Suc n) s2"
  shows "P (k + length ms) s' \<and> ledger_inv s'"
  using assms
proof (induction arbitrary: k rule: chain_run.induct)
  case (accepted F env msg s s1 ms s')
  have free: "ids_free s" using accepted.prems(2,3) by (intro ids_within_free [of k]) simp_all
  have good: "good_step s s1" using execMsg_good [OF accepted.hyps(1) accepted.prems(1) free] .
  have "ids_within (Suc k) s1"
    using good accepted.prems(2,3) unfolding good_step_def by (intro ids_within_step [of k s]) simp_all
  moreover have "P (Suc k) s1"
    using accepted.prems(3) accepted.prems(5) [OF _ accepted.hyps(1) accepted.prems(1) free _ good accepted.prems(4)] by simp
  moreover have "ledger_inv s1" using good by (simp add: good_step_def)
  moreover have "Suc k + length ms < 2 ^ 64 - 1" using accepted.prems(3) by simp
  moreover have "P (Suc n) t2" if "(env', msg') \<in> set ms" "execMsg F env' msg' t1 = Some t2" "ledger_inv t1"
    "ids_free t1" "n < 2 ^ 64 - 1" "good_step t1 t2" "P n t1" for env' msg' n t1 t2
    using accepted.prems(5) [of env' msg' t1 t2 n] that by simp
  ultimately have "P (Suc k + length ms) s' \<and> ledger_inv s'"
    by (intro accepted.IH) assumption+
  then show ?case by simp
qed simp

lemma chain_run_invariant [consumes 4, case_names start step]:
  assumes "chain_run F ms s s'" and "ledger_inv s" and "ids_within k s" and "k + length ms < 2 ^ 64 - 1"
    and "P s"
    and "\<And>env msg s1 s2. (env, msg) \<in> set ms \<Longrightarrow> execMsg F env msg s1 = Some s2 \<Longrightarrow> ledger_inv s1 \<Longrightarrow> ids_free s1 \<Longrightarrow>
      good_step s1 s2 \<Longrightarrow> P s1 \<Longrightarrow> P s2"
  shows "P s' \<and> ledger_inv s'"
  using chain_run_counted [OF assms(1-4), of "\<lambda>_. P"] assms(5,6) by blast

lemma run_ledger:
  assumes "chain_run F ms s s'" and "ledger_inv s" and "ids_within k s" and "k + length ms < 2 ^ 64 - 1"
  shows "ledger_inv s'" "total_supply s' + mintable s' \<le> total_supply s + mintable s"
    "total_supply s' + minedTotal s \<le> total_supply s + minedTotal s'"
proof -
  have "(total_supply s' + mintable s' \<le> total_supply s + mintable s
      \<and> total_supply s' + minedTotal s \<le> total_supply s + minedTotal s') \<and> ledger_inv s'"
    using assms by (induction rule: chain_run_invariant) (auto simp: good_step_def)
  then show "ledger_inv s'" "total_supply s' + mintable s' \<le> total_supply s + mintable s"
    "total_supply s' + minedTotal s \<le> total_supply s + minedTotal s'" by blast+
qed

lemma run_conserves:
  assumes "chain_run F ms s s'" and "ledger_inv s" and "ids_within k s" and "k + length ms < 2 ^ 64 - 1"
    and "\<And>env m. (env, DoSlashBond m) \<notin> set ms"
  shows "total_supply s' + minedTotal s = total_supply s + minedTotal s'"
proof -
  have "total_supply s' + minedTotal s = total_supply s + minedTotal s' \<and> ledger_inv s'"
    using assms(1-4)
  proof (induction rule: chain_run_invariant)
    case (step env msg s1 s2)
    have "total_supply s2 + minedTotal s1 = total_supply s1 + minedTotal s2"
      using step assms(5) by (intro execMsg_conserves) auto
    with step show ?case by linarith
  qed simp
  then show ?thesis by blast
qed

text \<open>Each record moves along its life cycle.\<close>

lemma run_escrow:
  assumes "chain_run F ms s s'" and "ledger_inv s" and "ids_within k s" and "k + length ms < 2 ^ 64 - 1"
    and e: "kv_get (Keeper.Escrow s) i = Some e"
  shows "\<exists>e'. kv_get (Keeper.Escrow s') i = Some e' \<and> same_terms e e'
    \<and> escrow_move\<^sup>*\<^sup>* (Escrow.Status e) (Escrow.Status e')"
proof -
  have "(\<exists>e'. kv_get (Keeper.Escrow s') i = Some e' \<and> same_terms e e'
      \<and> escrow_move\<^sup>*\<^sup>* (Escrow.Status e) (Escrow.Status e')) \<and> ledger_inv s'"
    using assms(1-4)
  proof (induction rule: chain_run_invariant)
    case start
    then show ?case using e by (auto simp: same_terms_def)
  next
    case (step env msg s1 s2)
    then obtain e1 where e1: "kv_get (Keeper.Escrow s1) i = Some e1" "same_terms e e1"
      "escrow_move\<^sup>*\<^sup>* (Escrow.Status e) (Escrow.Status e1)" by blast
    have "table_step escrow_step born_escrow (Keeper.Escrow s1) (Keeper.Escrow s2)"
      using step by (simp add: good_step_def lifecycle_def)
    from table_step_Some [OF this e1(1)]
    obtain e2 where e2: "kv_get (Keeper.Escrow s2) i = Some e2" "escrow_step e1 e2" by blast
    have "same_terms e1 e2" "Escrow.Status e2 = Escrow.Status e1 \<or> escrow_move (Escrow.Status e1) (Escrow.Status e2)"
      using e2(2) unfolding escrow_step_def by blast+
    then have "same_terms e e2" "escrow_move\<^sup>*\<^sup>* (Escrow.Status e) (Escrow.Status e2)"
      using e1(2,3) by (simp add: same_terms_def, metis rtranclp.rtrancl_into_rtrancl)
    then show ?case using e2(1) by blast
  qed
  then show ?thesis by blast
qed

lemma run_bond:
  assumes "chain_run F ms s s'" and "ledger_inv s" and "ids_within k s" and "k + length ms < 2 ^ 64 - 1"
    and b: "kv_get (Keeper.Bond s) i = Some b"
  shows "\<exists>b'. kv_get (Keeper.Bond s') i = Some b' \<and> bond_step b b'"
proof -
  have "(\<exists>b'. kv_get (Keeper.Bond s') i = Some b' \<and> bond_step b b') \<and> ledger_inv s'"
    using assms(1-4)
  proof (induction rule: chain_run_invariant)
    case start
    then show ?case using b by simp
  next
    case (step env msg s1 s2)
    then obtain b1 where b1: "kv_get (Keeper.Bond s1) i = Some b1" "bond_step b b1" by blast
    have "table_step bond_step born_bond (Keeper.Bond s1) (Keeper.Bond s2)"
      using step by (simp add: good_step_def lifecycle_def)
    from table_step_Some [OF this b1(1)]
    obtain b2 where "kv_get (Keeper.Bond s2) i = Some b2" "bond_step b1 b2" by blast
    then show ?case using bond_step_trans [OF b1(2)] by blast
  qed
  then show ?thesis by blast
qed

lemma run_claims:
  assumes "chain_run F ms s s'" and "ledger_inv s" and "ids_within k s" and "k + length ms < 2 ^ 64 - 1"
    and "collateral_ok s" and "escrows_wf s"
  shows "collateral_ok s'" "escrows_wf s'"
proof -
  have "(collateral_ok s' \<and> escrows_wf s') \<and> ledger_inv s'"
    using assms(1-4)
    by (induction rule: chain_run_invariant)
      (use assms(5,6) in \<open>auto simp: good_step_def intro: collateral_ok_lifecycle escrows_wf_lifecycle\<close>)
  then show "collateral_ok s'" "escrows_wf s'" by blast+
qed


section \<open>A sample run\<close>

text \<open>
  The case of the theory \<open>Verdict\<close> as a run: a verifier-bound escrow is locked, delivered,
  attested and released, the payer challenges the release as fraudulent, two jurors agree, and
  the case is resolved.
\<close>

definition fraudRun :: "(Env \<times> Msg) list" where
  "fraudRun =
    [(sampleEnv 100, DoLockEscrow boundLock),
     (sampleEnv 200, DoSubmitEscrow dealSubmit),
     (sampleEnv 300, DoAttestEscrow (dealAttest True)),
     (sampleEnv 400, DoVerifiedRelease
        \<lparr>MsgVerifiedRelease.Creator = ''dave'', MsgVerifiedRelease.EscrowId = 0, MsgVerifiedRelease.Key = ''k''\<rparr>),
     (sampleEnv 500, DoOpenDispute fraudClaim),
     (sampleEnv 600, DoCastVote (jurorVote ''dave'')),
     (sampleEnv 700, DoCastVote (jurorVote ''erin'')),
     (sampleEnv 800, DoResolveDispute
        \<lparr>MsgResolveDispute.Creator = ''frank'', MsgResolveDispute.DisputeId = 0\<rparr>)]"

lemma committed_Inr [simp]: "committed (Inr r, s) = Some s"
  by (simp add: committed_def)

lemma fraudRun_runs: "chain_run F fraudRun sampleState rejection"
  by (simp add: chain_run_iff fraudRun_def deal0_run deal1_run deal2_run deal3_run case0_run case1_run case2_run
      rejection_run)

lemma fraudRun_prefix: "chain_run F (tl fraudRun) deal0 rejection"
  by (simp add: chain_run_iff fraudRun_def deal1_run deal2_run deal3_run case0_run case1_run case2_run rejection_run)

lemma sampleState_ids: "ids_within 0 sampleState"
  by (simp add: ids_within_def)

lemma fraudRun_length: "length fraudRun = 8"
  by (simp add: fraudRun_def)

text \<open>The first transfer on a freshly started chain.\<close>

definition launchState :: Keeper where
  "launchState = snd (InitGenesis (sampleEnv 5) launchGenesis NewKeeper)"

definition launchTransfer :: MsgTransfer where
  "launchTransfer = \<lparr>MsgTransfer.Creator = ''alice'', MsgTransfer.ToAddr = ''dave'', MsgTransfer.Amount = 100, MsgTransfer.Memo = []\<rparr>"

lemma launchState_run: "InitGenesis (sampleEnv 5) launchGenesis NewKeeper = (Inr (), launchState)"
  by (simp add: launchState_def InitGenesis_def Let_def)

lemma launchState_fields [simp]:
  "kv_get (Keeper.Account launchState) a =
     (if a = ''alice'' then Some (funded ''alice'' 500) else if a = ''dave'' then Some (funded ''dave'' 10) else None)"
  "Keeper.VouchSeq launchState = 0" "Keeper.EscrowSeq launchState = 0" "Keeper.DisputeSeq launchState = 0"
  "Keeper.BondSeq launchState = 0" "Keeper.GateSeq launchState = 0"
  by (simp_all add: launchState_def InitGenesis_def Let_def launchGenesis_def DefaultGenesis_def NewKeeper_def kv_fill_def)

lemma launchRun: "\<exists>s'. chain_run F [(sampleEnv 10, DoTransfer launchTransfer)] launchState s'"
  by (simp add: chain_run_iff Transfer_def launchTransfer_def helper_defs
      creditAccount_cases Let_def split: option.splits)

text \<open>A bond posted on it, and a vote of the governance, which every state accepts.\<close>

definition launchBond :: MsgPostBond where
  "launchBond = \<lparr>MsgPostBond.Creator = ''alice'', MsgPostBond.Amount = 400, MsgPostBond.Purpose = ''uptime'',
     MsgPostBond.Slasher = ''dave'', MsgPostBond.Ref = []\<rparr>"

definition bondedLaunch :: Keeper where
  "bondedLaunch = snd (PostBond (sampleEnv 10) launchBond launchState)"

lemma bondedRun: "chain_run F [(sampleEnv 10, DoPostBond launchBond)] launchState bondedLaunch"
  by (simp add: chain_run_iff bondedLaunch_def PostBond_def launchBond_def helper_defs Let_def nextBondID_def)

lemma bondedLaunch_fields:
  "Keeper.Params bondedLaunch = Some (NewParams [''dave''])" "kv_total heldBond (Keeper.Bond bondedLaunch) = 400"
proof -
  have "Keeper.Params launchState = Some (NewParams [''dave''])" "Keeper.Bond launchState = kv_empty"
    by (simp_all add: launchState_def InitGenesis_def Let_def launchGenesis_def NewKeeper_def)
  then show "Keeper.Params bondedLaunch = Some (NewParams [''dave''])" "kv_total heldBond (Keeper.Bond bondedLaunch) = 400"
    by (simp_all add: bondedLaunch_def PostBond_def launchBond_def helper_defs Let_def nextBondID_def
        kv_total_set_new heldBond_def)
qed

definition govVote :: MsgUpdateParams where
  "govVote = \<lparr>MsgUpdateParams.Authority = ''gov'', MsgUpdateParams.NewParamValues = NewParams [''erin'']\<rparr>"

lemma govRun: "chain_run F [(sampleEnv t, DoUpdateParams govVote)] s (s\<lparr>Keeper.Params := Some (NewParams [''erin''])\<rparr>)"
proof -
  have "validateParams (NewParams [''erin'']) = None" by (simp add: validateParams_None NewParams_def)
  then show ?thesis by (simp add: chain_run_iff UpdateParams_def govVote_def)
qed

end
