(* ===== verification/Records.thy ===== *)
theory Records
  imports Chain
begin

text \<open>
  What messages leave alone, and what therefore holds of the records on every run. Most handlers
  are bystanders: they keep accounts under their own addresses and do not touch the awards,
  the scoped evidence and the gates. So an artifact stays awarded for ever, the
  store stays fit for export, the schedule keeps its constants, and a gate whose reveal window
  is over keeps its answers.
\<close>

section \<open>Records a handler leaves alone\<close>

text \<open>Accounts and parameters stay fit for a genesis file.\<close>

definition params_ok :: "Keeper \<Rightarrow> bool" where
  "params_ok s \<longleftrightarrow> (case Keeper.Params s of None \<Rightarrow> True | Some p \<Rightarrow> validateParams p = None)"

definition fit_kept :: "Keeper \<Rightarrow> Keeper \<Rightarrow> bool" where
  "fit_kept s s' \<longleftrightarrow>
     (keyed_by Account.Address (Keeper.Account s) \<longrightarrow> keyed_by Account.Address (Keeper.Account s'))
     \<and> (params_ok s \<longrightarrow> params_ok s')"

definition same_registers :: "Keeper \<Rightarrow> Keeper \<Rightarrow> bool" where
  "same_registers s s' \<longleftrightarrow> Keeper.ContributionAwardSeq s' = Keeper.ContributionAwardSeq s
    \<and> Keeper.ContributionAward s' = Keeper.ContributionAward s
    \<and> Keeper.ScopedEvidenceVouchSeq s' = Keeper.ScopedEvidenceVouchSeq s
    \<and> Keeper.ScopedEvidenceVouch s' = Keeper.ScopedEvidenceVouch s"

definition bystander :: "Keeper \<Rightarrow> Keeper \<Rightarrow> bool" where
  "bystander s s' \<longleftrightarrow> fit_kept s s' \<and> same_registers s s' \<and> Keeper.Gate s' = Keeper.Gate s"

lemmas bystander_defs = bystander_def fit_kept_def same_registers_def

lemma bystander_refl [simp]: "bystander s s"
  by (simp add: bystander_defs)

lemma bystander_trans [trans]: "bystander s s1 \<Longrightarrow> bystander s1 s2 \<Longrightarrow> bystander s s2"
  by (simp add: bystander_defs)

lemma bystander_writes [simp]:
  "bystander s (emit n ats s') = bystander s s'"
  "bystander s (setEscrow i e s') = bystander s s'"
  "bystander s (setBond i b s') = bystander s s'"
  "bystander s (setDispute i d s') = bystander s s'"
  "bystander s (setVouch i v s') = bystander s s'"
  "bystander s (s'\<lparr>Keeper.VouchSeq := n1\<rparr>) = bystander s s'"
  "bystander s (s'\<lparr>Keeper.EscrowSeq := n1\<rparr>) = bystander s s'"
  "bystander s (s'\<lparr>Keeper.DisputeSeq := n1\<rparr>) = bystander s s'"
  "bystander s (s'\<lparr>Keeper.BondSeq := n1\<rparr>) = bystander s s'"
  "bystander s (s'\<lparr>Keeper.EmissionState := em\<rparr>) = bystander s s'"
  "bystander s (s'\<lparr>Keeper.Vouch := vs\<rparr>) = bystander s s'"
  by (simp_all add: bystander_defs params_ok_def store_defs)

lemma bystander_setAccount:
  "bystander s s' \<Longrightarrow> (keyed_by Account.Address (Keeper.Account s') \<Longrightarrow> Account.Address acc = a) \<Longrightarrow>
     bystander s (setAccount a acc s')"
  by (auto simp: bystander_defs params_ok_def setAccount_def intro!: keyed_by_put)

text \<open>A changed record that was read under the same address.\<close>

lemma bystander_update:
  "bystander s s' \<Longrightarrow> kv_get (Keeper.Account s') a = Some acc \<Longrightarrow> Account.Address acc' = Account.Address acc \<Longrightarrow>
     bystander s (setAccount a acc' s')"
  by (rule bystander_setAccount) (auto dest: keyed_by_get)

lemma bystander_credit:
  assumes "creditAccount env a ab amt s = (r, s')"
  shows "bystander s s'"
proof -
  have "keyed_by Account.Address (Keeper.Account s) \<Longrightarrow> keyed_by Account.Address (Keeper.Account s')"
    using assms
    by (auto simp: creditAccount_cases setAccount_def newAccount_def ensureAuthAccount_def
      keyed_by_def split: option.splits if_splits)
  then show ?thesis by (simp add: bystander_defs params_ok_def creditAccount_frame [OF assms])
qed

lemma bystander_register:
  assumes "ensureRegistered env a ab amt s = (r, s')"
  shows "bystander s s'"
proof -
  have "keyed_by Account.Address (Keeper.Account s) \<Longrightarrow> keyed_by Account.Address (Keeper.Account s')"
    using assms
    by (auto simp: ensureRegistered_def setAccount_def newAccount_def ensureAuthAccount_def Let_def
      keyed_by_def split: option.splits if_splits)
  then show ?thesis by (simp add: bystander_defs params_ok_def ensureRegistered_frame [OF assms])
qed

lemma bystander_lock: "bystander s s' \<Longrightarrow> kv_get (Keeper.Account s') a = Some acc \<Longrightarrow> bystander s (lockBond a acc amt p sl rf s')"
  by (auto simp: lockBond_def intro!: bystander_update)

lemma bystander_settle:
  "settleBond a b s = (r, s') \<Longrightarrow> bystander s s'"
  by (auto simp: settleBond_def intro!: bystander_update split: option.splits)

lemma bystander_credit_from:
  "creditAccount env a ab amt s0 = (r, s') \<Longrightarrow> bystander s s0 \<Longrightarrow> bystander s s'"
  by (blast intro: bystander_trans bystander_credit)

lemma bystander_mint:
  assumes "mintProtocolReward env a ab amt rail s = (Inr u, s')"
  shows "bystander s s'"
  using assms by (rule mint_steps) (use sync_writes in \<open>fastforce elim!: bystander_credit_from\<close>)

context stake_loop
begin

lemma bystander: "loop xs s = (Inr r, s') \<Longrightarrow> bystander s s'"
proof (induction xs arbitrary: s)
  case (Cons x xs)
  show ?case
  proof (cases "live s (bondId x) purpose")
    case (Some b)
    then obtain n ats s1 where
      set: "settleBond (recipient x b) (b\<lparr>Bond.Status := status x\<rparr>) s = (Inr (), s1)"
      and rest: "loop xs (emit n ats s1) = (Inr r, s')" using turn [OF Cons.prems(1)] by blast
    have "bystander s (emit n ats s1)" using bystander_settle [OF set] by simp
    then show ?thesis using Cons.IH [OF rest] by (rule bystander_trans)
  qed (use Cons loop_skip in auto)
qed (simp add: loop_nil)

end

lemma bystander_payAnswers: "payAnswers env drip w as1 m s = (Inr r, s') \<Longrightarrow> bystander s s'"
proof (induction as1 arbitrary: m r s)
  case (Cons a as1)
  show ?case
  proof (cases "coherent w a")
    case True
    show ?thesis
      using Cons.prems True
      by (rule payAnswers_pay) (use bystander_mint Cons.IH in \<open>blast intro: bystander_trans\<close>)
  next
    case False
    show ?thesis
      using Cons.prems False by (rule payAnswers_skip) (use Cons.IH in blast)
  qed
qed simp

section \<open>The handlers as bystanders\<close>

locale record_handler =
  fixes run :: "Env \<Rightarrow> 'm \<Rightarrow> Keeper \<Rightarrow> 'r result"
  assumes keeps_records: "run env m s = (Inr r, s') \<Longrightarrow> core_inv s \<Longrightarrow> fit_kept s s' \<and> same_registers s s'"
begin

lemma committed_records:
  assumes "committed (run env m s) = Some s'" and "core_inv s"
  shows "fit_kept s s' \<and> same_registers s s'"
  using assms keeps_records unfolding committed_Some by blast

end

locale bystander_handler =
  fixes run :: "Env \<Rightarrow> 'm \<Rightarrow> Keeper \<Rightarrow> 'r result"
  assumes untouched: "run env m s = (Inr r, s') \<Longrightarrow> core_inv s \<Longrightarrow> bystander s s'"
begin

lemma committed_gates:
  assumes "committed (run env m s) = Some s'" and "core_inv s"
  shows "Keeper.Gate s' = Keeper.Gate s"
  using assms untouched unfolding committed_Some bystander_def by blast

end

sublocale bystander_handler \<subseteq> record_handler run
  by unfold_locales (use untouched in \<open>simp add: bystander_def\<close>)

interpretation update_params_b: bystander_handler UpdateParams
  by unfold_locales (simp add: UpdateParams_success bystander_defs params_ok_def)

interpretation register_b: bystander_handler Register
  by unfold_locales (auto simp: newAccount_def intro!: bystander_setAccount dest!: Register_success)

interpretation faucet_b: bystander_handler Faucet
  by unfold_locales (simp add: Faucet_def split: option.splits)

interpretation transfer_b: bystander_handler Transfer
  by unfold_locales (auto simp: getRegistered_Some intro!: bystander_update elim!: bystander_credit_from dest!: Transfer_success)

interpretation castvouch_b: bystander_handler Castvouch
  by unfold_locales (auto simp: getRegistered_Some Let_def intro!: bystander_update dest!: Castvouch_success split: option.splits)

interpretation unvouch_b: bystander_handler Unvouch
  by unfold_locales (auto intro!: bystander_update dest!: Unvouch_success)

interpretation post_bond_b: bystander_handler PostBond
  by unfold_locales (auto simp: getRegistered_Some intro!: bystander_lock dest!: PostBond_success)

interpretation release_bond_b: bystander_handler ReleaseBond
  by unfold_locales (auto intro!: bystander_update dest!: ReleaseBond_success)

interpretation slash_bond_b: bystander_handler SlashBond
  by unfold_locales (auto simp: paySlashed_def intro: bystander_credit dest!: SlashBond_success split: option.splits if_splits)

interpretation lock_escrow_b: bystander_handler LockEscrow
proof unfold_locales
  fix env m s r s'
  assume "LockEscrow env m s = (Inr r, s')"
  from LockEscrow_success [OF this]
  obtain pb na acc s1 n ats where acc: "getRegistered s (MsgLockEscrow.Creator m) = Some acc"
    and other: "MsgLockEscrow.Creator m \<noteq> MsgLockEscrow.Payee m"
    and er: "ensureRegistered env (MsgLockEscrow.Payee m) pb (MsgLockEscrow.Amount m) s = (Inr (), s1)"
    and s': "s' = emit n ats (setEscrow (Keeper.EscrowSeq s1) (lockedEscrow env m (Keeper.EscrowSeq s1) na)
          ((setAccount (MsgLockEscrow.Creator m)
              (acc\<lparr>Account.Balance := Account.Balance acc - MsgLockEscrow.Amount m\<rparr>) s1)
            \<lparr>Keeper.EscrowSeq := Keeper.EscrowSeq s1 + 1\<rparr>))" by blast
  have "kv_get (Keeper.Account s1) (MsgLockEscrow.Creator m) = Some acc"
    using acc ensureRegistered_other [OF er other] by (simp add: getRegistered_Some)
  then show "bystander s s'"
    unfolding s' using bystander_register [OF er] by (auto intro: bystander_update)
qed

interpretation submit_escrow_b: bystander_handler SubmitEscrow
  by unfold_locales (auto dest!: SubmitEscrow_success)

interpretation release_escrow_b: bystander_handler ReleaseEscrow
  by unfold_locales (auto intro: bystander_credit dest!: ReleaseEscrow_success)

interpretation refund_escrow_b: bystander_handler RefundEscrow
  by unfold_locales (auto intro: bystander_credit dest!: RefundEscrow_success)

interpretation dispute_escrow_b: bystander_handler DisputeEscrow
  by unfold_locales (auto dest!: DisputeEscrow_success)

interpretation attest_escrow_b: bystander_handler AttestEscrow
  by unfold_locales (auto simp: getRegistered_Some intro!: bystander_lock dest!: AttestEscrow_success)

interpretation verified_release_b: bystander_handler VerifiedRelease
  by unfold_locales (auto intro: bystander_credit dest!: VerifiedRelease_success)

interpretation reclaim_b: bystander_handler ReclaimAttestationBonds
  by unfold_locales (auto intro: reclaim_loop.bystander dest!: ReclaimAttestationBonds_success)

interpretation open_dispute_b: bystander_handler OpenDispute
  by unfold_locales (auto simp: getRegistered_Some intro!: bystander_lock dest!: OpenDispute_success)

interpretation cast_vote_b: bystander_handler CastVote
  by unfold_locales (auto simp: getRegistered_Some intro!: bystander_lock dest!: CastVote_success)


interpretation resolve_dispute_b: bystander_handler ResolveDispute
proof unfold_locales
  fix env m s r s'
  assume run: "ResolveDispute env m s = (Inr r, s')" and inv: "core_inv s"
  have verdict: "bystander s0 s1" if "settleVerdict env ch ac e s0 = (Inr x, s1)" for ch ac e s0 x s1
    using that by (auto simp: settleVerdict_def Let_def elim!: bystander_credit_from split: if_splits option.splits sum.splits prod.splits)
  have bond: "bystander s0 s1" if "settleDisputeBond ch d e res s0 = (Inr x, s1)" for ch d e res s0 x s1
    using that by (auto simp: settleDisputeBond_def Let_def dest: bystander_settle split: if_splits option.splits sum.splits prod.splits)
  show "bystander s s'"
    using ResolveDispute_success [OF run inv]
    by (auto dest!: verdict bond juror_loop.bystander attestation_loop.bystander) (blast intro: bystander_trans)
qed

text \<open>The messages on gates keep the registers, too.\<close>

lemma records_setGate [simp]:
  "fit_kept s (setGate i g s') = fit_kept s s'" "same_registers s (setGate i g s') = same_registers s s'"
  "fit_kept s (emit n ats s') = fit_kept s s'" "same_registers s (emit n ats s') = same_registers s s'"
  by (simp_all add: fit_kept_def params_ok_def same_registers_def setGate_def)

interpretation post_gate_b: record_handler PostGate
  by unfold_locales (auto simp: fit_kept_def params_ok_def same_registers_def dest!: PostGate_success)

interpretation commit_answer_b: record_handler CommitAnswer
  by unfold_locales (auto simp: fit_kept_def params_ok_def same_registers_def dest!: CommitAnswer_success)

interpretation reveal_answer_b: record_handler RevealAnswer
  by unfold_locales (auto simp: fit_kept_def params_ok_def same_registers_def dest!: RevealAnswer_success)

lemma SettleGate_pays:
  assumes "SettleGate env m s = (Inr r, s')" and "core_inv s"
  shows "\<exists>s1 g1 n ats. s' = emit n ats (setGate (MsgSettleGate.GateId m) g1 s1)
     \<and> (s1 = s \<or> (\<exists>drip as1 x. payAnswers env drip r as1 0 s = (Inr x, s1)))"
proof -
  obtain g as2 k s1 n ats where
    pay: "(if r \<noteq> [] then payAnswers env (Gate.Drip g) r (Gate.Answers g) 0 s else (Inr (Gate.Answers g, 0), s)) = (Inr (as2, k), s1)"
    and s': "s' = emit n ats (setGate (MsgSettleGate.GateId m) (g\<lparr>Gate.Answers := as2, Gate.Status := GateStatusSettled,
                      Gate.GoldAnswer := MsgSettleGate.GoldAnswer m, Gate.Consensus := r\<rparr>) s1)"
    using SettleGate_success [OF assms] by blast
  have "s1 = s \<or> (\<exists>drip as1 x. payAnswers env drip r as1 0 s = (Inr x, s1))"
    using pay by (auto split: if_splits)
  with s' show ?thesis by blast
qed

interpretation settle_gate_b: record_handler SettleGate
proof unfold_locales
  fix env m s r s'
  assume "SettleGate env m s = (Inr r, s')" and "core_inv s"
  from SettleGate_pays [OF this]
  obtain s1 g1 n ats where s': "s' = emit n ats (setGate (MsgSettleGate.GateId m) g1 s1)" and "bystander s s1"
    using bystander_payAnswers bystander_refl by blast
  then show "fit_kept s s' \<and> same_registers s s'" by (simp add: bystander_def)
qed

lemmas records_all =
    update_params_b.committed_records
    register_b.committed_records
    faucet_b.committed_records
    transfer_b.committed_records
    castvouch_b.committed_records
    lock_escrow_b.committed_records
    release_escrow_b.committed_records
    refund_escrow_b.committed_records
    submit_escrow_b.committed_records
    dispute_escrow_b.committed_records
    unvouch_b.committed_records
    open_dispute_b.committed_records
    cast_vote_b.committed_records
    resolve_dispute_b.committed_records
    post_bond_b.committed_records
    release_bond_b.committed_records
    slash_bond_b.committed_records
    attest_escrow_b.committed_records
    verified_release_b.committed_records
    reclaim_b.committed_records
    post_gate_b.committed_records
    commit_answer_b.committed_records
    reveal_answer_b.committed_records
    settle_gate_b.committed_records

lemma execMsg_records:
  assumes "execMsg F env msg s = Some s'" and "core_inv s"
    and "\<And>m. msg \<noteq> DoAwardContribution m" and "\<And>m. msg \<noteq> DoCastScopedEvidenceVouch m"
  shows "fit_kept s s' \<and> same_registers s s'"
  using assms
  by (cases msg; hypsubst; simp only: execMsg.simps) (blast | erule (1) records_all)+

lemma AwardContribution_records:
  assumes run: "AwardContribution env msg s = (Inr i, s')"
  shows "fit_kept s s'" "Keeper.Gate s' = Keeper.Gate s"
    "Keeper.ContributionAward s' = kv_set (Keeper.ContributionAward s) i (awardRecord i msg)"
    "Keeper.ScopedEvidenceVouch s' = Keeper.ScopedEvidenceVouch s"
proof -
  obtain rb s3 n ats where mint: "mintProtocolReward env (MsgAwardContribution.Recipient msg) rb
        (MsgAwardContribution.Amount msg) ''contribution_award'' (awardBooked msg s) = (Inr (), s3)"
    and s': "s' = emit n ats s3"
    using AwardContribution_success [OF run] by blast
  have by3: "bystander (awardBooked msg s) s3" by (rule bystander_mint [OF mint])
  have "Keeper.Account (awardBooked msg s) = Keeper.Account s" "params_ok (awardBooked msg s) = params_ok s"
    "Keeper.ScopedEvidenceVouch (awardBooked msg s) = Keeper.ScopedEvidenceVouch s"
    "params_ok s' = params_ok s3"
    by (simp_all add: awardBooked_def setAward_def params_ok_def s')
  then show "fit_kept s s'" "Keeper.Gate s' = Keeper.Gate s"
    "Keeper.ScopedEvidenceVouch s' = Keeper.ScopedEvidenceVouch s"
    using by3 by (simp_all add: s' bystander_defs)
  show "Keeper.ContributionAward s' = kv_set (Keeper.ContributionAward s) i (awardRecord i msg)"
    using AwardContribution_table(3) [OF run] .
qed

lemma CastScopedEvidenceVouch_records:
  assumes "CastScopedEvidenceVouch F env msg s = (Inr i, s')"
  shows "fit_kept s s'" "Keeper.Gate s' = Keeper.Gate s"
    "Keeper.ContributionAwardSeq s' = Keeper.ContributionAwardSeq s" "Keeper.ContributionAward s' = Keeper.ContributionAward s"
    "Keeper.ScopedEvidenceVouch s' = kv_set (Keeper.ScopedEvidenceVouch s) i (evidenceRecord i msg)"
  using CastScopedEvidenceVouch_success [OF assms] by (auto simp: fit_kept_def params_ok_def setEvidence_def)

section \<open>Every record under its own key\<close>

lemma core_inv_keyed:
  "core_inv s \<Longrightarrow> keyed_by Vouch.Id (Keeper.Vouch s) \<and> keyed_by Escrow.Id (Keeper.Escrow s)"
  by (auto simp: core_inv_def keyed_by_def dest: ids_in_order_get)

lemma execMsg_self_keyed:
  assumes run: "execMsg F env msg s = Some s'" and inv: "core_inv s" and good: "core_inv s'" and keyed: "self_keyed s"
  shows "self_keyed s'"
proof -
  consider (award) m i where "msg = DoAwardContribution m" "AwardContribution env m s = (Inr i, s')"
    | (evidence) m i where "msg = DoCastScopedEvidenceVouch m" "CastScopedEvidenceVouch F env m s = (Inr i, s')"
    | (other) "fit_kept s s' \<and> same_registers s s'"
    using run execMsg_records [OF run inv] by (cases msg) (auto simp: committed_Some)
  then show ?thesis
  proof cases
    case (award m i)
    then show ?thesis
      using AwardContribution_records [OF award(2)] core_inv_keyed [OF good] keyed
      by (simp add: self_keyed_def fit_kept_def keyed_by_put awardRecord_def)
  next
    case (evidence m i)
    then show ?thesis
      using CastScopedEvidenceVouch_records [OF evidence(2)] core_inv_keyed [OF good] keyed
      by (simp add: self_keyed_def fit_kept_def keyed_by_put evidenceRecord_def)
  next
    case other
    then show ?thesis
      using core_inv_keyed [OF good] keyed by (simp add: self_keyed_def fit_kept_def same_registers_def)
  qed
qed

section \<open>Awards are for ever\<close>

lemma execMsg_awards:
  assumes run: "execMsg F env msg s = Some s'" and inv: "core_inv s" and aw: "awards_inv s"
    and seq: "Keeper.ContributionAwardSeq s \<noteq> - 1"
  shows "awards_inv s' \<and> seq_step (Keeper.ContributionAwardSeq s) (Keeper.ContributionAwardSeq s')
     \<and> (\<forall>i a. kv_get (Keeper.ContributionAward s) i = Some a \<longrightarrow> kv_get (Keeper.ContributionAward s') i = Some a)"
proof -
  consider (award) m i where "AwardContribution env m s = (Inr i, s')"
    | (evidence) m i where "CastScopedEvidenceVouch F env m s = (Inr i, s')"
    | (other) "same_registers s s'"
    using run execMsg_records [OF run inv] by (cases msg) (auto simp: committed_Some)
  then show ?thesis
  proof cases
    case (award m i)
    have "kv_get (Keeper.ContributionAward s) (Keeper.ContributionAwardSeq s) = None"
      using aw by (auto simp: awards_inv_def dest: ids_in_order_get intro: ccontr)
    then show ?thesis
      using AwardContribution_inv [OF award aw seq] AwardContribution_table(1-3) [OF award] by auto
  next
    case (evidence m i)
    then show ?thesis
      using CastScopedEvidenceVouch_records [OF evidence] aw by (simp add: awards_inv_def)
  next
    case other
    then show ?thesis using aw by (simp add: same_registers_def awards_inv_def)
  qed
qed

section \<open>The schedule keeps its constants\<close>

context moving_handler
begin

lemma committed_policy:
  assumes "committed (run env m s) = Some s'" and "ledger_inv s" and "ids_free s"
  shows "policy_step s s'"
  using assms effect unfolding committed_Some ledger_inv_def by (auto intro!: policy_step_same)

end

lemma slash_policy: "committed (SlashBond env m s) = Some s' \<Longrightarrow> ledger_inv s \<Longrightarrow> ids_free s \<Longrightarrow> policy_step s s'"
  unfolding committed_Some ledger_inv_def
  by (auto simp: paySlashed_def dest!: SlashBond_success creditAccount_frame(2) intro!: policy_step_same
      split: option.splits if_splits)

lemma payAnswers_policy:
  "payAnswers env drip w as1 m s = (Inr r, s') \<Longrightarrow> core_inv s \<Longrightarrow> emission_inv s \<Longrightarrow>
     total_supply s + mintable s < 2 ^ 64 \<Longrightarrow> policy_step s s'"
proof (induction as1 arbitrary: m r s)
  case Nil
  then show ?case by (simp add: policy_step_same)
next
  case (Cons a as1)
  show ?case
  proof (cases "coherent w a")
    case True
    obtain ab s1 as3 m3 where mint: "mintProtocolReward env (GateAnswer.Agent a) ab drip ''gate'' s = (Inr (), s1)"
      and rest: "payAnswers env drip w as1 (m + drip) s1 = (Inr (as3, m3), s')"
      using payAnswers_pay [OF Cons.prems(1) True] by metis
    note ok = mintProtocolReward_ok [OF mint Cons.prems(2-4)]
    have "total_supply s1 + mintable s1 < 2 ^ 64" using ok Cons.prems(4) by linarith
    then show ?thesis
      using policy_step_mint [OF mint Cons.prems(3)] Cons.IH [OF rest] ok by (blast intro: policy_step_trans)
  next
    case False
    show ?thesis
      using Cons.prems(1) False by (rule payAnswers_skip) (use Cons in blast)
  qed
qed

lemma settle_policy:
  assumes "committed (SettleGate env m s) = Some s'" and "ledger_inv s" and "ids_free s"
  shows "policy_step s s'"
proof -
  obtain r where "SettleGate env m s = (Inr r, s')" using assms(1) unfolding committed_Some by blast
  moreover have invs: "core_inv s" "emission_inv s" "total_supply s + mintable s < 2 ^ 64"
    using assms(2) by (simp_all add: ledger_inv_def)
  ultimately obtain s1 g1 n ats where s': "s' = emit n ats (setGate (MsgSettleGate.GateId m) g1 s1)"
    and paid: "policy_step s s1"
    using SettleGate_pays payAnswers_policy [OF _ invs] policy_step_same by metis
  have "policy_step s1 s'" by (rule policy_step_same) (simp add: s')
  with paid show ?thesis by (rule policy_step_trans)
qed

lemma award_policy:
  assumes "committed (AwardContribution env m s) = Some s'" and "ledger_inv s" and "ids_free s"
  shows "policy_step s s'"
proof -
  obtain rb s3 n ats where mint: "mintProtocolReward env (MsgAwardContribution.Recipient m) rb
        (MsgAwardContribution.Amount m) ''contribution_award'' (awardBooked m s) = (Inr (), s3)"
    and s': "s' = emit n ats s3"
    using assms(1) AwardContribution_success unfolding committed_Some by blast
  have "emission_inv (awardBooked m s)" using assms(2) by (simp add: ledger_inv_def)
  then have "policy_step (awardBooked m s) s3" by (rule policy_step_mint [OF mint])
  moreover have "policy_step s (awardBooked m s)" "policy_step s3 s'"
    by (rule policy_step_same; simp add: s' awardBooked_def setAward_def)+
  ultimately show ?thesis by (blast intro: policy_step_trans)
qed

lemmas policy_all =
    update_params.committed_policy
    register.committed_policy
    faucet.committed_policy
    transfer.committed_policy
    castvouch.committed_policy
    lock_escrow.committed_policy
    release_escrow.committed_policy
    refund_escrow.committed_policy
    submit_escrow.committed_policy
    dispute_escrow.committed_policy
    unvouch.committed_policy
    open_dispute.committed_policy
    cast_vote.committed_policy
    resolve_dispute.committed_policy
    post_bond.committed_policy
    release_bond.committed_policy
    slash_policy
    attest_escrow.committed_policy
    verified_release.committed_policy
    reclaim.committed_policy
    post_gate.committed_policy
    commit_answer.committed_policy
    reveal_answer.committed_policy
    settle_policy
    award_policy
    cast_scoped_evidence_vouch.committed_policy

lemma execMsg_policy:
  assumes "execMsg F env msg s = Some s'" and "ledger_inv s" and "ids_free s"
  shows "policy_step s s'"
  using assms by (cases msg; hypsubst; simp only: execMsg.simps) (erule (2) policy_all)+

section \<open>Gates after their reveal window\<close>

lemmas gates_all =
    update_params_b.committed_gates
    register_b.committed_gates
    faucet_b.committed_gates
    transfer_b.committed_gates
    castvouch_b.committed_gates
    lock_escrow_b.committed_gates
    release_escrow_b.committed_gates
    refund_escrow_b.committed_gates
    submit_escrow_b.committed_gates
    dispute_escrow_b.committed_gates
    unvouch_b.committed_gates
    open_dispute_b.committed_gates
    cast_vote_b.committed_gates
    resolve_dispute_b.committed_gates
    post_bond_b.committed_gates
    release_bond_b.committed_gates
    slash_bond_b.committed_gates
    attest_escrow_b.committed_gates
    verified_release_b.committed_gates
    reclaim_b.committed_gates

fun onGates :: "Msg \<Rightarrow> bool" where
  "onGates (DoPostGate _) = True"
| "onGates (DoCommitAnswer _) = True"
| "onGates (DoRevealAnswer _) = True"
| "onGates (DoSettleGate _) = True"
| "onGates _ = False"

lemma execMsg_gates:
  assumes "execMsg F env msg s = Some s'" and "core_inv s" and "\<not> onGates msg"
  shows "Keeper.Gate s' = Keeper.Gate s"
proof -
  have award: "Keeper.Gate s' = Keeper.Gate s" if "committed (AwardContribution env m s) = Some s'" for m
    using that AwardContribution_records(2) unfolding committed_Some by blast
  have evidence: "Keeper.Gate s' = Keeper.Gate s" if "committed (CastScopedEvidenceVouch F env m s) = Some s'" for m
    using that CastScopedEvidenceVouch_records(2) unfolding committed_Some by blast
  show ?thesis
    using assms
    by (cases msg; hypsubst; simp only: execMsg.simps onGates.simps not_True_eq_False)
      (erule award evidence | erule (1) gates_all)+
qed

text \<open>
  The gate of a number is still the open gate \<open>g\<close>, with the same answers revealed; an agent may
  have added a commit that nobody can reveal.
\<close>

definition gate_frozen :: "Gate \<Rightarrow> u64 \<Rightarrow> Keeper \<Rightarrow> bool" where
  "gate_frozen g i s \<longleftrightarrow> (\<exists>g'. kv_get (Keeper.Gate s) i = Some g' \<and> Gate.Status g' = GateStatusOpen
     \<and> same_gate_terms g g'
     \<and> filter GateAnswer.Revealed (Gate.Answers g') = filter GateAnswer.Revealed (Gate.Answers g))"

lemma countAnswers_revealed: "countAnswers counts as1 = countAnswers counts (filter GateAnswer.Revealed as1)"
  by (induction counts as1 rule: countAnswers.induct) simp_all

lemma same_revealed:
  assumes "filter GateAnswer.Revealed (Gate.Answers g') = filter GateAnswer.Revealed (Gate.Answers g)"
  shows "winningAnswer env gold (Gate.Answers g') = winningAnswer env gold (Gate.Answers g)" and "winners w g' = winners w g"
proof -
  show "winningAnswer env gold (Gate.Answers g') = winningAnswer env gold (Gate.Answers g)"
    unfolding winningAnswer_def using assms
      countAnswers_revealed [of "[]" "Gate.Answers g"] countAnswers_revealed [of "[]" "Gate.Answers g'"] by simp
  have "filter (coherent w) as1 = filter (coherent w) (filter GateAnswer.Revealed as1)" for as1
    by (simp add: coherent_def conj_commute) (metis (mono_tags) coherent_def)
  then show "winners w g' = winners w g" unfolding winners_def using assms by metis
qed

lemma execMsg_frozen:
  assumes run: "execMsg F env msg s = Some s'" and inv: "core_inv s" and frozen: "gate_frozen g i s"
    and late: "Gate.RevealDeadline g <=s BlockTime env"
    and no_settle: "\<And>m. msg = DoSettleGate m \<Longrightarrow> MsgSettleGate.GateId m \<noteq> i"
  shows "gate_frozen g i s'"
proof -
  obtain g' where g': "kv_get (Keeper.Gate s) i = Some g'" "Gate.Status g' = GateStatusOpen" "same_gate_terms g g'"
      "filter GateAnswer.Revealed (Gate.Answers g') = filter GateAnswer.Revealed (Gate.Answers g)"
    using frozen unfolding gate_frozen_def by blast
  have deadline: "Gate.RevealDeadline g' = Gate.RevealDeadline g" using g'(3) by (simp add: same_gate_terms_def)
  have fresh: "i \<noteq> Keeper.GateSeq s" using inv g'(1) by (auto simp: core_inv_def dest: ids_in_order_get)
  have keep: "gate_frozen g i s'" if "kv_get (Keeper.Gate s') i = kv_get (Keeper.Gate s) i"
    using that g' by (auto simp: gate_frozen_def)
  consider (post) m r where "PostGate env m s = (Inr r, s')" | (commit) m r where "CommitAnswer env m s = (Inr r, s')"
    | (reveal) m r where "RevealAnswer env m s = (Inr r, s')"
    | (settle) m r where "SettleGate env m s = (Inr r, s')" "MsgSettleGate.GateId m \<noteq> i"
    | (other) "Keeper.Gate s' = Keeper.Gate s"
    using run no_settle execMsg_gates [OF run inv] by (cases msg) (auto simp: committed_Some)
  then show ?thesis
  proof cases
    case (post m r)
    then show ?thesis using PostGate_success [OF post] fresh by (auto intro!: keep)
  next
    case (commit m r)
    from CommitAnswer_success [OF commit inv] show ?thesis
      using g' by (cases "MsgCommitAnswer.GateId m = i") (auto simp: gate_frozen_def same_gate_terms_def)
  next
    case (reveal m r)
    from RevealAnswer_success [OF reveal inv]
    have "MsgRevealAnswer.GateId m \<noteq> i" using late deadline g'(1) by (auto simp: i64_le_iff i64_less_iff)
    then show ?thesis using RevealAnswer_success [OF reveal inv] by (auto intro!: keep)
  next
    case (settle m r)
    obtain s1 g1 n ats where s': "s' = emit n ats (setGate (MsgSettleGate.GateId m) g1 s1)" "Keeper.Gate s1 = Keeper.Gate s"
      using SettleGate_pays [OF settle(1) inv] bystander_payAnswers unfolding bystander_def by blast
    show ?thesis by (rule keep) (use settle(2) s' in simp)
  next
    case other
    then show ?thesis by (simp add: keep)
  qed
qed

section \<open>Runs\<close>

lemma run_self_keyed:
  assumes "chain_run F ms s s'" and "ledger_inv s" and "ids_within k s" and "k + length ms < 2 ^ 64 - 1"
    and "self_keyed s"
  shows "self_keyed s'"
proof -
  have "self_keyed s' \<and> ledger_inv s'"
    using assms(1-4)
    by (induction rule: chain_run_invariant)
      (use assms(5) in \<open>auto simp: good_step_def ledger_inv_def intro: execMsg_self_keyed\<close>)
  then show ?thesis by blast
qed

lemma run_policy:
  assumes "chain_run F ms s s'" and "ledger_inv s" and "ids_within k s" and "k + length ms < 2 ^ 64 - 1"
  shows "policy_step s s'"
proof -
  have "policy_step s s' \<and> ledger_inv s'"
    using assms
    by (induction rule: chain_run_invariant) (auto simp: policy_step_same intro: policy_step_trans execMsg_policy)
  then show ?thesis by blast
qed

lemma run_awards:
  assumes "chain_run F ms s s'" and "ledger_inv s" and "ids_within k s" and "k + length ms < 2 ^ 64 - 1"
    and "awards_inv s" and "unat (Keeper.ContributionAwardSeq s) \<le> k"
  shows "awards_inv s'"
    and "kv_get (Keeper.ContributionAward s) i = Some a \<Longrightarrow> kv_get (Keeper.ContributionAward s') i = Some a"
proof -
  let ?P = "\<lambda>n s1. awards_inv s1 \<and> unat (Keeper.ContributionAwardSeq s1) \<le> n
    \<and> (\<forall>i a. kv_get (Keeper.ContributionAward s) i = Some a \<longrightarrow> kv_get (Keeper.ContributionAward s1) i = Some a)"
  have "?P (k + length ms) s' \<and> ledger_inv s'"
    using assms(1-4)
  proof (induction rule: chain_run_counted)
    case (step env msg n s1 s2)
    then have "Keeper.ContributionAwardSeq s1 \<noteq> - 1" by (intro unat_not_max) simp
    with step have "awards_inv s2" "seq_step (Keeper.ContributionAwardSeq s1) (Keeper.ContributionAwardSeq s2)"
      "\<forall>i a. kv_get (Keeper.ContributionAward s1) i = Some a \<longrightarrow> kv_get (Keeper.ContributionAward s2) i = Some a"
      using execMsg_awards [OF step(2)] by (simp_all add: ledger_inv_def)
    then show ?case using step by (auto dest: seq_step_within)
  qed (use assms(5,6) in simp)
  then show "awards_inv s'"
    and "kv_get (Keeper.ContributionAward s) i = Some a \<Longrightarrow> kv_get (Keeper.ContributionAward s') i = Some a"
    by blast+
qed

end
