(* ===== verification/Evidence.thy ===== *)
theory Evidence
  imports Records
begin

text \<open>
  The table of scoped evidence on a run (\<^verbatim>\<open>keeper/msg_server_cast_scoped_evidence_vouch.go\<close>): what
  identifies a record, that no two records agree on it, and that no message changes or removes one.
\<close>

section \<open>What identifies a record\<close>

text \<open>The handler compares the scope without blanks around it and the hashes without their case.\<close>

definition evidenceKey :: "ScopedEvidenceVouch \<Rightarrow> string \<times> string \<times> string \<times> string \<times> string" where
  "evidenceKey v =
     (ScopedEvidenceVouch.Issuer v, ScopedEvidenceVouch.Recipient v, TrimSpace (ScopedEvidenceVouch.Scope v),
      map to_lower (ScopedEvidenceVouch.ArtifactSha256 v), map to_lower (ScopedEvidenceVouch.EvidenceSha256 v))"

definition evidence_hashed :: "ScopedEvidenceVouch \<Rightarrow> bool" where
  "evidence_hashed v \<longleftrightarrow> isHexSHA256 (ScopedEvidenceVouch.ArtifactSha256 v) \<and> isHexSHA256 (ScopedEvidenceVouch.EvidenceSha256 v)
     \<and> 0 < ScopedEvidenceVouch.Weight v \<and> ScopedEvidenceVouch.Weight v \<le> MaxVouchWeight"

definition evidence_inv :: "Keeper \<Rightarrow> bool" where
  "evidence_inv s \<longleftrightarrow>
     ids_in_order ScopedEvidenceVouch.Id (Keeper.ScopedEvidenceVouch s) (Keeper.ScopedEvidenceVouchSeq s)
   \<and> (\<forall>i v. kv_get (Keeper.ScopedEvidenceVouch s) i = Some v \<longrightarrow> evidence_hashed v)
   \<and> (\<forall>i j v w. kv_get (Keeper.ScopedEvidenceVouch s) i = Some v \<longrightarrow> kv_get (Keeper.ScopedEvidenceVouch s) j = Some w \<longrightarrow>
        evidenceKey v = evidenceKey w \<longrightarrow> i = j)"

lemma evidenceRecord_hashed: "evidenceDenied msg = None \<Longrightarrow> evidence_hashed (evidenceRecord i msg)"
  by (auto simp: evidenceDenied_def evidence_hashed_def evidenceRecord_def Let_def word_gt_0 not_less split: if_splits)

lemma sameEvidence_key:
  assumes "evidence_hashed v" and "evidenceDenied msg = None"
  shows "sameEvidence env msg v \<longleftrightarrow> evidenceKey v = evidenceKey (evidenceRecord i msg)"
  using assms(1) evidenceRecord_hashed [OF assms(2), of i]
  by (auto simp: sameEvidence_def evidenceKey_def evidence_hashed_def evidenceRecord_def EqualFold_hex)

section \<open>One message\<close>

lemma CastScopedEvidenceVouch_inv:
  assumes run: "CastScopedEvidenceVouch F env msg s = (Inr i, s')" and inv: "evidence_inv s"
    and seq: "Keeper.ScopedEvidenceVouchSeq s \<noteq> - 1"
  shows "evidence_inv s'" "i = Keeper.ScopedEvidenceVouchSeq s"
    "Keeper.ScopedEvidenceVouchSeq s' = Keeper.ScopedEvidenceVouchSeq s + 1"
proof -
  obtain n ats where ok: "evidenceDenied msg = None" and none: "kv_find (sameEvidence env msg) (Keeper.ScopedEvidenceVouch s) = None"
    and i: "i = Keeper.ScopedEvidenceVouchSeq s"
    and s': "s' = emit n ats (setEvidence i (evidenceRecord i msg)
              (s\<lparr>Keeper.ScopedEvidenceVouchSeq := Keeper.ScopedEvidenceVouchSeq s + 1\<rparr>))"
    using CastScopedEvidenceVouch_success [OF run] by blast
  show "i = Keeper.ScopedEvidenceVouchSeq s" by (rule i)
  have tab: "Keeper.ScopedEvidenceVouch s' = kv_set (Keeper.ScopedEvidenceVouch s) i (evidenceRecord i msg)"
    by (simp add: s' setEvidence_def)
  show next1: "Keeper.ScopedEvidenceVouchSeq s' = Keeper.ScopedEvidenceVouchSeq s + 1"
    by (simp add: s' setEvidence_def)
  have new: "evidenceKey v \<noteq> evidenceKey (evidenceRecord i msg)" if "kv_get (Keeper.ScopedEvidenceVouch s) j = Some v" for j v
  proof -
    have "evidence_hashed v" using inv that by (simp add: evidence_inv_def)
    moreover have "\<not> sameEvidence env msg v" using none that unfolding kv_find_None_iff by blast
    ultimately show ?thesis using sameEvidence_key ok by blast
  qed
  have "ids_in_order ScopedEvidenceVouch.Id (Keeper.ScopedEvidenceVouch s') (Keeper.ScopedEvidenceVouchSeq s')"
    using inv seq unfolding tab next1 i evidence_inv_def
    by (intro ids_in_order_put ids_in_order_Suc) (simp_all add: evidenceRecord_def u64_less_self_Suc)
  then show "evidence_inv s'"
    using inv new evidenceRecord_hashed [OF ok] unfolding evidence_inv_def tab by (auto split: if_splits dest: sym)
qed

lemma AwardContribution_evidenceSeq:
  assumes "AwardContribution env msg s = (Inr i, s')"
  shows "Keeper.ScopedEvidenceVouchSeq s' = Keeper.ScopedEvidenceVouchSeq s"
proof -
  obtain rb s3 n ats where mint: "mintProtocolReward env (MsgAwardContribution.Recipient msg) rb
        (MsgAwardContribution.Amount msg) ''contribution_award'' (awardBooked msg s) = (Inr (), s3)" and "s' = emit n ats s3"
    using AwardContribution_success [OF assms] by blast
  then show ?thesis
    using bystander_mint [OF mint] by (simp add: bystander_defs awardBooked_def setAward_def)
qed

lemma execMsg_evidence:
  assumes run: "execMsg F env msg s = Some s'" and inv: "core_inv s" and ev: "evidence_inv s"
    and seq: "Keeper.ScopedEvidenceVouchSeq s \<noteq> - 1"
  shows "evidence_inv s' \<and> seq_step (Keeper.ScopedEvidenceVouchSeq s) (Keeper.ScopedEvidenceVouchSeq s')
     \<and> (\<forall>i v. kv_get (Keeper.ScopedEvidenceVouch s) i = Some v \<longrightarrow> kv_get (Keeper.ScopedEvidenceVouch s') i = Some v)"
proof -
  consider (award) m i where "AwardContribution env m s = (Inr i, s')"
    | (evidence) m i where "CastScopedEvidenceVouch F env m s = (Inr i, s')"
    | (other) "same_registers s s'"
    using run execMsg_records [OF run inv] by (cases msg) (auto simp: committed_Some)
  then show ?thesis
  proof cases
    case (award m i)
    then show ?thesis
      using AwardContribution_records(4) [OF award] AwardContribution_evidenceSeq [OF award] ev
      by (simp add: evidence_inv_def)
  next
    case (evidence m i)
    note stored = CastScopedEvidenceVouch_inv [OF evidence ev seq]
    have "kv_get (Keeper.ScopedEvidenceVouch s) (Keeper.ScopedEvidenceVouchSeq s) = None"
      using ev by (auto simp: evidence_inv_def dest: ids_in_order_get intro: ccontr)
    then show ?thesis
      using stored CastScopedEvidenceVouch_records(5) [OF evidence] by auto
  next
    case other
    then show ?thesis using ev by (simp add: same_registers_def evidence_inv_def)
  qed
qed

text \<open>Whoever repeats a record is refused.\<close>

lemma evidenced_denied:
  assumes "kv_get (Keeper.ScopedEvidenceVouch s) j = Some v" and "evidence_hashed v"
    and "evidenceKey (evidenceRecord i msg) = evidenceKey v"
  shows "\<exists>err. CastScopedEvidenceVouch F env msg s = (Inl err, s)"
proof (cases "fst (CastScopedEvidenceVouch F env msg s)")
  case (Inr k)
  then obtain s' where run: "CastScopedEvidenceVouch F env msg s = (Inr k, s')" by (metis prod.collapse)
  have "evidenceDenied msg = None" "\<not> sameEvidence env msg v"
    using CastScopedEvidenceVouch_success [OF run] assms(1) unfolding kv_find_None_iff by blast+
  then show ?thesis using sameEvidence_key [OF assms(2)] assms(3) by metis
next
  case (Inl err)
  then show ?thesis by (auto simp: CastScopedEvidenceVouch_def Let_def split: option.splits if_splits)
qed

section \<open>Runs\<close>

lemma run_evidence:
  assumes "chain_run F ms s s'" and "ledger_inv s" and "ids_within k s" and "k + length ms < 2 ^ 64 - 1"
    and "evidence_inv s" and "unat (Keeper.ScopedEvidenceVouchSeq s) \<le> k"
  shows "evidence_inv s'"
    and "kv_get (Keeper.ScopedEvidenceVouch s) i = Some v \<Longrightarrow> kv_get (Keeper.ScopedEvidenceVouch s') i = Some v"
proof -
  let ?P = "\<lambda>n s1. evidence_inv s1 \<and> unat (Keeper.ScopedEvidenceVouchSeq s1) \<le> n
    \<and> (\<forall>i v. kv_get (Keeper.ScopedEvidenceVouch s) i = Some v \<longrightarrow> kv_get (Keeper.ScopedEvidenceVouch s1) i = Some v)"
  have "?P (k + length ms) s' \<and> ledger_inv s'"
    using assms(1-4)
  proof (induction rule: chain_run_counted)
    case (step env msg n s1 s2)
    then have "Keeper.ScopedEvidenceVouchSeq s1 \<noteq> - 1" by (intro unat_not_max) simp
    with step have "evidence_inv s2" "seq_step (Keeper.ScopedEvidenceVouchSeq s1) (Keeper.ScopedEvidenceVouchSeq s2)"
      "\<forall>i v. kv_get (Keeper.ScopedEvidenceVouch s1) i = Some v \<longrightarrow> kv_get (Keeper.ScopedEvidenceVouch s2) i = Some v"
      using execMsg_evidence [OF step(2)] by (simp_all add: ledger_inv_def)
    then show ?case using step by (auto dest: seq_step_within)
  qed (use assms(5,6) in simp)
  then show "evidence_inv s'"
    and "kv_get (Keeper.ScopedEvidenceVouch s) i = Some v \<Longrightarrow> kv_get (Keeper.ScopedEvidenceVouch s') i = Some v"
    by blast+
qed

section \<open>Properties\<close>

text \<open>
  C37: Evidence is for ever. A recorded vouch stays on record unchanged through every run of
  messages, no other record has its issuer, recipient, scope and hashes, and whoever sends a
  message that repeats it in the name of that issuer, with other blanks around the scope or with other
  capitals in the hashes, is refused with the state unchanged.
\<close>
theorem evidence_is_for_ever:
  assumes "chain_run F ms s s'" and "ledger_inv s" and "ids_within k s" and "k + length ms < 2 ^ 64 - 1"
    and "evidence_inv s" and "unat (Keeper.ScopedEvidenceVouchSeq s) \<le> k"
    and "kv_get (Keeper.ScopedEvidenceVouch s) i = Some v"
    and "evidenceKey (evidenceRecord n msg) = evidenceKey v"
  shows "kv_get (Keeper.ScopedEvidenceVouch s') i = Some v
    \<and> (\<forall>j w. kv_get (Keeper.ScopedEvidenceVouch s') j = Some w \<longrightarrow> evidenceKey w = evidenceKey v \<longrightarrow> j = i)
    \<and> (\<exists>err. CastScopedEvidenceVouch F env msg s' = (Inl err, s'))"
proof -
  note kept = run_evidence [OF assms(1-6)]
  have v: "kv_get (Keeper.ScopedEvidenceVouch s') i = Some v" using kept(2) [OF assms(7)] .
  with kept(1) have "evidence_hashed v" by (simp add: evidence_inv_def)
  then show ?thesis
    using v kept(1) evidenced_denied [OF v _ assms(8)] unfolding evidence_inv_def by blast
qed

lemma evidence_is_for_ever_witness:
  "\<exists>s err. CastScopedEvidenceVouch exact (sampleEnv 2000) (docsEvidence\<lparr>MsgCastScopedEvidenceVouch.Creator := ''dave''\<rparr>) sampleSchedule = (Inr 0, s)
     \<and> CastScopedEvidenceVouch exact (sampleEnv 9000) (docsEvidence\<lparr>MsgCastScopedEvidenceVouch.Creator := ''dave'',
          MsgCastScopedEvidenceVouch.Scope := '' docs'', MsgCastScopedEvidenceVouch.ArtifactSha256 := replicate 64 (CHR ''A'')\<rparr>)
         (s\<lparr>Keeper.Params := Some (NewParams [''erin''])\<rparr>) = (Inl err, s\<lparr>Keeper.Params := Some (NewParams [''erin''])\<rparr>)"
proof -
  let ?m = "docsEvidence\<lparr>MsgCastScopedEvidenceVouch.Creator := ''dave''\<rparr>"
  obtain s where run: "CastScopedEvidenceVouch exact (sampleEnv 2000) ?m sampleSchedule = (Inr 0, s)"
    by (simp add: CastScopedEvidenceVouch_def docsEvidence_def issuerDenied_def evidenceDenied_def
        TrimSpace_words patchAward_hex MaxVouchWeight_def)
  have ids: "ids_within 0 sampleSchedule" "ids_free sampleSchedule"
    by (simp_all add: ids_within_def ids_free_def sampleSchedule_def sampleState_def NewKeeper_def)
  have ev: "evidence_inv sampleSchedule" "Keeper.ScopedEvidenceVouchSeq sampleSchedule = 0"
    by (simp_all add: evidence_inv_def)
  note tab = CastScopedEvidenceVouch_inv [OF run ev(1)]
  have led: "ledger_inv s" using cast_scoped_evidence_vouch.keeps_ledger(1) [OF run sampleSchedule_ledger ids(2)] .
  have within: "ids_within 1 s"
    using ids_within_step [OF ids(1)] cast_scoped_evidence_vouch.counts_ids [OF run sampleSchedule_ledger ids(2)] by simp
  have "to_lower (CHR ''A'') = to_lower (CHR ''a'')" by code_simp
  then have same: "evidenceKey (evidenceRecord 0 (?m\<lparr>MsgCastScopedEvidenceVouch.Scope := '' docs'', MsgCastScopedEvidenceVouch.ArtifactSha256 := replicate 64 (CHR ''A'')\<rparr>))
      = evidenceKey (evidenceRecord 0 ?m)"
    by (simp add: evidenceKey_def evidenceRecord_def docsEvidence_def TrimSpace_words TrimSpace_blank)
  have "kv_get (Keeper.ScopedEvidenceVouch s) 0 = Some (evidenceRecord 0 ?m)"
    by (simp add: CastScopedEvidenceVouch_records(5) [OF run])
  from evidence_is_for_ever [OF govRun [of exact 5000] led within _ tab(1) _ this same, of "sampleEnv 9000"] tab(3) run ev(2)
  show ?thesis by auto
qed

end
