(* ===== verification/Restart.thy ===== *)
theory Restart
  imports Records AppModule
begin

text \<open>
  Restarts. A chain is stopped, its state exported, and a new chain started from the file. The
  file that a run from a sound genesis leaves is again a sound genesis: the validation of the module
  accepts it, and the new chain starts with all invariants of the ledger. So what is proved of
  the runs of one chain holds of the runs of every successor.
\<close>

section \<open>Numbered registers\<close>

definition registers_ok :: "Keeper \<Rightarrow> bool" where
  "registers_ok s \<longleftrightarrow> ids_in_order ContributionAward.Id (Keeper.ContributionAward s) (Keeper.ContributionAwardSeq s)
     \<and> ids_in_order ScopedEvidenceVouch.Id (Keeper.ScopedEvidenceVouch s) (Keeper.ScopedEvidenceVouchSeq s)"

definition registers_within :: "nat \<Rightarrow> Keeper \<Rightarrow> bool" where
  "registers_within n s \<longleftrightarrow>
     unat (Keeper.ContributionAwardSeq s) \<le> n \<and> unat (Keeper.ScopedEvidenceVouchSeq s) \<le> n"

lemma ids_in_order_append:
  "ids_in_order f m n \<Longrightarrow> f v = n \<Longrightarrow> n \<noteq> - 1 \<Longrightarrow> ids_in_order f (kv_set m n v) (n + 1)"
  by (intro ids_in_order_put ids_in_order_Suc) (simp_all add: u64_less_self_Suc)

lemma AwardContribution_evidence_seq:
  assumes "AwardContribution env msg s = (Inr i, s')"
  shows "Keeper.ScopedEvidenceVouchSeq s' = Keeper.ScopedEvidenceVouchSeq s"
proof -
  obtain rb s3 n ats where "mintProtocolReward env (MsgAwardContribution.Recipient msg) rb
        (MsgAwardContribution.Amount msg) ''contribution_award'' (awardBooked msg s) = (Inr (), s3)"
    and "s' = emit n ats s3"
    using AwardContribution_success [OF assms] by blast
  then show ?thesis
    using mintProtocolReward_frame by (fastforce simp: same_tables_def awardBooked_def setAward_def)
qed

lemma CastScopedEvidenceVouch_seq:
  assumes "CastScopedEvidenceVouch F env msg s = (Inr i, s')"
  shows "i = Keeper.ScopedEvidenceVouchSeq s" "Keeper.ScopedEvidenceVouchSeq s' = i + 1"
  using CastScopedEvidenceVouch_success [OF assms] by (auto simp: setEvidence_def)

lemma execMsg_registers:
  assumes run: "execMsg F env msg s = Some s'" and inv: "core_inv s" and ok: "registers_ok s"
    and seqs: "Keeper.ContributionAwardSeq s \<noteq> - 1" "Keeper.ScopedEvidenceVouchSeq s \<noteq> - 1"
  shows "registers_ok s' \<and> seq_step (Keeper.ContributionAwardSeq s) (Keeper.ContributionAwardSeq s')
     \<and> seq_step (Keeper.ScopedEvidenceVouchSeq s) (Keeper.ScopedEvidenceVouchSeq s')"
proof -
  consider (award) m i where "AwardContribution env m s = (Inr i, s')"
    | (evidence) m i where "CastScopedEvidenceVouch F env m s = (Inr i, s')"
    | (other) "same_registers s s'"
    using run execMsg_records [OF run inv] by (cases msg) (auto simp: committed_Some)
  then show ?thesis
  proof cases
    case (award m i)
    then show ?thesis
      using AwardContribution_table(1-3) [OF award] AwardContribution_records(4) [OF award]
        AwardContribution_evidence_seq [OF award] ok seqs
      by (simp add: registers_ok_def ids_in_order_append awardRecord_def)
  next
    case (evidence m i)
    then show ?thesis
      using CastScopedEvidenceVouch_records(3-5) [OF evidence] CastScopedEvidenceVouch_seq [OF evidence] ok seqs
      by (simp add: registers_ok_def ids_in_order_append evidenceRecord_def)
  next
    case other
    then show ?thesis using ok by (simp add: same_registers_def registers_ok_def)
  qed
qed

section \<open>Valid parameters\<close>

lemma execMsg_params:
  assumes run: "execMsg F env msg s = Some s'" and inv: "core_inv s" and ok: "params_ok s"
  shows "params_ok s'"
proof -
  consider (award) m i where "AwardContribution env m s = (Inr i, s')"
    | (evidence) m i where "CastScopedEvidenceVouch F env m s = (Inr i, s')"
    | (other) "fit_kept s s'"
    using run execMsg_records [OF run inv] by (cases msg) (auto simp: committed_Some)
  then have "fit_kept s s'"
    using AwardContribution_records(1) CastScopedEvidenceVouch_records(1) by metis
  then show ?thesis using ok by (simp add: fit_kept_def)
qed

lemma run_params:
  assumes "chain_run F ms s s'" and "ledger_inv s" and "ids_within k s" and "k + length ms < 2 ^ 64 - 1"
    and "params_ok s"
  shows "params_ok s'"
proof -
  have "params_ok s' \<and> ledger_inv s'"
    using assms(1-4)
    by (induction rule: chain_run_invariant) (use assms(5) in \<open>auto simp: ledger_inv_def intro: execMsg_params\<close>)
  then show ?thesis by blast
qed

section \<open>The file of a run\<close>

lemma import_fit:
  assumes "sound_genesis gs" and "InitGenesis env gs NewKeeper = (Inr (), s)"
  shows "registers_ok s" "params_ok s" "paced s"
proof -
  have s: "s = snd (InitGenesis env gs NewKeeper)" using assms(2) by simp
  have v: "validateGenesis gs = None" using assms(1) by (simp add: sound_genesis_def)
  then have regs: "distinct (map ContributionAward.Id (GenesisState.ContributionAwardList gs))"
      "\<forall>a \<in> set (GenesisState.ContributionAwardList gs). ContributionAward.Id a < GenesisState.ContributionAwardCount gs"
      "distinct (map ScopedEvidenceVouch.Id (GenesisState.ScopedEvidenceVouchList gs))"
      "\<forall>a \<in> set (GenesisState.ScopedEvidenceVouchList gs). ScopedEvidenceVouch.Id a < GenesisState.ScopedEvidenceVouchCount gs"
    and em: "validateEmission (GenesisState.EmissionState gs) = None"
    and ps: "validateParams (GenesisState.Params gs) = None"
    by (auto simp: validateGenesis_def validateAddresses_None validateIds_None split: option.splits)
  show "registers_ok s"
    by (simp add: s InitGenesis_def Let_def NewKeeper_def registers_ok_def ids_in_order_fill regs)
  show "params_ok s"
    by (simp add: s InitGenesis_def Let_def params_ok_def ps)
  have "EmissionState.EpochLengthSeconds (GenesisState.EmissionState gs) \<noteq> 0"
    "EmissionState.EpochRewardDivisor (GenesisState.EmissionState gs) \<noteq> 0"
    "EmissionState.MaxSupply (GenesisState.EmissionState gs) \<noteq> 0"
    using em by (auto simp: validateEmission_def split: if_splits)
  then show "paced s"
    by (simp add: s InitGenesis_def Let_def paced_def genesisEmission_def)
qed

lemma validateEmission_ok:
  assumes "emission_ok e" and "EmissionState.MaxSupply e \<noteq> 0" and "EmissionState.EpochLengthSeconds e \<noteq> 0"
    and "EmissionState.EpochRewardDivisor e \<noteq> 0" and "EmissionState.CurrentEpoch e \<noteq> 0"
  shows "validateEmission e = None"
  using assms by (auto simp: validateEmission_def emission_ok_def u64_less_iff unat_sub_no_wrap u64_le_iff)

lemma export_sound:
  assumes "ExportGenesis env s = (Inr g, s1)" and "self_keyed s" and inv: "ledger_inv s"
    and regs: "registers_ok s" and par: "params_ok s" and pace: "paced s"
    and em: "Keeper.EmissionState s = Some e" and epoch: "EmissionState.CurrentEpoch e \<noteq> 0"
  shows "sound_genesis g"
proof -
  have max: "EmissionState.MaxSupply e \<noteq> 0" "emission_ok e"
    using inv em by (simp_all add: ledger_inv_def emission_inv_def)
  note g = export_fields [OF assms(1) em max(1)]
  have keyed: "keyed_by Account.Address (Keeper.Account s)" "keyed_by Vouch.Id (Keeper.Vouch s)"
      "keyed_by Escrow.Id (Keeper.Escrow s)" "keyed_by ContributionAward.Id (Keeper.ContributionAward s)"
      "keyed_by ScopedEvidenceVouch.Id (Keeper.ScopedEvidenceVouch s)"
    using assms(2) by (simp_all add: self_keyed_def)
  have core: "core_inv s" using inv by (simp add: ledger_inv_def)
  have ids: "\<forall>v \<in> set (kv_values (Keeper.Vouch s)). Vouch.Id v < Keeper.VouchSeq s"
      "\<forall>v \<in> set (kv_values (Keeper.Escrow s)). Escrow.Id v < Keeper.EscrowSeq s"
      "\<forall>v \<in> set (kv_values (Keeper.ContributionAward s)). ContributionAward.Id v < Keeper.ContributionAwardSeq s"
      "\<forall>v \<in> set (kv_values (Keeper.ScopedEvidenceVouch s)). ScopedEvidenceVouch.Id v < Keeper.ScopedEvidenceVouchSeq s"
    using core regs keyed by (auto simp: core_inv_def registers_ok_def keyed_values dest: ids_in_order_get)
  have "validateEmission e = None"
    using validateEmission_ok [OF max(2,1) _ _ epoch] pace em by (simp add: paced_def)
  moreover have "validateParams (GenesisState.Params g) = None" using par g(2) by (simp add: params_ok_def)
  ultimately have "validateGenesis g = None"
    by (simp add: validateGenesis_def g(3-) validateAddresses_None validateIds_None keyed_values keyed ids split: option.splits)
  moreover have "\<forall>a \<in> set (GenesisState.AccountMap g). Account.Registered a"
    using core keyed by (auto simp: g(3-) keyed_values core_inv_def accounts_registered_def)
  moreover have "RemainingEpoch e \<le> RemainingScheduled e" using max by (simp add: emission_ok_def u64_le_iff)
  moreover have "genesisSupply g + unat (RemainingScheduled e) < 2 ^ 64"
    using inv em by (simp add: genesisSupply_def g(3-) kv_total_values ledger_inv_def total_supply_def mintable_def)
  ultimately show ?thesis by (simp add: sound_genesis_def g(3-))
qed

section \<open>The life of a chain\<close>

text \<open>What holds of a chain at every moment, when its sequences have handed out at most \<open>k\<close> numbers.\<close>

definition alive :: "nat \<Rightarrow> Keeper \<Rightarrow> bool" where
  "alive k s \<longleftrightarrow> ledger_inv s \<and> ids_within k s \<and> registers_within k s \<and> registers_ok s
     \<and> self_keyed s \<and> params_ok s \<and> paced s \<and> started s"

lemma alive_run:
  assumes "chain_run F ms s s'" and "alive k s" and "k + length ms < 2 ^ 64 - 1"
  shows "alive (k + length ms) s'" and "total_supply s' + mintable s' \<le> total_supply s + mintable s"
proof -
  have inv: "ledger_inv s" "ids_within k s" using assms(2) by (simp_all add: alive_def)
  note run = assms(1) inv assms(3)
  have "(ids_within (k + length ms) s' \<and> registers_within (k + length ms) s' \<and> registers_ok s') \<and> ledger_inv s'"
    using run
  proof (induction rule: chain_run_counted)
    case (step env msg n s1 s2)
    then have "Keeper.ContributionAwardSeq s1 \<noteq> - 1" "Keeper.ScopedEvidenceVouchSeq s1 \<noteq> - 1"
      by (auto simp: registers_within_def intro!: unat_not_max)
    with step execMsg_registers [OF step(2)] show ?case
      by (auto simp: ledger_inv_def registers_within_def good_step_def dest: seq_step_within intro: ids_within_step)
  qed (use assms(2) in \<open>simp add: alive_def\<close>)
  then show "alive (k + length ms) s'"
    using run_self_keyed [OF run] run_params [OF run] run_policy [OF run] assms(2)
    by (simp add: alive_def policy_step_def)
  show "total_supply s' + mintable s' \<le> total_supply s + mintable s" by (rule run_ledger(2) [OF run])
qed

lemma alive_forgotten:
  assumes "alive k s"
  shows "alive k (forgotten s)" and "total_supply (forgotten s) \<le> total_supply s" and "mintable (forgotten s) = mintable s"
proof -
  show less: "total_supply (forgotten s) \<le> total_supply s" using forgotten_supply [of s] by linarith
  show mint: "mintable (forgotten s) = mintable s" by (simp add: mintable_def forgotten_def)
  have "core_inv (forgotten s)" "emission_inv (forgotten s)"
    using assms by (simp_all add: alive_def ledger_inv_def core_inv_def accounts_registered_def emission_inv_def forgotten_def)
  then have "ledger_inv (forgotten s)" using assms less mint by (simp add: ledger_inv_def alive_def)
  then show "alive k (forgotten s)"
    using assms
    by (simp add: alive_def) (simp add: ids_within_def registers_within_def registers_ok_def self_keyed_def params_ok_def
      paced_def started_def forgotten_def)
qed

text \<open>The file numbers at most \<open>k\<close> records of each kind.\<close>

definition counts_within :: "nat \<Rightarrow> GenesisState \<Rightarrow> bool" where
  "counts_within k gs \<longleftrightarrow> unat (GenesisState.VouchCount gs) \<le> k \<and> unat (GenesisState.EscrowCount gs) \<le> k
     \<and> unat (GenesisState.ContributionAwardCount gs) \<le> k \<and> unat (GenesisState.ScopedEvidenceVouchCount gs) \<le> k"

lemma alive_import:
  assumes "sound_genesis gs" and "counts_within k gs" and "InitGenesis env gs NewKeeper = (Inr (), s)" and "BlockTime env \<noteq> 0"
  shows "alive k s"
    and "total_supply s + mintable s = genesisSupply gs + unat (RemainingScheduled (GenesisState.EmissionState gs))"
proof -
  show "total_supply s + mintable s = genesisSupply gs + unat (RemainingScheduled (GenesisState.EmissionState gs))"
    using init_genesis_ledger [OF assms(1), of env] assms(3) by auto
  have s: "s = snd (InitGenesis env gs NewKeeper)" using assms(3) by simp
  have "ids_within k s" "registers_within k s"
    using assms(2) by (simp_all add: s InitGenesis_def Let_def NewKeeper_def ids_within_def registers_within_def counts_within_def)
  then show "alive k s"
    using init_genesis_ledger [OF assms(1), of env] import_fit [OF assms(1,3)] init_genesis_keyed [OF assms(3)] assms(3,4)
    by (auto simp: alive_def)
qed

text \<open>
  A chain is born from a file, lives through messages, and is reborn from the file of
  its own export. The number counts the messages of all its lives.
\<close>

inductive lifetime :: "json_codec \<Rightarrow> 'f floats \<Rightarrow> string \<Rightarrow> nat \<Rightarrow> Keeper \<Rightarrow> bool"
  for cdc F origin where
  born: "moduleInitGenesis cdc env origin NewKeeper = (Inr (), s) \<Longrightarrow> BlockTime env \<noteq> 0 \<Longrightarrow> lifetime cdc F origin 0 s"
| lived: "lifetime cdc F origin n s \<Longrightarrow> chain_run F ms s s' \<Longrightarrow> lifetime cdc F origin (n + length ms) s'"
| reborn: "lifetime cdc F origin n s \<Longrightarrow> moduleExportGenesis cdc env s = (Inr bz, s1) \<Longrightarrow>
     moduleInitGenesis cdc env' bz NewKeeper = (Inr (), s') \<Longrightarrow> lifetime cdc F origin n s'"

lemma alive_schedule:
  assumes "alive k s"
  obtains e where "Keeper.EmissionState s = Some e" and "EmissionState.MaxSupply e \<noteq> 0" and "EmissionState.GenesisTime e \<noteq> 0"
  using assms that by (auto simp: alive_def ledger_inv_def started_def emission_inv_def)

text \<open>The epoch counter of the schedule has not come round to 0, which validation refuses.\<close>

definition epoch_counted :: "Keeper \<Rightarrow> bool" where
  "epoch_counted s \<longleftrightarrow> (\<forall>e. Keeper.EmissionState s = Some e \<longrightarrow> EmissionState.CurrentEpoch e \<noteq> 0)"

lemma alive_restart:
  assumes cdc: "lossless cdc" and "alive k s" and export: "moduleExportGenesis cdc env s = (Inr bz, s1)"
  shows "s1 = s" and "moduleInitGenesis cdc env' bz NewKeeper = (Inr (), forgotten s)"
    and "epoch_counted s \<Longrightarrow> moduleValidateGenesis cdc bz = None"
proof -
  obtain gs where gs: "ExportGenesis env s = (Inr gs, s1)" "UnmarshalJSON cdc bz = Inr gs"
    using export cdc by (auto simp: moduleExport_file lossless_def)
  obtain e where e: "Keeper.EmissionState s = Some e" "EmissionState.MaxSupply e \<noteq> 0" "EmissionState.GenesisTime e \<noteq> 0"
    using assms(2) by (rule alive_schedule)
  have fit: "self_keyed s" "ledger_inv s" "registers_ok s" "params_ok s" "paced s"
    using assms(2) by (simp_all add: alive_def)
  show "s1 = s" "moduleInitGenesis cdc env' bz NewKeeper = (Inr (), forgotten s)"
    using import_export [OF gs(1) fit(1) e] by (simp_all add: moduleInit_file [OF gs(2)])
  show "moduleValidateGenesis cdc bz = None"
    if "epoch_counted s"
    using export_sound [OF gs(1) fit e(1)] that e(1) by (simp add: epoch_counted_def moduleValidateGenesis_def gs(2) sound_genesis_def)
qed

lemma lifetime_alive:
  assumes "lifetime cdc F origin n s" and cdc: "lossless cdc" and "UnmarshalJSON cdc origin = Inr gs"
    and "sound_genesis gs" and "counts_within k gs" and "k + n < 2 ^ 64 - 1"
  shows "alive (k + n) s \<and>
    total_supply s + mintable s \<le> genesisSupply gs + unat (RemainingScheduled (GenesisState.EmissionState gs))"
  using assms(1,6)
proof (induction rule: lifetime.induct)
  case (born env s)
  then show ?case
    using alive_import [OF assms(4,5)] by (simp add: moduleInit_file [OF assms(3)])
next
  case (lived n s ms s')
  then have "alive (k + n) s" and "k + n + length ms < 2 ^ 64 - 1" by simp_all
  note alive_run [OF lived.hyps(2) this]
  with lived show ?case by (simp add: add.assoc)
next
  case (reborn n s env bz s1 env' s')
  then have "alive (k + n) s" by simp
  with alive_restart(2) [OF cdc this reborn.hyps(2), of env'] reborn.hyps(3)
  show ?case using alive_forgotten [of "k + n" s] reborn by auto
qed

section \<open>A chain that is restarted\<close>

text \<open>A codec that knows the texts of a few files.\<close>

definition tableCodec :: "(string \<times> GenesisState) list \<Rightarrow> json_codec" where
  "tableCodec fs =
     \<lparr>MarshalJSON = (\<lambda>gs. case List.find (\<lambda>p. snd p = gs) fs of None \<Rightarrow> Inl ''unsupported value'' | Some p \<Rightarrow> Inr (fst p)),
      UnmarshalJSON = (\<lambda>bz. case map_of fs bz of None \<Rightarrow> Inl ''invalid character'' | Some gs \<Rightarrow> Inr gs)\<rparr>"

lemma tableCodec_lossless:
  assumes "distinct (map fst fs)"
  shows "lossless (tableCodec fs)"
  unfolding lossless_def
proof (intro allI impI)
  fix gs bz
  assume "MarshalJSON (tableCodec fs) gs = Inr bz"
  then obtain p where "List.find (\<lambda>p. snd p = gs) fs = Some p" "fst p = bz"
    by (auto simp: tableCodec_def split: option.splits)
  then have "(bz, gs) \<in> set fs" by (auto simp: find_Some_iff)
  then show "UnmarshalJSON (tableCodec fs) bz = Inr gs" using assms by (simp add: tableCodec_def)
qed

definition bondedFile :: GenesisState where
  "bondedFile = (case fst (ExportGenesis (sampleEnv 50) bondedLaunch) of Inl _ \<Rightarrow> DefaultGenesis | Inr gs \<Rightarrow> gs)"

definition sampleCodec :: json_codec where
  "sampleCodec = tableCodec [(''launch'', launchGenesis), (''bonded'', bondedFile)]"

lemma sampleCodec_files:
  "lossless sampleCodec" "UnmarshalJSON sampleCodec ''launch'' = Inr launchGenesis" "\<exists>bz. MarshalJSON sampleCodec bondedFile = Inr bz"
  by (simp_all add: sampleCodec_def tableCodec_lossless) (simp_all add: tableCodec_def)

lemma bondedLaunch_lives: "lifetime sampleCodec exact ''launch'' 1 bondedLaunch"
proof -
  have "lifetime sampleCodec exact ''launch'' 0 launchState"
    using launchState_run by (intro lifetime.born [of _ "sampleEnv 5"]) (simp_all add: moduleInit_file [OF sampleCodec_files(2)])
  from lifetime.lived [OF this bondedRun] show ?thesis by simp
qed

lemma bondedLaunch_exports: "\<exists>bz s1. moduleExportGenesis sampleCodec (sampleEnv 50) bondedLaunch = (Inr bz, s1)"
proof -
  obtain gs s1 where "ExportGenesis (sampleEnv 50) bondedLaunch = (Inr gs, s1)"
    using export_succeeds [OF bondedLaunch_fields(1)] by blast
  then show ?thesis using sampleCodec_files(3) by (auto simp: moduleExport_file bondedFile_def)
qed

lemma bondedLaunch_epoch: "epoch_counted bondedLaunch"
proof -
  have "Keeper.EmissionState bondedLaunch = Some (genesisEmission (sampleEnv 5) (DefaultEmissionState 0))"
    by (simp add: bondedLaunch_def PostBond_def launchBond_def helper_defs Let_def nextBondID_def)
      (simp add: launchState_def InitGenesis_def Let_def launchGenesis_def DefaultGenesis_def)
  then show ?thesis
    by (simp add: epoch_counted_def genesisEmission_def Let_def) (simp add: DefaultEmissionState_def Constants.MaxSupply_def)
qed

lemma launchGenesis_counts: "counts_within 0 launchGenesis"
  by (simp add: counts_within_def launchGenesis_def DefaultGenesis_def)

end
