(* ===== verification/Spec2Isabelle.thy ===== *)
theory Spec2Isabelle
  imports Prelude Collections GoStd Constants Types StoreKeys KeeperState Accounting Emission Contract
    Sample Schedule Ledger Bonds EscrowFlow Verifier Jury Verdict Gates
    Float64 PageRank Convergence ReputationScore Contribution Genesis AppModule Queries Gateway Routing CommandLine
    AppConfig AppExport Testnet MultiNode InPlaceTestnet Chain Records Evidence Restart
begin

text \<open>
  A model of the chain module of the agntcoin repository and of what the application adds to it, and its correctness.

  \<^bold>\<open>The program.\<close> The Go code under \<^verbatim>\<open>chain/x/agntcoin\<close> is a module of a Cosmos SDK chain: a
  ledger of registered accounts for software agents, and on top of it staked vouches,
  escrows for paid jobs, bonds, verifier attestations, a jury of anchors, review gates, awards
  for contributions, scoped evidence, a PageRank over the vouch and payment graph, and an
  emission schedule that is the only source of new coins. A client sends one of 26 messages;
  each has a handler, a method of the message server in \<^verbatim>\<open>keeper/msg_server_*.go\<close>, which checks the message, reads and
  writes the tables of the keeper (\<^verbatim>\<open>keeper/keeper.go\<close>) and emits an event.

  \<^bold>\<open>How a handler is modelled.\<close> The state is the record \<^verbatim>\<open>Keeper\<close>: one finite table per
  \<^verbatim>\<open>collections.Map\<close> and one 64-bit number per \<^verbatim>\<open>collections.Sequence\<close>, under the names of the
  Go fields. A handler \<^verbatim>\<open>(k msgServer) H(ctx, msg)\<close> is a function \<^verbatim>\<open>H env msg s\<close> that returns a
  pair: \<^verbatim>\<open>Inl\<close> an error or \<^verbatim>\<open>Inr\<close> the response, and the state after the writes made until then,
  in the order of the code, early returns and errors after a write included. The SDK runs each
  message on a branch of the store and drops the branch when the handler fails; \<^verbatim>\<open>committed\<close>
  is that rule, and \<^verbatim>\<open>chain_run\<close> (theory Chain) is a sequence of accepted messages. Integers are
  64-bit words with their wrap-around (\<^verbatim>\<open>u64\<close>, and \<^verbatim>\<open>i64\<close> read as signed for times). A Go
  string is a list of bytes. Events are part of the state, so what a handler emits is modelled too.

  What is not code of the repository is an argument. \<^verbatim>\<open>Env\<close> holds the address codec, the
  authority of the module, the block time, the environment variables and the file that
  \<^verbatim>\<open>resolveAnchors\<close> reads, SHA-256, the Unicode part of case folding, and the order in which Go
  ranges a map. The properties hold for all such environments; where one needs a law of them
  (a codec, an order that lists every key), the law is a hypothesis and the theory Sample
  meets it. PageRank runs over an arithmetic (theory Float64) that is exact, or rounds each
  operation as binary64 does, with or without the fused multiply-add a Go compiler may emit.

  \<^bold>\<open>The theories\<close>, each importing only those above it:

  \<^item> Prelude: words, errors, lemmas on word arithmetic, the simp collection \<^verbatim>\<open>helper_defs\<close>.
  \<^item> Collections: \<^verbatim>\<open>collections.Map\<close> and \<^verbatim>\<open>Sequence\<close> as a sorted table with the locale
    \<^verbatim>\<open>collection\<close>, interpreted on it; walks, lookups and imports of a table.
  \<^item> GoStd: the functions of Go's \<^verbatim>\<open>strings\<close>, \<^verbatim>\<open>strconv\<close> and \<^verbatim>\<open>encoding/hex\<close> the keeper calls.
  \<^item> Constants, Types, StoreKeys: \<^verbatim>\<open>types/constants.go\<close>, the stored structs of \<^verbatim>\<open>types/*.pb.go\<close>,
    and \<^verbatim>\<open>types/keys.go\<close>, whose prefixes keep the tables apart.
  \<^item> KeeperState: \<^verbatim>\<open>keeper.go\<close>, \<^verbatim>\<open>credit.go\<close>, \<^verbatim>\<open>hash.go\<close>: the state, \<^verbatim>\<open>creditAccount\<close>,
    \<^verbatim>\<open>checkNewAccountCredit\<close>, \<^verbatim>\<open>resolveAnchors\<close>.
  \<^item> Accounting: what each table holds, \<^verbatim>\<open>total_supply\<close> as an unbounded number, the structural
    invariant \<^verbatim>\<open>core_inv\<close>, and how each store write changes them.
  \<^item> Emission: \<^verbatim>\<open>emission.go\<close> and the emission part of \<^verbatim>\<open>types/genesis.go\<close>; the policy invariant,
    and that the mint rail \<^verbatim>\<open>mintProtocolReward\<close> stays inside both caps.
  \<^item> Contract: the locales \<^verbatim>\<open>handler\<close>, \<^verbatim>\<open>conserving_handler\<close> and \<^verbatim>\<open>moving_handler\<close>, the contract
    between the handlers and the rest: keep the ledger invariant, do not create
    coins outside the mint rail, move records only along their life cycles (\<^verbatim>\<open>escrow_move\<close>,
    \<^verbatim>\<open>bond_step\<close>). Every handler of the module is interpreted in one of them, in the theory that
    models it.
  \<^item> Sample: a concrete chain of six accounts for the witnesses.
  \<^item> Schedule: what can be minted within one block and within one epoch; the catch-up loop.
  \<^item> Ledger: \<^verbatim>\<open>Register\<close>, \<^verbatim>\<open>Faucet\<close>, \<^verbatim>\<open>Transfer\<close>, \<^verbatim>\<open>Castvouch\<close>, \<^verbatim>\<open>Unvouch\<close>.
  \<^item> Bonds: \<^verbatim>\<open>PostBond\<close>, \<^verbatim>\<open>ReleaseBond\<close>, \<^verbatim>\<open>SlashBond\<close>, and the locale \<^verbatim>\<open>stake_loop\<close> for the loops
    that settle one bond after another (of jurors, of attestations, of reclaims).
  \<^item> EscrowFlow: \<^verbatim>\<open>LockEscrow\<close>, \<^verbatim>\<open>SubmitEscrow\<close>, \<^verbatim>\<open>ReleaseEscrow\<close>, \<^verbatim>\<open>RefundEscrow\<close>, \<^verbatim>\<open>DisputeEscrow\<close>.
  \<^item> Verifier: \<^verbatim>\<open>AttestEscrow\<close>, \<^verbatim>\<open>VerifiedRelease\<close>, \<^verbatim>\<open>ReclaimAttestationBonds\<close>.
  \<^item> Jury, Verdict: \<^verbatim>\<open>OpenDispute\<close>, \<^verbatim>\<open>CastVote\<close>, \<^verbatim>\<open>ResolveDispute\<close>, and what a verdict pays to whom.
  \<^item> Gates: \<^verbatim>\<open>PostGate\<close>, \<^verbatim>\<open>CommitAnswer\<close>, \<^verbatim>\<open>RevealAnswer\<close>, \<^verbatim>\<open>SettleGate\<close>.
  \<^item> Float64, PageRank, Convergence, ReputationScore: \<^verbatim>\<open>pagerank.go\<close>, \<^verbatim>\<open>reputation_score.go\<close>,
    \<^verbatim>\<open>query_reputation.go\<close>; the locale \<^verbatim>\<open>float_laws\<close> is what the proofs use of an arithmetic,
    interpreted on the exact and on the rounding one. Convergence: a round of the power iteration is
    a contraction with the damping factor, so the rounds that the code does not run can change little.
  \<^item> Contribution: \<^verbatim>\<open>AwardContribution\<close>, \<^verbatim>\<open>CastScopedEvidenceVouch\<close>, \<^verbatim>\<open>UpdateParams\<close>,
    \<^verbatim>\<open>types/params.go\<close>.
  \<^item> Genesis: \<^verbatim>\<open>keeper/genesis.go\<close> and the validation of \<^verbatim>\<open>types/genesis.go\<close>.
  \<^item> AppModule: \<^verbatim>\<open>module/module.go\<close> (the genesis files the module writes, validates and starts from,
    over an abstract JSON codec), \<^verbatim>\<open>module/depinject.go\<close>, \<^verbatim>\<open>module/simulation.go\<close> and \<^verbatim>\<open>simulation/\<close>.
  \<^item> Queries: \<^verbatim>\<open>query_*.go\<close>, over an abstract paginator.
  \<^item> Gateway: \<^verbatim>\<open>types/query.pb.gw.go\<close>, one definition per generated function, pattern and registration. Routing:
    the URLs of \<^verbatim>\<open>query.proto\<close> as the specification of the gateway, and that it implements them.
    CommandLine: the descriptors of \<^verbatim>\<open>module/autocli.go\<close> agree with these URLs and with the messages;
    what \<^verbatim>\<open>cmd/root.go\<close> does before a command.
  \<^item> AppConfig: \<^verbatim>\<open>app/app_config.go\<close>, \<^verbatim>\<open>app/app.go\<close> and \<^verbatim>\<open>app/ibc.go\<close>: the modules of the application,
    their orders, which meet what the comments ask for, the accounts they own, and its start.
  \<^item> AppExport: \<^verbatim>\<open>app/export.go\<close>, \<^verbatim>\<open>appExport\<close> of \<^verbatim>\<open>cmd/commands.go\<close> and \<^verbatim>\<open>app/genesis_account.go\<close>, over
    the functions of the SDK; which validators an export for height zero puts into jail.
  \<^item> Testnet, MultiNode: the flags of \<^verbatim>\<open>cmd/testnet_multi_node.go\<close>, the ports of the nodes, which never
    collide, and the files of the network, over a world of files and keys: all nodes share one genesis
    and know each other. InPlaceTestnet: \<^verbatim>\<open>cmd/testnet.go\<close>, its options, the replacement of the
    validators, of which no old one is left, and the funding of accounts.
  \<^item> Chain: the 26 messages, their dispatch, runs, and induction over runs.
  \<^item> Records: what a message leaves alone. Twenty handlers are interpreted in the locale
    \<^verbatim>\<open>bystander_handler\<close> (accounts stay under their addresses; awards, evidence and gates are not
    touched), and with them awards, keys, the constants of the schedule and gates
    after their window are followed along runs.
  \<^item> Evidence: what identifies a record of scoped evidence, and the table of evidence along runs.
  \<^item> Restart: the file that a run leaves is again a sound genesis (\<^verbatim>\<open>export_sound\<close>), and
    the relation \<^verbatim>\<open>lifetime\<close> of a chain that is born from a file, takes messages and is
    reborn from its own export, with its invariant \<^verbatim>\<open>alive\<close>.
  \<^item> Spec2Isabelle (this theory): the properties of whole runs.

  \<^bold>\<open>What is shown.\<close> Properties are numbered in their text blocks. C1 to C4 hold on every run:
  the supply is capped (C1 even across restarts), every coin is accounted for, escrows follow the abstract
  life cycle, and claims stay backed by their own bonds. C5 to C31 are the behaviour of the handlers:
  ledger and vouches (C5 to C7), bonds (C8 to C10), escrows (C11 to C14), verifiers (C15 to C17),
  jury (C18 to C23), emission (C24, C25), gates (C26 to C31). C32 and C33 are about PageRank, C34 to
  C37 about awards and evidence, C38 about the gateway, C39 and C40 about restarts. They include, next
  to what the code means to do, several consequences it does not mean: C10, C14, C23, C30, C31 and C40
  state what the code does where a comment or an intention says otherwise.

  \<^bold>\<open>Bounds and termination.\<close> The loop of \<^verbatim>\<open>syncEmissionState\<close> has no bound in the code and is a
  \<^verbatim>\<open>partial_function\<close>; C24 shows that it returns. The power iteration runs at most the 100
  rounds of the code. The decimal expansion of a binary64 in \<^verbatim>\<open>FormatFloat\<close> uses at most 1074
  digits, which is exact since every finite binary64 is a multiple of \<open>2\<close> to the power \<open>-1074\<close>. A client that follows the
  pages of a listing is given as many steps as there are entries, which is enough as each
  page advances. Run properties assume that no sequence passes \<open>2 ^ 64 - 1\<close>: \<^verbatim>\<open>ids_within k\<close> bounds
  the numbers in use at the start by \<open>k\<close>, and each message takes at most one number of each.

  \<^bold>\<open>Not modelled.\<close> Errors of the store other than a missing key; gas, fees and
  signatures, which belong to the SDK; the generated marshalling (\<^verbatim>\<open>types/*.pb.go\<close> beyond the
  structs); in the parts of the application, the tree of SDK commands, the registration of services,
  the accessors of the application, the web page of the API and the texts of help, which are calls into the SDK
  or constants without effect on the chain; interface declarations (\<^verbatim>\<open>types/expected_keepers.go\<close>);
  and the programs in other languages (\<^verbatim>\<open>agent\<close>, \<^verbatim>\<open>client\<close>, \<^verbatim>\<open>contracts\<close>, \<^verbatim>\<open>sim\<close>, \<^verbatim>\<open>ts-reference\<close>).
\<close>

section \<open>Properties of runs\<close>

text \<open>
  C1: The supply is capped, for all lives of a chain. A chain is started from a validated genesis file
  (whose accounts are registered, whose epoch fits the schedule, and whose coins fit 64 bits), takes
  messages, and is exported and started again any number of times. As long as no sequence
  runs out of numbers, the invariant of the ledger holds, and all coins that exist (balances,
  stakes, unsettled escrows and active bonds), together with all that may still be minted, never
  exceed the coins of the first genesis and the schedule it declared.
\<close>
theorem supply_capped:
  assumes "lossless cdc" and "UnmarshalJSON cdc origin = Inr gs" and "sound_genesis gs" and "counts_within k gs"
    and "lifetime cdc F origin n s" and "k + n < 2 ^ 64 - 1"
  shows "ledger_inv s \<and>
    total_supply s + mintable s \<le> genesisSupply gs + unat (RemainingScheduled (GenesisState.EmissionState gs))"
  using lifetime_alive [OF assms(5,1-4,6)] by (simp add: alive_def)

lemma supply_capped_witness:
  "\<exists>s. lifetime sampleCodec exact ''launch'' 1 s \<and> s = forgotten bondedLaunch \<and> total_supply s + mintable s \<le> 21000510"
proof -
  note life = lifetime_alive [OF bondedLaunch_lives sampleCodec_files(1,2) launchGenesis_sound launchGenesis_counts]
  have "alive 1 bondedLaunch" using life by simp
  moreover obtain bz s1 where "moduleExportGenesis sampleCodec (sampleEnv 50) bondedLaunch = (Inr bz, s1)"
    using bondedLaunch_exports by blast
  ultimately have reborn: "lifetime sampleCodec exact ''launch'' 1 (forgotten bondedLaunch)"
    using alive_restart(2) [OF sampleCodec_files(1)] lifetime.reborn [OF bondedLaunch_lives] by blast
  have g: "GenesisState.EmissionState launchGenesis = DefaultEmissionState 0" "genesisSupply launchGenesis = 510"
    by (simp_all add: launchGenesis_def DefaultGenesis_def genesisSupply_def balanceOf_def)
  show ?thesis
    using supply_capped [OF sampleCodec_files(1,2) launchGenesis_sound launchGenesis_counts reborn] reborn g default_remaining [of 0]
    by simp
qed

text \<open>
  C2: Every coin is accounted for. On a run in which nobody slashes a bond, the supply grows by
  exactly what the mint rail recorded as mined: transfers, vouches, escrows, bonds, attestations
  and jury verdicts only move coins.
\<close>
theorem coins_accounted:
  assumes "chain_run F ms s s'" and "ledger_inv s" and "ids_within k s" and "k + length ms < 2 ^ 64 - 1"
    and "\<And>env m. (env, DoSlashBond m) \<notin> set ms"
  shows "total_supply s' + minedTotal s = total_supply s + minedTotal s'"
  using assms by (rule run_conserves)

lemma coins_accounted_witness: "total_supply rejection + minedTotal sampleState = total_supply sampleState + minedTotal rejection"
  by (rule coins_accounted [OF fraudRun_runs [of exact] sampleState_ledger sampleState_ids])
    (simp_all add: fraudRun_def)

text \<open>
  C3: The message server implements the life cycle of an escrow. Whatever messages a run contains,
  an escrow that exists stays, with the parties, the amount and the verifiers it was locked with,
  and its status moves along the edges of \<open>escrow_move\<close>; in particular an escrow that was refunded
  stays refunded.
\<close>
theorem escrow_refines_lifecycle:
  assumes "chain_run F ms s s'" and "ledger_inv s" and "ids_within k s" and "k + length ms < 2 ^ 64 - 1"
    and "kv_get (Keeper.Escrow s) i = Some e"
  shows "\<exists>e'. kv_get (Keeper.Escrow s') i = Some e' \<and> same_terms e e'
    \<and> escrow_move\<^sup>*\<^sup>* (Escrow.Status e) (Escrow.Status e')
    \<and> (Escrow.Status e = EscrowStatusRefunded \<longrightarrow> Escrow.Status e' = EscrowStatusRefunded)"
proof -
  have "escrow_move\<^sup>*\<^sup>* EscrowStatusRefunded st \<Longrightarrow> st = EscrowStatusRefunded" for st
    by (erule converse_rtranclpE) simp_all
  then show ?thesis using run_escrow [OF assms] by fastforce
qed

lemma escrow_refines_lifecycle_witness:
  "\<exists>e'. kv_get (Keeper.Escrow rejection) 0 = Some e' \<and> same_terms (lockedEscrow (sampleEnv 100) boundLock 0 True) e'
     \<and> escrow_move\<^sup>*\<^sup>* EscrowStatusLocked (Escrow.Status e')"
proof -
  have "committed (LockEscrow (sampleEnv 100) boundLock sampleState) = Some deal0" by (simp add: deal0_run)
  from lock_escrow.committed_good [OF this sampleState_ledger sampleState_free]
  have good: "good_step sampleState deal0" .
  have ids: "ids_within 1 deal0"
    using good ids_within_step [OF sampleState_ids] by (simp add: good_step_def)
  show ?thesis
    using escrow_refines_lifecycle [OF fraudRun_prefix [of exact] _ ids, of 0 "lockedEscrow (sampleEnv 100) boundLock 0 True"] good
    by (auto simp: good_step_def fraudRun_length lockedEscrow_def)
qed

text \<open>
  C4: Claims stay backed by collateral. On every run every attestation, every dispute and every
  jury vote keeps its own bond, posted by its author for this very purpose and large enough; no
  juror votes twice; every bond that exists stays, unchanged or resolved once. So the conditions
  under which a verdict pays everyone hold in every state of a run that starts with them.
\<close>
theorem claims_stay_backed:
  assumes "chain_run F ms s s'" and "ledger_inv s" and "ids_within k s" and "k + length ms < 2 ^ 64 - 1"
    and "collateral_ok s" and "escrows_wf s"
  shows "collateral_ok s' \<and> escrows_wf s'
    \<and> (kv_get (Keeper.Bond s) i = Some b \<longrightarrow> (\<exists>b'. kv_get (Keeper.Bond s') i = Some b' \<and> bond_step b b'))"
  using run_claims [OF assms] run_bond [OF assms(1-4)] by blast

lemma claims_stay_backed_witness: "collateral_ok rejection \<and> escrows_wf rejection"
proof -
  have "collateral_ok sampleState" "escrows_wf sampleState" by (simp_all add: collateral_ok_def escrows_wf_def)
  then show ?thesis
    using claims_stay_backed [OF fraudRun_runs [of exact] sampleState_ledger sampleState_ids]
    by (simp add: fraudRun_length)
qed

section \<open>Properties that last\<close>

text \<open>
  C30: A gate with too many winners is never settled. The limits of \<open>PostGate\<close> allow 1000 answers
  at 50 coins, while the schedule never gives an epoch more than 21000. Once the reveal window of
  an open gate is over, if the winners of whatever answer a settlement names are owed more than
  that, then no run of messages settles it: after any number of epochs the gate is open,
  with the same answers revealed, and nobody is paid.
\<close>
theorem overfull_gate_stays_open:
  assumes "chain_run F ms s s'" and "ledger_inv s" and "ids_within k s" and "k + length ms < 2 ^ 64 - 1"
    and "standard_schedule s"
    and "kv_get (Keeper.Gate s) i = Some g" and "Gate.Status g = GateStatusOpen"
    and "Gate.Drip g \<noteq> 0" and "Gate.Drip g \<le> MaxDripPerAnswer"
    and "\<And>env m. (env, m) \<in> set ms \<Longrightarrow> Gate.RevealDeadline g <=s BlockTime env \<and> clock_ok env s"
    and "\<And>env m. (env, DoSettleGate m) \<in> set ms \<Longrightarrow> MsgSettleGate.GateId m = i \<Longrightarrow>
      21000 < length (winners (winningAnswer env (MsgSettleGate.GoldAnswer m) (Gate.Answers g)) g) * unat (Gate.Drip g)"
  shows "gate_frozen g i s'"
proof -
  have "(gate_frozen g i s' \<and> policy_step s s') \<and> ledger_inv s'"
    using assms(1-4)
  proof (induction rule: chain_run_invariant)
    case start
    then show ?case using assms(6,7) by (auto simp: gate_frozen_def same_gate_terms_def policy_step_same)
  next
    case (step env msg s1 s2)
    have policy: "standard_schedule s1" "clock_ok env s1"
      using step assms(5,10) by (auto simp: policy_step_def clock_ok_def)
    have "MsgSettleGate.GateId m \<noteq> i" if "msg = DoSettleGate m" for m
    proof
      assume i: "MsgSettleGate.GateId m = i"
      obtain g' where g': "kv_get (Keeper.Gate s1) i = Some g'" "Gate.Drip g' = Gate.Drip g"
          "filter GateAnswer.Revealed (Gate.Answers g') = filter GateAnswer.Revealed (Gate.Answers g)"
        using step unfolding gate_frozen_def same_gate_terms_def by blast
      have "\<exists>err. fst (SettleGate env m s1) = Inl err"
        using step(1,3) that i policy g' assms(8,9) assms(11) [of env m]
        by (intro overfull_gate_never_settles [where g = g']) (simp_all add: same_revealed [OF g'(3)])
      then show False using step(2) that by (auto simp: committed_Some)
    qed
    then show ?case
      using step assms(10) execMsg_frozen [OF step(2)] execMsg_policy [OF step(2)]
      by (auto simp: ledger_inv_def intro: policy_step_trans)
  qed
  then show ?thesis by blast
qed

lemma overfull_gate_stays_open_witness:
  "gate_frozen (yesGate (gateAnswers 421)) 0
     (sampleGate (gateAnswers 421)\<lparr>Keeper.Params := Some (NewParams [''erin''])\<rparr>)"
proof -
  have "ids_within 1 (sampleGate as1)" for as1
    by (simp add: ids_within_def sampleGate_def sampleSchedule_def sampleState_def NewKeeper_def)
  then show ?thesis
    by (intro overfull_gate_stays_open [OF govRun [of exact 2000] sampleGate_ledger])
      (auto simp: MaxDripPerAnswer_def i64_le_iff)
qed

text \<open>
  C35: An award is for ever. If an award for an artifact is on record, then after any run of
  messages the same record is there under the same number, no other record names the
  artifact, and every message that asks for another award for it is refused, whoever sends it and
  however it spells the hexadecimal digits of the hash.
\<close>
theorem award_is_for_ever:
  assumes "chain_run F ms s s'" and "ledger_inv s" and "ids_within k s" and "k + length ms < 2 ^ 64 - 1"
    and "awards_inv s" and "unat (Keeper.ContributionAwardSeq s) \<le> k"
    and "kv_get (Keeper.ContributionAward s) i = Some a"
    and "map to_lower (MsgAwardContribution.ArtifactSha256 msg) = map to_lower (ContributionAward.ArtifactSha256 a)"
  shows "kv_get (Keeper.ContributionAward s') i = Some a
    \<and> (\<forall>j b. kv_get (Keeper.ContributionAward s') j = Some b \<longrightarrow>
         map to_lower (ContributionAward.ArtifactSha256 b) = map to_lower (ContributionAward.ArtifactSha256 a) \<longrightarrow> j = i)
    \<and> (\<exists>err s2. AwardContribution env msg s' = (Inl err, s2))"
proof -
  note kept = run_awards [OF assms(1-6)]
  have a: "kv_get (Keeper.ContributionAward s') i = Some a" using kept(2) [OF assms(7)] .
  with kept(1) have "isHexSHA256 (ContributionAward.ArtifactSha256 a)" by (simp add: awards_inv_def)
  then show ?thesis
    using a kept(1) awarded_denied [OF a _ assms(8)] unfolding awards_inv_def by blast
qed

lemma award_is_for_ever_witness:
  "\<exists>s err s2. AwardContribution (sampleEnv 2000) patchAward sampleSchedule = (Inr 0, s)
     \<and> AwardContribution (sampleEnv 9000) (patchAward\<lparr>MsgAwardContribution.ArtifactSha256 := replicate 64 (CHR ''A'')\<rparr>)
         (s\<lparr>Keeper.Params := Some (NewParams [''erin''])\<rparr>) = (Inl err, s2)"
proof -
  obtain s where run: "AwardContribution (sampleEnv 2000) patchAward sampleSchedule = (Inr 0, s)"
    using patchAward_runs by blast
  have ids: "ids_within 0 sampleSchedule" "ids_free sampleSchedule"
    by (simp_all add: ids_within_def ids_free_def sampleSchedule_def sampleState_def NewKeeper_def)
  note tab = AwardContribution_table [OF run]
  have aw: "awards_inv s" using AwardContribution_inv [OF run] by (simp add: awards_inv_def)
  have led: "ledger_inv s" using award_contribution.keeps_ledger(1) [OF run sampleSchedule_ledger ids(2)] .
  have within: "ids_within 1 s"
    using ids_within_step [OF ids(1)] award_contribution.counts_ids [OF run sampleSchedule_ledger ids(2)] by simp
  have "to_lower (CHR ''A'') = to_lower (CHR ''a'')" by code_simp
  then have same: "map to_lower (MsgAwardContribution.ArtifactSha256 (patchAward\<lparr>MsgAwardContribution.ArtifactSha256 := replicate 64 (CHR ''A'')\<rparr>))
      = map to_lower (ContributionAward.ArtifactSha256 (awardRecord 0 patchAward))"
    unfolding patchAward_def awardRecord_def
    by (simp only: MsgAwardContribution.simps ContributionAward.simps map_replicate)
  have "kv_get (Keeper.ContributionAward s) 0 = Some (awardRecord 0 patchAward)" using tab(3) by simp
  from award_is_for_ever [OF govRun [of exact 5000] led within _ aw _ this same, of "sampleEnv 9000"] tab(2) run
  show ?thesis by auto
qed

text \<open>
  C39: A restart is a round trip, up to what the file has no field for. Wherever in its lives a
  chain that was born from a sound genesis has come to, exporting it leaves it as it is; starting
  an empty chain from the file does not panic and gives back the same state without its disputes, bonds
  and gates and with their sequences at zero; and the file passes the module's own validation, provided
  the epoch counter has not wrapped round to 0.
\<close>
theorem restart_roundtrip:
  assumes "lossless cdc" and "UnmarshalJSON cdc origin = Inr gs" and "sound_genesis gs" and "counts_within k gs"
    and "lifetime cdc F origin n s" and "k + n < 2 ^ 64 - 1"
    and "moduleExportGenesis cdc env1 s = (Inr bz, s1)"
  shows "s1 = s \<and> moduleInitGenesis cdc env2 bz NewKeeper = (Inr (), forgotten s)
    \<and> (epoch_counted s \<longrightarrow> moduleValidateGenesis cdc bz = None)"
proof -
  have "alive (k + n) s" using lifetime_alive [OF assms(5,1-4,6)] by blast
  then show ?thesis using alive_restart [OF assms(1) _ assms(7)] by blast
qed

lemma restart_roundtrip_witness:
  "\<exists>bz. moduleExportGenesis sampleCodec (sampleEnv 50) bondedLaunch = (Inr bz, bondedLaunch)
     \<and> moduleInitGenesis sampleCodec (sampleEnv 90) bz NewKeeper = (Inr (), forgotten bondedLaunch)
     \<and> moduleValidateGenesis sampleCodec bz = None"
proof -
  obtain bz s1 where bz: "moduleExportGenesis sampleCodec (sampleEnv 50) bondedLaunch = (Inr bz, s1)"
    using bondedLaunch_exports by blast
  then show ?thesis
    using restart_roundtrip [OF sampleCodec_files(1,2) launchGenesis_sound launchGenesis_counts bondedLaunch_lives _ bz, of "sampleEnv 90"]
      bondedLaunch_epoch by simp
qed

text \<open>
  C40: A restart burns all collateral. Wherever in its lives a chain that was born from a sound
  genesis has come to, the supply after a restart is short of the supply before by exactly the coins
  locked in active bonds, and no message releases or slashes a bond of the old chain any
  more: its number is unknown.
\<close>
theorem restart_burns_collateral:
  assumes "lossless cdc" and "UnmarshalJSON cdc origin = Inr gs" and "sound_genesis gs" and "counts_within k gs"
    and "lifetime cdc F origin n s" and "k + n < 2 ^ 64 - 1"
    and "moduleExportGenesis cdc env1 s = (Inr bz, s1)" and "moduleInitGenesis cdc env2 bz NewKeeper = (Inr (), s')"
  shows "total_supply s' + kv_total heldBond (Keeper.Bond s) = total_supply s
    \<and> (\<exists>err. ReleaseBond env3 m s' = (Inl err, s')) \<and> (\<exists>err. SlashBond env3 m2 s' = (Inl err, s'))"
proof -
  have alive: "alive (k + n) s" using lifetime_alive [OF assms(5,1-4,6)] by blast
  then have keyed: "self_keyed s" by (simp add: alive_def)
  obtain e where e: "Keeper.EmissionState s = Some e" "EmissionState.MaxSupply e \<noteq> 0" "EmissionState.GenesisTime e \<noteq> 0"
    using alive by (rule alive_schedule)
  obtain g where g: "ExportGenesis env1 s = (Inr g, s1)" "UnmarshalJSON cdc bz = Inr g"
    using assms(1,7) by (auto simp: moduleExport_file lossless_def)
  then show ?thesis
    using export_burns_collateral [OF g(1) keyed e] assms(8) by (simp add: moduleInit_file)
qed

lemma restart_burns_collateral_witness:
  "\<exists>bz s'. moduleExportGenesis sampleCodec (sampleEnv 50) bondedLaunch = (Inr bz, bondedLaunch)
     \<and> moduleInitGenesis sampleCodec (sampleEnv 90) bz NewKeeper = (Inr (), s')
     \<and> total_supply s' + 400 = total_supply bondedLaunch"
proof -
  have alive: "alive 1 bondedLaunch"
    using lifetime_alive [OF bondedLaunch_lives sampleCodec_files(1,2) launchGenesis_sound launchGenesis_counts] by simp
  obtain bz s1 where bz: "moduleExportGenesis sampleCodec (sampleEnv 50) bondedLaunch = (Inr bz, s1)"
    using bondedLaunch_exports by blast
  note same = alive_restart(1) [OF sampleCodec_files(1) alive bz]
    and again = alive_restart(2) [OF sampleCodec_files(1) alive bz, of "sampleEnv 90"]
  show ?thesis
    using restart_burns_collateral [OF sampleCodec_files(1,2) launchGenesis_sound launchGenesis_counts bondedLaunch_lives _ bz again]
      same again bz bondedLaunch_fields(2) by auto
qed

end
